(* ===== verification/Prelude.thy ===== *)
theory Prelude
  imports Complex_Main "HOL-Library.Char_ord" "HOL-Library.List_Lexorder"
begin

text \<open>
  What the components share: Python's built-in exceptions as values and the result type that
  carries them, Python dictionaries as insertion-ordered association lists, the string methods the
  sources call, and decimal integers. Text is a list of 8-bit characters, so the string methods are
  those of ASCII text (\<open>str.upper\<close>, \<open>str.isspace\<close> and friends agree with Python there).
  The collections below gather the rewrite rules that component proofs pass to the simplifier.
\<close>

named_theorems result_simps \<open>when a chain of fallible steps succeeds or fails\<close>
named_theorems dict_simps \<open>reading a dictionary after an update\<close>

section \<open>Results\<close>

datatype pyexc =
    ValueError
  | TypeError
  | KeyError
  | IndexError
  | AttributeError
  | ZeroDivisionError
  | OverflowError
  | UnicodeError

type_synonym ('e, 'a) result = "'e + 'a"

abbreviation Err :: "'e \<Rightarrow> ('e, 'a) result" where "Err \<equiv> Inl"
abbreviation Ok :: "'a \<Rightarrow> ('e, 'a) result" where "Ok \<equiv> Inr"

fun bindr :: "('e, 'a) result \<Rightarrow> ('a \<Rightarrow> ('e, 'b) result) \<Rightarrow> ('e, 'b) result" where
  "bindr (Inl e) f = Inl e"
| "bindr (Inr x) f = f x"

fun map_err :: "('e \<Rightarrow> 'f) \<Rightarrow> ('e, 'a) result \<Rightarrow> ('f, 'a) result" where
  "map_err g (Inl e) = Inl (g e)"
| "map_err g (Inr x) = Inr x"

fun is_ok :: "('e, 'a) result \<Rightarrow> bool" where
  "is_ok (Inl e) = False"
| "is_ok (Inr x) = True"

definition of_opt :: "'e \<Rightarrow> 'a option \<Rightarrow> ('e, 'a) result" where
  "of_opt e v = (case v of None \<Rightarrow> Inl e | Some x \<Rightarrow> Inr x)"

text \<open>A comprehension or a loop whose body may raise stops at the first exception.\<close>

fun mapr :: "('a \<Rightarrow> ('e, 'b) result) \<Rightarrow> 'a list \<Rightarrow> ('e, 'b list) result" where
  "mapr f [] = Inr []"
| "mapr f (x # xs) = bindr (f x) (\<lambda>y. bindr (mapr f xs) (\<lambda>ys. Inr (y # ys)))"

lemma bindr_Inr [result_simps]: "bindr m f = Inr y \<longleftrightarrow> (\<exists>x. m = Inr x \<and> f x = Inr y)"
  by (cases m) auto

lemma bindr_Inl [result_simps]:
  "bindr m f = Inl e \<longleftrightarrow> m = Inl e \<or> (\<exists>x. m = Inr x \<and> f x = Inl e)"
  by (cases m) auto

lemma map_err_Inr [result_simps]: "map_err g m = Inr y \<longleftrightarrow> m = Inr y"
  by (cases m) auto

lemma map_err_Inl [result_simps]: "map_err g m = Inl e \<longleftrightarrow> (\<exists>d. m = Inl d \<and> e = g d)"
  by (cases m) auto

lemma of_opt_Inr [result_simps]: "of_opt e v = Inr y \<longleftrightarrow> v = Some y"
  by (auto simp: of_opt_def split: option.splits)

lemma of_opt_Inl [result_simps]: "of_opt e v = Inl d \<longleftrightarrow> v = None \<and> d = e"
  by (auto simp: of_opt_def split: option.splits)

lemma of_opt_simps [simp]: "of_opt e None = Inl e" "of_opt e (Some x) = Inr x"
  by (simp_all add: of_opt_def)

lemma is_ok_iff [result_simps]: "is_ok m \<longleftrightarrow> (\<exists>x. m = Inr x)"
  by (cases m) auto

lemma bindr_assoc: "bindr (bindr m f) g = bindr m (\<lambda>x. bindr (f x) g)"
  by (cases m) auto

lemma bindr_return [simp]: "bindr m Inr = m"
  by (cases m) auto

lemma mapr_Inr_length: "mapr f xs = Inr ys \<Longrightarrow> length ys = length xs"
  by (induction xs arbitrary: ys) (auto simp: result_simps)

lemma mapr_Inr_nth:
  "mapr f xs = Inr ys \<Longrightarrow> i < length xs \<Longrightarrow> f (xs ! i) = Inr (ys ! i)"
proof (induction xs arbitrary: ys i)
  case Nil
  then show ?case by simp
next
  case (Cons x xs)
  from Cons.prems(1) obtain y zs
    where y: "f x = Inr y" and zs: "mapr f xs = Inr zs" and ys: "ys = y # zs"
    by (auto simp: result_simps)
  then show ?case using Cons.IH [OF zs] Cons.prems(2) by (cases i) auto
qed

lemma mapr_total: "(\<And>x. x \<in> set xs \<Longrightarrow> f x = Inr (g x)) \<Longrightarrow> mapr f xs = Inr (map g xs)"
  by (induction xs) auto

lemma mapr_Inl: "mapr f xs = Inl e \<Longrightarrow> \<exists>x \<in> set xs. f x = Inl e"
  by (induction xs) (auto simp: result_simps)

lemma mapr_append: "mapr f (xs @ ys) = bindr (mapr f xs) (\<lambda>a. bindr (mapr f ys) (\<lambda>b. Ok (a @ b)))"
  by (induction xs) (auto simp: bindr_assoc)

lemma mapr_cong: "(\<And>x. x \<in> set xs \<Longrightarrow> f x = g x) \<Longrightarrow> mapr f xs = mapr g xs"
  by (induction xs) auto

section \<open>Dictionaries\<close>

text \<open>
  A Python \<open>dict\<close> keeps insertion order; assigning to a present key keeps its place.
\<close>

type_synonym ('k, 'v) dict = "('k \<times> 'v) list"

definition dict_keys :: "('k, 'v) dict \<Rightarrow> 'k list" where
  "dict_keys d = map fst d"

definition dict_ok :: "('k, 'v) dict \<Rightarrow> bool" where
  "dict_ok d \<longleftrightarrow> distinct (map fst d)"

definition dict_get :: "('k, 'v) dict \<Rightarrow> 'k \<Rightarrow> 'v option" where
  "dict_get d k = map_of d k"

definition dict_get_or :: "('k, 'v) dict \<Rightarrow> 'k \<Rightarrow> 'v \<Rightarrow> 'v" where
  "dict_get_or d k v = (case map_of d k of None \<Rightarrow> v | Some x \<Rightarrow> x)"

definition dict_has :: "('k, 'v) dict \<Rightarrow> 'k \<Rightarrow> bool" where
  "dict_has d k = (map_of d k \<noteq> None)"

fun dict_set :: "'k \<Rightarrow> 'v \<Rightarrow> ('k, 'v) dict \<Rightarrow> ('k, 'v) dict" where
  "dict_set k v [] = [(k, v)]"
| "dict_set k v ((k', v') # d) = (if k = k' then (k, v) # d else (k', v') # dict_set k v d)"

fun dict_update :: "('k, 'v) dict \<Rightarrow> ('k, 'v) dict \<Rightarrow> ('k, 'v) dict" where
  "dict_update d [] = d"
| "dict_update d ((k, v) # kvs) = dict_update (dict_set k v d) kvs"

definition dict_pop :: "'k \<Rightarrow> ('k, 'v) dict \<Rightarrow> ('k, 'v) dict" where
  "dict_pop k d = filter (\<lambda>(k', v). k' \<noteq> k) d"

lemma map_of_dict_set [dict_simps, simp]: "map_of (dict_set k v d) = (map_of d)(k \<mapsto> v)"
  by (induction d) auto

lemma keys_dict_set [dict_simps]: "fst ` set (dict_set k v d) = insert k (fst ` set d)"
  by (induction d) force+

lemma dict_ok_set [intro]: "dict_ok d \<Longrightarrow> dict_ok (dict_set k v d)"
  unfolding dict_ok_def by (induction d) (auto simp: keys_dict_set)

lemma dict_ok_update [intro]: "dict_ok d \<Longrightarrow> dict_ok (dict_update d kvs)"
  by (induction d kvs rule: dict_update.induct) auto

lemma map_of_dict_update [dict_simps]:
  "dict_ok kvs \<Longrightarrow> map_of (dict_update d kvs) = map_of d ++ map_of kvs"
proof (induction d kvs rule: dict_update.induct)
  case (2 d k v kvs)
  then have "k \<notin> fst ` set kvs" and "dict_ok kvs" by (auto simp: dict_ok_def)
  then have "map_of kvs k = None" by (simp add: map_of_eq_None_iff)
  with 2 \<open>dict_ok kvs\<close> show ?case by (auto simp: map_add_def fun_eq_iff split: option.splits)
qed simp

lemma dict_set_fresh: "k \<notin> fst ` set d \<Longrightarrow> dict_set k v d = d @ [(k, v)]"
  by (induction d) auto

lemma dict_update_fresh:
  "dict_ok kvs \<Longrightarrow> fst ` set kvs \<inter> fst ` set d = {} \<Longrightarrow> dict_update d kvs = d @ kvs"
proof (induction d kvs rule: dict_update.induct)
  case (2 d k v kvs)
  then show ?case by (auto simp: dict_ok_def dict_set_fresh)
qed simp

lemma dict_get_set [dict_simps]:
  "dict_get (dict_set k v d) k' = (if k' = k then Some v else dict_get d k')"
  by (simp add: dict_get_def)

lemma set_dict_keys: "set (dict_keys d) = fst ` set d"
  by (simp add: dict_keys_def)

lemma dict_get_Some_key: "dict_get d k = Some v \<Longrightarrow> k \<in> set (dict_keys d)"
  by (metis dict_get_def image_eqI map_of_SomeD prod.sel(1) set_dict_keys)

lemma dict_get_None_key: "dict_get d k = None \<longleftrightarrow> k \<notin> set (dict_keys d)"
  by (simp add: dict_get_def map_of_eq_None_iff set_dict_keys)

lemma dict_has_iff [dict_simps]: "dict_has d k \<longleftrightarrow> k \<in> fst ` set d"
  by (auto simp: dict_has_def map_of_eq_None_iff weak_map_of_SomeI)

section \<open>Strings\<close>

definition py_isspace :: "char \<Rightarrow> bool" where
  "py_isspace c \<longleftrightarrow> of_char c \<in> {9, 10, 11, 12, 13, 28, 29, 30, 31, 32 :: nat}"

definition py_isdigit :: "char \<Rightarrow> bool" where
  "py_isdigit c \<longleftrightarrow> (48 :: nat) \<le> of_char c \<and> of_char c \<le> (57 :: nat)"

definition upper_char :: "char \<Rightarrow> char" where
  "upper_char c = (if (97 :: nat) \<le> of_char c \<and> of_char c \<le> (122 :: nat)
     then char_of (of_char c - 32 :: nat) else c)"

definition lower_char :: "char \<Rightarrow> char" where
  "lower_char c = (if (65 :: nat) \<le> of_char c \<and> of_char c \<le> (90 :: nat)
     then char_of (of_char c + 32 :: nat) else c)"

definition py_upper :: "string \<Rightarrow> string" where "py_upper s = map upper_char s"
definition py_lower :: "string \<Rightarrow> string" where "py_lower s = map lower_char s"

definition py_lstrip :: "string \<Rightarrow> string" where "py_lstrip s = dropWhile py_isspace s"
definition py_rstrip :: "string \<Rightarrow> string" where "py_rstrip s = rev (dropWhile py_isspace (rev s))"
definition py_strip :: "string \<Rightarrow> string" where "py_strip s = py_rstrip (py_lstrip s)"

definition rstrip_char :: "char \<Rightarrow> string \<Rightarrow> string" where
  "rstrip_char c s = rev (dropWhile (\<lambda>x. x = c) (rev s))"

fun is_prefix :: "string \<Rightarrow> string \<Rightarrow> bool" where
  "is_prefix [] s = True"
| "is_prefix (c # cs) [] = False"
| "is_prefix (c # cs) (d # ds) = (c = d \<and> is_prefix cs ds)"

definition is_suffix :: "string \<Rightarrow> string \<Rightarrow> bool" where
  "is_suffix p s = is_prefix (rev p) (rev s)"

text \<open>\<open>p in s\<close> on strings.\<close>

fun str_contains :: "string \<Rightarrow> string \<Rightarrow> bool" where
  "str_contains p [] = (p = [])"
| "str_contains p (c # cs) = (is_prefix p (c # cs) \<or> str_contains p cs)"

text \<open>\<open>s.split(sep)\<close> for a one-character separator, and \<open>s.split(sep, 1)[0]\<close>.\<close>

fun split_char :: "char \<Rightarrow> string \<Rightarrow> string list" where
  "split_char c [] = [[]]"
| "split_char c (x # xs) =
     (if x = c then [] # split_char c xs
      else (case split_char c xs of [] \<Rightarrow> [[x]] | w # ws \<Rightarrow> (x # w) # ws))"

definition before_char :: "char \<Rightarrow> string \<Rightarrow> string" where
  "before_char c s = takeWhile (\<lambda>x. x \<noteq> c) s"

definition after_char :: "char \<Rightarrow> string \<Rightarrow> string" where
  "after_char c s = drop 1 (dropWhile (\<lambda>x. x \<noteq> c) s)"

fun before_str :: "string \<Rightarrow> string \<Rightarrow> string" where
  "before_str p [] = []"
| "before_str p (c # cs) = (if is_prefix p (c # cs) then [] else c # before_str p cs)"

text \<open>\<open>s.split()\<close>: maximal runs of non-space characters.\<close>

fun split_ws_acc :: "string \<Rightarrow> string \<Rightarrow> string list" where
  "split_ws_acc w [] = (if w = [] then [] else [rev w])"
| "split_ws_acc w (c # cs) =
     (if py_isspace c then (if w = [] then split_ws_acc [] cs else rev w # split_ws_acc [] cs)
      else split_ws_acc (c # w) cs)"

definition split_ws :: "string \<Rightarrow> string list" where "split_ws s = split_ws_acc [] s"

text \<open>\<open>str.splitlines\<close> on the line boundaries of ASCII text; \<open>\\r\\n\<close> is one boundary.\<close>

definition is_newline :: "char \<Rightarrow> bool" where
  "is_newline c \<longleftrightarrow> of_char c \<in> {10, 11, 12, 13, 28, 29, 30 :: nat}"

fun splitlines_acc :: "string \<Rightarrow> string \<Rightarrow> string list" where
  "splitlines_acc w [] = (if w = [] then [] else [rev w])"
| "splitlines_acc w [c] = (if is_newline c then [rev w] else [rev (c # w)])"
| "splitlines_acc w (c # d # cs) =
     (if c = CHR 0x0D \<and> d = CHR 0x0A then rev w # splitlines_acc [] cs
      else if is_newline c then rev w # splitlines_acc [] (d # cs)
      else splitlines_acc (c # w) (d # cs))"

definition splitlines :: "string \<Rightarrow> string list" where "splitlines s = splitlines_acc [] s"

fun join_with :: "string \<Rightarrow> string list \<Rightarrow> string" where
  "join_with sep [] = []"
| "join_with sep [w] = w"
| "join_with sep (w # v # ws) = w @ sep @ join_with sep (v # ws)"

definition replace_char :: "char \<Rightarrow> char \<Rightarrow> string \<Rightarrow> string" where
  "replace_char a b s = map (\<lambda>c. if c = a then b else c) s"

text \<open>Splitting and joining are inverse.\<close>

lemma split_char_nonempty [simp]: "split_char c s \<noteq> []"
  by (induction c s rule: split_char.induct) (auto split: list.splits)

lemma join_with_Cons: "ws \<noteq> [] \<Longrightarrow> join_with sep (w # ws) = w @ sep @ join_with sep ws"
  by (cases ws) simp_all

lemma join_split_char: "join_with [c] (split_char c s) = s"
proof (induction c s rule: split_char.induct)
  case (2 c x xs)
  show ?case
  proof (cases "x = c")
    case True
    with 2 show ?thesis by (simp add: join_with_Cons)
  next
    case False
    obtain w ws where w: "split_char c xs = w # ws" by (cases "split_char c xs") simp_all
    with 2 False show ?thesis by (cases ws) simp_all
  qed
qed simp

lemma join_with_snoc: "ws \<noteq> [] \<Longrightarrow> join_with sep (ws @ [w]) = join_with sep ws @ sep @ w"
  by (induction ws rule: list_nonempty_induct) (auto simp: join_with_Cons)

lemma split_char_word: "c \<notin> set w \<Longrightarrow> split_char c (w @ c # rest) = w # split_char c rest"
  by (induction w) auto

lemma split_char_plain: "c \<notin> set w \<Longrightarrow> split_char c w = [w]"
  by (induction w) auto

lemma split_join:
  "fs \<noteq> [] \<Longrightarrow> \<forall>w \<in> set fs. c \<notin> set w \<Longrightarrow> split_char c (join_with [c] fs) = fs"
proof (induction fs rule: list_nonempty_induct)
  case (cons w ws)
  then show ?case by (simp add: join_with_Cons split_char_word)
qed (simp add: split_char_plain)

lemma set_join_with: "set (join_with sep ws) \<subseteq> \<Union> (set ` set ws) \<union> set sep"
  by (induction sep ws rule: join_with.induct) auto

lemma split_lines: "\<forall>w \<in> set ws. c \<notin> set w \<Longrightarrow> split_char c (concat (map (\<lambda>w. w @ [c]) ws)) = ws @ [[]]"
  by (induction ws) (simp_all add: split_char_word)

lemma is_prefix_append [simp]: "is_prefix p (p @ s)"
  by (induction p) auto

lemma is_prefix_iff: "is_prefix p s \<longleftrightarrow> (\<exists>t. s = p @ t)"
  by (induction p s rule: is_prefix.induct) auto

lemma is_suffix_iff: "is_suffix p s \<longleftrightarrow> (\<exists>t. s = t @ p)"
proof -
  have "is_suffix p s \<longleftrightarrow> (\<exists>t. rev s = rev p @ t)" by (simp add: is_suffix_def is_prefix_iff)
  also have "\<dots> \<longleftrightarrow> (\<exists>t. s = t @ p)" by (metis rev_append rev_rev_ident)
  finally show ?thesis .
qed

lemma str_contains_iff: "str_contains p s \<longleftrightarrow> (\<exists>u v. s = u @ p @ v)"
proof (induction s)
  case (Cons c cs)
  show ?case
  proof
    assume "str_contains p (c # cs)"
    then consider "is_prefix p (c # cs)" | "str_contains p cs" by auto
    then show "\<exists>u v. c # cs = u @ p @ v"
    proof cases
      case 1 then show ?thesis by (auto simp: is_prefix_iff intro: exI [of _ "[]"])
    next
      case 2 then show ?thesis using Cons.IH by (metis append_Cons)
    qed
  next
    assume "\<exists>u v. c # cs = u @ p @ v"
    then obtain u v where uv: "c # cs = u @ p @ v" by blast
    show "str_contains p (c # cs)"
    proof (cases u)
      case Nil
      with uv have "is_prefix p (c # cs)" by (auto simp: is_prefix_iff)
      then show ?thesis by simp
    next
      case (Cons d u')
      with uv have "cs = u' @ p @ v" by simp
      then have "str_contains p cs" using \<open>str_contains p cs \<longleftrightarrow> (\<exists>u v. cs = u @ p @ v)\<close> by blast
      then show ?thesis by simp
    qed
  qed
qed simp

lemma of_char_upper: "of_char (upper_char c) =
    (if (97 :: nat) \<le> of_char c \<and> of_char c \<le> (122 :: nat) then of_char c - 32 else (of_char c :: nat))"
proof -
  have "(of_char c - 32 :: nat) mod 256 = of_char c - 32" if "of_char c \<le> (122 :: nat)"
    using that by (intro mod_less) simp
  then show ?thesis by (auto simp: upper_char_def)
qed

lemma upper_char_idem [simp]: "upper_char (upper_char c) = upper_char c"
  by (subst upper_char_def) (auto simp: of_char_upper split: if_splits)

lemma py_isspace_upper [simp]: "py_isspace (upper_char c) = py_isspace c"
  by (auto simp: py_isspace_def of_char_upper)

lemma py_upper_idem [simp]: "py_upper (py_upper s) = py_upper s"
  by (simp add: py_upper_def)

lemma dropWhile_hd_not: "dropWhile P s = t \<Longrightarrow> t \<noteq> [] \<Longrightarrow> \<not> P (hd t)"
  by (metis hd_dropWhile)

lemma py_strip_id: "(\<forall>c \<in> set s. \<not> py_isspace c) \<Longrightarrow> py_strip s = s"
proof -
  assume ns: "\<forall>c \<in> set s. \<not> py_isspace c"
  have "dropWhile py_isspace t = t" if "\<forall>c \<in> set t. \<not> py_isspace c" for t :: string
    using that by (cases t) auto
  then have "dropWhile py_isspace s = s" "dropWhile py_isspace (rev s) = rev s" using ns by (metis set_rev)+
  then show ?thesis by (simp add: py_strip_def py_lstrip_def py_rstrip_def)
qed

lemma set_py_strip: "set (py_strip s) \<subseteq> set s"
  unfolding py_strip_def py_lstrip_def py_rstrip_def
  by (metis set_rev set_dropWhileD subsetI)

section \<open>Writing files\<close>

text \<open>
  What becomes of writing a text to a file (\<open>Path.write_text\<close>, \<open>open(path, "w")\<close> and \<open>write\<close>): it
  is written; the file could not be opened and is as before; or it was opened, which empties it, and
  the writing failed after some characters.
\<close>

datatype write_outcome = Written | NotOpened | CutShort nat

fun file_after :: "write_outcome \<Rightarrow> string \<Rightarrow> string option \<Rightarrow> string option" where
  "file_after Written new old = Some new"
| "file_after NotOpened new old = old"
| "file_after (CutShort n) new old = Some (take n new)"

section \<open>Decimal integers\<close>

definition digit_char :: "nat \<Rightarrow> char" where "digit_char d = char_of (48 + d)"

fun digits_of_nat :: "nat \<Rightarrow> string" where
  "digits_of_nat n = (if n < 10 then [digit_char n]
     else digits_of_nat (n div 10) @ [digit_char (n mod 10)])"

declare digits_of_nat.simps [simp del]

definition str_int :: "int \<Rightarrow> string" where
  "str_int i = (if i < 0 then CHR ''-'' # digits_of_nat (nat (- i)) else digits_of_nat (nat i))"

definition digit_val :: "char \<Rightarrow> nat" where "digit_val c = of_char c - 48"

definition nat_of_digits :: "string \<Rightarrow> nat" where
  "nat_of_digits s = foldl (\<lambda>n c. 10 * n + digit_val c) 0 s"

text \<open>
  \<open>int(s)\<close> of a string: surrounding white space, an optional sign, then digits with single
  underscores between them.
\<close>

fun digits_us :: "string \<Rightarrow> string option" where
  "digits_us [] = None"
| "digits_us [c] = (if py_isdigit c then Some [c] else None)"
| "digits_us (c # d # cs) =
     (if \<not> py_isdigit c then None
      else if d = CHR ''_'' then map_option (\<lambda>r. c # r) (digits_us cs)
      else map_option (\<lambda>r. c # r) (digits_us (d # cs)))"

definition parse_int :: "string \<Rightarrow> int option" where
  "parse_int s =
     (case py_strip s of
        [] \<Rightarrow> None
      | c # cs \<Rightarrow>
          if c = CHR ''-'' then map_option (\<lambda>d. - int (nat_of_digits d)) (digits_us cs)
          else if c = CHR ''+'' then map_option (\<lambda>d. int (nat_of_digits d)) (digits_us cs)
          else map_option (\<lambda>d. int (nat_of_digits d)) (digits_us (c # cs)))"

lemma of_char_digit_char: "d < 10 \<Longrightarrow> of_char (digit_char d) = 48 + d"
  by (simp add: digit_char_def)

lemma digits_of_nat_isdigit: "c \<in> set (digits_of_nat n) \<Longrightarrow> py_isdigit c"
proof (induction n rule: digits_of_nat.induct)
  case (1 n)
  then show ?case
    by (cases "n < 10")
      (auto simp: digits_of_nat.simps [of n] py_isdigit_def of_char_digit_char)
qed

lemma digits_of_nat_nonempty [simp]: "digits_of_nat n \<noteq> []"
  by (subst digits_of_nat.simps) simp

lemma nat_of_digits_snoc: "nat_of_digits (s @ [c]) = 10 * nat_of_digits s + digit_val c"
  by (simp add: nat_of_digits_def)

lemma nat_of_digits_of_nat [simp]: "nat_of_digits (digits_of_nat n) = n"
proof (induction n rule: digits_of_nat.induct)
  case (1 n)
  show ?case
  proof (cases "n < 10")
    case True
    then show ?thesis
      by (simp add: digits_of_nat.simps [of n] nat_of_digits_def digit_val_def of_char_digit_char)
  next
    case False
    with 1 have "nat_of_digits (digits_of_nat (n div 10)) = n div 10" by simp
    with False show ?thesis
      by (simp add: digits_of_nat.simps [of n] nat_of_digits_snoc digit_val_def of_char_digit_char)
  qed
qed

lemma digits_us_digits: "s \<noteq> [] \<Longrightarrow> (\<forall>c \<in> set s. py_isdigit c) \<Longrightarrow> digits_us s = Some s"
proof (induction s rule: digits_us.induct)
  case (3 c d cs)
  then have "d \<noteq> CHR ''_''" by (auto simp: py_isdigit_def)
  with 3 show ?case by simp
qed auto

lemma py_isdigit_not_space: "py_isdigit c \<Longrightarrow> \<not> py_isspace c"
  by (auto simp: py_isdigit_def py_isspace_def)

lemma parse_int_str_int [simp]: "parse_int (str_int i) = Some i"
proof -
  have d: "\<forall>c \<in> set (digits_of_nat n). py_isdigit c" for n
    using digits_of_nat_isdigit by blast
  have dig: "digits_us (digits_of_nat n) = Some (digits_of_nat n)" for n
    using digits_us_digits [OF digits_of_nat_nonempty] d by blast
  have ns: "\<forall>c \<in> set (str_int i). \<not> py_isspace c"
    using d py_isdigit_not_space by (auto simp: str_int_def py_isspace_def)
  show ?thesis
  proof (cases "i < 0")
    case True
    then show ?thesis using ns by (simp add: parse_int_def py_strip_id str_int_def dig)
  next
    case False
    obtain c cs where ccs: "digits_of_nat (nat i) = c # cs"
      by (cases "digits_of_nat (nat i)") auto
    then have "py_isdigit c" using d [of "nat i"] by simp
    then have "c \<noteq> CHR ''-''" "c \<noteq> CHR ''+''" by (auto simp: py_isdigit_def)
    with False ns ccs dig [of "nat i"] nat_of_digits_of_nat [of "nat i"] show ?thesis
      by (simp add: parse_int_def py_strip_id str_int_def)
  qed
qed

end
