(* ===== verification/Probe.thy ===== *)
theory Probe
  imports Prelude
begin

text \<open>
  The probe check registry, \<open>probe/registry.py\<close>: registration, the order in which checks run, the
  run itself with the skipping of checks whose dependencies failed, and the exit code. A check is a
  function of the system it inspects that returns a verdict with a detail text or raises with a
  message. The order in which Python iterates over a set is an argument.
\<close>

section \<open>Data\<close>

datatype severity = INFO | WARNING | CRITICAL

datatype status = PASS | FAIL | SKIP

record check_result =
  cr_name :: string
  cr_status :: status
  cr_severity :: severity
  cr_detail :: string

type_synonym 'fs check_fn = "'fs \<Rightarrow> (string, bool \<times> string) result"

record 'fs check_spec =
  cs_name :: string
  cs_severity :: severity
  cs_depends_on :: "string list"
  cs_fn :: "'fs check_fn"

type_synonym 'fs registry = "(string, 'fs check_spec) dict"

text \<open>The order of the severities, so that the worst one is a maximum.\<close>

fun severity_rank :: "severity \<Rightarrow> nat" where
  "severity_rank INFO = 0"
| "severity_rank WARNING = 1"
| "severity_rank CRITICAL = 2"

instantiation severity :: linorder
begin

definition less_eq_severity :: "severity \<Rightarrow> severity \<Rightarrow> bool" where
  "less_eq_severity a b \<longleftrightarrow> severity_rank a \<le> severity_rank b"

definition less_severity :: "severity \<Rightarrow> severity \<Rightarrow> bool" where
  "less_severity a b \<longleftrightarrow> severity_rank a < severity_rank b"

instance
proof
  fix a b :: severity
  show "a \<le> b \<Longrightarrow> b \<le> a \<Longrightarrow> a = b"
    by (cases a; cases b) (simp_all add: less_eq_severity_def)
qed (auto simp: less_eq_severity_def less_severity_def)

end

definition register ::
  "string \<Rightarrow> severity \<Rightarrow> string list \<Rightarrow> 'fs check_fn \<Rightarrow> 'fs registry \<Rightarrow> (pyexc, 'fs registry) result" where
  "register name severity depends_on fn reg =
     (if dict_has reg name then Err ValueError
      else Ok (dict_set name \<lparr>cs_name = name, cs_severity = severity, cs_depends_on = depends_on, cs_fn = fn\<rparr> reg))"

section \<open>Order\<close>

definition deps_of :: "'fs registry \<Rightarrow> string \<Rightarrow> string list" where
  "deps_of specs n = (case dict_get specs n of None \<Rightarrow> [] | Some s \<Rightarrow> cs_depends_on s)"

lemma bindr_cong [fundef_cong]:
  "m = m' \<Longrightarrow> (\<And>x. m' = Inr x \<Longrightarrow> f x = f' x) \<Longrightarrow> bindr m f = bindr m' f'"
  by (cases m) auto

text \<open>
  \<open>_visit\<close> over a list of names: \<open>visiting\<close> are the names on the path, and the state holds the
  visited names and the order so far. The error is the name at which a cycle closed.
\<close>

function visit_list ::
  "'fs registry \<Rightarrow> string set \<Rightarrow> string list \<Rightarrow> string set \<times> string list \<Rightarrow> (string, string set \<times> string list) result"
  where
  "visit_list specs visiting [] st = Ok st"
| "visit_list specs visiting (n # ns) st =
     (if n \<in> fst st then visit_list specs visiting ns st
      else if n \<in> visiting then Err n
      else bindr (visit_list specs (insert n visiting) (deps_of specs n) st) (\<lambda>st'.
        visit_list specs visiting ns (insert n (fst st'), snd st' @ [n])))"
  by pat_completeness auto

lemma deps_of_unregistered: "n \<notin> fst ` set specs \<Longrightarrow> deps_of specs n = []"
  by (simp add: deps_of_def dict_get_def map_of_eq_None_iff [THEN iffD2])

lemma card_Diff_insert_le: "card (fst ` set specs - insert n v) \<le> card (fst ` set specs - v)"
  by (intro card_mono) auto

lemma card_Diff_insert_less:
  "n \<in> fst ` set specs \<Longrightarrow> n \<notin> v \<Longrightarrow> card (fst ` set specs - insert n v) < card (fst ` set specs - v)"
  by (intro psubset_card_mono) auto

termination visit_list
proof (relation "measures [\<lambda>(specs, v, ns, st). card (fst ` set specs - v), \<lambda>(specs, v, ns, st). length ns]")
  fix specs :: "'fs registry" and v and n :: string and ns and st :: "string set \<times> string list"
  assume "n \<notin> v"
  then show "((specs, insert n v, deps_of specs n, st), (specs, v, n # ns, st))
     \<in> measures [\<lambda>(specs, v, ns, st). card (fst ` set specs - v), \<lambda>(specs, v, ns, st). length ns]"
    using card_Diff_insert_less [of n specs v] deps_of_unregistered [of n specs]
    by (cases "n \<in> fst ` set specs") auto
qed auto

definition resolve_order :: "'fs registry \<Rightarrow> (pyexc, string list) result" where
  "resolve_order specs =
     bindr (map_err (\<lambda>n. ValueError) (visit_list specs {} (dict_keys specs) ({}, []))) (\<lambda>st. Ok (snd st))"

text \<open>\<open>_expand\<close>, with the pending calls as an explicit stack.\<close>

function expand :: "'fs registry \<Rightarrow> string list \<Rightarrow> string set \<Rightarrow> string set" where
  "expand reg [] needed = needed"
| "expand reg (n # ns) needed =
     (if n \<in> needed then expand reg ns needed
      else expand reg (deps_of reg n @ ns) (insert n needed))"
  by pat_completeness auto

termination expand
proof (relation "measures [\<lambda>(reg, ns, needed). card (fst ` set reg - needed), \<lambda>(reg, ns, needed). length ns]")
  fix reg :: "'fs registry" and n :: string and ns needed
  assume "n \<notin> needed"
  then show "((reg, deps_of reg n @ ns, insert n needed), (reg, n # ns, needed))
     \<in> measures [\<lambda>(reg, ns, needed). card (fst ` set reg - needed), \<lambda>(reg, ns, needed). length ns]"
    using card_Diff_insert_less [of n reg needed] deps_of_unregistered [of n reg]
    by (cases "n \<in> fst ` set reg") auto
qed auto

section \<open>Execution\<close>

definition skip_detail :: "string list \<Rightarrow> string" where
  "skip_detail failed = ''Skipped - dependency failed: '' @ join_with '', '' failed"

definition run_one :: "'fs \<Rightarrow> 'fs check_spec \<Rightarrow> string set \<Rightarrow> string \<Rightarrow> check_result" where
  "run_one sysroot spec failed_names name =
     (let deps_failed = filter (\<lambda>d. d \<in> failed_names) (cs_depends_on spec)
      in if deps_failed \<noteq> []
         then \<lparr>cr_name = name, cr_status = SKIP, cr_severity = cs_severity spec, cr_detail = skip_detail deps_failed\<rparr>
         else (case cs_fn spec sysroot of
             Inl msg \<Rightarrow> \<lparr>cr_name = name, cr_status = FAIL, cr_severity = cs_severity spec,
                          cr_detail = ''Unexpected error: '' @ msg\<rparr>
           | Inr (passed, detail) \<Rightarrow>
               \<lparr>cr_name = name, cr_status = (if passed then PASS else FAIL), cr_severity = cs_severity spec,
                cr_detail = detail\<rparr>))"

fun run_ordered ::
  "'fs registry \<Rightarrow> 'fs \<Rightarrow> string list \<Rightarrow> string set \<Rightarrow> (pyexc, check_result list) result" where
  "run_ordered specs sysroot [] failed_names = Ok []"
| "run_ordered specs sysroot (name # names) failed_names =
     bindr (of_opt KeyError (dict_get specs name)) (\<lambda>spec.
       let r = run_one sysroot spec failed_names name
       in bindr (run_ordered specs sysroot names
                   (if cr_status r = PASS then failed_names else insert name failed_names))
            (\<lambda>rs. Ok (r # rs)))"

definition select_specs :: "(string set \<Rightarrow> string list) \<Rightarrow> 'fs registry \<Rightarrow> string list option \<Rightarrow> 'fs registry" where
  "select_specs iter reg only =
     (case only of
        None \<Rightarrow> reg
      | Some ns \<Rightarrow>
          concat (map (\<lambda>n. case dict_get reg n of None \<Rightarrow> [] | Some s \<Rightarrow> [(n, s)])
            (iter (expand reg ns {}))))"

definition run_checks ::
  "(string set \<Rightarrow> string list) \<Rightarrow> 'fs registry \<Rightarrow> 'fs \<Rightarrow> string list option \<Rightarrow> (pyexc, check_result list) result"
  where
  "run_checks iter reg sysroot only =
     (let specs = select_specs iter reg only
      in bindr (resolve_order specs) (\<lambda>ordered. run_ordered specs sysroot ordered {}))"

definition not_passed :: "check_result \<Rightarrow> bool" where
  "not_passed r \<longleftrightarrow> cr_status r = FAIL \<or> cr_status r = SKIP"

definition derive_exit_code :: "check_result list \<Rightarrow> int" where
  "derive_exit_code results =
     (if list_ex (\<lambda>r. not_passed r \<and> cr_severity r = CRITICAL) results then 2
      else if list_ex (\<lambda>r. not_passed r \<and> cr_severity r = WARNING) results then 1
      else 0)"

section \<open>The order is a topological sort\<close>

definition topological :: "'fs registry \<Rightarrow> string list \<Rightarrow> bool" where
  "topological specs ord \<longleftrightarrow>
     distinct ord \<and> (\<forall>i < length ord. set (deps_of specs (ord ! i)) \<subseteq> set (take i ord))"

lemma topological_snoc:
  "topological specs ord \<Longrightarrow> n \<notin> set ord \<Longrightarrow> set (deps_of specs n) \<subseteq> set ord \<Longrightarrow> topological specs (ord @ [n])"
  by (auto simp: topological_def nth_append less_Suc_eq)

definition dep_rel :: "'fs registry \<Rightarrow> (string \<times> string) set" where
  "dep_rel specs = {(n, d). d \<in> set (deps_of specs n)}"

lemma visit_list_Ok:
  "visit_list specs visiting ns st = Ok st' \<Longrightarrow>
   fst st = set (snd st) \<Longrightarrow> topological specs (snd st) \<Longrightarrow> fst st \<inter> visiting = {} \<Longrightarrow>
     fst st' = set (snd st') \<and> topological specs (snd st') \<and> fst st' \<inter> visiting = {}
     \<and> set ns \<subseteq> fst st' \<and> fst st \<subseteq> fst st'"
proof (induction specs visiting ns st arbitrary: st' rule: visit_list.induct)
  case (2 specs visiting n ns st)
  show ?case
  proof (cases "n \<in> fst st")
    case True
    with 2(4) have "visit_list specs visiting ns st = Ok st'" by simp
    from 2(1) [OF True this 2(5-7)] True show ?thesis by auto
  next
    case False
    with 2(4) obtain st1 where nv: "n \<notin> visiting"
      and st1: "visit_list specs (insert n visiting) (deps_of specs n) st = Ok st1"
      and rest: "visit_list specs visiting ns (insert n (fst st1), snd st1 @ [n]) = Ok st'"
      by (auto simp: result_simps split: if_splits)
    have "fst st \<inter> insert n visiting = {}" using 2(7) False by auto
    from 2(2) [OF False nv st1 2(5,6) this]
    have one: "fst st1 = set (snd st1)" "topological specs (snd st1)" "fst st1 \<inter> insert n visiting = {}"
      "set (deps_of specs n) \<subseteq> fst st1" "fst st \<subseteq> fst st1" by auto
    then have "topological specs (snd st1 @ [n])" by (intro topological_snoc) auto
    from 2(3) [OF False nv st1 rest] this one nv show ?thesis by auto
  qed
qed auto

lemma visit_list_Err:
  "visit_list specs visiting ns st = Err n \<Longrightarrow>
   (\<forall>v \<in> visiting. \<forall>m \<in> set ns. (v, m) \<in> (dep_rel specs)\<^sup>+) \<Longrightarrow> (n, n) \<in> (dep_rel specs)\<^sup>+"
proof (induction specs visiting ns st rule: visit_list.induct)
  case (2 specs visiting m ns st)
  show ?case
  proof (cases "m \<in> fst st \<or> m \<in> visiting")
    case True
    then show ?thesis using 2(1,4,5) by (cases "m \<in> fst st") auto
  next
    case False
    have dep: "(m, d) \<in> dep_rel specs" if "d \<in> set (deps_of specs m)" for d
      using that by (simp add: dep_rel_def)
    from False 2(4) consider
        (inner) "visit_list specs (insert m visiting) (deps_of specs m) st = Err n"
      | (later) st1 where "visit_list specs (insert m visiting) (deps_of specs m) st = Ok st1"
          "visit_list specs visiting ns (insert m (fst st1), snd st1 @ [m]) = Err n"
      by (auto simp: result_simps)
    then show ?thesis
    proof cases
      case inner
      have "\<forall>v \<in> insert m visiting. \<forall>d \<in> set (deps_of specs m). (v, d) \<in> (dep_rel specs)\<^sup>+"
        using 2(5) dep by (auto intro: trancl_into_trancl)
      with 2(2) False inner show ?thesis by blast
    next
      case later
      with 2(3) [OF _ _ later] 2(5) False show ?thesis by auto
    qed
  qed
qed simp

lemma topological_acyclic:
  assumes "topological specs ord" and "n \<in> set ord"
  shows "(n, n) \<notin> (dep_rel specs)\<^sup>+"
proof
  assume cycle: "(n, n) \<in> (dep_rel specs)\<^sup>+"
  have earlier: "\<exists>j < i. ord ! j = d" if "i < length ord" "(ord ! i, d) \<in> dep_rel specs" for i d
  proof -
    have "d \<in> set (take i ord)" using that assms(1) by (auto simp: topological_def dep_rel_def)
    then obtain j where "j < length (take i ord)" "take i ord ! j = d" by (meson in_set_conv_nth)
    then show ?thesis using that(1) by (intro exI [of _ j]) auto
  qed
  have "\<exists>j < i. ord ! j = d" if "(c, d) \<in> (dep_rel specs)\<^sup>+" "i < length ord" "ord ! i = c" for c d i
    using that
  proof (induction arbitrary: i rule: trancl_induct)
    case (base y)
    then show ?case using earlier by blast
  next
    case (step y z)
    from step.IH [OF step.prems] obtain j where "j < i" "ord ! j = y" by blast
    with earlier [of j z] step.prems(1) step.hyps(2) obtain k where "k < j" "ord ! k = z" by auto
    with \<open>j < i\<close> have "k < i" by simp
    with \<open>ord ! k = z\<close> show ?case by blast
  qed
  moreover obtain i where i: "i < length ord" "ord ! i = n" using assms(2) by (meson in_set_conv_nth)
  ultimately obtain j where "j < i" "ord ! j = n" using cycle by blast
  with i assms(1) show False by (auto simp: topological_def nth_eq_iff_index_eq)
qed

lemma resolve_order_Ok:
  assumes "resolve_order specs = Ok ord"
  shows "topological specs ord \<and> set (dict_keys specs) \<subseteq> set ord"
proof -
  from assms obtain st where "visit_list specs {} (dict_keys specs) ({}, []) = Ok st" "ord = snd st"
    by (auto simp: resolve_order_def result_simps)
  with visit_list_Ok [of specs "{}" "dict_keys specs" "({}, [])" st] show ?thesis
    by (auto simp: topological_def)
qed

lemma resolve_order_Ok_iff: "is_ok (resolve_order specs) \<longleftrightarrow> acyclic (dep_rel specs)"
proof
  assume "is_ok (resolve_order specs)"
  then obtain ord where ord: "resolve_order specs = Ok ord" by (auto simp: is_ok_iff)
  have "n \<in> set ord" if "(n, m) \<in> (dep_rel specs)\<^sup>+" for n m
  proof -
    from that obtain d where "(n, d) \<in> dep_rel specs" by (meson tranclD)
    then have "n \<in> set (dict_keys specs)"
      using deps_of_unregistered [of n specs]
      by (cases "n \<in> fst ` set specs") (auto simp: dep_rel_def dict_keys_def)
    then show ?thesis using resolve_order_Ok [OF ord] by blast
  qed
  then show "acyclic (dep_rel specs)"
    using topological_acyclic resolve_order_Ok [OF ord] by (metis acyclic_def)
next
  assume "acyclic (dep_rel specs)"
  then show "is_ok (resolve_order specs)"
    using visit_list_Err [of specs "{}" "dict_keys specs" "({}, [])"]
    by (cases "visit_list specs {} (dict_keys specs) ({}, [])") (auto simp: resolve_order_def acyclic_def)
qed

text \<open>
  the order in which checks run is found exactly when the dependencies have no cycle; it lists
  every registered check once, after all the checks it depends on.
\<close>

lemma resolve_order_correct:
  "case resolve_order specs of
     Inl e \<Rightarrow> e = ValueError \<and> \<not> acyclic (dep_rel specs)
   | Inr ord \<Rightarrow> acyclic (dep_rel specs) \<and> topological specs ord \<and> set (dict_keys specs) \<subseteq> set ord"
proof (cases "resolve_order specs")
  case (Inl e)
  then have "e = ValueError" by (auto simp: resolve_order_def result_simps)
  moreover have "\<not> acyclic (dep_rel specs)" using Inl resolve_order_Ok_iff [of specs] by simp
  ultimately show ?thesis using Inl by simp
next
  case (Inr ord)
  then show ?thesis using resolve_order_Ok resolve_order_Ok_iff [of specs] by simp
qed

section \<open>Runs\<close>

lemma collect_less_Suc:
  "{f j | j. j < Suc i \<and> P j} = (if P 0 then {f 0} else {}) \<union> {f (Suc j) | j. j < i \<and> P (Suc j)}"
proof -
  have "(\<exists>j. x = f j \<and> j < Suc i \<and> P j) \<longleftrightarrow> (x = f 0 \<and> P 0) \<or> (\<exists>j. x = f (Suc j) \<and> j < i \<and> P (Suc j))" for x
    by (metis (full_types) Suc_less_eq not0_implies_Suc zero_less_Suc)
  then show ?thesis by auto
qed

lemma run_ordered_nth:
  "run_ordered specs fs names failed = Ok rs \<Longrightarrow>
     length rs = length names \<and> (\<forall>i < length names. \<exists>spec. dict_get specs (names ! i) = Some spec
       \<and> rs ! i = run_one fs spec (failed \<union> {names ! j | j. j < i \<and> cr_status (rs ! j) \<noteq> PASS}) (names ! i))"
proof (induction specs fs names failed arbitrary: rs rule: run_ordered.induct)
  case (2 specs fs name names failed)
  then obtain spec r rs' where spec: "dict_get specs name = Some spec" and r: "r = run_one fs spec failed name"
    and rest: "run_ordered specs fs names (if cr_status r = PASS then failed else insert name failed) = Ok rs'"
    and rs: "rs = r # rs'" by (auto simp: result_simps Let_def)
  have IH: "length rs' = length names \<and> (\<forall>i < length names. \<exists>spec. dict_get specs (names ! i) = Some spec
       \<and> rs' ! i = run_one fs spec ((if cr_status r = PASS then failed else insert name failed)
             \<union> {names ! j | j. j < i \<and> cr_status (rs' ! j) \<noteq> PASS}) (names ! i))"
    using 2(1) rest spec r by simp
  have sets: "failed \<union> {(name # names) ! j | j. j < Suc i \<and> cr_status (rs ! j) \<noteq> PASS}
     = (if cr_status r = PASS then failed else insert name failed)
         \<union> {names ! j | j. j < i \<and> cr_status (rs' ! j) \<noteq> PASS}" for i
    by (subst collect_less_Suc) (simp add: rs)
  show ?case
  proof (intro conjI allI impI)
    fix i assume "i < length (name # names)"
    then show "\<exists>spec. dict_get specs ((name # names) ! i) = Some spec
       \<and> rs ! i = run_one fs spec (failed \<union> {(name # names) ! j | j. j < i \<and> cr_status (rs ! j) \<noteq> PASS}) ((name # names) ! i)"
    proof (cases i)
      case 0
      then show ?thesis using spec r by (simp add: rs)
    next
      case (Suc k)
      with \<open>i < length (name # names)\<close> have "k < length names" by simp
      with IH show ?thesis unfolding Suc sets by (simp only: rs nth_Cons_Suc)
    qed
  qed (use IH in \<open>simp add: rs\<close>)
qed simp

definition dep_passed :: "check_result list \<Rightarrow> nat \<Rightarrow> string \<Rightarrow> bool" where
  "dep_passed rs i d \<longleftrightarrow> (\<exists>j < i. cr_name (rs ! j) = d \<and> cr_status (rs ! j) = PASS)"

definition fn_passes :: "'fs \<Rightarrow> 'fs check_spec \<Rightarrow> bool" where
  "fn_passes fs spec \<longleftrightarrow> (\<exists>detail. cs_fn spec fs = Ok (True, detail))"

lemma run_one_status:
  "cr_status (run_one fs spec F n) =
     (if \<exists>d \<in> set (cs_depends_on spec). d \<in> F then SKIP else if fn_passes fs spec then PASS else FAIL)"
  "cr_name (run_one fs spec F n) = n" "cr_severity (run_one fs spec F n) = cs_severity spec"
  by (auto simp: run_one_def Let_def fn_passes_def filter_empty_conv split: sum.splits prod.splits)

lemma run_ordered_status:
  assumes "run_ordered specs fs ord {} = Ok rs" and "topological specs ord" and "i < length ord"
  shows "\<exists>spec. dict_get specs (ord ! i) = Some spec \<and> cr_name (rs ! i) = ord ! i
     \<and> cr_severity (rs ! i) = cs_severity spec
     \<and> cr_status (rs ! i) =
         (if \<forall>d \<in> set (cs_depends_on spec). dep_passed rs i d
          then if fn_passes fs spec then PASS else FAIL else SKIP)"
proof -
  note run = run_ordered_nth [OF assms(1)]
  let ?F = "{ord ! j | j. j < i \<and> cr_status (rs ! j) \<noteq> PASS}"
  obtain spec where spec: "dict_get specs (ord ! i) = Some spec" and ri: "rs ! i = run_one fs spec ?F (ord ! i)"
    using run assms(3) by force
  have nm: "cr_name (rs ! j) = ord ! j" if "j < length ord" for j
  proof -
    from run that obtain spec where
      "rs ! j = run_one fs spec ({} \<union> {ord ! k | k. k < j \<and> cr_status (rs ! k) \<noteq> PASS}) (ord ! j)" by blast
    then show ?thesis by (simp add: run_one_status)
  qed
  have "d \<notin> ?F \<longleftrightarrow> dep_passed rs i d" if d: "d \<in> set (cs_depends_on spec)" for d
  proof -
    have "deps_of specs (ord ! i) = cs_depends_on spec" by (simp add: deps_of_def spec)
    moreover have "set (deps_of specs (ord ! i)) \<subseteq> set (take i ord)"
      using assms(2,3) unfolding topological_def by blast
    ultimately have "d \<in> set (take i ord)" using d by auto
    then obtain j where j: "j < i" "ord ! j = d" using assms(3) by (auto simp: in_set_conv_nth)
    have "k = j" if "k < i" "ord ! k = d" for k
      using that j assms(2,3) by (auto simp: topological_def nth_eq_iff_index_eq)
    note uniq = this
    have "dep_passed rs i d \<longleftrightarrow> cr_status (rs ! j) = PASS"
    proof
      assume "dep_passed rs i d"
      then obtain k where k: "k < i" "cr_name (rs ! k) = d" "cr_status (rs ! k) = PASS"
        by (auto simp: dep_passed_def)
      then have "ord ! k = d" using nm [of k] assms(3) by simp
      with k uniq show "cr_status (rs ! j) = PASS" by blast
    next
      assume "cr_status (rs ! j) = PASS"
      then show "dep_passed rs i d" using j nm [of j] assms(3) by (auto simp: dep_passed_def)
    qed
    moreover have "d \<in> ?F \<longleftrightarrow> cr_status (rs ! j) \<noteq> PASS" using j uniq by blast
    ultimately show ?thesis by blast
  qed
  then show ?thesis using spec ri by (auto simp: run_one_status)
qed

text \<open>
  in a run of the checks every selected check has exactly one result, in dependency order; a
  check is skipped exactly when a dependency did not pass, and otherwise its verdict is the
  result; a check that raises has failed.
\<close>

lemma run_checks_sound:
  assumes "run_checks iter reg fs only = Ok rs"
  shows "let specs = select_specs iter reg only in
     set (dict_keys specs) = set (map cr_name rs) \<and> distinct (map cr_name rs)
   \<and> (\<forall>i < length rs. \<exists>spec. dict_get specs (cr_name (rs ! i)) = Some spec
        \<and> cr_status (rs ! i) =
           (if \<forall>d \<in> set (cs_depends_on spec). dep_passed rs i d
            then if fn_passes fs spec then PASS else FAIL else SKIP))"
proof -
  define specs where "specs = select_specs iter reg only"
  from assms obtain ord where ord: "resolve_order specs = Ok ord" and run: "run_ordered specs fs ord {} = Ok rs"
    by (auto simp: run_checks_def result_simps Let_def specs_def)
  note topo = resolve_order_Ok [OF ord]
  have len: "length rs = length ord" using run_ordered_nth [OF run] by simp
  have st: "\<exists>spec. dict_get specs (ord ! i) = Some spec \<and> cr_name (rs ! i) = ord ! i
     \<and> cr_status (rs ! i) = (if \<forall>d \<in> set (cs_depends_on spec). dep_passed rs i d
          then if fn_passes fs spec then PASS else FAIL else SKIP)" if "i < length rs" for i
    using run_ordered_status [OF run] topo that len by (metis (no_types, lifting))
  then have "cr_name (rs ! i) = ord ! i" if "i < length rs" for i using that by blast
  then have names: "map cr_name rs = ord" by (simp add: list_eq_iff_nth_eq len)
  have "n \<in> set (dict_keys specs)" if "n \<in> set ord" for n
  proof -
    from that obtain i where "i < length rs" "ord ! i = n" using len by (metis in_set_conv_nth)
    with st obtain spec where "dict_get specs n = Some spec" by metis
    then show ?thesis by (rule dict_get_Some_key)
  qed
  then have "set (dict_keys specs) = set (map cr_name rs)" using names topo by auto
  moreover have "distinct (map cr_name rs)" using names topo by (simp add: topological_def)
  moreover have "\<exists>spec. dict_get specs (cr_name (rs ! i)) = Some spec
        \<and> cr_status (rs ! i) = (if \<forall>d \<in> set (cs_depends_on spec). dep_passed rs i d
            then if fn_passes fs spec then PASS else FAIL else SKIP)" if "i < length rs" for i
  proof -
    from st [OF that] obtain spec where "dict_get specs (ord ! i) = Some spec" and nm: "cr_name (rs ! i) = ord ! i"
      and "cr_status (rs ! i) = (if \<forall>d \<in> set (cs_depends_on spec). dep_passed rs i d
          then if fn_passes fs spec then PASS else FAIL else SKIP)" by blast
    then show ?thesis unfolding nm by blast
  qed
  ultimately show ?thesis unfolding Let_def specs_def [symmetric] by blast
qed

lemma visit_list_subset:
  "visit_list specs visiting ns st = Ok st' \<Longrightarrow>
     fst st = set (snd st) \<Longrightarrow> fst st' \<subseteq> fst st \<union> set ns \<union> (\<Union>n. set (deps_of specs n))
       \<and> fst st' = set (snd st')"
proof (induction specs visiting ns st arbitrary: st' rule: visit_list.induct)
  case (2 specs visiting n ns st)
  show ?case
  proof (cases "n \<in> fst st")
    case True
    with 2(4) have "visit_list specs visiting ns st = Ok st'" by simp
    from 2(1) [OF True this 2(5)] show ?thesis by auto
  next
    case False
    with 2(4) obtain st1 where nv: "n \<notin> visiting"
      and st1: "visit_list specs (insert n visiting) (deps_of specs n) st = Ok st1"
      and rest: "visit_list specs visiting ns (insert n (fst st1), snd st1 @ [n]) = Ok st'"
      by (auto simp: result_simps split: if_splits)
    note one = 2(2) [OF False nv st1 2(5)]
    have "fst (insert n (fst st1), snd st1 @ [n]) = set (snd (insert n (fst st1), snd st1 @ [n]))"
      using one by simp
    from 2(3) [OF False nv st1 rest this] one show ?thesis unfolding fst_conv list.set(2) by blast
  qed
qed auto

lemma run_ordered_total:
  "(\<forall>n \<in> set names. n \<in> set (dict_keys specs)) \<Longrightarrow> is_ok (run_ordered specs fs names F)"
proof (induction names arbitrary: F)
  case (Cons n names)
  then obtain spec where "dict_get specs n = Some spec"
    by (cases "dict_get specs n") (auto simp: dict_get_def dict_keys_def map_of_eq_None_iff)
  with Cons show ?case by (force simp: Let_def is_ok_iff result_simps)
qed simp

lemma run_ordered_KeyError:
  "\<not> (\<forall>n \<in> set names. n \<in> set (dict_keys specs)) \<Longrightarrow> run_ordered specs fs names F = Err KeyError"
proof (induction names arbitrary: F)
  case (Cons n names)
  show ?case
  proof (cases "dict_get specs n")
    case (Some spec)
    then have "n \<in> set (dict_keys specs)" by (rule dict_get_Some_key)
    with Cons Some show ?thesis by (simp add: Let_def)
  qed simp
qed simp

text \<open>
  a run of all checks returns results exactly when the dependencies have no cycle and are all
  registered. A cycle ends the run with a \<open>ValueError\<close>, an unregistered dependency with a
  \<open>KeyError\<close>.
\<close>

lemma run_checks_returns:
  "if \<not> acyclic (dep_rel reg) then run_checks iter reg fs None = Err ValueError
   else if (\<Union>n. set (deps_of reg n)) \<subseteq> set (dict_keys reg) then is_ok (run_checks iter reg fs None)
   else run_checks iter reg fs None = Err KeyError"
proof (cases "resolve_order reg")
  case (Inl e)
  then have "e = ValueError" by (auto simp: resolve_order_def result_simps)
  moreover have "\<not> acyclic (dep_rel reg)" using Inl resolve_order_Ok_iff [of reg] by simp
  ultimately show ?thesis using Inl by (simp add: run_checks_def select_specs_def Let_def)
next
  case (Inr ord)
  then have acyc: "acyclic (dep_rel reg)" using resolve_order_Ok_iff [of reg] by simp
  note topo = resolve_order_Ok [OF Inr]
  from Inr obtain st where st: "visit_list reg {} (dict_keys reg) ({}, []) = Ok st" "ord = snd st"
    by (auto simp: resolve_order_def result_simps)
  have sub: "set ord \<subseteq> set (dict_keys reg) \<union> (\<Union>n. set (deps_of reg n))"
    using visit_list_subset [OF st(1)] st(2) by auto
  have run: "run_checks iter reg fs None = run_ordered reg fs ord {}"
    using Inr by (simp add: run_checks_def select_specs_def Let_def)
  show ?thesis
  proof (cases "(\<Union>n. set (deps_of reg n)) \<subseteq> set (dict_keys reg)")
    case True
    then have "\<forall>n \<in> set ord. n \<in> set (dict_keys reg)" using sub by blast
    then show ?thesis using acyc True run_ordered_total by (simp add: run)
  next
    case False
    then obtain n d where d: "d \<in> set (deps_of reg n)" "d \<notin> set (dict_keys reg)" by blast
    then have "n \<in> set (dict_keys reg)" using deps_of_unregistered [of n reg]
      by (cases "n \<in> fst ` set reg") (auto simp: dict_keys_def)
    then have "n \<in> set ord" using topo by blast
    then obtain i where "i < length ord" "ord ! i = n" by (auto simp: in_set_conv_nth)
    then have "d \<in> set ord" using topo d(1) by (auto simp: topological_def dest: in_set_takeD)
    then have "run_ordered reg fs ord {} = Err KeyError" using d(2) by (intro run_ordered_KeyError) blast
    then show ?thesis using acyc False by (simp add: run)
  qed
qed

lemma severity_rank_2: "severity_rank s = 2 \<longleftrightarrow> s = CRITICAL" "severity_rank s = Suc 0 \<longleftrightarrow> s = WARNING"
  "severity_rank s \<le> 2" "Suc 0 = severity_rank s \<longleftrightarrow> s = WARNING"
  by (cases s; simp)+

text \<open>
  the exit code is the rank of the worst severity among the checks that did not pass, and 0
  when all passed.
\<close>

lemma derive_exit_code_max:
  "derive_exit_code results =
     int (Max (insert 0 ((severity_rank \<circ> cr_severity) ` {r \<in> set results. not_passed r})))"
proof -
  let ?S = "insert 0 ((severity_rank \<circ> cr_severity) ` {r \<in> set results. not_passed r})"
  have fin: "finite ?S" by simp
  have le: "k \<le> 2" if "k \<in> ?S" for k using that severity_rank_2(3) by auto
  have two: "2 \<in> ?S \<longleftrightarrow> list_ex (\<lambda>r. not_passed r \<and> cr_severity r = CRITICAL) results"
    by (force simp: list_ex_iff severity_rank_2 image_iff)
  have one: "1 \<in> ?S \<longleftrightarrow> list_ex (\<lambda>r. not_passed r \<and> cr_severity r = WARNING) results"
    unfolding One_nat_def by (force simp: list_ex_iff severity_rank_2 image_iff)
  consider "2 \<in> ?S" | "2 \<notin> ?S" "1 \<in> ?S" | "2 \<notin> ?S" "1 \<notin> ?S" by blast
  then show ?thesis
  proof cases
    case 1
    then have "Max ?S = 2" using fin le by (intro Max_eqI) auto
    then show ?thesis using 1 two by (simp add: derive_exit_code_def)
  next
    case 2
    have "k \<le> 1" if k: "k \<in> ?S" for k
    proof -
      have "k \<noteq> 2" using 2(1) k by blast
      then show ?thesis using le [OF k] by linarith
    qed
    then have "Max ?S = 1" using fin 2(2) by (intro Max_eqI) auto
    then show ?thesis using 2 one two by (simp add: derive_exit_code_def)
  next
    case 3
    have "k = 0" if k: "k \<in> ?S" for k
    proof -
      have "k \<noteq> 2" using 3(1) k by blast
      moreover have "k \<noteq> 1" using 3(2) k by blast
      ultimately show ?thesis using le [OF k] by linarith
    qed
    then have "Max ?S = 0" using fin by (intro Max_eqI) auto
    then show ?thesis using 3 one two by (simp add: derive_exit_code_def)
  qed
qed

section \<open>Which checks do not pass\<close>

text \<open>
  The specification of a run: a check is stopped when it does not pass itself or depends on one
  that is stopped. No order is mentioned.
\<close>

inductive stopped :: "'fs registry \<Rightarrow> 'fs \<Rightarrow> string \<Rightarrow> bool" for reg fs where
  own: "dict_get reg n = Some spec \<Longrightarrow> \<not> fn_passes fs spec \<Longrightarrow> stopped reg fs n"
| dep: "dict_get reg n = Some spec \<Longrightarrow> d \<in> set (cs_depends_on spec) \<Longrightarrow> stopped reg fs d \<Longrightarrow> stopped reg fs n"

inductive_simps stopped_simps: "stopped reg fs n"

lemma stopped_iff:
  "dict_get reg n = Some spec \<Longrightarrow>
     stopped reg fs n \<longleftrightarrow> \<not> fn_passes fs spec \<or> (\<exists>d \<in> set (cs_depends_on spec). stopped reg fs d)"
  by (subst stopped_simps) auto

lemma dep_passed_at:
  assumes "distinct (map cr_name rs)" and "j < i" and "i \<le> length rs"
  shows "dep_passed rs i (cr_name (rs ! j)) \<longleftrightarrow> cr_status (rs ! j) = PASS"
proof
  assume "dep_passed rs i (cr_name (rs ! j))"
  then obtain k where k: "k < i" "cr_name (rs ! k) = cr_name (rs ! j)" "cr_status (rs ! k) = PASS"
    by (auto simp: dep_passed_def)
  then have "k = j" using assms nth_eq_iff_index_eq [of "map cr_name rs" k j] by simp
  with k show "cr_status (rs ! j) = PASS" by simp
qed (use assms in \<open>auto simp: dep_passed_def\<close>)

lemma run_ordered_stopped:
  assumes run: "run_ordered specs fs ord {} = Ok rs" and topo: "topological specs ord" and "i < length ord"
  shows "cr_status (rs ! i) \<noteq> PASS \<longleftrightarrow> stopped specs fs (ord ! i)"
  using assms(3)
proof (induction i rule: less_induct)
  case (less i)
  note st = run_ordered_status [OF run topo]
  have len: "length rs = length ord" using run_ordered_nth [OF run] by simp
  have nm: "cr_name (rs ! j) = ord ! j" if "j < length ord" for j using st [OF that] by blast
  have "map cr_name rs = ord" using len nm by (simp add: list_eq_iff_nth_eq)
  then have dist: "distinct (map cr_name rs)" using topo by (simp add: topological_def)
  obtain spec where spec: "dict_get specs (ord ! i) = Some spec"
    and status: "cr_status (rs ! i) =
         (if \<forall>d \<in> set (cs_depends_on spec). dep_passed rs i d then if fn_passes fs spec then PASS else FAIL else SKIP)"
    using st [OF less.prems] by blast
  have "dep_passed rs i d \<longleftrightarrow> \<not> stopped specs fs d" if d: "d \<in> set (cs_depends_on spec)" for d
  proof -
    have "deps_of specs (ord ! i) = cs_depends_on spec" by (simp add: deps_of_def spec)
    moreover have "set (deps_of specs (ord ! i)) \<subseteq> set (take i ord)"
      using topo less.prems unfolding topological_def by blast
    ultimately have "d \<in> set (take i ord)" using d by auto
    then obtain j where j: "j < i" "ord ! j = d" using less.prems by (auto simp: in_set_conv_nth)
    then have "dep_passed rs i d \<longleftrightarrow> cr_status (rs ! j) = PASS"
      using dep_passed_at [OF dist j(1)] less.prems len nm [of j] by simp
    with less.IH [OF j(1)] j less.prems show ?thesis by auto
  qed
  then show ?case using status by (auto simp: stopped_iff [OF spec])
qed

text \<open>
  A run of all checks refines the specification: every registered check has one result, with its
  severity, and it passes exactly when it is not stopped.
\<close>

lemma run_all_refines:
  assumes "run_checks iter reg fs None = Ok rs"
  shows "set (map cr_name rs) = set (dict_keys reg)" "distinct (map cr_name rs)"
    "r \<in> set rs \<Longrightarrow> (cr_status r = PASS \<longleftrightarrow> \<not> stopped reg fs (cr_name r))
       \<and> (\<exists>spec. dict_get reg (cr_name r) = Some spec \<and> cr_severity r = cs_severity spec)"
proof -
  from assms obtain ord where ord: "resolve_order reg = Ok ord" and run: "run_ordered reg fs ord {} = Ok rs"
    by (auto simp: run_checks_def select_specs_def result_simps Let_def)
  note topo = conjunct1 [OF resolve_order_Ok [OF ord]]
  note st = run_ordered_status [OF run topo]
  have len: "length rs = length ord" using run_ordered_nth [OF run] by simp
  show "r \<in> set rs \<Longrightarrow> (cr_status r = PASS \<longleftrightarrow> \<not> stopped reg fs (cr_name r))
       \<and> (\<exists>spec. dict_get reg (cr_name r) = Some spec \<and> cr_severity r = cs_severity spec)"
  proof -
    assume "r \<in> set rs"
    then obtain i where i: "i < length ord" "r = rs ! i" using len by (auto simp: in_set_conv_nth)
    from st [OF i(1)] obtain spec where "dict_get reg (ord ! i) = Some spec" "cr_name r = ord ! i"
      "cr_severity r = cs_severity spec" unfolding i(2) by blast
    then show ?thesis using run_ordered_stopped [OF run topo i(1)] i(2) by auto
  qed
  note sound = run_checks_sound [OF assms, unfolded Let_def select_specs_def option.case]
  then show "set (map cr_name rs) = set (dict_keys reg)" "distinct (map cr_name rs)" by simp_all
qed

lemma not_passed_iff: "not_passed r \<longleftrightarrow> cr_status r \<noteq> PASS"
  by (cases "cr_status r") (auto simp: not_passed_def)

text \<open>The exit code in terms of the specification.\<close>

lemma run_all_exit_code:
  assumes run: "run_checks iter reg fs None = Ok rs"
  shows "derive_exit_code rs =
     (if \<exists>n spec. dict_get reg n = Some spec \<and> stopped reg fs n \<and> cs_severity spec = CRITICAL then 2
      else if \<exists>n spec. dict_get reg n = Some spec \<and> stopped reg fs n \<and> cs_severity spec = WARNING then 1 else 0)"
proof -
  note ref = run_all_refines [OF run]
  have ex: "list_ex (\<lambda>r. not_passed r \<and> cr_severity r = sev) rs
    \<longleftrightarrow> (\<exists>n spec. dict_get reg n = Some spec \<and> stopped reg fs n \<and> cs_severity spec = sev)" for sev
  proof
    assume "list_ex (\<lambda>r. not_passed r \<and> cr_severity r = sev) rs"
    then obtain r where "r \<in> set rs" "cr_status r \<noteq> PASS" "cr_severity r = sev"
      by (auto simp: list_ex_iff not_passed_iff)
    with ref(3) show "\<exists>n spec. dict_get reg n = Some spec \<and> stopped reg fs n \<and> cs_severity spec = sev" by metis
  next
    assume "\<exists>n spec. dict_get reg n = Some spec \<and> stopped reg fs n \<and> cs_severity spec = sev"
    then obtain n spec where n: "dict_get reg n = Some spec" "stopped reg fs n" "cs_severity spec = sev" by blast
    then have "n \<in> set (map cr_name rs)" using ref(1) dict_get_Some_key [OF n(1)] by simp
    then obtain r where "r \<in> set rs" "n = cr_name r" by auto
    with ref(3) [of r] n show "list_ex (\<lambda>r. not_passed r \<and> cr_severity r = sev) rs"
      by (auto simp: list_ex_iff not_passed_iff intro!: bexI [of _ r])
  qed
  show ?thesis unfolding derive_exit_code_def ex ..
qed

lemma acyclic_by_rank:
  assumes "\<And>n d. d \<in> set (deps_of reg n) \<Longrightarrow> f d < (f n :: nat)"
  shows "acyclic (dep_rel reg)"
proof -
  have "(dep_rel reg)\<inverse> \<subseteq> measure f" using assms by (auto simp: dep_rel_def)
  then have "wf ((dep_rel reg)\<inverse>)" by (rule wf_subset [OF wf_measure])
  then show ?thesis by (metis acyclic_converse wf_acyclic)
qed

end
