(* ===== verification/PyFloat.thy ===== *)
theory PyFloat
  imports Prelude
begin

text \<open>
  Python's \<open>float\<close>: IEEE 754 binary64, with finite values as the rationals they denote. Every
  arithmetic operation computes exactly and rounds once, to nearest with ties to even, with 53 bits
  of precision, gradual underflow at \<open>2 powi (-1074)\<close> and overflow to infinity; NaN and the
  infinities propagate as IEEE 754 prescribes and every comparison with NaN is false. The sign of
  zero is not kept: no code modelled here depends on it.
  The lemmas bound the rounding error and show that representable values are not rounded at all.
\<close>

section \<open>Rounding\<close>

text \<open>The position of the leading bit of a positive integer.\<close>

function bits :: "int \<Rightarrow> int" where
  "bits n = (if n \<le> 1 then 0 else 1 + bits (n div 2))"
  by pat_completeness auto
termination
  by (relation "measure nat") auto

declare bits.simps [simp del]

lemma bits_nonneg: "0 \<le> bits n"
proof (induction n rule: bits.induct)
  case (1 n)
  then show ?case by (subst bits.simps) simp
qed

lemma bits_bounds:
  "0 < n \<Longrightarrow> 2 powi bits n \<le> (of_int n :: rat) \<and> (of_int n :: rat) + 1 \<le> 2 * 2 powi bits n"
proof (induction n rule: bits.induct)
  case (1 n)
  show ?case
  proof (cases "n \<le> 1")
    case True
    then have "n = 1" using "1.prems" by simp
    then show ?thesis by (simp add: bits.simps [of 1])
  next
    case False
    define k where "k = n div 2"
    define p where "p = (2::rat) powi bits k"
    have "0 < k" using False by (simp add: k_def)
    with False 1 have p: "p \<le> of_int k" "of_int k + 1 \<le> 2 * p" by (simp_all add: k_def p_def)
    have "2 * k \<le> n" "n + 1 \<le> 2 * (k + 1)" unfolding k_def by presburger+
    then have "(of_int (2 * k) :: rat) \<le> of_int n" "(of_int (n + 1) :: rat) \<le> of_int (2 * (k + 1))"
      by (simp_all only: of_int_le_iff)
    then have k: "2 * (of_int k :: rat) \<le> of_int n" "of_int n + 1 \<le> 2 * ((of_int k :: rat) + 1)"
      by simp_all
    have n2: "2 powi bits n = 2 * p"
      using False bits_nonneg [of k]
      by (simp add: bits.simps [of n] k_def [symmetric] p_def power_int_add)
    have "2 * p \<le> of_int n" using p(1) k(1) by simp
    moreover have "of_int n + 1 \<le> 2 * (2 * p)"
      by (rule order_trans [OF k(2)], rule mult_left_mono [OF p(2)]) simp
    ultimately show ?thesis unfolding n2 by simp
  qed
qed

lemma pow2_less: "(2::rat) powi m < 2 powi n \<Longrightarrow> m < n"
  by (meson leD leI one_le_numeral power_int_increasing zero_neq_numeral)

text \<open>The exponent of the leading bit of a positive rational.\<close>

definition ilog2 :: "rat \<Rightarrow> int" where
  "ilog2 x = (if 1 \<le> x then bits \<lfloor>x\<rfloor> else - (bits (\<lceil>1 / x\<rceil> - 1) + 1))"

lemma ilog2_bounds:
  assumes "0 < x"
  shows "2 powi ilog2 x \<le> x" and "x < 2 powi (ilog2 x + 1)"
proof -
  have "2 powi ilog2 x \<le> x \<and> x < 2 powi (ilog2 x + 1)"
  proof (cases "1 \<le> x")
    case True
    define f where "f = \<lfloor>x\<rfloor>"
    have "0 < f" using True by (simp add: f_def)
    from bits_bounds [OF this]
    have "2 powi bits f \<le> (of_int f :: rat)" "(of_int f :: rat) + 1 \<le> 2 * 2 powi bits f" by simp_all
    moreover have "of_int f \<le> x" "x < of_int f + 1" using floor_correct [of x] by (simp_all add: f_def)
    moreover have f1: "(2::rat) powi (bits f + 1) = 2 * 2 powi bits f" by (simp add: power_int_add)
    moreover have il: "ilog2 x = bits f" using True by (simp add: ilog2_def f_def)
    ultimately show ?thesis unfolding il f1 by (intro conjI) linarith+
  next
    case False
    define c where "c = \<lceil>1 / x\<rceil> - 1"
    have "1 < 1 / x" using False assms by simp
    then have "0 < c" by (simp add: c_def)
    from bits_bounds [OF this] have b: "2 powi bits c \<le> (of_int c :: rat)"
      "(of_int c :: rat) + 1 \<le> 2 * 2 powi bits c" by simp_all
    have "of_int c < 1 / x" "1 / x \<le> of_int c + 1"
      using ceiling_correct [of "1 / x"] by (simp_all add: c_def)
    with b have "2 powi bits c < 1 / x" "1 / x \<le> 2 * 2 powi bits c" by linarith+
    then have "x < inverse (2 powi bits c)" "inverse (2 * 2 powi bits c) \<le> x"
      using assms by (simp_all add: field_simps)
    moreover have "(2::rat) powi (- bits c) = inverse (2 powi bits c)" by (simp add: power_int_minus)
    moreover have "(2::rat) powi (- (bits c + 1)) = inverse (2 * 2 powi bits c)"
      unfolding power_int_minus by (simp add: power_int_add mult.commute)
    ultimately show ?thesis using False by (simp add: ilog2_def c_def)
  qed
  then show "2 powi ilog2 x \<le> x" and "x < 2 powi (ilog2 x + 1)" by simp_all
qed

lemma floor_rat_eval:
  "\<lfloor>numeral a / numeral b :: rat\<rfloor> = numeral a div numeral b"
  "\<lfloor>1 / numeral b :: rat\<rfloor> = 1 div numeral b"
  "\<lfloor>- (numeral a / numeral b) :: rat\<rfloor> = - numeral a div numeral b"
  "\<lfloor>- (1 / numeral b) :: rat\<rfloor> = - 1 div numeral b"
  using floor_divide_of_int_eq [of "numeral a" "numeral b", where 'a = rat]
    floor_divide_of_int_eq [of 1 "numeral b", where 'a = rat]
    floor_divide_of_int_eq [of "- numeral a" "numeral b", where 'a = rat]
    floor_divide_of_int_eq [of "- 1" "numeral b", where 'a = rat]
  by simp_all

lemma ceiling_rat_eval: "\<lceil>x :: rat\<rceil> = - \<lfloor>- x\<rfloor>"
  by (rule ceiling_def)

text \<open>Rounding a rational to the nearest integer, ties to even.\<close>

definition rhe :: "rat \<Rightarrow> int" where
  "rhe x =
     (let f = \<lfloor>x\<rfloor>; r = x - of_int f
      in if r < 1 / 2 then f else if r > 1 / 2 then f + 1 else if even f then f else f + 1)"

lemma rhe_of_int [simp]: "rhe (of_int n) = n"
  by (simp add: rhe_def)

lemma rhe_error: "\<bar>of_int (rhe x) - x\<bar> \<le> 1 / 2"
proof -
  define g where "g = (of_int \<lfloor>x\<rfloor> :: rat)"
  have g: "g \<le> x" "x < g + 1" using floor_correct [of x] by (simp_all add: g_def)
  have "of_int (rhe x) = (if x - g < 1 / 2 then g else if x - g > 1 / 2 then g + 1
      else if even \<lfloor>x\<rfloor> then g else g + 1)"
    by (simp add: rhe_def Let_def g_def)
  then show ?thesis using g by (simp add: abs_if)
qed

lemma rhe_mono: "x \<le> y \<Longrightarrow> rhe x \<le> rhe y"
proof -
  assume le: "x \<le> y"
  then have f: "\<lfloor>x\<rfloor> \<le> \<lfloor>y\<rfloor>" by (rule floor_mono)
  show ?thesis
  proof (cases "\<lfloor>x\<rfloor> = \<lfloor>y\<rfloor>")
    case True
    then show ?thesis using le by (auto simp: rhe_def Let_def)
  next
    case False
    then have "\<lfloor>x\<rfloor> + 1 \<le> \<lfloor>y\<rfloor>" using f by linarith
    then show ?thesis by (auto simp: rhe_def Let_def)
  qed
qed

text \<open>The exponent of the last place of the binary64 numbers around \<open>x\<close>, and the rounding.\<close>

definition ulp_exp :: "rat \<Rightarrow> int" where
  "ulp_exp x = (if x = 0 then - 1074 else max (ilog2 \<bar>x\<bar> - 52) (- 1074))"

definition fl :: "rat \<Rightarrow> rat" where
  "fl x = of_int (rhe (x / 2 powi ulp_exp x)) * 2 powi ulp_exp x"

lemma fl_0 [simp]: "fl 0 = 0"
  using rhe_of_int [of 0] by (simp add: fl_def)

lemma fl_error: "\<bar>fl x - x\<bar> \<le> 2 powi (ulp_exp x) / 2"
proof -
  define q where "q = (2::rat) powi ulp_exp x"
  have q: "0 < q" by (simp add: q_def)
  have "fl x - x = (of_int (rhe (x / q)) - x / q) * q"
    using q by (simp add: fl_def q_def [symmetric] field_simps)
  then have "\<bar>fl x - x\<bar> = \<bar>of_int (rhe (x / q)) - x / q\<bar> * q" using q by (simp add: abs_mult)
  also have "\<dots> \<le> 1 / 2 * q" using rhe_error q by (intro mult_right_mono) simp_all
  finally show ?thesis by (simp add: q_def)
qed

text \<open>Away from the subnormal range the relative error is at most \<open>2 powi (-53)\<close>.\<close>

lemma fl_rel_error:
  assumes "2 powi (- 1022) \<le> \<bar>x\<bar>"
  shows "\<bar>fl x - x\<bar> \<le> \<bar>x\<bar> / 2 ^ 53"
proof -
  have pos: "0 < \<bar>x\<bar>" using assms by (auto dest: order.strict_trans2 [rotated])
  have "2 powi (- 1022) < (2::rat) powi (ilog2 \<bar>x\<bar> + 1)"
    using assms ilog2_bounds(2) [OF pos] by linarith
  then have "- 1022 < ilog2 \<bar>x\<bar> + 1" by (rule pow2_less)
  then have e: "ulp_exp x = ilog2 \<bar>x\<bar> - 52" using pos by (auto simp: ulp_exp_def)
  have "2 powi (ulp_exp x) / 2 = (2::rat) powi (ilog2 \<bar>x\<bar>) / 2 ^ 53"
    by (simp add: e power_int_diff)
  also have "\<dots> \<le> \<bar>x\<bar> / 2 ^ 53" using ilog2_bounds(1) [OF pos] by (intro divide_right_mono) simp_all
  finally show ?thesis using fl_error [of x] by linarith
qed

text \<open>A bound that covers the subnormal range too.\<close>

lemma fl_abs_error: "\<bar>fl x - x\<bar> \<le> \<bar>x\<bar> / 2 ^ 53 + 2 powi (- 1075)"
proof (cases "2 powi (- 1022) \<le> \<bar>x\<bar>")
  case True
  then have "\<bar>fl x - x\<bar> \<le> \<bar>x\<bar> / 2 ^ 53" by (rule fl_rel_error)
  moreover have "(0::rat) \<le> 2 powi (- 1075)" by simp
  ultimately show ?thesis by linarith
next
  case False
  have "ulp_exp x = - 1074"
  proof (cases "x = 0")
    case nz: False
    then have pos: "0 < \<bar>x\<bar>" by simp
    have "(2::rat) powi ilog2 \<bar>x\<bar> < 2 powi (- 1022)" using ilog2_bounds(1) [OF pos] False by linarith
    then have "ilog2 \<bar>x\<bar> < - 1022" by (rule pow2_less)
    then show ?thesis using nz by (simp add: ulp_exp_def)
  qed (simp add: ulp_exp_def)
  then have "\<bar>fl x - x\<bar> \<le> 2 powi (- 1074) / 2" using fl_error [of x] by simp
  also have "\<dots> = (2::rat) powi (- 1075)"
    using power_int_diff [of "2::rat" "- 1074" 1] by simp
  finally show ?thesis by (simp add: add_increasing)
qed

text \<open>The finite binary64 numbers: an integer below \<open>2 ^ 53\<close> times a power of two.\<close>

definition is_b64 :: "rat \<Rightarrow> bool" where
  "is_b64 x \<longleftrightarrow> (\<exists>m e. x = of_int m * 2 powi e \<and> \<bar>m\<bar> < 2 ^ 53 \<and> - 1074 \<le> e)"

lemma is_b64_int: "\<bar>n\<bar> < 2 ^ 53 \<Longrightarrow> is_b64 (of_int n)"
  unfolding is_b64_def by (rule exI [of _ n], rule exI [of _ 0]) simp

lemma fl_exact: "is_b64 x \<Longrightarrow> fl x = x"
proof (cases "x = 0")
  case nz: False
  assume "is_b64 x"
  then obtain m e where x: "x = of_int m * 2 powi e" and m: "\<bar>m\<bar> < 2 ^ 53" and e: "- 1074 \<le> e"
    by (auto simp: is_b64_def)
  have pos: "0 < \<bar>x\<bar>" using nz by simp
  have "(of_int \<bar>m\<bar> :: rat) < 2 ^ 53" using m by (metis of_int_less_iff of_int_numeral of_int_power)
  then have "\<bar>x\<bar> < 2 ^ 53 * 2 powi e" by (simp add: x abs_mult)
  also have "\<dots> = 2 powi (53 + e)" by (simp add: power_int_add)
  finally have "2 powi ilog2 \<bar>x\<bar> < (2::rat) powi (53 + e)" using ilog2_bounds(1) [OF pos] by linarith
  then have "ilog2 \<bar>x\<bar> < 53 + e" by (rule pow2_less)
  then have u: "ulp_exp x \<le> e" using nz e by (auto simp: ulp_exp_def)
  define u where "u = ulp_exp x"
  define n where "n = m * 2 ^ nat (e - u)"
  have "(2::rat) powi e = 2 powi (e - u) * 2 powi u" by (simp add: power_int_diff)
  moreover have "(2::rat) powi (e - u) = 2 ^ nat (e - u)"
    using u by (simp add: u_def power_int_def)
  ultimately have "x = of_int n * 2 powi u" by (simp add: x n_def)
  then have "x / 2 powi u = of_int n" by simp
  then have "fl x = of_int n * 2 powi u" by (simp add: fl_def u_def [symmetric])
  then show ?thesis using \<open>x = of_int n * 2 powi u\<close> by simp
qed simp

lemma fl_of_int [simp]: "\<bar>n\<bar> < 2 ^ 53 \<Longrightarrow> fl (of_int n) = of_int n"
  by (rule fl_exact [OF is_b64_int])

text \<open>Rounding does not fall below an integer it starts above.\<close>

lemma fl_ge_int:
  assumes "0 \<le> n" "n < 2 ^ 53" and "of_int n \<le> x"
  shows "of_int n \<le> fl x"
proof (cases "n = 0 \<and> x = 0")
  case False
  then have pos: "0 < x" using assms by (metis le_less of_int_0_le_iff order_trans of_int_eq_0_iff antisym)
  define u where "u = ulp_exp x"
  define q where "q = (2::rat) powi u"
  have q: "0 < q" by (simp add: q_def)
  show ?thesis
  proof (cases "u \<le> 0")
    case True
    have "q = 1 / 2 ^ nat (- u)" using True by (simp add: q_def power_int_def divide_simps)
    then have k: "of_int n / q = of_int (n * 2 ^ nat (- u))" by simp
    have "of_int n / q \<le> x / q" using assms(3) q by (simp add: divide_right_mono)
    then have "n * 2 ^ nat (- u) \<le> rhe (x / q)" using rhe_mono [of "of_int n / q" "x / q"] unfolding k by (metis rhe_of_int)
    then have "of_int n / q \<le> of_int (rhe (x / q))" unfolding k by (simp only: of_int_le_iff)
    then show ?thesis using q by (simp add: fl_def u_def [symmetric] q_def [symmetric] pos_divide_le_eq)
  next
    case False
    then have e: "ilog2 x = u + 52" using pos by (auto simp: u_def ulp_exp_def max_def split: if_splits)
    have "2 powi (u + 52) \<le> x" using ilog2_bounds(1) [OF pos] e by simp
    then have "(2::rat) ^ 52 \<le> x / q" using q by (simp add: q_def power_int_add pos_le_divide_eq mult.commute)
    then have "2 ^ 52 \<le> rhe (x / q)" using rhe_mono [of "of_int (2 ^ 52)" "x / q"] rhe_of_int [of "2 ^ 52"] by simp
    then have r: "(2::rat) ^ 52 \<le> of_int (rhe (x / q))" by (metis of_int_le_iff of_int_numeral of_int_power)
    have "(2::rat) powi 1 \<le> q" unfolding q_def using False by (intro power_int_increasing) simp_all
    then have "(2::rat) ^ 52 * 2 \<le> of_int (rhe (x / q)) * q" using r by (intro mult_mono) simp_all
    moreover have "(of_int n :: rat) < 2 ^ 53" using assms(2) by (metis of_int_less_iff of_int_numeral of_int_power)
    ultimately show ?thesis by (simp add: fl_def u_def [symmetric] q_def [symmetric])
  qed
qed simp

section \<open>Values and operations\<close>

datatype pyfloat = Fin rat | PInf | NInf | NaN

definition rnd :: "rat \<Rightarrow> pyfloat" where
  "rnd x = (let y = fl x in if 2 ^ 1024 \<le> y then PInf else if y \<le> - (2 ^ 1024) then NInf else Fin y)"

definition fint :: "int \<Rightarrow> pyfloat" where "fint n = Fin (of_int n)"

fun fneg :: "pyfloat \<Rightarrow> pyfloat" where
  "fneg (Fin x) = Fin (- x)"
| "fneg PInf = NInf"
| "fneg NInf = PInf"
| "fneg NaN = NaN"

fun fadd :: "pyfloat \<Rightarrow> pyfloat \<Rightarrow> pyfloat" where
  "fadd (Fin x) (Fin y) = rnd (x + y)"
| "fadd NaN b = NaN"
| "fadd a NaN = NaN"
| "fadd PInf NInf = NaN"
| "fadd NInf PInf = NaN"
| "fadd PInf b = PInf"
| "fadd NInf b = NInf"
| "fadd a PInf = PInf"
| "fadd a NInf = NInf"

definition fsub :: "pyfloat \<Rightarrow> pyfloat \<Rightarrow> pyfloat" where "fsub a b = fadd a (fneg b)"

definition inf_of_sign :: "rat \<Rightarrow> pyfloat" where
  "inf_of_sign s = (if 0 < s then PInf else if s < 0 then NInf else NaN)"

fun fmul :: "pyfloat \<Rightarrow> pyfloat \<Rightarrow> pyfloat" where
  "fmul (Fin x) (Fin y) = rnd (x * y)"
| "fmul NaN b = NaN"
| "fmul a NaN = NaN"
| "fmul (Fin x) PInf = inf_of_sign x"
| "fmul (Fin x) NInf = inf_of_sign (- x)"
| "fmul PInf (Fin y) = inf_of_sign y"
| "fmul NInf (Fin y) = inf_of_sign (- y)"
| "fmul PInf PInf = PInf"
| "fmul NInf NInf = PInf"
| "fmul PInf NInf = NInf"
| "fmul NInf PInf = NInf"

text \<open>The quotient by a divisor that is not zero; Python's \<open>/\<close> raises on a zero divisor.\<close>

fun fquot :: "pyfloat \<Rightarrow> pyfloat \<Rightarrow> pyfloat" where
  "fquot (Fin x) (Fin y) = rnd (x / y)"
| "fquot NaN b = NaN"
| "fquot a NaN = NaN"
| "fquot (Fin x) PInf = Fin 0"
| "fquot (Fin x) NInf = Fin 0"
| "fquot PInf (Fin y) = inf_of_sign y"
| "fquot NInf (Fin y) = inf_of_sign (- y)"
| "fquot a b = NaN"

definition fdiv :: "pyfloat \<Rightarrow> pyfloat \<Rightarrow> (pyexc, pyfloat) result" where
  "fdiv a b = (if b = Fin 0 then Err ZeroDivisionError else Ok (fquot a b))"

fun fabs :: "pyfloat \<Rightarrow> pyfloat" where
  "fabs (Fin x) = Fin \<bar>x\<bar>"
| "fabs NaN = NaN"
| "fabs PInf = PInf"
| "fabs NInf = PInf"

fun flt :: "pyfloat \<Rightarrow> pyfloat \<Rightarrow> bool" where
  "flt (Fin x) (Fin y) = (x < y)"
| "flt NaN b = False"
| "flt a NaN = False"
| "flt PInf b = False"
| "flt a NInf = False"
| "flt a b = True"

fun fle :: "pyfloat \<Rightarrow> pyfloat \<Rightarrow> bool" where
  "fle (Fin x) (Fin y) = (x \<le> y)"
| "fle NaN b = False"
| "fle a NaN = False"
| "fle NInf b = True"
| "fle a PInf = True"
| "fle a b = False"

abbreviation fgt :: "pyfloat \<Rightarrow> pyfloat \<Rightarrow> bool" where "fgt a b \<equiv> flt b a"
abbreviation fge :: "pyfloat \<Rightarrow> pyfloat \<Rightarrow> bool" where "fge a b \<equiv> fle b a"

text \<open>\<open>==\<close>: NaN differs from everything, itself included.\<close>

definition feq :: "pyfloat \<Rightarrow> pyfloat \<Rightarrow> bool" where
  "feq a b \<longleftrightarrow> a = b \<and> a \<noteq> NaN"

definition is_finite :: "pyfloat \<Rightarrow> bool" where
  "is_finite a \<longleftrightarrow> (\<exists>x. a = Fin x)"

definition trunc :: "rat \<Rightarrow> int" where
  "trunc x = (if x < 0 then \<lceil>x\<rceil> else \<lfloor>x\<rfloor>)"

text \<open>\<open>int(x)\<close> and \<open>float(n)\<close>.\<close>

fun int_of_float :: "pyfloat \<Rightarrow> (pyexc, int) result" where
  "int_of_float (Fin x) = Ok (trunc x)"
| "int_of_float NaN = Err ValueError"
| "int_of_float PInf = Err OverflowError"
| "int_of_float NInf = Err OverflowError"

definition float_of_int :: "int \<Rightarrow> (pyexc, pyfloat) result" where
  "float_of_int n = (case rnd (of_int n) of Fin x \<Rightarrow> Ok (Fin x) | _ \<Rightarrow> Err OverflowError)"

text \<open>\<open>round(x, n)\<close>: the decimal nearest to the exact value, then the nearest float.\<close>

fun fround :: "nat \<Rightarrow> pyfloat \<Rightarrow> pyfloat" where
  "fround n (Fin x) = rnd (of_int (rhe (x * 10 ^ n)) / 10 ^ n)"
| "fround n a = a"

lemmas float_eval = rnd_def fl_def ulp_exp_def ilog2_def rhe_def bits.simps Let_def trunc_def
  floor_rat_eval ceiling_rat_eval fsub_def

lemma trunc_error: "\<bar>of_int (trunc x) - x\<bar> < 1"
proof (cases "x < 0")
  case True
  define c where "c = (of_int \<lceil>x\<rceil> :: rat)"
  have "x \<le> c" "c < x + 1" using ceiling_correct [of x] by (simp_all add: c_def)
  with True show ?thesis by (simp add: trunc_def abs_if c_def [symmetric])
next
  case False
  define c where "c = (of_int \<lfloor>x\<rfloor> :: rat)"
  have "c \<le> x" "x < c + 1" using floor_correct [of x] by (simp_all add: c_def)
  with False show ?thesis by (simp add: trunc_def abs_if c_def [symmetric])
qed

lemma trunc_of_int [simp]: "trunc (of_int n) = n"
  by (simp add: trunc_def)

lemma rnd_finite: "\<bar>fl x\<bar> < 2 ^ 1024 \<Longrightarrow> rnd x = Fin (fl x)"
  by (auto simp: rnd_def Let_def)

lemma fl_close: "\<bar>fl x - x\<bar> \<le> \<bar>x\<bar> / 2 ^ 53 + 1 / 10 ^ 12"
proof -
  have "(2::rat) powi (- 1075) = 1 / 2 ^ 1075" by (simp add: power_int_def field_simps)
  also have "\<dots> \<le> 1 / 2 ^ 40" by (intro divide_left_mono power_increasing) auto
  also have "\<dots> \<le> 1 / 10 ^ 12" by simp
  finally show ?thesis using fl_abs_error [of x] by linarith
qed

lemma rnd_cases: "rnd x = PInf \<or> rnd x = NInf \<or> rnd x = Fin (fl x)"
  by (simp add: rnd_def Let_def)

lemma rnd_0 [simp]: "rnd 0 = Fin 0"
  by (simp add: rnd_def)

lemma fl_bounded: "\<bar>x\<bar> \<le> 2 ^ 100 \<Longrightarrow> \<bar>fl x\<bar> < 2 ^ 102"
proof -
  assume x: "\<bar>x\<bar> \<le> 2 ^ 100"
  have "\<bar>x\<bar> / 2 ^ 53 \<le> \<bar>x\<bar>" by (simp add: field_simps)
  moreover have "(2::rat) powi (- 1075) \<le> 1" by (simp add: power_int_minus field_simps)
  ultimately have "\<bar>fl x - x\<bar> \<le> \<bar>x\<bar> + 1" using fl_abs_error [of x] by linarith
  then have "\<bar>fl x\<bar> \<le> 2 * \<bar>x\<bar> + 1" by linarith
  then show ?thesis using x by simp
qed


text \<open>Rounding and the operations are symmetric in the sign.\<close>

lemma rhe_minus: "rhe (- x) = - rhe x"
proof (cases "x \<in> \<int>")
  case True
  then obtain n where "x = of_int n" by (auto elim: Ints_cases)
  then show ?thesis using rhe_of_int [of "- n"] by simp
next
  case False
  define f where "f = \<lfloor>x\<rfloor>"
  have fl: "\<lfloor>- x\<rfloor> = - f - 1"
  proof -
    have "x \<noteq> of_int f" using False by (metis Ints_of_int)
    then have "\<lceil>x\<rceil> = f + 1" by (simp add: ceiling_altdef f_def)
    then show ?thesis by (simp add: floor_minus)
  qed
  show ?thesis unfolding rhe_def Let_def fl f_def [symmetric] by (auto simp: algebra_simps)
qed

lemma fl_minus: "fl (- x) = - fl x"
proof -
  have "ulp_exp (- x) = ulp_exp x" by (simp add: ulp_exp_def)
  then show ?thesis by (simp add: fl_def rhe_minus)
qed

lemma rnd_minus: "rnd (- x) = fneg (rnd x)"
proof -
  define B :: rat where "B = 2 ^ 1024"
  have "0 < B" by (simp add: B_def)
  then show ?thesis unfolding rnd_def fl_minus Let_def B_def [symmetric] by auto
qed

lemma fsub_fneg: "fsub (fneg a) (fneg b) = fneg (fsub a b)"
  using rnd_minus by (cases a; cases b) (simp_all add: fsub_def, metis minus_diff_eq)

lemma fquot_fneg: "b \<noteq> PInf \<Longrightarrow> b \<noteq> NInf \<Longrightarrow> fquot (fneg a) b = fneg (fquot a b)"
  using rnd_minus by (cases a; cases b) (auto simp: inf_of_sign_def)

end
