(* ===== verification/PoseIpc.thy ===== *)
theory PoseIpc
  imports PyFloat "HOL-Library.Word"
begin

text \<open>
  The pose link from the SLAM node: frame conversion (\<open>vslam/frames.py\<close>) and the wire format and
  reader of \<open>vslam/ipc.py\<close>. A pose message is 118 bytes, little endian: an unsigned 64-bit time, 27
  binary32 floats and two bytes. \<open>struct\<close> is modelled on bytes; a socket is what its successive
  reads deliver.
\<close>

type_synonym byte = "8 word"

section \<open>Frames\<close>

type_synonym pose6 = "pyfloat \<times> pyfloat \<times> pyfloat \<times> pyfloat \<times> pyfloat \<times> pyfloat"
type_synonym vec3 = "pyfloat \<times> pyfloat \<times> pyfloat"

fun flu_to_ned_pose :: "pose6 \<Rightarrow> pose6" where
  "flu_to_ned_pose (x, y, z, roll, pitch, yaw) = (x, fneg y, fneg z, roll, fneg pitch, fneg yaw)"

fun flu_to_ned_velocity :: "vec3 \<Rightarrow> vec3" where
  "flu_to_ned_velocity (vx, vy, vz) = (vx, fneg vy, fneg vz)"

section \<open>Binary32\<close>

text \<open>The bit pattern of a value rounded to binary32; \<open>struct.pack\<close> raises on overflow.\<close>

definition f32_exp :: "rat \<Rightarrow> int" where
  "f32_exp x = (if x = 0 then - 149 else max (ilog2 x - 23) (- 149))"

definition f32_magnitude :: "rat \<Rightarrow> int" where
  "f32_magnitude x = (f32_exp x + 149) * 2 ^ 23 + rhe (x / 2 powi f32_exp x)"

fun encode_f32 :: "pyfloat \<Rightarrow> (pyexc, 32 word) result" where
  "encode_f32 (Fin x) =
     (if 255 * 2 ^ 23 \<le> f32_magnitude \<bar>x\<bar> then Err OverflowError
      else Ok (word_of_int (f32_magnitude \<bar>x\<bar> + (if x < 0 then 2 ^ 31 else 0))))"
| "encode_f32 PInf = Ok (word_of_int (255 * 2 ^ 23))"
| "encode_f32 NInf = Ok (word_of_int (511 * 2 ^ 23))"
| "encode_f32 NaN = Ok (word_of_int (255 * 2 ^ 23 + 2 ^ 22))"

definition f32_value :: "int \<Rightarrow> rat" where
  "f32_value m =
     (let e = m div 2 ^ 23; f = m mod 2 ^ 23
      in if e = 0 then of_int f * 2 powi (- 149) else of_int (f + 2 ^ 23) * 2 powi (e - 150))"

definition decode_f32 :: "32 word \<Rightarrow> pyfloat" where
  "decode_f32 w =
     (let n = uint w; m = n mod 2 ^ 31; neg = (2 ^ 31 \<le> n)
      in if 255 * 2 ^ 23 < m then NaN
         else if m = 255 * 2 ^ 23 then (if neg then NInf else PInf)
         else Fin (if neg then - f32_value m else f32_value m))"

section \<open>Bytes\<close>

fun le_bytes :: "nat \<Rightarrow> nat \<Rightarrow> byte list" where
  "le_bytes 0 n = []"
| "le_bytes (Suc k) n = word_of_nat n # le_bytes k (n div 256)"

fun of_le :: "byte list \<Rightarrow> nat" where
  "of_le [] = 0"
| "of_le (b # bs) = unat b + 256 * of_le bs"

fun chunks4 :: "nat \<Rightarrow> byte list \<Rightarrow> byte list list" where
  "chunks4 0 bs = []"
| "chunks4 (Suc k) bs = take 4 bs # chunks4 k (drop 4 bs)"

section \<open>Pose messages\<close>

record pose_msg =
  timestamp_us :: "64 word"
  pm_pose :: pose6
  pm_covariance :: "pyfloat list"
  pm_confidence :: byte
  pm_reset_counter :: byte

definition POSE_STRUCT_SIZE :: nat where "POSE_STRUCT_SIZE = 118"

definition pose_floats :: "pose_msg \<Rightarrow> pyfloat list" where
  "pose_floats m = (case pm_pose m of (x, y, z, roll, pitch, yaw) \<Rightarrow> [x, y, z, roll, pitch, yaw] @ pm_covariance m)"

definition from_bytes :: "byte list \<Rightarrow> (pyexc, pose_msg) result" where
  "from_bytes bs =
     (if length bs \<noteq> POSE_STRUCT_SIZE then Err ValueError
      else (let fs = map (\<lambda>c. decode_f32 (word_of_nat (of_le c))) (chunks4 27 (drop 8 bs))
            in Ok \<lparr>timestamp_us = word_of_nat (of_le (take 8 bs)),
                   pm_pose = (fs ! 0, fs ! 1, fs ! 2, fs ! 3, fs ! 4, fs ! 5),
                   pm_covariance = drop 6 fs,
                   pm_confidence = bs ! 116, pm_reset_counter = bs ! 117\<rparr>))"

text \<open>\<open>struct.pack\<close> takes 30 values; another number of covariance elements is an error.\<close>

definition to_bytes :: "pose_msg \<Rightarrow> (pyexc, byte list) result" where
  "to_bytes m =
     (if length (pm_covariance m) \<noteq> 21 then Err ValueError
      else bindr (mapr encode_f32 (pose_floats m)) (\<lambda>ws.
        Ok (le_bytes 8 (unat (timestamp_us m)) @ concat (map (\<lambda>w. le_bytes 4 (unat w)) ws)
            @ [pm_confidence m, pm_reset_counter m])))"

section \<open>Reader\<close>

text \<open>What a read of the socket delivers: some bytes (none at the end of the stream), or an error.\<close>

datatype sock_event = Chunk "byte list" | SockError

text \<open>
  \<open>_recv_exact\<close>: a read asks for the bytes still missing, and what a chunk holds beyond them stays
  for the next read. \<open>None\<close>: the reader is still waiting; \<open>Inl\<close>: the connection is lost.
\<close>

fun recv_exact ::
  "nat \<Rightarrow> byte list \<Rightarrow> sock_event list \<Rightarrow> ((unit, byte list) result \<times> sock_event list) option" where
  "recv_exact n buf [] = (if n \<le> length buf then Some (Ok buf, []) else None)"
| "recv_exact n buf (ev # evs) =
     (if n \<le> length buf then Some (Ok buf, ev # evs)
      else (case ev of
          SockError \<Rightarrow> Some (Err (), evs)
        | Chunk bs \<Rightarrow>
            if bs = [] then Some (Err (), evs)
            else if length bs \<le> n - length buf then recv_exact n (buf @ bs) evs
            else Some (Ok (buf @ take (n - length buf) bs), Chunk (drop (n - length buf) bs) # evs)))"

definition event_bytes :: "sock_event \<Rightarrow> byte list" where
  "event_bytes ev = (case ev of Chunk bs \<Rightarrow> bs | SockError \<Rightarrow> [])"

definition stream_bytes :: "sock_event list \<Rightarrow> byte list" where
  "stream_bytes evs = concat (map event_bytes evs)"

lemma stream_bytes_simps [simp]:
  "stream_bytes [] = []" "stream_bytes (Chunk bs # evs) = bs @ stream_bytes evs"
  "stream_bytes (SockError # evs) = stream_bytes evs"
  by (simp_all add: stream_bytes_def event_bytes_def)

lemma recv_exact_Ok:
  "recv_exact n buf evs = Some (Ok raw, evs') \<Longrightarrow> length buf \<le> n \<Longrightarrow>
     length raw = n \<and> buf @ stream_bytes evs = raw @ stream_bytes evs'"
  by (induction n buf evs rule: recv_exact.induct) (auto split: if_splits sock_event.splits)

text \<open>One connection of \<open>read_poses\<close>: the messages it yields until it is lost or runs dry.\<close>

function read_connection :: "sock_event list \<Rightarrow> (pyexc, pose_msg) result list" where
  "read_connection evs =
     (case recv_exact POSE_STRUCT_SIZE [] evs of
        Some (Inr raw, evs') \<Rightarrow> from_bytes raw # read_connection evs'
      | _ \<Rightarrow> [])"
  by pat_completeness auto
termination
proof (relation "measure (\<lambda>evs. length (stream_bytes evs))")
  fix evs evs' and x y and raw :: "byte list"
  assume "recv_exact POSE_STRUCT_SIZE [] evs = Some y" and "(x, evs') = y" and "x = Ok raw"
  then have "length raw = POSE_STRUCT_SIZE \<and> stream_bytes evs = raw @ stream_bytes evs'"
    using recv_exact_Ok [of POSE_STRUCT_SIZE "[]" evs raw evs'] by auto
  then show "(evs', evs) \<in> measure (\<lambda>evs. length (stream_bytes evs))"
    by (simp add: POSE_STRUCT_SIZE_def)
qed simp

declare read_connection.simps [simp del]

text \<open>\<open>read_poses\<close>: a refused connection yields nothing; after every loss the reader connects anew.\<close>

definition read_poses :: "sock_event list option list \<Rightarrow> (pyexc, pose_msg) result list" where
  "read_poses conns = concat (map (\<lambda>c. case c of None \<Rightarrow> [] | Some evs \<Rightarrow> read_connection evs) conns)"

section \<open>Frames\<close>

lemma fneg_fneg [simp]: "fneg (fneg a) = a"
  by (cases a) auto

section \<open>Encoding and decoding\<close>

definition f32_rep :: "rat \<Rightarrow> int \<Rightarrow> int \<Rightarrow> bool" where
  "f32_rep x m e \<longleftrightarrow> x = of_int m * 2 powi e
     \<and> (2 ^ 23 \<le> m \<and> m < 2 ^ 24 \<and> - 149 \<le> e \<and> e \<le> 104 \<or> 0 \<le> m \<and> m < 2 ^ 23 \<and> e = - 149)"

text \<open>The values a binary32 field holds.\<close>

fun is_f32 :: "pyfloat \<Rightarrow> bool" where
  "is_f32 (Fin x) = (\<exists>m e. f32_rep \<bar>x\<bar> m e)"
| "is_f32 a = True"

lemma ilog2_unique:
  assumes "2 powi k \<le> x" and "x < 2 powi (k + 1)"
  shows "ilog2 x = k"
proof -
  have "0 < x" using assms(1) by (meson less_le_trans zero_less_numeral zero_less_power_int)
  note b = ilog2_bounds [OF this]
  have "(2::rat) powi ilog2 x < 2 powi (k + 1)" "(2::rat) powi k < 2 powi (ilog2 x + 1)"
    using b assms by linarith+
  then have "ilog2 x < k + 1" "k < ilog2 x + 1" by (auto dest: pow2_less)
  then show ?thesis by simp
qed

lemma f32_exp_rep:
  assumes "f32_rep x m e"
  shows "f32_exp x = e"
proof (cases "2 ^ 23 \<le> m")
  case True
  then have m: "m < 2 ^ 24" "- 149 \<le> e" and x: "x = of_int m * 2 powi e"
    using assms by (auto simp: f32_rep_def)
  have p: "(2::rat) powi (e + 23) = 2 ^ 23 * 2 powi e" "(2::rat) powi (e + 23 + 1) = 2 ^ 24 * 2 powi e"
    by (simp_all add: power_int_add)
  have "(2 ^ 23 :: rat) \<le> of_int m" "of_int m < (2 ^ 24 :: rat)" using True m(1) by simp_all
  then have "ilog2 x = e + 23" unfolding x
    by (intro ilog2_unique) (simp_all only: p mult_right_mono mult_strict_right_mono zero_le_power_int zero_less_power_int zero_le_numeral zero_less_numeral)
  moreover have "x \<noteq> 0" using True by (auto simp: x)
  ultimately show ?thesis using m(2) by (simp add: f32_exp_def)
next
  case False
  then have m: "0 \<le> m" "m < 2 ^ 23" "e = - 149" and x: "x = of_int m * 2 powi e"
    using assms by (auto simp: f32_rep_def)
  show ?thesis
  proof (cases "m = 0")
    case nz: False
    then have pos: "0 < x" using m by (simp add: x)
    have "x < 2 ^ 23 * 2 powi e" unfolding x using m(2) by (intro mult_strict_right_mono) simp_all
    also have "\<dots> = 2 powi (- 126)" using power_int_add [of "2::rat" 23 "- 149"] by (simp add: m(3))
    finally have "(2::rat) powi ilog2 x < 2 powi (- 126)" using ilog2_bounds(1) [OF pos] by linarith
    then have "ilog2 x < - 126" by (rule pow2_less)
    then show ?thesis using pos m(3) by (simp add: f32_exp_def)
  qed (simp add: x m f32_exp_def)
qed

lemma f32_magnitude_rep: "f32_rep x m e \<Longrightarrow> f32_magnitude x = (e + 149) * 2 ^ 23 + m"
  using f32_exp_rep [of x m e] by (simp add: f32_magnitude_def f32_rep_def)

lemma f32_value_magnitude:
  assumes "f32_rep x m e"
  shows "f32_value (f32_magnitude x) = x" and "0 \<le> f32_magnitude x" and "f32_magnitude x < 255 * 2 ^ 23"
proof -
  note mag = f32_magnitude_rep [OF assms]
  have "2 ^ 23 \<le> m \<and> m < 2 ^ 24 \<and> - 149 \<le> e \<and> e \<le> 104 \<or> 0 \<le> m \<and> m < 2 ^ 23 \<and> e = - 149"
    using assms by (simp add: f32_rep_def)
  then show "0 \<le> f32_magnitude x" "f32_magnitude x < 255 * 2 ^ 23" unfolding mag by auto
  show "f32_value (f32_magnitude x) = x"
  proof (cases "2 ^ 23 \<le> m")
    case True
    then have m: "m < 2 ^ 24" "- 149 \<le> e" and x: "x = of_int m * 2 powi e"
      using assms by (auto simp: f32_rep_def)
    have eq: "f32_magnitude x = (m - 2 ^ 23) + (e + 150) * 2 ^ 23" by (simp add: mag)
    have "(m - 2 ^ 23) div 2 ^ 23 = 0" "(m - 2 ^ 23) mod 2 ^ 23 = m - 2 ^ 23"
      using True m(1) by (intro div_pos_pos_trivial mod_pos_pos_trivial; simp)+
    moreover have "f32_magnitude x div 2 ^ 23 = (e + 150) + (m - 2 ^ 23) div 2 ^ 23"
      unfolding eq by (rule div_mult_self1) simp
    moreover have "f32_magnitude x mod 2 ^ 23 = (m - 2 ^ 23) mod 2 ^ 23"
      unfolding eq by (rule mod_mult_self1)
    ultimately have "f32_magnitude x div 2 ^ 23 = e + 150" "f32_magnitude x mod 2 ^ 23 = m - 2 ^ 23" by linarith+
    then show ?thesis using m(2) by (simp add: f32_value_def x)
  next
    case False
    then have "0 \<le> m" "m < 2 ^ 23" "e = - 149" "x = of_int m * 2 powi e"
      using assms by (auto simp: f32_rep_def)
    then show ?thesis by (simp add: mag f32_value_def)
  qed
qed

lemma decode_encode_f32:
  assumes "is_f32 a"
  shows "\<exists>w. encode_f32 a = Ok w \<and> decode_f32 w = a"
proof (cases a)
  case (Fin x)
  with assms obtain m e where rep: "f32_rep \<bar>x\<bar> m e" by auto
  let ?n = "f32_magnitude \<bar>x\<bar>"
  note v = f32_value_magnitude [OF rep]
  have m31: "(?n + 2 ^ 31) mod 2 ^ 31 = ?n" "?n mod 2 ^ 31 = ?n" using v(2,3) by simp_all
  have dec: "decode_f32 (word_of_int k) =
      (if 255 * 2 ^ 23 < k mod 2 ^ 31 then NaN
       else if k mod 2 ^ 31 = 255 * 2 ^ 23 then (if 2 ^ 31 \<le> k then NInf else PInf)
       else Fin (if 2 ^ 31 \<le> k then - f32_value (k mod 2 ^ 31) else f32_value (k mod 2 ^ 31)))"
    if "0 \<le> k" "k < 2 ^ 32" for k
    using that by (simp add: decode_f32_def Let_def uint_word_of_int)
  have "decode_f32 (word_of_int (?n + (if x < 0 then 2 ^ 31 else 0))) = Fin x"
  proof (cases "x < 0")
    case True
    have "decode_f32 (word_of_int (?n + 2 ^ 31)) = Fin (- f32_value ?n)"
      by (subst dec) (use v(2,3) m31 in simp_all)
    with True v(1) show ?thesis by simp
  next
    case False
    have "decode_f32 (word_of_int ?n) = Fin (f32_value ?n)"
      by (subst dec) (use v(2,3) m31 in simp_all)
    with False v(1) show ?thesis by simp
  qed
  then show ?thesis using Fin v(3) by simp
qed (simp_all add: decode_f32_def Let_def uint_word_of_int)

lemma of_le_bytes: "of_le (le_bytes k n) = n mod 256 ^ k"
proof (induction k arbitrary: n)
  case (Suc k)
  then show ?case by (simp add: unat_of_nat mod_mult2_eq)
qed simp

lemma length_le_bytes [simp]: "length (le_bytes k n) = k"
  by (induction k arbitrary: n) simp_all

lemma chunks4_concat:
  "chunks4 (length ws) (concat (map (\<lambda>w. le_bytes 4 (unat w)) ws) @ rest) = map (\<lambda>w. le_bytes 4 (unat w)) ws"
  by (induction ws) simp_all

lemma length_concat_le: "length (concat (map (\<lambda>w. le_bytes 4 (unat w)) ws)) = 4 * length ws"
  by (induction ws) simp_all

text \<open>
  C33: packing a pose message and unpacking the bytes gives the message back, for every message whose
  floats are binary32 values and whose covariance has 21 elements.
\<close>

theorem pose_round_trip:
  assumes "list_all is_f32 (pose_floats m)" and "length (pm_covariance m) = 21"
  shows "\<exists>bs. to_bytes m = Ok bs \<and> length bs = POSE_STRUCT_SIZE \<and> from_bytes bs = Ok m"
proof -
  define ws where "ws = map (\<lambda>a. SOME w. encode_f32 a = Ok w \<and> decode_f32 w = a) (pose_floats m)"
  have enc: "encode_f32 a = Ok (SOME w. encode_f32 a = Ok w \<and> decode_f32 w = a)
      \<and> decode_f32 (SOME w. encode_f32 a = Ok w \<and> decode_f32 w = a) = a" if "a \<in> set (pose_floats m)" for a
    using decode_encode_f32 [of a] that assms(1) by (metis (mono_tags, lifting) list_all_iff someI_ex)
  have len: "length ws = 27" using assms(2) by (simp add: ws_def pose_floats_def split: prod.splits)
  have "mapr encode_f32 (pose_floats m) = Ok ws" unfolding ws_def using enc by (intro mapr_total) blast
  moreover define bs where "bs = le_bytes 8 (unat (timestamp_us m)) @ concat (map (\<lambda>w. le_bytes 4 (unat w)) ws)
            @ [pm_confidence m, pm_reset_counter m]"
  ultimately have to: "to_bytes m = Ok bs" using assms(2) by (simp add: to_bytes_def)
  have lbs: "length bs = POSE_STRUCT_SIZE" by (simp add: bs_def length_concat_le len POSE_STRUCT_SIZE_def)
  have "of_le (le_bytes 8 (unat (timestamp_us m))) = unat (timestamp_us m)"
    unfolding of_le_bytes using unsigned_less [where 'a = nat, of "timestamp_us m"] by simp
  then have time: "word_of_nat (of_le (take 8 bs)) = timestamp_us m" by (simp add: bs_def)
  have le4: "word_of_nat (of_le (le_bytes 4 (unat w))) = w" for w :: "32 word"
    unfolding of_le_bytes using unsigned_less [where 'a = nat, of w] by simp
  have "chunks4 27 (drop 8 bs) = map (\<lambda>w. le_bytes 4 (unat w)) ws"
    using chunks4_concat [of ws] len by (simp add: bs_def)
  then have "map (\<lambda>c. decode_f32 (word_of_nat (of_le c))) (chunks4 27 (drop 8 bs)) = map decode_f32 ws"
    by (simp add: le4 comp_def)
  also have "\<dots> = pose_floats m" unfolding ws_def using enc by (simp add: map_idI)
  finally have fs: "map (\<lambda>c. decode_f32 (word_of_nat (of_le c))) (chunks4 27 (drop 8 bs)) = pose_floats m" .
  have tail: "bs ! 116 = pm_confidence m" "bs ! 117 = pm_reset_counter m"
    by (simp_all add: bs_def nth_append length_concat_le len)
  have "from_bytes bs = Ok m"
    using fs time tail lbs by (cases m; cases "pm_pose m") (simp add: from_bytes_def pose_floats_def)
  with to lbs show ?thesis by blast
qed

section \<open>Chunks do not matter\<close>

function blocks :: "byte list \<Rightarrow> byte list list" where
  "blocks bs = (if length bs < POSE_STRUCT_SIZE then []
     else take POSE_STRUCT_SIZE bs # blocks (drop POSE_STRUCT_SIZE bs))"
  by pat_completeness auto
termination by (relation "measure length") (auto simp: POSE_STRUCT_SIZE_def)

declare blocks.simps [simp del]

definition lively :: "sock_event list \<Rightarrow> bool" where
  "lively evs \<longleftrightarrow> (\<forall>ev \<in> set evs. \<exists>bs. ev = Chunk bs \<and> bs \<noteq> [])"

definition lost_or_dry :: "sock_event list \<Rightarrow> bool" where
  "lost_or_dry evs \<longleftrightarrow> evs = [] \<or> hd evs = SockError \<or> hd evs = Chunk []"

lemma recv_exact_lively:
  "lively A \<Longrightarrow> length buf \<le> n \<Longrightarrow> lost_or_dry B \<Longrightarrow>
     if n \<le> length (buf @ stream_bytes A)
     then \<exists>A'. recv_exact n buf (A @ B) = Some (Ok (take n (buf @ stream_bytes A)), A' @ B)
        \<and> lively A' \<and> stream_bytes A' = drop n (buf @ stream_bytes A)
     else \<forall>raw evs'. recv_exact n buf (A @ B) \<noteq> Some (Ok raw, evs')"
proof (induction A arbitrary: buf)
  case Nil
  show ?case
  proof (cases B)
    case (Cons ev evs)
    with Nil show ?thesis by (cases "n \<le> length buf") (auto simp: lost_or_dry_def intro: exI [of _ "[]"])
  qed (use Nil in \<open>auto simp: lively_def\<close>)
next
  case (Cons ev A)
  then obtain bs where ev: "ev = Chunk bs" "bs \<noteq> []" and A: "lively A" by (auto simp: lively_def)
  consider (full) "n = length buf" | (part) "length buf < n" "length bs \<le> n - length buf"
    | (over) "length buf < n" "n - length buf < length bs" using Cons.prems(2) by linarith
  then show ?case
  proof cases
    case full
    then show ?thesis using ev Cons.prems by (auto intro!: exI [of _ "ev # A"])
  next
    case part
    then show ?thesis using Cons.IH [OF A, of "buf @ bs"] Cons.prems ev by auto
  next
    case over
    then show ?thesis using ev A Cons.prems
      by (auto intro!: exI [of _ "Chunk (drop (n - length buf) bs) # A"] simp: lively_def)
  qed
qed

text \<open>
  whatever the sizes of the pieces the socket delivers, a connection yields exactly the messages
  of the consecutive 118-byte blocks of the byte stream; an incomplete block at its end is dropped.
\<close>

lemma read_connection_blocks:
  assumes "lively A" and "lost_or_dry B"
  shows "read_connection (A @ B) = map from_bytes (blocks (stream_bytes A))"
  using assms(1)
proof (induction "length (stream_bytes A)" arbitrary: A rule: less_induct)
  case less
  note recv = recv_exact_lively [of A "[]" POSE_STRUCT_SIZE B]
  show ?case
  proof (cases "POSE_STRUCT_SIZE \<le> length (stream_bytes A)")
    case True
    with recv less.prems assms(2) obtain A' where A': "recv_exact POSE_STRUCT_SIZE [] (A @ B)
        = Some (Ok (take POSE_STRUCT_SIZE (stream_bytes A)), A' @ B)"
      "lively A'" "stream_bytes A' = drop POSE_STRUCT_SIZE (stream_bytes A)" by auto
    have "read_connection (A' @ B) = map from_bytes (blocks (stream_bytes A'))"
      using True A'(2,3) by (intro less.hyps) (auto simp: POSE_STRUCT_SIZE_def)
    then show ?thesis
      using A' True by (subst read_connection.simps, subst blocks.simps) simp
  next
    case False
    with recv less.prems assms(2) have "\<forall>raw evs'. recv_exact POSE_STRUCT_SIZE [] (A @ B) \<noteq> Some (Ok raw, evs')" by simp
    then have "read_connection (A @ B) = []"
      by (subst read_connection.simps) (auto split: option.splits sum.splits)
    moreover have "blocks (stream_bytes A) = []" using False by (subst blocks.simps) simp
    ultimately show ?thesis by simp
  qed
qed

definition sample_pose :: pose_msg where
  "sample_pose = \<lparr>timestamp_us = 1000000, pm_pose = (Fin 1, Fin 0, Fin 0, Fin 0, Fin 0, Fin 0),
     pm_covariance = replicate 21 (Fin 0), pm_confidence = 2, pm_reset_counter = 0\<rparr>"

theorem pose_round_trip_witness:
  "\<exists>bs. to_bytes sample_pose = Ok bs \<and> length bs = POSE_STRUCT_SIZE \<and> from_bytes bs = Ok sample_pose"
proof (rule pose_round_trip)
  have "f32_rep 0 0 (- 149)" "f32_rep 1 (2 ^ 23) (- 23)" by (simp_all add: f32_rep_def)
  then have "is_f32 (Fin 0)" "is_f32 (Fin 1)" by (auto simp del: power_int_numeral)
  then show "list_all is_f32 (pose_floats sample_pose)"
    by (simp add: pose_floats_def sample_pose_def numeral_eq_Suc del: is_f32.simps)
qed (simp add: sample_pose_def)

end
