(* ===== verification/Link.thy ===== *)
theory Link
  imports PyFloat
begin

text \<open>
  Programs that talk to the autopilot over a link and watch a clock. The environment of a run is a
  trace: one entry for every moment at which the program reads the clock or polls the link, with the
  clock reading and the message then at hand. Such a program maps a trace to the messages it sends
  and, unless the trace ends while it is still waiting, to its result and the rest of the trace.
  Every run of the code is a run on some trace (\<open>None\<close> where the link is not polled).
  \<open>poll\<close> is the \<open>while\<close> loop every protocol function of the sources uses; two locales state
  what such a loop keeps and when it must end.
\<close>

named_theorems io_simps \<open>running the link combinators\<close>

type_synonym 'm obs = "pyfloat \<times> 'm option"
type_synonym 'm trace = "'m obs list"
type_synonym ('o, 'm, 'a) io = "'m trace \<Rightarrow> 'o list \<times> ('a \<times> 'm trace) option"

definition io_ret :: "'a \<Rightarrow> ('o, 'm, 'a) io" where
  "io_ret a tr = ([], Some (a, tr))"

definition io_emit :: "'o \<Rightarrow> ('o, 'm, unit) io" where
  "io_emit x tr = ([x], Some ((), tr))"

definition io_clock :: "('o, 'm, pyfloat) io" where
  "io_clock tr = ([], (case tr of [] \<Rightarrow> None | p # ps \<Rightarrow> Some (fst p, ps)))"

definition io_recv :: "('o, 'm, 'm option) io" where
  "io_recv tr = ([], (case tr of [] \<Rightarrow> None | p # ps \<Rightarrow> Some (snd p, ps)))"

definition io_bind :: "('o, 'm, 'a) io \<Rightarrow> ('a \<Rightarrow> ('o, 'm, 'b) io) \<Rightarrow> ('o, 'm, 'b) io" where
  "io_bind m f tr =
     (case m tr of
        (out, None) \<Rightarrow> (out, None)
      | (out, Some (a, tr')) \<Rightarrow> (let (out', r) = f a tr' in (out @ out', r)))"

text \<open>Sequencing fallible programs: an exception ends the program.\<close>

definition io_bindr ::
  "('o, 'm, ('e, 'a) result) io \<Rightarrow> ('a \<Rightarrow> ('o, 'm, ('e, 'b) result) io) \<Rightarrow> ('o, 'm, ('e, 'b) result) io"
  where "io_bindr m f = io_bind m (\<lambda>r. case r of Inl e \<Rightarrow> io_ret (Err e) | Inr a \<Rightarrow> f a)"

text \<open>
  \<open>conn.recv_match(type=...)\<close>: a message of another type is dropped.
\<close>

definition recv_match :: "('m \<Rightarrow> bool) \<Rightarrow> 'm option \<Rightarrow> 'm option" where
  "recv_match want m = (case m of None \<Rightarrow> None | Some x \<Rightarrow> if want x then Some x else None)"

section \<open>Polling loops\<close>

text \<open>
  A pass of the loop either goes round again with a new state or leaves (\<open>break\<close>, \<open>return\<close>,
  \<open>raise\<close>) with a value. The result is \<open>Inl\<close> of the state when the loop's condition became
  false, \<open>Inr\<close> of the value it left with.
\<close>

datatype ('s, 'r) pass = Again 's | Leave 'r

fun poll ::
  "('s \<Rightarrow> bool) \<Rightarrow> ('s \<Rightarrow> 'm obs \<Rightarrow> 'o list \<times> ('s, 'r) pass) \<Rightarrow> 's \<Rightarrow> ('o, 'm, 's + 'r) io"
  where
  "poll g b s [] = ([], if g s then None else Some (Inl s, []))"
| "poll g b s (p # ps) =
     (if g s
      then (case b s p of
              (out, Again s') \<Rightarrow> (let (out', r) = poll g b s' ps in (out @ out', r))
            | (out, Leave r) \<Rightarrow> (out, Some (Inr r, ps)))
      else ([], Some (Inl s, p # ps)))"

lemma io_ret_run [io_simps]: "io_ret a tr = ([], Some (a, tr))"
  by (simp add: io_ret_def)

lemma io_emit_run [io_simps]: "io_emit x tr = ([x], Some ((), tr))"
  by (simp add: io_emit_def)

lemma io_clock_run [io_simps]:
  "io_clock [] = ([], None)" "io_clock (p # ps) = ([], Some (fst p, ps))"
  by (simp_all add: io_clock_def)

lemma io_recv_run [io_simps]:
  "io_recv [] = ([], None)" "io_recv (p # ps) = ([], Some (snd p, ps))"
  by (simp_all add: io_recv_def)

lemma io_bind_emit [io_simps]:
  "io_bind (io_emit x) f tr = (x # fst (f () tr), snd (f () tr))"
  by (simp add: io_bind_def io_simps Let_def split: prod.splits)

lemma io_bind_ret [io_simps]: "io_bind (io_ret a) f = f a"
  by (rule ext) (simp add: io_bind_def io_simps Let_def split: prod.splits)

lemma io_bind_clock [io_simps]:
  "io_bind io_clock f [] = ([], None)" "io_bind io_clock f (p # ps) = f (fst p) ps"
  by (simp_all add: io_bind_def io_simps Let_def split: prod.splits)

lemma io_bind_Some:
  "m tr = (out, Some (a, tr')) \<Longrightarrow> io_bind m f tr = (out @ fst (f a tr'), snd (f a tr'))"
  by (simp add: io_bind_def Let_def split: prod.splits)

lemma io_bind_None: "m tr = (out, None) \<Longrightarrow> io_bind m f tr = (out, None)"
  by (simp add: io_bind_def)

text \<open>Reading a finished or an unfinished run of a sequence backwards.\<close>

lemma io_bind_SomeE:
  assumes "io_bind m f tr = (out, Some (b, tr''))"
  obtains o1 o2 a tr' where "m tr = (o1, Some (a, tr'))" and "f a tr' = (o2, Some (b, tr''))"
    and "out = o1 @ o2"
  using assms by (auto simp: io_bind_def Let_def split: prod.splits option.splits)

lemma io_bind_emit_SomeE:
  assumes "io_bind (io_emit x) f tr = (out, Some (b, tr'))"
  obtains o1 where "f () tr = (o1, Some (b, tr'))" and "out = x # o1"
  using assms by (cases "f () tr") (auto simp: io_bind_emit)

lemma io_bindr_SomeE:
  assumes "io_bindr m f tr = (out, Some (r, tr''))"
  obtains (raised) e where "m tr = (out, Some (Inl e, tr''))" and "r = Inl e"
  | (went_on) o1 o2 a tr' where "m tr = (o1, Some (Inr a, tr'))" and "f a tr' = (o2, Some (r, tr''))"
      and "out = o1 @ o2"
  using assms unfolding io_bindr_def
  by (elim io_bind_SomeE) (auto simp: io_ret_run split: sum.splits)

lemma io_bind_NoneE:
  assumes "io_bind m f tr = (out, None)"
  obtains "m tr = (out, None)"
  | o1 o2 a tr' where "m tr = (o1, Some (a, tr'))" and "f a tr' = (o2, None)" and "out = o1 @ o2"
  using assms by (auto simp: io_bind_def Let_def split: prod.splits option.splits)

text \<open>
  What a loop keeps: a relation between its state and everything sent so far, and what holds of the
  value it leaves with and the observation that made it leave, given those of one pass.
\<close>

locale poll_inv =
  fixes g :: "'s \<Rightarrow> bool"
    and b :: "'s \<Rightarrow> 'm obs \<Rightarrow> 'o list \<times> ('s, 'r) pass"
    and J :: "'s \<Rightarrow> 'o list \<Rightarrow> bool"
    and R :: "'m obs \<Rightarrow> 'r \<Rightarrow> 'o list \<Rightarrow> bool"
  assumes again: "J s h \<Longrightarrow> g s \<Longrightarrow> b s p = (out, Again s') \<Longrightarrow> J s' (h @ out)"
    and leave: "J s h \<Longrightarrow> g s \<Longrightarrow> b s p = (out, Leave r) \<Longrightarrow> R p r (h @ out)"
begin

lemma finished:
  "J s h \<Longrightarrow> poll g b s tr = (out, Some (Inl s', tr')) \<Longrightarrow> J s' (h @ out) \<and> \<not> g s'"
proof (induction tr arbitrary: s h out)
  case (Cons p ps)
  show ?case
  proof (cases "g s")
    case True
    obtain o1 q where b: "b s p = (o1, q)" by fastforce
    with Cons.prems(2) True obtain s1 o2 where q: "q = Again s1" and out: "out = o1 @ o2"
      and rest: "poll g b s1 ps = (o2, Some (Inl s', tr'))"
      by (auto split: pass.splits prod.splits)
    have "J s1 (h @ o1)" using again [OF Cons.prems(1) True] b q by blast
    from Cons.IH [OF this rest] show ?thesis by (simp add: out)
  qed (use Cons.prems in auto)
qed (auto split: if_splits)

lemma left_with:
  "J s h \<Longrightarrow> poll g b s tr = (out, Some (Inr r, tr')) \<Longrightarrow> \<exists>p \<in> set tr. R p r (h @ out)"
proof (induction tr arbitrary: s h out)
  case (Cons p ps)
  show ?case
  proof (cases "g s")
    case True
    obtain o1 q where b: "b s p = (o1, q)" by fastforce
    show ?thesis
    proof (cases q)
      case (Again s1)
      with Cons.prems(2) True b obtain o2 where out: "out = o1 @ o2"
        and rest: "poll g b s1 ps = (o2, Some (Inr r, tr'))" by (auto split: prod.splits)
      have "J s1 (h @ o1)" using again [OF Cons.prems(1) True] b Again by blast
      from Cons.IH [OF this rest] show ?thesis by (auto simp: out)
    next
      case (Leave r')
      with Cons.prems(2) True b have "r' = r" "out = o1" by auto
      with leave [OF Cons.prems(1) True, of p o1 r] b Leave show ?thesis by auto
    qed
  qed (use Cons.prems in auto)
qed (auto split: if_splits)

lemma waiting: "J s h \<Longrightarrow> poll g b s tr = (out, None) \<Longrightarrow> \<exists>s'. J s' (h @ out) \<and> g s'"
proof (induction tr arbitrary: s h out)
  case (Cons p ps)
  obtain o1 q where b: "b s p = (o1, q)" by fastforce
  with Cons.prems(2) obtain s1 o2 where g: "g s" and q: "q = Again s1" and out: "out = o1 @ o2"
    and rest: "poll g b s1 ps = (o2, None)"
    by (auto split: pass.splits prod.splits if_splits)
  have "J s1 (h @ o1)" using again [OF Cons.prems(1) g] b q by blast
  from Cons.IH [OF this rest] show ?case by (simp add: out)
qed (auto split: if_splits)

end

text \<open>
  When a loop must end: every pass that sees an expired clock leaves. So a run that is still waiting
  has seen no expired clock.
\<close>

locale poll_deadline =
  fixes g :: "'s \<Rightarrow> bool"
    and b :: "'s \<Rightarrow> 'm obs \<Rightarrow> 'o list \<times> ('s, 'r) pass"
    and expired :: "pyfloat \<Rightarrow> bool"
  assumes expired_leaves: "expired t \<Longrightarrow> \<exists>out r. b s (t, m) = (out, Leave r)"
begin

lemma waiting_not_expired: "poll g b s tr = (out, None) \<Longrightarrow> p \<in> set tr \<Longrightarrow> \<not> expired (fst p)"
proof (induction tr arbitrary: s out)
  case (Cons q qs)
  obtain o1 st where b: "b s q = (o1, st)" by fastforce
  from Cons.prems(1) obtain s' o2 where st: "st = Again s'" and rest: "poll g b s' qs = (o2, None)"
    using b by (auto split: if_splits pass.splits prod.splits)
  have "\<not> expired (fst q)" using expired_leaves [of "fst q" s "snd q"] b st by auto
  with Cons.IH [OF rest] Cons.prems(2) show ?case by auto
qed simp

lemma finished_not_expired:
  "poll g b s tr = (out, Some (Inl s', tr')) \<Longrightarrow> \<exists>A. tr = A @ tr' \<and> (\<forall>p \<in> set A. \<not> expired (fst p))"
proof (induction tr arbitrary: s out)
  case (Cons q qs)
  show ?case
  proof (cases "g s")
    case True
    obtain o1 st where b: "b s q = (o1, st)" by fastforce
    with Cons.prems True obtain s1 o2 where st: "st = Again s1"
      and rest: "poll g b s1 qs = (o2, Some (Inl s', tr'))"
      by (auto split: pass.splits prod.splits)
    have "\<not> expired (fst q)" using expired_leaves [of "fst q" s "snd q"] b st by auto
    moreover obtain A where "qs = A @ tr'" "\<forall>p \<in> set A. \<not> expired (fst p)" using Cons.IH [OF rest] by blast
    ultimately show ?thesis by (intro exI [of _ "q # A"]) auto
  qed (use Cons.prems in auto)
qed (auto split: if_splits)

lemma returns_by_deadline:
  "p \<in> set tr \<Longrightarrow> expired (fst p) \<Longrightarrow> \<exists>out res tr'. poll g b s tr = (out, Some (res, tr'))"
  using waiting_not_expired [of s tr _ p] by (cases "poll g b s tr"; cases "snd (poll g b s tr)") auto

end

lemma poll_suffix: "poll g b s tr = (out, Some (res, tr')) \<Longrightarrow> set tr' \<subseteq> set tr"
proof (induction tr arbitrary: s out)
  case (Cons p ps)
  then show ?case by (auto split: if_splits pass.splits prod.splits)
qed (auto split: if_splits)

section \<open>Waiting for one message\<close>

text \<open>
  The loop most protocol functions end with: read the clock, then poll until a pass leaves, at the
  latest when the time allowed has passed.
\<close>

definition await ::
  "(pyfloat \<Rightarrow> unit \<Rightarrow> 'm obs \<Rightarrow> 'o list \<times> (unit, 'r) pass) \<Rightarrow> ('o, 'm, 'r) io"
  where
  "await body =
     io_bind io_clock (\<lambda>start.
     io_bind (poll (\<lambda>_. True) (body start) ()) (\<lambda>res.
       case res of Inr r \<Rightarrow> io_ret r | Inl u \<Rightarrow> (\<lambda>tr. ([], None))))"

lemma await_unfold:
  "await body (p # ps) =
     (case poll (\<lambda>_. True) (body (fst p)) () ps of
        (out, None) \<Rightarrow> (out, None)
      | (out, Some (Inl u, tr)) \<Rightarrow> (out, None)
      | (out, Some (Inr r, tr)) \<Rightarrow> (out, Some (r, tr)))"
proof -
  obtain out res where poll: "poll (\<lambda>_. True) (body (fst p)) () ps = (out, res)" by fastforce
  show ?thesis
  proof (cases res)
    case None
    then show ?thesis using poll by (simp add: await_def io_bind_clock io_bind_None)
  next
    case (Some x)
    then obtain y tr where "res = Some (y, tr)" by (cases x) auto
    then show ?thesis using poll
      by (cases y) (simp_all add: await_def io_bind_clock io_bind_Some io_ret_run)
  qed
qed

lemma await_Nil: "await body [] = ([], None)"
  by (simp add: await_def io_bind_clock)

locale timed_wait =
  fixes body :: "pyfloat \<Rightarrow> unit \<Rightarrow> 'm obs \<Rightarrow> 'o list \<times> (unit, 'r) pass"
    and expired :: "pyfloat \<Rightarrow> pyfloat \<Rightarrow> bool"
    and Q :: "pyfloat \<Rightarrow> 'm obs \<Rightarrow> 'r \<Rightarrow> bool"
  assumes silent: "body start u p = (out, q) \<Longrightarrow> out = []"
    and leaves_with: "body start u p = (out, Leave r) \<Longrightarrow> Q start p r"
    and deadline: "expired start t \<Longrightarrow> \<exists>out r. body start u (t, m) = (out, Leave r)"

sublocale timed_wait \<subseteq> poll_inv "\<lambda>_. True" "body start" "\<lambda>_ h. h = []" "\<lambda>p r h. h = [] \<and> Q start p r"
  for start
  by unfold_locales (auto dest: silent leaves_with)

sublocale timed_wait \<subseteq> poll_deadline "\<lambda>_. True" "body start" "expired start" for start
  by unfold_locales (rule deadline)

lemma poll_True_not_finished: "poll (\<lambda>_. True) b s tr \<noteq> (out, Some (Inl u, tr'))"
  by (induction tr arbitrary: s out) (auto split: pass.splits prod.splits)

lemma await_cases:
  obtains out where "poll (\<lambda>_. True) (body (fst p)) () ps = (out, None)"
    and "await body (p # ps) = (out, None)"
  | out r tr where "poll (\<lambda>_. True) (body (fst p)) () ps = (out, Some (Inr r, tr))"
    and "await body (p # ps) = (out, Some (r, tr))"
proof -
  obtain out res where poll: "poll (\<lambda>_. True) (body (fst p)) () ps = (out, res)" by fastforce
  show thesis
  proof (cases res)
    case None
    with poll show thesis by (intro that(1) [of out]) (simp_all add: await_unfold)
  next
    case (Some x)
    then obtain y tr where x: "res = Some (y, tr)" by (cases x) auto
    show thesis
    proof (cases y)
      case (Inl u)
      with poll x show thesis using poll_True_not_finished by metis
    next
      case (Inr r)
      with poll x show thesis by (intro that(2) [of out r tr]) (simp_all add: await_unfold)
    qed
  qed
qed

context timed_wait
begin

lemma await_Some:
  assumes "await body tr = (out, Some (r, tr'))"
  shows "out = [] \<and> (\<exists>p ps. tr = p # ps \<and> set tr' \<subseteq> set ps \<and> (\<exists>q \<in> set ps. Q (fst p) q r))"
proof -
  from assms obtain p ps where tr: "tr = p # ps" by (cases tr) (auto simp: await_Nil)
  with assms have poll: "poll (\<lambda>_. True) (body (fst p)) () ps = (out, Some (Inr r, tr'))"
    by (cases body p ps rule: await_cases) simp_all
  have "\<exists>q \<in> set ps. out = [] \<and> Q (fst p) q r" using left_with [OF _ poll, of "[]"] by simp
  then show ?thesis using tr poll_suffix [OF poll] by blast
qed

lemma await_None:
  assumes "await body tr = (out, None)"
  shows "out = [] \<and> (\<forall>p ps. tr = p # ps \<longrightarrow> (\<forall>q \<in> set ps. \<not> expired (fst p) (fst q)))"
proof (cases tr)
  case Nil
  then show ?thesis using assms by (simp add: await_Nil)
next
  case (Cons p ps)
  with assms have poll: "poll (\<lambda>_. True) (body (fst p)) () ps = (out, None)"
    by (cases body p ps rule: await_cases) simp_all
  have "out = []" using waiting [OF _ poll, of "[]"] by simp
  then show ?thesis using waiting_not_expired [OF poll] Cons by auto
qed

end

text \<open>A wait whose first poll leaves, and one whose first poll goes round again.\<close>

lemma await_leave [io_simps]:
  "body (fst p) () q = (out, Leave r) \<Longrightarrow> await body (p # q # qs) = (out, Some (r, qs))"
  by (simp add: await_unfold)

lemma await_again [io_simps]:
  "body (fst p) () q = ([], Again ()) \<Longrightarrow> await body (p # q # qs) = await body (p # qs)"
  by (simp add: await_unfold split: prod.splits)

lemma recv_match_Some: "recv_match want m = Some x \<longleftrightarrow> m = Some x \<and> want x"
  by (auto simp: recv_match_def split: option.splits)

section \<open>What a program may send\<close>

named_theorems emits \<open>rules for \<open>emits_only\<close>\<close>

definition emits_only :: "('o \<Rightarrow> bool) \<Rightarrow> ('o, 'm, 'a) io \<Rightarrow> bool" where
  "emits_only P m \<longleftrightarrow> (\<forall>tr. \<forall>x \<in> set (fst (m tr)). P x)"

lemma emits_only_ret [emits]: "emits_only P (io_ret a)"
  by (simp add: emits_only_def io_simps)

lemma emits_only_emit [emits]: "P x \<Longrightarrow> emits_only P (io_emit x)"
  by (simp add: emits_only_def io_simps)

lemma emits_only_clock [emits]: "emits_only P io_clock"
  by (simp add: emits_only_def io_clock_def)

lemma fst_io_bind:
  "fst (io_bind m f tr) =
     fst (m tr) @ (case snd (m tr) of None \<Rightarrow> [] | Some (a, tr') \<Rightarrow> fst (f a tr'))"
  by (simp add: io_bind_def Let_def split: prod.splits option.splits)

lemma emits_only_bind [emits]:
  "emits_only P m \<Longrightarrow> (\<And>a. emits_only P (f a)) \<Longrightarrow> emits_only P (io_bind m f)"
  unfolding emits_only_def fst_io_bind by (auto split: option.splits)

lemma emits_only_sum [emits]:
  "(\<And>a. x = Inl a \<Longrightarrow> emits_only P (f a)) \<Longrightarrow> (\<And>b. x = Inr b \<Longrightarrow> emits_only P (g b)) \<Longrightarrow>
     emits_only P (case x of Inl a \<Rightarrow> f a | Inr b \<Rightarrow> g b)"
  by (simp split: sum.splits)

lemma emits_only_option [emits]:
  "emits_only P m \<Longrightarrow> (\<And>b. emits_only P (g b)) \<Longrightarrow>
     emits_only P (case x of None \<Rightarrow> m | Some b \<Rightarrow> g b)"
  by (simp split: option.splits)

lemma emits_only_if [emits]:
  "(c \<Longrightarrow> emits_only P m) \<Longrightarrow> (\<not> c \<Longrightarrow> emits_only P n) \<Longrightarrow> emits_only P (if c then m else n)"
  by simp

lemma emits_only_bindr [emits]:
  "emits_only P m \<Longrightarrow> (\<And>a. emits_only P (f a)) \<Longrightarrow> emits_only P (io_bindr m f)"
  unfolding io_bindr_def by (intro emits)

lemma emits_only_poll [emits]:
  assumes "\<And>s p x. x \<in> set (fst (b s p)) \<Longrightarrow> P x"
  shows "emits_only P (poll g b s)"
  unfolding emits_only_def
proof
  fix tr show "\<forall>x \<in> set (fst (poll g b s tr)). P x"
  proof (induction tr arbitrary: s)
    case (Cons p ps)
    obtain o1 q where b: "b s p = (o1, q)" by fastforce
    then have "\<forall>x \<in> set o1. P x" using assms [of _ s p] by simp
    with b Cons show ?case by (cases q) (auto simp: case_prod_unfold Let_def)
  qed simp
qed

lemma emits_only_await [emits]:
  "(\<And>t u p x. x \<in> set (fst (body t u p)) \<Longrightarrow> P x) \<Longrightarrow> emits_only P (await body)"
  unfolding await_def by (intro emits) (auto simp: emits_only_def)

section \<open>What a program consumes\<close>

text \<open>The observation that ends a loop is the last one it consumed.\<close>

lemma poll_left_last:
  "poll g b s tr = (out, Some (Inr r, tr')) \<Longrightarrow>
     \<exists>pre p s' o1. tr = pre @ p # tr' \<and> b s' p = (o1, Leave r)"
proof (induction tr arbitrary: s out)
  case (Cons p ps)
  obtain o1 q where b: "b s p = (o1, q)" by fastforce
  show ?case
  proof (cases q)
    case (Leave r')
    with b Cons(2) show ?thesis by (intro exI [of _ "[]"]) (auto split: if_splits)
  next
    case (Again s')
    with b Cons(2) obtain o2 where "poll g b s' ps = (o2, Some (Inr r, tr'))"
      by (auto split: if_splits prod.splits)
    from Cons(1) [OF this] show ?thesis by (metis append_Cons)
  qed
qed (auto split: if_splits)

lemma poll_rest: "poll g b s tr = (out, Some (Inl s', tr')) \<Longrightarrow> \<exists>pre. tr = pre @ tr'"
proof (induction tr arbitrary: s out)
  case (Cons p ps)
  obtain o1 q where b: "b s p = (o1, q)" by fastforce
  then show ?case using Cons by (cases q) (force split: if_splits prod.splits)+
qed (auto split: if_splits)

lemma await_left_last:
  "await body tr = (out, Some (r, tr')) \<Longrightarrow> \<exists>pre p t u o1. tr = pre @ p # tr' \<and> body t u p = (o1, Leave r)"
proof (cases tr)
  case (Cons p ps)
  assume "await body tr = (out, Some (r, tr'))"
  with Cons obtain res where "poll (\<lambda>_. True) (body (fst p)) () ps = (out, Some (res, tr'))"
    "case res of Inr r' \<Rightarrow> r' = r | Inl u \<Rightarrow> False"
    by (auto simp: await_unfold split: prod.splits option.splits sum.splits)
  then obtain pre q u o1 where "ps = pre @ q # tr'" "body (fst p) u q = (o1, Leave r)"
    using poll_left_last [of "\<lambda>_. True" "body (fst p)" "()" ps out r tr'] by (auto split: sum.splits)
  with Cons show ?thesis by (metis append_Cons)
qed (simp add: await_Nil)

text \<open>A program leaves a suffix of the trace it started on.\<close>

named_theorems consumes \<open>rules for \<open>consuming\<close>\<close>

definition consuming :: "('o, 'm, 'a) io \<Rightarrow> bool" where
  "consuming m \<longleftrightarrow> (\<forall>tr out a tr'. m tr = (out, Some (a, tr')) \<longrightarrow> (\<exists>pre. tr = pre @ tr'))"

lemma consumingD: "consuming m \<Longrightarrow> m tr = (out, Some (a, tr')) \<Longrightarrow> set tr' \<subseteq> set tr"
  unfolding consuming_def by force

lemma consuming_basic [consumes]:
  "consuming (io_ret a)" "consuming (io_emit x)" "consuming io_clock" "consuming io_recv"
  by (auto simp: consuming_def io_ret_def io_emit_def io_clock_def io_recv_def split: list.splits)

lemma consuming_bind [consumes]:
  assumes "consuming m" and "\<And>a. consuming (f a)"
  shows "consuming (io_bind m f)"
  unfolding consuming_def
proof (intro allI impI)
  fix tr out a tr'
  assume "io_bind m f tr = (out, Some (a, tr'))"
  then obtain o1 o2 x t1 where "m tr = (o1, Some (x, t1))" "f x t1 = (o2, Some (a, tr'))" by (rule io_bind_SomeE)
  with assms obtain pre1 pre2 where "tr = pre1 @ t1" "t1 = pre2 @ tr'" unfolding consuming_def by blast
  then show "\<exists>pre. tr = pre @ tr'" by (intro exI [of _ "pre1 @ pre2"]) simp
qed

lemma consuming_sum [consumes]:
  "(\<And>a. consuming (f a)) \<Longrightarrow> (\<And>b. consuming (g b)) \<Longrightarrow> consuming (case x of Inl a \<Rightarrow> f a | Inr b \<Rightarrow> g b)"
  by (cases x) simp_all

lemma consuming_bindr [consumes]: "consuming m \<Longrightarrow> (\<And>a. consuming (f a)) \<Longrightarrow> consuming (io_bindr m f)"
  unfolding io_bindr_def by (intro consumes)

lemma consuming_if [consumes]: "consuming m \<Longrightarrow> consuming n \<Longrightarrow> consuming (if c then m else n)"
  by simp

lemma consuming_poll [consumes]: "consuming (poll g b s)"
  unfolding consuming_def
proof (intro allI impI)
  fix tr out res tr'
  assume "poll g b s tr = (out, Some (res, tr'))"
  then show "\<exists>pre. tr = pre @ tr'"
  proof (cases res)
    case (Inr r)
    with \<open>poll g b s tr = _\<close> show ?thesis using poll_left_last [of g b s tr out r tr'] by (metis append_Cons append_Nil append_assoc)
  qed (use \<open>poll g b s tr = _\<close> in \<open>blast dest: poll_rest\<close>)
qed

lemma consuming_await [consumes]: "consuming (await body)"
  unfolding consuming_def using await_left_last [of body] by (metis append_Cons append_Nil append_assoc)

end
