(* ===== verification/Bridge.thy ===== *)
theory Bridge
  imports PoseIpc Link
begin

text \<open>
  The VSLAM bridge: health metrics (\<open>vslam/health.py\<close>), the loop that forwards poses to the
  autopilot (\<open>vslam/bridge.py\<close>) as a step function over its local variables, and the listener on the
  laptop (\<open>vslam/health_listener.py\<close>). The Frobenius norm of a covariance is an argument (the
  algorithm of Python's float \<open>sum\<close> depends on the interpreter's version); so is whether the
  installed pymavlink has the extension fields of the vision messages. A metric travels as the binary32
  value of a NAMED_VALUE_FLOAT.
\<close>

section \<open>Health\<close>

record bridge_health =
  pose_rate_hz :: pyfloat
  pose_age_ms :: pyfloat
  bh_confidence :: int
  covariance_norm :: pyfloat
  bridge_connected :: bool
  slam_connected :: bool

type_synonym timestamped_pose = "pose_msg \<times> pyfloat"

definition in_window :: "pyfloat \<Rightarrow> pyfloat \<Rightarrow> timestamped_pose \<Rightarrow> bool" where
  "in_window now window p \<longleftrightarrow> fge (snd p) (fsub now window)"

definition compute_health ::
  "(pyfloat list \<Rightarrow> pyfloat) \<Rightarrow> timestamped_pose list \<Rightarrow> bool \<Rightarrow> bool \<Rightarrow> pyfloat \<Rightarrow> pyfloat \<Rightarrow> bridge_health"
  where
  "compute_health frob recent bridge slam now window =
     (if recent = []
      then \<lparr>pose_rate_hz = Fin 0, pose_age_ms = PInf, bh_confidence = 0, covariance_norm = Fin 0,
            bridge_connected = bridge, slam_connected = slam\<rparr>
      else (let latest = last recent;
                age = fmul (fsub now (snd latest)) (Fin 1000);
                count = length (filter (in_window now window) recent);
                rate = (if fgt window (Fin 0) then fquot (fint (int count)) window else Fin 0)
            in \<lparr>pose_rate_hz = fround 1 rate, pose_age_ms = fround 1 age,
                bh_confidence = uint (pm_confidence (fst latest)),
                covariance_norm = fround 4 (frob (pm_covariance (fst latest))),
                bridge_connected = bridge, slam_connected = slam\<rparr>))"

section \<open>Bridge loop\<close>

datatype bridge_out =
    VisionPosition "64 word" pose6 "pyfloat list option" "int option"
  | VisionSpeed "64 word" vec3 "pyfloat list option" "int option"
  | Heartbeat
  | NamedValueFloat string "32 word" pyfloat
  | StatusText string
  | Watchdog

record bridge_env =
  env_norm :: "pyfloat list \<Rightarrow> pyfloat"
  pos_has_covariance :: bool
  pos_has_reset :: bool
  speed_has_covariance :: bool
  speed_has_reset :: bool

definition send_vision_position :: "bridge_env \<Rightarrow> pose_msg \<Rightarrow> pose6 \<Rightarrow> int \<Rightarrow> bridge_out" where
  "send_vision_position E m ned reset_counter =
     VisionPosition (timestamp_us m) ned
       (if pos_has_covariance E then Some (pm_covariance m) else None)
       (if pos_has_reset E then Some reset_counter else None)"

definition send_vision_speed :: "bridge_env \<Rightarrow> 64 word \<Rightarrow> vec3 \<Rightarrow> int \<Rightarrow> bridge_out" where
  "send_vision_speed E t ned_vel reset_counter =
     VisionSpeed t ned_vel
       (if speed_has_covariance E then Some (replicate 9 (Fin 0)) else None)
       (if speed_has_reset E then Some reset_counter else None)"

text \<open>\<open>int(time.monotonic() * 1000) & 0xFFFFFFFF\<close>, for a finite clock.\<close>

definition boot_ms :: "rat \<Rightarrow> 32 word" where
  "boot_ms t = (case int_of_float (fmul (Fin t) (Fin 1000)) of Inr n \<Rightarrow> word_of_int n | Inl e \<Rightarrow> 0)"

definition pad_name :: "string \<Rightarrow> string" where
  "pad_name name = take 10 (name @ replicate (10 - length name) (CHR 0x00))"

definition send_named_value_float :: "string \<Rightarrow> pyfloat \<Rightarrow> rat \<Rightarrow> bridge_out" where
  "send_named_value_float name v t = NamedValueFloat (pad_name name) (boot_ms t) v"

definition send_health_metrics :: "bridge_health \<Rightarrow> (nat \<Rightarrow> rat) \<Rightarrow> bridge_out list" where
  "send_health_metrics h clk =
     [send_named_value_float ''VSLAM_HZ'' (pose_rate_hz h) (clk 0),
      send_named_value_float ''VSLAM_CONF'' (rnd (of_int (bh_confidence h))) (clk 1),
      send_named_value_float ''VSLAM_AGE'' (pose_age_ms h) (clk 2),
      send_named_value_float ''VSLAM_COV'' (covariance_norm h) (clk 3)]"

definition send_statustext :: "string \<Rightarrow> bridge_out" where
  "send_statustext text = StatusText (take 50 text)"

definition pose_xyz :: "pose_msg \<Rightarrow> vec3" where
  "pose_xyz m = (case pm_pose m of (x, y, z, _) \<Rightarrow> (x, y, z))"

definition pose_dt :: "pose_msg \<Rightarrow> pose_msg \<Rightarrow> pyfloat" where
  "pose_dt prev cur = fquot (rnd (of_int (uint (timestamp_us cur) - uint (timestamp_us prev)))) (Fin 1000000)"

fun differentiate :: "pyfloat \<Rightarrow> vec3 \<Rightarrow> vec3 \<Rightarrow> vec3" where
  "differentiate dt (x0, y0, z0) (x1, y1, z1) =
     (fquot (fsub x1 x0) dt, fquot (fsub y1 y0) dt, fquot (fsub z1 z0) dt)"

definition differentiate_velocity :: "pose_msg option \<Rightarrow> pose_msg \<Rightarrow> vec3 option" where
  "differentiate_velocity prev cur =
     (case prev of
        None \<Rightarrow> None
      | Some p \<Rightarrow>
          if fle (pose_dt p cur) (Fin 0) then None
          else Some (differentiate (pose_dt p cur) (pose_xyz p) (pose_xyz cur)))"

record bridge_state =
  last_heartbeat :: pyfloat
  prev_msg :: "pose_msg option"
  last_reset_counter :: int
  bridge_reset_counter :: int
  recent_poses :: "timestamped_pose list"
  last_confidence :: int

definition bridge_init :: bridge_state where
  "bridge_init = \<lparr>last_heartbeat = Fin 0, prev_msg = None, last_reset_counter = - 1,
     bridge_reset_counter = 0, recent_poses = [], last_confidence = - 1\<rparr>"

definition recent_maxlen :: nat where "recent_maxlen = 200"

text \<open>\<open>deque(maxlen=200).append\<close>.\<close>

definition deque_append :: "nat \<Rightarrow> 'a list \<Rightarrow> 'a \<Rightarrow> 'a list" where
  "deque_append n xs x = drop (length xs + 1 - n) (xs @ [x])"

definition track_reset :: "pose_msg \<Rightarrow> bridge_state \<Rightarrow> bridge_state" where
  "track_reset m st =
     (let r = uint (pm_reset_counter m)
      in if r \<noteq> last_reset_counter st
         then st\<lparr>bridge_reset_counter :=
                   (if 0 \<le> last_reset_counter st then bridge_reset_counter st + 1 else bridge_reset_counter st),
                 last_reset_counter := r\<rparr>
         else st)"

definition confidence_text :: "int \<Rightarrow> int \<Rightarrow> bridge_out list" where
  "confidence_text old new =
     (if 0 \<le> old \<and> new \<noteq> old
      then (if 0 < new \<and> old = 0 then [send_statustext ''VSLAM tracking recovered'']
            else if new = 0 \<and> 0 < old then [send_statustext ''VSLAM tracking lost'']
            else [send_statustext (''VSLAM conf '' @ str_int old @ ''->'' @ str_int new)])
      else [])"

text \<open>
  One message: \<open>clk 0\<close> is the clock when it is queued, \<open>clk 1\<close> the clock of the heartbeat test, and
  the later readings go into the metrics.
\<close>

definition heartbeat_due :: "bridge_state \<Rightarrow> pyfloat \<Rightarrow> bool" where
  "heartbeat_due st now \<longleftrightarrow> fge (fsub now (last_heartbeat st)) (Fin 1)"

definition bridge_step :: "bridge_env \<Rightarrow> bridge_state \<Rightarrow> pose_msg \<times> (nat \<Rightarrow> rat) \<Rightarrow> bridge_out list \<times> bridge_state" where
  "bridge_step E st mc =
     (let m = fst mc; clk = snd mc;
          st1 = track_reset m st;
          pos = send_vision_position E m (flu_to_ned_pose (pm_pose m)) (bridge_reset_counter st1);
          speed = (case differentiate_velocity (prev_msg st1) m of
                     None \<Rightarrow> []
                   | Some v \<Rightarrow> [send_vision_speed E (timestamp_us m) (flu_to_ned_velocity v) (bridge_reset_counter st1)]);
          recent = deque_append recent_maxlen (recent_poses st1) (m, Fin (clk 0));
          conf = uint (pm_confidence m);
          text = confidence_text (last_confidence st1) conf;
          now = Fin (clk 1);
          health = compute_health (env_norm E) recent True True now (Fin 2);
          beat = (if heartbeat_due st1 now
                  then Heartbeat # send_health_metrics health (\<lambda>i. clk (i + 2)) @ [Watchdog] else [])
      in (pos # speed @ text @ beat,
          st1\<lparr>prev_msg := Some m, recent_poses := recent, last_confidence := conf,
              last_heartbeat := (if heartbeat_due st1 now then now else last_heartbeat st1)\<rparr>))"

fun bridge_loop ::
  "bridge_env \<Rightarrow> bridge_state \<Rightarrow> (pose_msg \<times> (nat \<Rightarrow> rat)) list \<Rightarrow> bridge_out list \<times> bridge_state" where
  "bridge_loop E st [] = ([], st)"
| "bridge_loop E st (mc # mcs) =
     (let (out, st') = bridge_step E st mc; (outs, st'') = bridge_loop E st' mcs in (out @ outs, st''))"

section \<open>Listener\<close>

text \<open>
  A pass reads the clock twice and then receives: the observation holds the first reading, and its
  message part the second reading and what was received. Names come with their padding.
\<close>

datatype health_msg = HeartbeatFrom int | NamedValue string pyfloat

type_synonym health_rx = "pyfloat \<times> health_msg option"

definition metric_names :: "string list" where
  "metric_names = [''VSLAM_HZ'', ''VSLAM_CONF'', ''VSLAM_AGE'', ''VSLAM_COV'']"

definition bridge_component_id :: int where "bridge_component_id = 197"

type_synonym metrics = "(string, pyfloat) dict"

definition health_of_metrics :: "metrics \<Rightarrow> bool \<Rightarrow> (pyexc, bridge_health option) result" where
  "health_of_metrics metrics seen =
     bindr (int_of_float (dict_get_or metrics ''VSLAM_CONF'' (Fin 0))) (\<lambda>conf.
     Ok (Some \<lparr>pose_rate_hz = dict_get_or metrics ''VSLAM_HZ'' (Fin 0),
               pose_age_ms = dict_get_or metrics ''VSLAM_AGE'' PInf,
               bh_confidence = conf,
               covariance_norm = dict_get_or metrics ''VSLAM_COV'' (Fin 0),
               bridge_connected = seen,
               slam_connected = fgt (dict_get_or metrics ''VSLAM_HZ'' (Fin 0)) (Fin 0)\<rparr>))"

definition partial_health :: "metrics \<Rightarrow> bool \<Rightarrow> (pyexc, bridge_health option) result" where
  "partial_health metrics seen = (if metrics = [] then Ok None else health_of_metrics metrics seen)"

definition store_metric :: "string \<Rightarrow> pyfloat \<Rightarrow> metrics \<Rightarrow> metrics" where
  "store_metric name v metrics =
     (if rstrip_char (CHR 0x00) name \<in> set metric_names
      then dict_set (rstrip_char (CHR 0x00) name) v metrics else metrics)"

definition has_all_metrics :: "metrics \<Rightarrow> bool" where
  "has_all_metrics metrics \<longleftrightarrow> list_all (dict_has metrics) metric_names"

definition listen_pass ::
  "pyfloat \<Rightarrow> metrics \<times> bool \<Rightarrow> health_rx obs
     \<Rightarrow> unit list \<times> (metrics \<times> bool, (pyexc, bridge_health option) result) pass"
  where
  "listen_pass deadline = (\<lambda>(metrics, seen) p.
     if \<not> flt (fst p) deadline then ([], Leave (partial_health metrics seen))
     else
       (let clock2 = (case snd p of None \<Rightarrow> fst p | Some x \<Rightarrow> fst x);
            msg = (case snd p of None \<Rightarrow> None | Some x \<Rightarrow> snd x)
        in case int_of_float (fmul (fsub deadline clock2) (Fin 1000)) of
             Inl e \<Rightarrow> ([], Leave (Err e))
           | Inr remaining_ms \<Rightarrow>
               if remaining_ms \<le> 0 then ([], Leave (partial_health metrics seen))
               else (case msg of
                   None \<Rightarrow> ([], Again (metrics, seen))
                 | Some (HeartbeatFrom c) \<Rightarrow> ([], Again (metrics, seen \<or> c = bridge_component_id))
                 | Some (NamedValue name v) \<Rightarrow>
                     (let metrics' = store_metric name v metrics
                      in ([], if has_all_metrics metrics' then Leave (health_of_metrics metrics' seen)
                              else Again (metrics', seen))))))"

definition listen_vslam_health :: "pyfloat \<Rightarrow> (unit, health_rx, (pyexc, bridge_health option) result) io" where
  "listen_vslam_health timeout =
     io_bind io_clock (\<lambda>start.
     io_bind (poll (\<lambda>_. True) (listen_pass (fadd start timeout)) ([], False)) (\<lambda>res.
       case res of Inr r \<Rightarrow> io_ret r | Inl s \<Rightarrow> (\<lambda>tr. ([], None))))"

section \<open>What the loop forwards\<close>

fun position_of :: "bridge_out \<Rightarrow> (64 word \<times> pose6) list" where
  "position_of (VisionPosition t p c r) = [(t, p)]"
| "position_of x = []"

lemma positions_step:
  "concat (map position_of (fst (bridge_step E st mc)))
     = [(timestamp_us (fst mc), flu_to_ned_pose (pm_pose (fst mc)))]"
  by (auto simp: bridge_step_def Let_def send_vision_position_def send_vision_speed_def confidence_text_def
      send_statustext_def send_health_metrics_def send_named_value_float_def split: option.splits)

text \<open>The loop forwards every pose exactly once and in order, whatever else it sends in between.\<close>

lemma loop_positions:
  "concat (map position_of (fst (bridge_loop E st mcs)))
     = map (\<lambda>mc. (timestamp_us (fst mc), flu_to_ned_pose (pm_pose (fst mc)))) mcs"
proof (induction mcs arbitrary: st)
  case (Cons mc mcs)
  then show ?case using positions_step [of E st mc] by (simp add: Let_def case_prod_unfold)
qed simp

section \<open>Reset counter and window\<close>

fun adjacent_changes :: "'a list \<Rightarrow> int" where
  "adjacent_changes (x # y # xs) = (if x \<noteq> y then 1 else 0) + adjacent_changes (y # xs)"
| "adjacent_changes xs = 0"

definition reset_of :: "pose_msg \<times> (nat \<Rightarrow> rat) \<Rightarrow> int" where
  "reset_of mc = uint (pm_reset_counter (fst mc))"

lemma step_reset:
  "last_reset_counter (snd (bridge_step E st mc)) = reset_of mc"
  "bridge_reset_counter (snd (bridge_step E st mc)) = bridge_reset_counter st
     + (if 0 \<le> last_reset_counter st \<and> last_reset_counter st \<noteq> reset_of mc then 1 else 0)"
  by (auto simp: bridge_step_def Let_def track_reset_def reset_of_def)

lemma step_recent:
  "recent_poses (snd (bridge_step E st mc)) = deque_append recent_maxlen (recent_poses st) (fst mc, Fin (snd mc 0))"
  by (simp add: bridge_step_def Let_def track_reset_def)

lemma loop_reset:
  "0 \<le> last_reset_counter st \<Longrightarrow>
     bridge_reset_counter (snd (bridge_loop E st mcs))
       = bridge_reset_counter st + adjacent_changes (last_reset_counter st # map reset_of mcs)"
proof (induction mcs arbitrary: st)
  case (Cons mc mcs)
  have "0 \<le> last_reset_counter (snd (bridge_step E st mc))" by (simp add: step_reset reset_of_def)
  from Cons.IH [OF this] Cons.prems show ?case by (simp add: Let_def case_prod_unfold step_reset)
qed simp

lemma loop_recent:
  "recent_poses (snd (bridge_loop E st mcs))
     = fold (\<lambda>mc q. deque_append recent_maxlen q (fst mc, Fin (snd mc 0))) mcs (recent_poses st)"
  by (induction mcs arbitrary: st) (simp_all add: Let_def case_prod_unfold step_recent)

lemma deque_append_window:
  "deque_append n (drop (length xs - n) xs) x = drop (length (xs @ [x]) - n) (xs @ [x])"
  by (cases "length xs \<le> n") (auto simp: deque_append_def Suc_diff_le)

lemma fold_deque:
  "fold (\<lambda>y q. deque_append n q (f y)) ys (drop (length xs - n) xs) = drop (length (xs @ map f ys) - n) (xs @ map f ys)"
proof (induction ys arbitrary: xs)
  case (Cons y ys)
  from Cons [of "xs @ [f y]"] show ?case by (simp add: deque_append_window)
qed simp

text \<open>
  after any sequence of messages the reset counter the bridge reports is the number of times the
  SLAM node's counter changed, and the window for the health metrics holds the last 200 messages.
\<close>

lemma bridge_counts_resets:
  "bridge_reset_counter (snd (bridge_loop E bridge_init mcs)) = adjacent_changes (map reset_of mcs)
   \<and> recent_poses (snd (bridge_loop E bridge_init mcs))
       = drop (length mcs - 200) (map (\<lambda>mc. (fst mc, Fin (snd mc 0))) mcs)"
proof
  show "bridge_reset_counter (snd (bridge_loop E bridge_init mcs)) = adjacent_changes (map reset_of mcs)"
  proof (cases mcs)
    case (Cons mc mcs')
    let ?st = "snd (bridge_step E bridge_init mc)"
    have "last_reset_counter ?st = reset_of mc" "bridge_reset_counter ?st = 0"
      using step_reset [of E bridge_init mc] by (simp_all add: bridge_init_def)
    moreover have "0 \<le> reset_of mc" by (simp add: reset_of_def)
    ultimately show ?thesis using loop_reset [of ?st E mcs'] Cons
      by (simp add: Let_def case_prod_unfold)
  qed (simp add: bridge_init_def)
  have "recent_poses bridge_init = drop (length [] - recent_maxlen) []" by (simp add: bridge_init_def)
  then show "recent_poses (snd (bridge_loop E bridge_init mcs))
       = drop (length mcs - 200) (map (\<lambda>mc. (fst mc, Fin (snd mc 0))) mcs)"
    using fold_deque [of recent_maxlen "\<lambda>mc. (fst mc, Fin (snd mc 0))" mcs "[]"]
    by (simp add: loop_recent recent_maxlen_def)
qed

section \<open>Velocity and frames\<close>

definition ned_msg :: "pose_msg \<Rightarrow> pose_msg" where
  "ned_msg m = m\<lparr>pm_pose := flu_to_ned_pose (pm_pose m)\<rparr>"

lemma pose_dt_finite: "pose_dt p c \<noteq> PInf \<and> pose_dt p c \<noteq> NInf"
proof -
  let ?k = "uint (timestamp_us c) - uint (timestamp_us p)"
  have "uint (timestamp_us c) < 2 ^ 64" "uint (timestamp_us p) < 2 ^ 64"
    using uint_bounded [of "timestamp_us c"] uint_bounded [of "timestamp_us p"] by simp_all
  moreover have "0 \<le> uint (timestamp_us c)" "0 \<le> uint (timestamp_us p)" by simp_all
  ultimately have "\<bar>?k\<bar> \<le> 2 ^ 64" by linarith
  then have "\<bar>of_int ?k :: rat\<bar> \<le> of_int (2 ^ 64)" by (metis of_int_abs of_int_le_iff)
  then have k: "\<bar>of_int ?k :: rat\<bar> \<le> 2 ^ 64" by simp
  then have k100: "\<bar>of_int ?k :: rat\<bar> \<le> 2 ^ 100" by (rule order_trans) simp
  have big: "(2 :: rat) ^ 102 < 2 ^ 1024" by simp
  have r1: "rnd (of_int ?k) = Fin (fl (of_int ?k))"
    by (intro rnd_finite order.strict_trans [OF fl_bounded [OF k100] big])
  have "\<bar>fl x\<bar> \<le> 2 ^ 100" if "\<bar>x\<bar> \<le> 2 ^ 64" for x :: rat
  proof -
    have "\<bar>fl x\<bar> \<le> \<bar>x\<bar> + (\<bar>x\<bar> / 2 ^ 53 + 1 / 10 ^ 12)" using fl_close [of x] by linarith
    with that show ?thesis by simp
  qed
  from this [OF k] have "\<bar>fl (of_int ?k)\<bar> \<le> 2 ^ 100" .
  then have "\<bar>fl (of_int ?k) / 1000000\<bar> \<le> 2 ^ 100" unfolding abs_divide by simp
  from rnd_finite [OF order.strict_trans [OF fl_bounded [OF this] big]]
  show ?thesis unfolding pose_dt_def r1 fquot.simps by simp
qed

text \<open>
  C32: differencing commutes with the change of frame, in exact floating-point terms: the NED velocity
  the bridge sends is the velocity of the NED poses it sends.
\<close>

theorem velocity_frame_commutes:
  "differentiate_velocity (map_option ned_msg prev) (ned_msg cur)
     = map_option flu_to_ned_velocity (differentiate_velocity prev cur)"
proof (cases prev)
  case (Some p)
  have dt: "pose_dt (ned_msg p) (ned_msg cur) = pose_dt p cur" by (simp add: pose_dt_def ned_msg_def)
  obtain x0 y0 z0 r0 where p: "pm_pose p = (x0, y0, z0, r0)" by (cases "pm_pose p") auto
  obtain x1 y1 z1 r1 where c: "pm_pose cur = (x1, y1, z1, r1)" by (cases "pm_pose cur") auto
  have "differentiate (pose_dt p cur) (pose_xyz (ned_msg p)) (pose_xyz (ned_msg cur))
     = flu_to_ned_velocity (differentiate (pose_dt p cur) (pose_xyz p) (pose_xyz cur))"
    using pose_dt_finite [of p cur]
    by (cases r0; cases r1) (simp add: pose_xyz_def ned_msg_def p c fsub_fneg fquot_fneg)
  then show ?thesis by (simp add: differentiate_velocity_def Some dt)
qed (simp add: differentiate_velocity_def)

section \<open>From the bridge to the listener\<close>

interpretation listen_deadline: poll_deadline "\<lambda>_. True" "listen_pass deadline" "\<lambda>t. \<not> flt t deadline"
  for deadline :: pyfloat
  by unfold_locales (auto simp: listen_pass_def)

text \<open>
  the listener does not hang: while it has not returned, no clock reading has reached the
  deadline.
\<close>

lemma listen_returns_by_deadline:
  assumes "p' \<in> set ps" and "\<not> flt (fst p') (fadd (fst p) timeout)"
  shows "\<exists>r tr'. snd (listen_vslam_health timeout (p # ps)) = Some (r, tr')"
proof -
  obtain out res tr' where poll: "poll (\<lambda>_. True) (listen_pass (fadd (fst p) timeout)) ([], False) ps
      = (out, Some (res, tr'))"
    using listen_deadline.returns_by_deadline [OF assms] by blast
  moreover obtain r where "res = Inr r"
    using poll poll_True_not_finished [where b = "listen_pass (fadd (fst p) timeout)"] by (cases res) simp_all
  ultimately show ?thesis by (simp add: listen_vslam_health_def io_bind_clock io_bind_Some io_ret_run)
qed

text \<open>A pass that starts before the deadline and has time left for a receive.\<close>

definition in_time :: "pyfloat \<Rightarrow> health_rx obs \<Rightarrow> bool" where
  "in_time deadline p \<longleftrightarrow> flt (fst p) deadline
     \<and> (case snd p of
          None \<Rightarrow> False
        | Some x \<Rightarrow> (case int_of_float (fmul (fsub deadline (fst x)) (Fin 1000)) of Inr n \<Rightarrow> 0 < n | Inl e \<Rightarrow> False))"

text \<open>
  The value field of NAMED_VALUE_FLOAT is a binary32 number: a value arrives rounded to it, and one out
  of its range cannot be packed.
\<close>

definition wire_float :: "pyfloat \<Rightarrow> pyfloat option" where
  "wire_float v = (case encode_f32 v of Inr w \<Rightarrow> Some (decode_f32 w) | Inl e \<Rightarrow> None)"

text \<open>What the radio delivers of the bridge's messages.\<close>

fun as_received :: "bridge_out \<Rightarrow> health_msg list" where
  "as_received Heartbeat = [HeartbeatFrom bridge_component_id]"
| "as_received (NamedValueFloat name boot v) = (case wire_float v of Some x \<Rightarrow> [NamedValue name x] | None \<Rightarrow> [])"
| "as_received x = []"

text \<open>
  The messages of the passes that are about the bridge's health: its heartbeats and its metrics. A pass
  may receive nothing, the heartbeat of another component or a named value of another name.
\<close>

fun about_bridge :: "health_msg \<Rightarrow> bool" where
  "about_bridge (HeartbeatFrom c) = (c = bridge_component_id)"
| "about_bridge (NamedValue name v) = (rstrip_char (CHR 0x00) name \<in> set metric_names)"

definition bridge_msg :: "health_rx obs \<Rightarrow> health_msg list" where
  "bridge_msg p = (case snd p of Some (c, Some m) \<Rightarrow> if about_bridge m then [m] else [] | _ \<Rightarrow> [])"

definition bridge_msgs :: "health_rx obs list \<Rightarrow> health_msg list" where
  "bridge_msgs ps = concat (map bridge_msg ps)"

lemma bridge_msgs_simps [simp]: "bridge_msgs [] = []" "bridge_msgs (p # ps) = bridge_msg p @ bridge_msgs ps"
  by (simp_all add: bridge_msgs_def)

lemma padded_names:
  "rstrip_char (CHR 0x00) (pad_name ''VSLAM_HZ'') = ''VSLAM_HZ''"
  "rstrip_char (CHR 0x00) (pad_name ''VSLAM_CONF'') = ''VSLAM_CONF''"
  "rstrip_char (CHR 0x00) (pad_name ''VSLAM_AGE'') = ''VSLAM_AGE''"
  "rstrip_char (CHR 0x00) (pad_name ''VSLAM_COV'') = ''VSLAM_COV''"
  by code_simp+

text \<open>The passes up to the next message about the bridge change nothing, and that message is absorbed.\<close>

fun absorb :: "health_msg \<Rightarrow> metrics \<times> bool \<Rightarrow> (metrics \<times> bool, (pyexc, bridge_health option) result) pass" where
  "absorb (HeartbeatFrom c) (ms, seen) = Again (ms, seen \<or> c = bridge_component_id)"
| "absorb (NamedValue name v) (ms, seen) =
     (let ms' = store_metric name v ms
      in if has_all_metrics ms' then Leave (health_of_metrics ms' seen) else Again (ms', seen))"

lemma listen_pass_heard:
  "in_time d p \<Longrightarrow> bridge_msg p = [m] \<Longrightarrow> listen_pass d (ms, seen) p = ([], absorb m (ms, seen))"
  by (cases m) (auto simp: in_time_def bridge_msg_def listen_pass_def Let_def split: sum.splits option.splits if_splits)

lemma listen_pass_other:
  "in_time d p \<Longrightarrow> bridge_msg p = [] \<Longrightarrow> \<not> has_all_metrics ms \<Longrightarrow> listen_pass d (ms, seen) p = ([], Again (ms, seen))"
  by (auto simp: in_time_def bridge_msg_def listen_pass_def Let_def store_metric_def
      split: sum.splits option.splits if_splits health_msg.splits)

lemma bridge_msg_cases: "bridge_msg p = [] \<or> (\<exists>m. bridge_msg p = [m])"
  by (auto simp: bridge_msg_def split: option.splits)

lemma listen_poll_heard:
  assumes "list_all (in_time d) ps" and "bridge_msgs ps = m # hs" and "\<not> has_all_metrics ms"
  obtains ps' where "list_all (in_time d) ps'" and "bridge_msgs ps' = hs"
    and "ps' \<noteq> [] \<Longrightarrow> last ps' = last ps"
    and "poll (\<lambda>_. True) (listen_pass d) (ms, seen) (ps @ rest)
      = (case absorb m (ms, seen) of Again st \<Rightarrow> poll (\<lambda>_. True) (listen_pass d) st (ps' @ rest)
         | Leave x \<Rightarrow> ([], Some (Inr x, ps' @ rest)))"
  using assms(1,2)
proof (induction ps arbitrary: thesis)
  case (Cons p ps)
  show ?case
  proof (cases "bridge_msg p = []")
    case True
    with Cons.prems have other: "listen_pass d (ms, seen) p = ([], Again (ms, seen))"
      using assms(3) by (intro listen_pass_other) simp_all
    have ne: "ps \<noteq> []" using Cons.prems(3) True by auto
    obtain ps' where "list_all (in_time d) ps'" "bridge_msgs ps' = hs" "ps' \<noteq> [] \<Longrightarrow> last ps' = last ps"
      "poll (\<lambda>_. True) (listen_pass d) (ms, seen) (ps @ rest)
      = (case absorb m (ms, seen) of Again st \<Rightarrow> poll (\<lambda>_. True) (listen_pass d) st (ps' @ rest)
         | Leave x \<Rightarrow> ([], Some (Inr x, ps' @ rest)))"
      using Cons.IH Cons.prems True by auto
    then show ?thesis using other ne by (intro Cons.prems(1) [of ps']) (simp_all split: pass.splits)
  next
    case False
    then have "bridge_msg p = [m]" "bridge_msgs ps = hs" using bridge_msg_cases [of p] Cons.prems(3) by auto
    then show ?thesis using listen_pass_heard [of d p m ms seen] Cons.prems
      by (intro Cons.prems(1) [of ps]) (simp_all split: pass.splits)
  qed
qed simp

lemma int_is_f32:
  assumes "0 \<le> n" and "n < 2 ^ 24"
  shows "is_f32 (Fin (of_int n))"
proof (cases "n = 0")
  case True
  then have "f32_rep \<bar>of_int n\<bar> 0 (- 149)" by (simp add: f32_rep_def)
  then show ?thesis unfolding is_f32.simps by blast
next
  case False
  then have pos: "0 < (of_int n :: rat)" using assms(1) by simp
  define b where "b = ilog2 (of_int n)"
  note b = ilog2_bounds [OF pos, folded b_def]
  have "(of_int n :: rat) < of_int (2 ^ 24)" using assms(2) by (simp only: of_int_less_iff)
  then have "(2::rat) powi b < 2 powi 24" using b(1) by simp
  then have b24: "b < 24" by (rule pow2_less)
  have "(1::rat) \<le> of_int n" using False assms(1) by simp
  then have "(2::rat) powi 0 < 2 powi (b + 1)" using b(2) by simp
  then have b0: "0 \<le> b" using pow2_less [of 0 "b + 1"] by simp
  define k where "k = nat (23 - b)"
  have k: "int k = 23 - b" using b24 by (simp add: k_def)
  have eq: "(of_int (n * 2 ^ k) :: rat) = of_int n * 2 powi (23 - b)" by (simp add: k [symmetric])
  have split: "(2::rat) powi b * 2 powi (23 - b) = 2 ^ 23" "(2::rat) powi (b + 1) * 2 powi (23 - b) = 2 ^ 24"
    by (simp_all add: power_int_add [symmetric])
  have w: "(0::rat) < 2 powi (23 - b)" by simp
  have "(2 ^ 23 :: rat) \<le> of_int (n * 2 ^ k)" "of_int (n * 2 ^ k) < (2 ^ 24 :: rat)"
    unfolding eq split [symmetric] using b w by (simp_all add: mult_right_mono mult_strict_right_mono)
  then have "of_int (2 ^ 23) \<le> (of_int (n * 2 ^ k) :: rat)" "(of_int (n * 2 ^ k) :: rat) < of_int (2 ^ 24)" by simp_all
  then have "2 ^ 23 \<le> n * 2 ^ k" "n * 2 ^ k < 2 ^ 24" by (simp_all only: of_int_le_iff of_int_less_iff)
  moreover have "(of_int n :: rat) = of_int (n * 2 ^ k) * 2 powi (b - 23)"
    unfolding eq by (simp add: power_int_add [symmetric])
  ultimately have "f32_rep \<bar>of_int n\<bar> (n * 2 ^ k) (b - 23)" using b0 b24 assms(1) by (simp add: f32_rep_def)
  then show ?thesis unfolding is_f32.simps by blast
qed

lemma wire_confidence:
  assumes "0 \<le> n" and "n < 256"
  shows "wire_float (rnd (of_int n)) = Some (Fin (of_int n))"
proof -
  have "\<bar>n\<bar> < 2 ^ 53" using assms by simp
  moreover have "\<bar>of_int n :: rat\<bar> < 2 ^ 1024"
  proof -
    have "(of_int n :: rat) < of_int 256" using assms(2) by (simp only: of_int_less_iff)
    then have "\<bar>of_int n :: rat\<bar> < 256" using assms(1) by simp
    also have "(256 :: rat) < 2 ^ 1024" by simp
    finally show ?thesis .
  qed
  ultimately have r: "rnd (of_int n) = Fin (of_int n)" by (simp only: rnd_finite fl_of_int)
  obtain w where "encode_f32 (Fin (of_int n)) = Ok w" "decode_f32 w = Fin (of_int n)"
    using decode_encode_f32 [OF int_is_f32 [of n]] assms by auto
  then show ?thesis unfolding wire_float_def r by simp
qed

text \<open>
  C30: a heartbeat of the bridge and the four metrics of its health report, received in this order and in
  time, with any number of silent receives, heartbeats of other components and named values of other
  names before and between them, give the listener the bridge's snapshot as the radio carries it: rate,
  age and covariance norm rounded to binary32, the confidence exactly, marked connected, and SLAM marked
  connected when the received rate is above zero. The listener returns with the last metric and leaves
  what follows unread.
\<close>

theorem health_round_trip:
  assumes "0 \<le> bh_confidence h" and "bh_confidence h < 256"
    and "wire_float (pose_rate_hz h) = Some hz" and "wire_float (pose_age_ms h) = Some age"
    and "wire_float (covariance_norm h) = Some cov"
    and "list_all (in_time (fadd t0 timeout)) ps"
    and "bridge_msgs ps = concat (map as_received (Heartbeat # send_health_metrics h clk))"
    and "bridge_msg (last ps) \<noteq> []"
  shows "listen_vslam_health timeout ((t0, m0) # ps @ rest)
     = ([], Some (Ok (Some (h\<lparr>pose_rate_hz := hz, pose_age_ms := age, covariance_norm := cov,
                             bridge_connected := True, slam_connected := fgt hz (Fin 0)\<rparr>)), rest))"
proof -
  let ?d = "fadd t0 timeout"
  let ?run = "\<lambda>st ps. poll (\<lambda>_. True) (listen_pass ?d) st (ps @ rest)"
  note store = store_metric_def padded_names metric_names_def has_all_metrics_def dict_has_def dict_get_def
    dict_keys_def dict_get_or_def Let_def
  have "bridge_msgs ps = [HeartbeatFrom bridge_component_id, NamedValue (pad_name ''VSLAM_HZ'') hz,
      NamedValue (pad_name ''VSLAM_CONF'') (Fin (of_int (bh_confidence h))),
      NamedValue (pad_name ''VSLAM_AGE'') age, NamedValue (pad_name ''VSLAM_COV'') cov]"
    unfolding assms(7) using wire_confidence [OF assms(1,2)]
    by (simp add: send_health_metrics_def send_named_value_float_def assms(3,4,5))
  from listen_poll_heard [OF assms(6) this, of "[]" False rest]
  obtain ps1 where 1: "list_all (in_time ?d) ps1" "bridge_msgs ps1 = [NamedValue (pad_name ''VSLAM_HZ'') hz,
      NamedValue (pad_name ''VSLAM_CONF'') (Fin (of_int (bh_confidence h))),
      NamedValue (pad_name ''VSLAM_AGE'') age, NamedValue (pad_name ''VSLAM_COV'') cov]"
    "ps1 \<noteq> [] \<Longrightarrow> last ps1 = last ps" "?run ([], False) ps = ?run ([], True) ps1"
    by (auto simp: store)
  from listen_poll_heard [OF 1(1,2), of "[]" True rest]
  obtain ps2 where 2: "list_all (in_time ?d) ps2" "bridge_msgs ps2 =
      [NamedValue (pad_name ''VSLAM_CONF'') (Fin (of_int (bh_confidence h))),
      NamedValue (pad_name ''VSLAM_AGE'') age, NamedValue (pad_name ''VSLAM_COV'') cov]"
    "ps2 \<noteq> [] \<Longrightarrow> last ps2 = last ps1" "?run ([], True) ps1 = ?run ([(''VSLAM_HZ'', hz)], True) ps2"
    by (auto simp: store)
  from listen_poll_heard [OF 2(1,2), of "[(''VSLAM_HZ'', hz)]" True rest]
  obtain ps3 where 3: "list_all (in_time ?d) ps3" "bridge_msgs ps3 =
      [NamedValue (pad_name ''VSLAM_AGE'') age, NamedValue (pad_name ''VSLAM_COV'') cov]"
    "ps3 \<noteq> [] \<Longrightarrow> last ps3 = last ps2" "?run ([(''VSLAM_HZ'', hz)], True) ps2
       = ?run ([(''VSLAM_HZ'', hz), (''VSLAM_CONF'', Fin (of_int (bh_confidence h)))], True) ps3"
    by (auto simp: store)
  from listen_poll_heard [OF 3(1,2), of "[(''VSLAM_HZ'', hz), (''VSLAM_CONF'', Fin (of_int (bh_confidence h)))]" True rest]
  obtain ps4 where 4: "list_all (in_time ?d) ps4" "bridge_msgs ps4 = [NamedValue (pad_name ''VSLAM_COV'') cov]"
    "ps4 \<noteq> [] \<Longrightarrow> last ps4 = last ps3"
    "?run ([(''VSLAM_HZ'', hz), (''VSLAM_CONF'', Fin (of_int (bh_confidence h)))], True) ps3
       = ?run ([(''VSLAM_HZ'', hz), (''VSLAM_CONF'', Fin (of_int (bh_confidence h))), (''VSLAM_AGE'', age)], True) ps4"
    by (auto simp: store)
  from listen_poll_heard [OF 4(1,2),
      of "[(''VSLAM_HZ'', hz), (''VSLAM_CONF'', Fin (of_int (bh_confidence h))), (''VSLAM_AGE'', age)]" True rest]
  obtain ps5 where 5: "bridge_msgs ps5 = []" "ps5 \<noteq> [] \<Longrightarrow> last ps5 = last ps4"
    "?run ([(''VSLAM_HZ'', hz), (''VSLAM_CONF'', Fin (of_int (bh_confidence h))), (''VSLAM_AGE'', age)], True) ps4
       = ([], Some (Inr (health_of_metrics [(''VSLAM_HZ'', hz), (''VSLAM_CONF'', Fin (of_int (bh_confidence h))),
           (''VSLAM_AGE'', age), (''VSLAM_COV'', cov)] True), ps5 @ rest))"
    by (auto simp: store)
  have "ps5 = []"
  proof (rule ccontr)
    assume ne: "ps5 \<noteq> []"
    then have "last ps5 = last ps" using 1(2,3) 2(2,3) 3(2,3) 4(2,3) 5(2) by force
    then have "bridge_msg (last ps5) \<noteq> []" using assms(8) by simp
    then show False using ne 5(1) by (auto simp: bridge_msgs_def)
  qed
  then have "?run ([], False) ps = ([], Some (Inr (Ok (Some (h\<lparr>pose_rate_hz := hz, pose_age_ms := age, covariance_norm := cov,
                             bridge_connected := True, slam_connected := fgt hz (Fin 0)\<rparr>))), rest))"
    unfolding 1(4) 2(4) 3(4) 4(4) 5(3)
    by (simp add: health_of_metrics_def dict_get_or_def dict_get_def)
  then show ?thesis by (simp add: listen_vslam_health_def io_bind_clock io_bind_Some io_ret_run)
qed

text \<open>A report of 19.9 Hz, which arrives as 19.8999996, after a silent receive and another component's heartbeat.\<close>

definition sample_rate :: rat where "sample_rate = 2800676018271027 / 2 ^ 47"

definition sample_health :: bridge_health where
  "sample_health = \<lparr>pose_rate_hz = Fin sample_rate, pose_age_ms = Fin 50, bh_confidence = 2, covariance_norm = Fin 1,
     bridge_connected = True, slam_connected = True\<rparr>"

definition sample_passes :: "health_rx obs list" where
  "sample_passes = (Fin 1, Some (Fin 1, None)) # (Fin 1, Some (Fin 1, Some (HeartbeatFrom 1)))
     # map (\<lambda>m. (Fin 1, Some (Fin 1, Some m))) (concat (map as_received (Heartbeat # send_health_metrics sample_health (\<lambda>_. 1))))"

lemma sample_floats:
  "wire_float (Fin sample_rate) = Some (Fin (10433331 / 524288))"
  "wire_float (Fin 50) = Some (Fin 50)" "wire_float (Fin 1) = Some (Fin 1)"
proof -
  have "encode_f32 (Fin sample_rate) = Ok (word_of_int 1100952371)"
    by (simp add: sample_rate_def f32_magnitude_def f32_exp_def float_eval)
  moreover have "decode_f32 (word_of_int 1100952371) = Fin (10433331 / 524288)"
    by (simp add: decode_f32_def f32_value_def Let_def power_int_def power_one_over)
  ultimately show "wire_float (Fin sample_rate) = Some (Fin (10433331 / 524288))" by (simp add: wire_float_def)
  show "wire_float (Fin 50) = Some (Fin 50)"
    using decode_encode_f32 [OF int_is_f32 [of 50]] by (auto simp: wire_float_def)
  show "wire_float (Fin 1) = Some (Fin 1)"
    using decode_encode_f32 [OF int_is_f32 [of 1]] by (auto simp: wire_float_def)
qed

theorem health_round_trip_witness:
  "listen_vslam_health (Fin 5) ((Fin 0, None) # sample_passes @ [])
     = ([], Some (Ok (Some (sample_health\<lparr>pose_rate_hz := Fin (10433331 / 524288), pose_age_ms := Fin 50,
          covariance_norm := Fin 1, bridge_connected := True,
          slam_connected := fgt (Fin (10433331 / 524288)) (Fin 0)\<rparr>)), []))"
proof (rule health_round_trip)
  have "in_time (fadd (Fin 0) (Fin 5)) (Fin 1, Some (Fin 1, m))" for m
    by (simp add: in_time_def float_eval)
  then show "list_all (in_time (fadd (Fin 0) (Fin 5))) sample_passes"
    by (auto simp: sample_passes_def list_all_iff)
  have conf: "wire_float (rnd 2) = Some (Fin 2)" using wire_confidence [of 2] by simp
  note sample = sample_passes_def sample_health_def sample_floats send_health_metrics_def send_named_value_float_def
    bridge_msg_def metric_names_def bridge_component_id_def padded_names conf
  show "bridge_msgs sample_passes = concat (map as_received (Heartbeat # send_health_metrics sample_health (\<lambda>_. 1)))"
    by (simp add: sample)
  show "bridge_msg (last sample_passes) \<noteq> []" by (simp add: sample)
qed (simp_all add: sample_health_def sample_floats)

section \<open>The laptop's view\<close>

text \<open>
  The rows of \<open>mower vslam health\<close> with the verdict of each (the numbers are left out); without
  metrics the command ends with status 1.
\<close>

definition yes_no :: "bool \<Rightarrow> string" where "yes_no b = (if b then ''YES'' else ''NO'')"

definition vslam_health_rows :: "bridge_health \<Rightarrow> (string \<times> string) list" where
  "vslam_health_rows h =
     [(''Pose Rate'', if fle (Fin 5) (pose_rate_hz h) then ''OK'' else ''LOW''),
      (''Confidence'', if bh_confidence h = 0 then ''LOST'' else if bh_confidence h = 1 then ''LOW''
         else if bh_confidence h = 2 then ''MED'' else ''HIGH''),
      (''Pose Age'', if flt (pose_age_ms h) (Fin 500) then ''OK'' else ''STALE''),
      (''Covariance Norm'', if flt (covariance_norm h) (Fin 1) then ''OK'' else ''HIGH''),
      (''Bridge Connected'', yes_no (bridge_connected h)), (''SLAM Connected'', yes_no (slam_connected h))]"

definition vslam_health_command :: "bridge_health option \<Rightarrow> (int, (string \<times> string) list) result" where
  "vslam_health_command h = (case h of None \<Rightarrow> Err 1 | Some x \<Rightarrow> Ok (vslam_health_rows x))"

text \<open>An unknown confidence counts as high and a NaN covariance as high.\<close>

lemma vslam_health_verdicts:
  "bh_confidence h \<notin> {0, 1, 2} \<Longrightarrow> (''Confidence'', ''HIGH'') \<in> set (vslam_health_rows h)"
  "covariance_norm h = NaN \<Longrightarrow> (''Covariance Norm'', ''HIGH'') \<in> set (vslam_health_rows h)"
  by (simp_all add: vslam_health_rows_def)

end
