(* ===== verification/Connection.thy ===== *)
theory Connection
  imports PyFloat
begin

text \<open>
  The link context manager, \<open>mavlink/connection.py\<close>, and what \<open>with open_link(...) as conn\<close>
  makes of it. A run of \<open>open_link\<close> is a generator: it yields once per connection, and
  \<open>contextlib.contextmanager\<close> resumes it when the body of the \<open>with\<close> statement ends. The
  environment of a run says what every attempt meets: whether shutdown was requested before it,
  whether a connection with a heartbeat came up, whether shutdown came during the back-off.
\<close>

record connection_config =
  cc_endpoint :: string
  cc_baud :: int
  cc_source_system :: int
  cc_source_component :: int
  heartbeat_timeout_s :: pyfloat
  retry_attempts :: int
  retry_backoff_s :: pyfloat

definition default_connection :: connection_config where
  "default_connection = \<lparr>cc_endpoint = ''udp:127.0.0.1:14550'', cc_baud = 57600, cc_source_system = 254,
     cc_source_component = 0, heartbeat_timeout_s = Fin 10, retry_attempts = 3, retry_backoff_s = Fin 1\<rparr>"

record attempt_env =
  shutdown_before :: bool
  heartbeat_seen :: bool
  shutdown_in_backoff :: bool

datatype link_event =
    Connecting nat
  | Yielded nat
  | Closed nat
  | Slept pyfloat
  | Waited pyfloat

text \<open>The three \<open>ConnectionError\<close>s of the generator.\<close>

datatype link_error = ShutdownBeforeAttempt | ShutdownDuringRetry | AttemptsExhausted

definition backoff :: "connection_config \<Rightarrow> nat \<Rightarrow> pyfloat" where
  "backoff cfg k = fmul (retry_backoff_s cfg) (fint (int k))"

text \<open>
  The \<open>for\<close> loop from attempt \<open>k\<close> on with \<open>n\<close> attempts left, up to the next \<open>yield\<close> (the attempt
  that yields and the attempts left after it) or the exception that ends it. \<open>waits\<close> tells whether a
  shutdown event was passed.
\<close>

fun seek_link :: "connection_config \<Rightarrow> bool \<Rightarrow> (nat \<Rightarrow> attempt_env) \<Rightarrow> nat \<Rightarrow> nat
    \<Rightarrow> link_event list \<times> (link_error + nat \<times> nat)"
  and retry_link :: "connection_config \<Rightarrow> bool \<Rightarrow> (nat \<Rightarrow> attempt_env) \<Rightarrow> nat \<Rightarrow> nat
    \<Rightarrow> link_event list \<times> (link_error + nat \<times> nat)"
  where
  "seek_link cfg waits env k 0 = ([], Inl AttemptsExhausted)"
| "seek_link cfg waits env k (Suc n) =
     (if waits \<and> shutdown_before (env k) then ([], Inl ShutdownBeforeAttempt)
      else if heartbeat_seen (env k) then ([Connecting k, Yielded k], Inr (k, n))
      else (let (ev, r) = retry_link cfg waits env k n in (Connecting k # ev, r)))"
| "retry_link cfg waits env k 0 = ([], Inl AttemptsExhausted)"
| "retry_link cfg waits env k (Suc n) =
     (if waits \<and> shutdown_in_backoff (env k) then ([Waited (backoff cfg k)], Inl ShutdownDuringRetry)
      else (let (ev, r) = seek_link cfg waits env (Suc k) (Suc n)
            in ((if waits then Waited (backoff cfg k) else Slept (backoff cfg k)) # ev, r)))"

text \<open>
  The \<open>with\<close> statement. A body that raises is thrown into the generator at its \<open>yield\<close>: the
  connection is closed and, unless the exception is no \<open>Exception\<close> (\<open>KeyboardInterrupt\<close>), the
  \<open>except\<close> clause of the attempt takes it for a failed connection. A second \<open>yield\<close> is a
  \<open>RuntimeError\<close> of \<open>contextlib\<close>, which then closes the generator.
\<close>

datatype 'e with_error =
    NoLink link_error
  | GeneratorDidntStop
  | FromBody 'e

definition with_link ::
  "connection_config \<Rightarrow> bool \<Rightarrow> (nat \<Rightarrow> attempt_env) \<Rightarrow> ('e \<Rightarrow> bool) \<Rightarrow> (nat \<Rightarrow> 'e + 'a)
     \<Rightarrow> link_event list \<times> ('e with_error + 'a)" where
  "with_link cfg waits env is_exception body =
     (case seek_link cfg waits env 1 (nat (retry_attempts cfg)) of
        (ev, Inl e) \<Rightarrow> (ev, Inl (NoLink e))
      | (ev, Inr (k, n)) \<Rightarrow>
          (case body k of
             Inr a \<Rightarrow> (ev @ [Closed k], Inr a)
           | Inl x \<Rightarrow>
               if is_exception x
               then (case retry_link cfg waits env k n of
                       (ev', Inl e) \<Rightarrow> (ev @ [Closed k] @ ev', Inl (NoLink e))
                     | (ev', Inr (k', n')) \<Rightarrow> (ev @ [Closed k] @ ev' @ [Closed k'], Inl GeneratorDidntStop))
               else (ev @ [Closed k], Inl (FromBody x))))"

section \<open>What a run does\<close>

fun yields :: "link_event list \<Rightarrow> nat list" where
  "yields [] = []"
| "yields (Yielded k # ev) = k # yields ev"
| "yields (_ # ev) = yields ev"

fun closes :: "link_event list \<Rightarrow> nat list" where
  "closes [] = []"
| "closes (Closed k # ev) = k # closes ev"
| "closes (_ # ev) = closes ev"

fun attempts :: "link_event list \<Rightarrow> nat list" where
  "attempts [] = []"
| "attempts (Connecting k # ev) = k # attempts ev"
| "attempts (_ # ev) = attempts ev"

lemma link_event_lists [simp]:
  "yields (ev @ ev') = yields ev @ yields ev'" "closes (ev @ ev') = closes ev @ closes ev'"
  "attempts (ev @ ev') = attempts ev @ attempts ev'"
proof -
  show "yields (ev @ ev') = yields ev @ yields ev'" by (induction ev rule: yields.induct) simp_all
  show "closes (ev @ ev') = closes ev @ closes ev'" by (induction ev rule: closes.induct) simp_all
  show "attempts (ev @ ev') = attempts ev @ attempts ev'" by (induction ev rule: attempts.induct) simp_all
qed

definition opened :: "link_error + nat \<times> nat \<Rightarrow> nat list" where
  "opened r = (case r of Inl e \<Rightarrow> [] | Inr (k, n) \<Rightarrow> [k])"

text \<open>A stretch of the generator yields at most its last connection and tries every attempt in turn.\<close>

lemma seek_events:
  "seek_link cfg waits env k n = (ev, r) \<Longrightarrow>
     yields ev = opened r \<and> closes ev = [] \<and> (\<exists>j \<le> n. attempts ev = [k..<k + j] \<and>
       (\<forall>k' n'. r = Inr (k', n') \<longrightarrow> k' + n' + 1 = k + n \<and> k + j = Suc k'))"
  "retry_link cfg waits env k n = (ev, r) \<Longrightarrow>
     yields ev = opened r \<and> closes ev = [] \<and> (\<exists>j \<le> n. attempts ev = [Suc k..<Suc k + j] \<and>
       (\<forall>k' n'. r = Inr (k', n') \<longrightarrow> k' + n' = k + n \<and> Suc k + j = Suc k'))"
proof (induction cfg waits env k n and cfg waits env k n arbitrary: ev r and ev r rule: seek_link_retry_link.induct)
  case (2 cfg waits env k n)
  show ?case
  proof (cases "waits \<and> shutdown_before (env k) \<or> heartbeat_seen (env k)")
    case True
    then consider "ev = []" "r = Inl ShutdownBeforeAttempt" | "ev = [Connecting k, Yielded k]" "r = Inr (k, n)"
      using 2(2) by (auto split: if_splits)
    then show ?thesis
    proof cases
      case 1
      then show ?thesis by (auto simp: opened_def intro!: exI [of _ 0])
    next
      case 2
      then show ?thesis by (auto simp: opened_def intro!: exI [of _ 1])
    qed
  next
    case False
    then obtain ev' where ev': "retry_link cfg waits env k n = (ev', r)" "ev = Connecting k # ev'"
      using 2(2) by (auto split: prod.splits)
    then obtain j where "yields ev' = opened r" "closes ev' = []" "j \<le> n" "attempts ev' = [Suc k..<Suc k + j]"
      "\<forall>k' n'. r = Inr (k', n') \<longrightarrow> k' + n' = k + n \<and> Suc k + j = Suc k'"
      using 2(1) [OF _ _ ev'(1)] False by auto
    moreover from this have "k # attempts ev' = [k..<k + Suc j]" by (simp add: upt_conv_Cons del: upt_Suc)
    ultimately show ?thesis unfolding ev'(2) by (intro conjI exI [of _ "Suc j"]) auto
  qed
next
  case (4 cfg waits env k n)
  show ?case
  proof (cases "waits \<and> shutdown_in_backoff (env k)")
    case True
    then have "ev = [Waited (backoff cfg k)]" "r = Inl ShutdownDuringRetry" using 4(2) by auto
    then show ?thesis by (auto simp: opened_def intro!: exI [of _ 0])
  next
    case False
    then obtain ev' where ev': "seek_link cfg waits env (Suc k) (Suc n) = (ev', r)"
      "ev = (if waits then Waited (backoff cfg k) else Slept (backoff cfg k)) # ev'"
      using 4(2) by (auto simp del: seek_link.simps split: prod.splits if_splits)
    then obtain j where "yields ev' = opened r" "closes ev' = []" "j \<le> Suc n" "attempts ev' = [Suc k..<Suc k + j]"
      "\<forall>k' n'. r = Inr (k', n') \<longrightarrow> k' + n' + 1 = Suc k + Suc n \<and> Suc k + j = Suc k'"
      using 4(1) [OF _ ev'(1)] False by auto
    then show ?thesis unfolding ev'(2) by (intro conjI exI [of _ j]) auto
  qed
qed (auto simp: opened_def)

text \<open>
  What the attempts from \<open>k\<close> to the last one \<open>N\<close> come to, read off the first attempt at which
  anything happens: the shutdown event set before it, a heartbeat, or the event set in the back-off
  after it (there is none after the last attempt).
\<close>

definition link_from :: "bool \<Rightarrow> (nat \<Rightarrow> attempt_env) \<Rightarrow> nat \<Rightarrow> nat \<Rightarrow> link_error + nat" where
  "link_from waits env N k =
     (case find (\<lambda>j. waits \<and> shutdown_before (env j) \<or> heartbeat_seen (env j)
                  \<or> waits \<and> shutdown_in_backoff (env j) \<and> j < N) [k..<Suc N] of
        None \<Rightarrow> Inl AttemptsExhausted
      | Some j \<Rightarrow>
          if waits \<and> shutdown_before (env j) then Inl ShutdownBeforeAttempt
          else if heartbeat_seen (env j) then Inr j else Inl ShutdownDuringRetry)"

definition link_of :: "link_error + nat \<times> nat \<Rightarrow> link_error + nat" where
  "link_of r = (case r of Inl e \<Rightarrow> Inl e | Inr p \<Rightarrow> Inr (fst p))"

lemma link_from_rec:
  "link_from waits env N k =
     (if N < k then Inl AttemptsExhausted
      else if waits \<and> shutdown_before (env k) then Inl ShutdownBeforeAttempt
      else if heartbeat_seen (env k) then Inr k
      else if waits \<and> shutdown_in_backoff (env k) \<and> k < N then Inl ShutdownDuringRetry
      else link_from waits env N (Suc k))"
  by (auto simp: link_from_def upt_conv_Cons simp del: upt_Suc)

lemma seek_link_from:
  "k + n = Suc N \<Longrightarrow> link_of (snd (seek_link cfg waits env k n)) = link_from waits env N k"
  "k + n = N \<Longrightarrow> link_of (snd (retry_link cfg waits env k n)) =
     (if waits \<and> shutdown_in_backoff (env k) \<and> k < N then Inl ShutdownDuringRetry
      else link_from waits env N (Suc k))"
proof (induction cfg waits env k n and cfg waits env k n rule: seek_link_retry_link.induct)
  case (1 cfg waits env k)
  then show ?case by (subst link_from_rec) (simp add: link_of_def)
next
  case (2 cfg waits env k n)
  then show ?case by (subst link_from_rec) (auto simp: link_of_def case_prod_beta)
next
  case (3 cfg waits env k)
  then show ?case by (subst link_from_rec) (simp add: link_of_def)
next
  case (4 cfg waits env k n)
  then show ?case by (simp add: case_prod_beta link_of_def del: seek_link.simps)
qed

lemma link_ofD: "link_of r = Inl e \<Longrightarrow> r = Inl e" "link_of r = Inr k \<Longrightarrow> \<exists>n. r = Inr (k, n)"
  by (auto simp: link_of_def split: sum.splits)

lemma with_link_closes:
  "closes (fst (with_link cfg waits env is_exception body)) = yields (fst (with_link cfg waits env is_exception body))
   \<and> (\<exists>j \<le> nat (retry_attempts cfg). attempts (fst (with_link cfg waits env is_exception body)) = [1..<1 + j])"
proof -
  obtain ev r where s: "seek_link cfg waits env 1 (nat (retry_attempts cfg)) = (ev, r)" by fastforce
  from seek_events(1) [OF this] obtain j where j: "yields ev = opened r" "closes ev = []" "j \<le> nat (retry_attempts cfg)"
    "attempts ev = [1..<1 + j]" and r: "\<And>k n. r = Inr (k, n) \<Longrightarrow> k + n + 1 = 1 + nat (retry_attempts cfg) \<and> 1 + j = Suc k"
    by blast
  show ?thesis
  proof (cases "\<exists>k n x. r = Inr (k, n) \<and> body k = Inl x \<and> is_exception x")
    case False
    then show ?thesis using s j by (auto simp: with_link_def opened_def split: sum.splits prod.splits)
  next
    case True
    then obtain k n x where x: "r = Inr (k, n)" "body k = Inl x" "is_exception x" by blast
    obtain ev' r' where s': "retry_link cfg waits env k n = (ev', r')" by fastforce
    from seek_events(2) [OF this] obtain i where i: "yields ev' = opened r'" "closes ev' = []" "i \<le> n"
      "attempts ev' = [Suc k..<Suc k + i]" by blast
    have "attempts ev @ attempts ev' = [1..<1 + (k + i)]" using j(4) i(4) r [OF x(1)] upt_add_eq_append [of 1 "Suc k" i] by simp
    moreover have "k + i \<le> nat (retry_attempts cfg)" using r [OF x(1)] i(3) by simp
    ultimately show ?thesis using s s' x j(1,2) i(1,2)
      by (auto simp: with_link_def opened_def split: sum.splits prod.splits simp del: upt_Suc)
  qed
qed

lemma with_link_result:
  "snd (with_link cfg waits env is_exception body) =
     (let N = nat (retry_attempts cfg) in
      case link_from waits env N 1 of
        Inl e \<Rightarrow> Inl (NoLink e)
      | Inr k \<Rightarrow>
          (case body k of
             Inr a \<Rightarrow> Inr a
           | Inl x \<Rightarrow>
               Inl (if \<not> is_exception x then FromBody x
                    else if waits \<and> shutdown_in_backoff (env k) \<and> k < N then NoLink ShutdownDuringRetry
                    else (case link_from waits env N (Suc k) of
                            Inl e \<Rightarrow> NoLink e | Inr k' \<Rightarrow> GeneratorDidntStop))))"
proof -
  define N where "N = nat (retry_attempts cfg)"
  obtain ev r where s: "seek_link cfg waits env 1 N = (ev, r)" by fastforce
  then have from_1: "link_of r = link_from waits env N 1" using seek_link_from(1) [of 1 N N cfg waits env] by simp
  show ?thesis
  proof (cases r)
    case (Inl e)
    then have "link_from waits env N 1 = Inl e" using from_1 by (simp add: link_of_def)
    then show ?thesis using s Inl by (simp add: with_link_def N_def [symmetric])
  next
    case (Inr p)
    then obtain k n where r: "r = Inr (k, n)" by (cases p) auto
    then have k: "link_from waits env N 1 = Inr k" using from_1 by (simp add: link_of_def)
    from seek_events(1) [OF s] r have "k + n = N" by auto
    then have retry: "link_of (snd (retry_link cfg waits env k n)) =
       (if waits \<and> shutdown_in_backoff (env k) \<and> k < N then Inl ShutdownDuringRetry
        else link_from waits env N (Suc k))" by (rule seek_link_from(2))
    obtain ev' r' where s': "retry_link cfg waits env k n = (ev', r')" by fastforce
    show ?thesis
      using s r s' retry k
      by (cases r') (auto simp: with_link_def N_def [symmetric] link_of_def Let_def split: sum.splits if_splits)
  qed
qed

section \<open>Properties\<close>

text \<open>
  C22: The \<open>with\<close> statement over a link, with and without a shutdown event. Every connection handed
  out is closed again, in order, and the attempts are numbered from one and at most
  \<open>retry_attempts\<close>. The body runs at the first attempt with a heartbeat, unless the event stops the
  attempts before; what it returns is the outcome, and so is what it raises when that is no
  \<open>Exception\<close>. But an \<open>Exception\<close> raised by the body (a \<open>typer.Exit\<close> as well) never reaches the
  caller: it is taken for a failed attempt, and turns into the \<open>ConnectionError\<close> of a shutdown in the
  back-off or before a later attempt, into that of exhausted attempts or, when a later attempt
  connects, into a \<open>RuntimeError\<close>.
\<close>

theorem with_link_outcome:
  "(let (ev, r) = with_link cfg waits env is_exception body
    in closes ev = yields ev \<and> (\<exists>j \<le> nat (retry_attempts cfg). attempts ev = [1..<1 + j])) \<and>
   snd (with_link cfg waits env is_exception body) =
     (let N = nat (retry_attempts cfg) in
      case link_from waits env N 1 of
        Inl e \<Rightarrow> Inl (NoLink e)
      | Inr k \<Rightarrow>
          (case body k of
             Inr a \<Rightarrow> Inr a
           | Inl x \<Rightarrow>
               Inl (if \<not> is_exception x then FromBody x
                    else if waits \<and> shutdown_in_backoff (env k) \<and> k < N then NoLink ShutdownDuringRetry
                    else (case link_from waits env N (Suc k) of
                            Inl e \<Rightarrow> NoLink e | Inr k' \<Rightarrow> GeneratorDidntStop)))) \<and>
   \<not> (\<exists>x. snd (with_link cfg waits env is_exception body) = Inl (FromBody x) \<and> is_exception x)"
  unfolding with_link_result using with_link_closes [of cfg waits env is_exception body]
  by (auto simp: case_prod_beta Let_def split: sum.splits)

end
