(* ===== verification/PyValue.thy ===== *)
theory PyValue
  imports PyFloat
begin

text \<open>
  The values a YAML or JSON document loads to (\<open>yaml.safe_load\<close>, \<open>json.load\<close>) and Python's
  conversions on them: \<open>float()\<close>, \<open>int()\<close>, \<open>bool()\<close>, \<open>str()\<close> and the
  \<open>isinstance\<close> tests, where a \<open>bool\<close> is an \<open>int\<close>. Mapping keys are strings. The text of a
  float (\<open>repr\<close>) is an argument \<open>fr\<close> of \<open>py_str\<close>: no property depends on its digits.
\<close>

datatype pyval =
    VNone
  | VBool bool
  | VInt int
  | VFloat pyfloat
  | VStr string
  | VList "pyval list"
  | VDict "(string \<times> pyval) list"

section \<open>Decimal floats\<close>

definition digit_run :: "string \<Rightarrow> string option" where
  "digit_run s = (if s = [] then Some [] else digits_us s)"

definition is_run_char :: "char \<Rightarrow> bool" where
  "is_run_char c \<longleftrightarrow> py_isdigit c \<or> c = CHR ''_''"

definition parse_exponent :: "string \<Rightarrow> int option" where
  "parse_exponent s =
     (case s of
        [] \<Rightarrow> Some 0
      | c # cs \<Rightarrow>
          if c \<noteq> CHR ''e'' then None
          else (case cs of
              [] \<Rightarrow> None
            | d # ds \<Rightarrow>
                if d = CHR ''-'' then map_option (\<lambda>t. - int (nat_of_digits t)) (digits_us ds)
                else if d = CHR ''+'' then map_option (\<lambda>t. int (nat_of_digits t)) (digits_us ds)
                else map_option (\<lambda>t. int (nat_of_digits t)) (digits_us (d # ds))))"

definition parse_decimal :: "string \<Rightarrow> rat option" where
  "parse_decimal s =
     (let m = takeWhile is_run_char s;
          r = dropWhile is_run_char s;
          f = (if r \<noteq> [] \<and> hd r = CHR ''.'' then takeWhile is_run_char (tl r) else []);
          e = (if r \<noteq> [] \<and> hd r = CHR ''.'' then dropWhile is_run_char (tl r) else r)
      in case (digit_run m, digit_run f, parse_exponent e) of
           (Some a, Some b, Some k) \<Rightarrow>
             if a = [] \<and> b = [] then None
             else Some (of_nat (nat_of_digits (a @ b)) * 10 powi (k - int (length b)))
         | _ \<Rightarrow> None)"

definition parse_unsigned :: "string \<Rightarrow> pyfloat option" where
  "parse_unsigned s =
     (if s = ''inf'' \<or> s = ''infinity'' then Some PInf
      else if s = ''nan'' then Some NaN
      else map_option rnd (parse_decimal s))"

text \<open>\<open>float(s)\<close> of a string; \<open>None\<close> is the \<open>ValueError\<close>.\<close>

definition parse_float :: "string \<Rightarrow> pyfloat option" where
  "parse_float s =
     (case py_lower (py_strip s) of
        [] \<Rightarrow> None
      | c # cs \<Rightarrow>
          if c = CHR ''-'' then map_option fneg (parse_unsigned cs)
          else if c = CHR ''+'' then parse_unsigned cs
          else parse_unsigned (c # cs))"

section \<open>Conversions\<close>

definition int_of_bool :: "bool \<Rightarrow> int" where "int_of_bool b = (if b then 1 else 0)"

fun py_float :: "pyval \<Rightarrow> (pyexc, pyfloat) result" where
  "py_float (VBool b) = Ok (fint (int_of_bool b))"
| "py_float (VInt n) = float_of_int n"
| "py_float (VFloat x) = Ok x"
| "py_float (VStr s) = of_opt ValueError (parse_float s)"
| "py_float VNone = Err TypeError"
| "py_float (VList xs) = Err TypeError"
| "py_float (VDict d) = Err TypeError"

fun py_int :: "pyval \<Rightarrow> (pyexc, int) result" where
  "py_int (VBool b) = Ok (int_of_bool b)"
| "py_int (VInt n) = Ok n"
| "py_int (VFloat x) = int_of_float x"
| "py_int (VStr s) = of_opt ValueError (parse_int s)"
| "py_int VNone = Err TypeError"
| "py_int (VList xs) = Err TypeError"
| "py_int (VDict d) = Err TypeError"

fun py_bool :: "pyval \<Rightarrow> bool" where
  "py_bool VNone = False"
| "py_bool (VBool b) = b"
| "py_bool (VInt n) = (n \<noteq> 0)"
| "py_bool (VFloat x) = (x \<noteq> Fin 0)"
| "py_bool (VStr s) = (s \<noteq> [])"
| "py_bool (VList xs) = (xs \<noteq> [])"
| "py_bool (VDict d) = (d \<noteq> [])"

text \<open>\<open>isinstance(v, int)\<close> with the integer it stands for, and \<open>isinstance(v, (int, float))\<close>.\<close>

fun as_int :: "pyval \<Rightarrow> int option" where
  "as_int (VBool b) = Some (int_of_bool b)"
| "as_int (VInt n) = Some n"
| "as_int v = None"

fun as_str :: "pyval \<Rightarrow> string option" where
  "as_str (VStr s) = Some s"
| "as_str v = None"

fun is_number :: "pyval \<Rightarrow> bool" where
  "is_number (VBool b) = True"
| "is_number (VInt n) = True"
| "is_number (VFloat x) = True"
| "is_number v = False"

text \<open>The text of strings, lists and mappings inside other text (\<open>repr\<close>).\<close>

definition hex_digit :: "nat \<Rightarrow> char" where
  "hex_digit d = (if d < 10 then char_of (48 + d) else char_of (87 + d))"

definition repr_char :: "char \<Rightarrow> char \<Rightarrow> string" where
  "repr_char q c =
     (let n = (of_char c :: nat) in
      if c = CHR 0x5C \<or> c = q then [CHR 0x5C, c]
      else if n = 10 then [CHR 0x5C, CHR ''n'']
      else if n = 13 then [CHR 0x5C, CHR ''r'']
      else if n = 9 then [CHR 0x5C, CHR ''t'']
      else if n < 32 \<or> 127 \<le> n then [CHR 0x5C, CHR ''x'', hex_digit (n div 16), hex_digit (n mod 16)]
      else [c])"

definition repr_str :: "string \<Rightarrow> string" where
  "repr_str s =
     (let q = (if CHR 0x27 \<in> set s \<and> CHR 0x22 \<notin> set s then CHR 0x22 else CHR 0x27)
      in [q] @ concat (map (repr_char q) s) @ [q])"

fun py_repr :: "(pyfloat \<Rightarrow> string) \<Rightarrow> pyval \<Rightarrow> string" where
  "py_repr fr VNone = ''None''"
| "py_repr fr (VBool b) = (if b then ''True'' else ''False'')"
| "py_repr fr (VInt n) = str_int n"
| "py_repr fr (VFloat x) = fr x"
| "py_repr fr (VStr s) = repr_str s"
| "py_repr fr (VList xs) = ''['' @ join_with '', '' (map (py_repr fr) xs) @ '']''"
| "py_repr fr (VDict d) =
     ''{'' @ join_with '', '' (map (\<lambda>(k, v). repr_str k @ '': '' @ py_repr fr v) d) @ ''}''"

fun py_str :: "(pyfloat \<Rightarrow> string) \<Rightarrow> pyval \<Rightarrow> string" where
  "py_str fr (VStr s) = s"
| "py_str fr v = py_repr fr v"

definition zfill :: "nat \<Rightarrow> string \<Rightarrow> string" where
  "zfill n s = replicate (n - length s) (CHR ''0'') @ s"

text \<open>\<open>f"{x:.kf}"\<close>: the value rounded half to even to \<open>k\<close> decimals.\<close>

fun fixed :: "nat \<Rightarrow> pyfloat \<Rightarrow> string" where
  "fixed k (Fin x) =
     (let n = nat (rhe (\<bar>x\<bar> * 10 ^ k))
      in (if x < 0 then ''-'' else []) @ digits_of_nat (n div 10 ^ k)
         @ (if k = 0 then [] else ''.'' @ zfill k (digits_of_nat (n mod 10 ^ k))))"
| "fixed k PInf = ''inf''"
| "fixed k NInf = ''-inf''"
| "fixed k NaN = ''nan''"

lemma as_int_Some: "as_int v = Some n \<longleftrightarrow> v = VInt n \<or> (\<exists>b. v = VBool b \<and> n = int_of_bool b)"
  by (cases v) auto

lemma as_str_Some: "as_str v = Some s \<longleftrightarrow> v = VStr s"
  by (cases v) auto

lemma py_float_number: "is_number v \<Longrightarrow> py_float v \<noteq> Err ValueError \<and> py_float v \<noteq> Err TypeError"
  by (cases v) (auto simp: float_of_int_def split: pyfloat.splits)

lemma py_float_small_int: "\<bar>n\<bar> < 2 ^ 53 \<Longrightarrow> py_float (VInt n) = Ok (fint n)"
proof -
  assume n: "\<bar>n\<bar> < 2 ^ 53"
  then have "\<bar>(of_int n :: rat)\<bar> < 2 ^ 53" by (metis of_int_abs of_int_less_iff of_int_numeral of_int_power)
  then have "\<bar>(of_int n :: rat)\<bar> < 2 ^ 1024" by (rule order.strict_trans2) simp
  then have "rnd (of_int n) = Fin (of_int n)" using n by (simp add: rnd_finite)
  then show ?thesis by (simp add: float_of_int_def fint_def)
qed

end
