(* ===== verification/Config.thy ===== *)
theory Config
  imports PyValue
begin

text \<open>
  The configuration files: \<open>config/vslam.py\<close>, \<open>config/jetson.py\<close> and \<open>config/laptop.py\<close>, each with
  its coercion from a loaded document, its conversion back and its load and save. The locale
  \<open>config_codec\<close> is the contract they share. The YAML codec is an argument, \<open>expanduser\<close> as well.
  Where the code keeps a Boolean in an integer field, the model keeps the integer it equals.
\<close>

datatype config_error = ConfigError string | ConfigRaised pyexc

type_synonym 'a cfg = "(config_error, 'a) result"
type_synonym doc = "(string, pyval) dict"

section \<open>Fields\<close>

definition str_field :: "doc \<Rightarrow> string \<Rightarrow> string \<Rightarrow> string cfg" where
  "str_field d k dflt = of_opt (ConfigError k) (as_str (dict_get_or d k (VStr dflt)))"

text \<open>\<open>value not in VALID\<close>: a list or a mapping is not hashable, and the test raises.\<close>

definition choice_field :: "doc \<Rightarrow> string \<Rightarrow> string \<Rightarrow> string list \<Rightarrow> string cfg" where
  "choice_field d k dflt valid =
     (case dict_get_or d k (VStr dflt) of
        VStr s \<Rightarrow> if s \<in> set valid then Ok s else Err (ConfigError k)
      | VList xs \<Rightarrow> Err (ConfigRaised TypeError)
      | VDict m \<Rightarrow> Err (ConfigRaised TypeError)
      | _ \<Rightarrow> Err (ConfigError k))"

definition int_field :: "doc \<Rightarrow> string \<Rightarrow> int \<Rightarrow> (int \<Rightarrow> bool) \<Rightarrow> int cfg" where
  "int_field d k dflt valid =
     (case as_int (dict_get_or d k (VInt dflt)) of
        None \<Rightarrow> Err (ConfigError k)
      | Some n \<Rightarrow> if valid n then Ok n else Err (ConfigError k))"

definition bool_field :: "doc \<Rightarrow> string \<Rightarrow> bool \<Rightarrow> bool cfg" where
  "bool_field d k dflt =
     (case dict_get_or d k (VBool dflt) of VBool b \<Rightarrow> Ok b | _ \<Rightarrow> Err (ConfigError k))"

text \<open>A float that may be missing or null.\<close>

definition float_field :: "doc \<Rightarrow> string \<Rightarrow> pyfloat \<Rightarrow> pyfloat cfg" where
  "float_field d k dflt =
     (case dict_get_or d k VNone of
        VNone \<Rightarrow> Ok dflt
      | v \<Rightarrow> if is_number v then map_err ConfigRaised (py_float v) else Err (ConfigError k))"

definition str_list_field :: "doc \<Rightarrow> string \<Rightarrow> string list \<Rightarrow> string list cfg" where
  "str_list_field d k dflt =
     (case dict_get_or d k (VList (map VStr dflt)) of
        VList vs \<Rightarrow> of_opt (ConfigError k) (those (map as_str vs))
      | _ \<Rightarrow> Err (ConfigError k))"

definition positive :: "int \<Rightarrow> bool" where "positive n \<longleftrightarrow> 0 < n"

section \<open>VSLAM\<close>

record extrinsics =
  pos_x :: pyfloat
  pos_y :: pyfloat
  pos_z :: pyfloat
  ex_roll :: pyfloat
  ex_pitch :: pyfloat
  ex_yaw :: pyfloat

record bridge_config =
  serial_device :: string
  source_system :: int
  source_component :: int

record vslam_config =
  odometry_strategy :: string
  stereo_resolution :: string
  stereo_fps :: int
  imu_rate_hz :: int
  imu_rotation_sensor :: string
  pose_output_rate_hz :: int
  memory_threshold_mb :: int
  loop_closure :: bool
  database_path :: string
  socket_path :: string
  usb_max_speed :: string
  ir_dot_projector_ma :: int
  ir_flood_led_ma :: int
  slam_mode :: string
  vc_extrinsics :: extrinsics
  vc_bridge :: bridge_config

definition default_extrinsics :: extrinsics where
  "default_extrinsics = \<lparr>pos_x = rnd (3 / 10), pos_y = Fin 0, pos_z = rnd (- 1 / 5), ex_roll = Fin 0,
     ex_pitch = Fin (- 15), ex_yaw = Fin 0\<rparr>"

definition default_bridge :: bridge_config where
  "default_bridge = \<lparr>serial_device = ''/dev/ttyACM0'', source_system = 1, source_component = 197\<rparr>"

definition default_vslam_config :: vslam_config where
  "default_vslam_config = \<lparr>odometry_strategy = ''f2m'', stereo_resolution = ''800p'', stereo_fps = 30,
     imu_rate_hz = 200, imu_rotation_sensor = ''game_rotation_vector'', pose_output_rate_hz = 20,
     memory_threshold_mb = 6000, loop_closure = True, database_path = ''/var/lib/mower/rtabmap.db'',
     socket_path = ''/run/mower/vslam-pose.sock'', usb_max_speed = ''SUPER'', ir_dot_projector_ma = 750,
     ir_flood_led_ma = 200, slam_mode = ''mapping'', vc_extrinsics = default_extrinsics,
     vc_bridge = default_bridge\<rparr>"

definition extrinsics_to_dict :: "extrinsics \<Rightarrow> pyval" where
  "extrinsics_to_dict e = VDict [(''pos_x'', VFloat (pos_x e)), (''pos_y'', VFloat (pos_y e)),
     (''pos_z'', VFloat (pos_z e)), (''roll'', VFloat (ex_roll e)), (''pitch'', VFloat (ex_pitch e)),
     (''yaw'', VFloat (ex_yaw e))]"

definition bridge_to_dict :: "bridge_config \<Rightarrow> pyval" where
  "bridge_to_dict b = VDict [(''serial_device'', VStr (serial_device b)),
     (''source_system'', VInt (source_system b)), (''source_component'', VInt (source_component b))]"

definition vslam_to_dict :: "vslam_config \<Rightarrow> pyval" where
  "vslam_to_dict c = VDict
     [(''vslam'', VDict
        [(''odometry_strategy'', VStr (odometry_strategy c)),
         (''stereo_resolution'', VStr (stereo_resolution c)),
         (''stereo_fps'', VInt (stereo_fps c)),
         (''imu_rate_hz'', VInt (imu_rate_hz c)),
         (''imu_rotation_sensor'', VStr (imu_rotation_sensor c)),
         (''pose_output_rate_hz'', VInt (pose_output_rate_hz c)),
         (''memory_threshold_mb'', VInt (memory_threshold_mb c)),
         (''loop_closure'', VBool (loop_closure c)),
         (''database_path'', VStr (database_path c)),
         (''socket_path'', VStr (socket_path c)),
         (''usb_max_speed'', VStr (usb_max_speed c)),
         (''ir_dot_projector_ma'', VInt (ir_dot_projector_ma c)),
         (''ir_flood_led_ma'', VInt (ir_flood_led_ma c)),
         (''slam_mode'', VStr (slam_mode c)),
         (''extrinsics'', extrinsics_to_dict (vc_extrinsics c))]),
      (''bridge'', bridge_to_dict (vc_bridge c))]"

definition valid_odometry :: "string list" where
  "valid_odometry = [''f2m'', ''f2f'', ''fovis'', ''viso2'', ''orbslam2'']"

definition valid_resolutions :: "string list" where
  "valid_resolutions = [''400p'', ''480p'', ''720p'', ''800p'']"

definition valid_usb_speeds :: "string list" where
  "valid_usb_speeds = [''HIGH'', ''SUPER'', ''SUPER_PLUS'']"

definition valid_imu_rotation_sensors :: "string list" where
  "valid_imu_rotation_sensors =
     [''game_rotation_vector'', ''rotation_vector'', ''arvr_stabilized_game_rotation_vector'']"

definition valid_slam_modes :: "string list" where
  "valid_slam_modes = [''mapping'', ''localization'']"

fun coerce_extrinsics :: "pyval \<Rightarrow> extrinsics cfg" where
  "coerce_extrinsics VNone = Ok default_extrinsics"
| "coerce_extrinsics (VDict d) =
     bindr (float_field d ''pos_x'' (pos_x default_extrinsics)) (\<lambda>x.
     bindr (float_field d ''pos_y'' (pos_y default_extrinsics)) (\<lambda>y.
     bindr (float_field d ''pos_z'' (pos_z default_extrinsics)) (\<lambda>z.
     bindr (float_field d ''roll'' (ex_roll default_extrinsics)) (\<lambda>r.
     bindr (float_field d ''pitch'' (ex_pitch default_extrinsics)) (\<lambda>p.
     bindr (float_field d ''yaw'' (ex_yaw default_extrinsics)) (\<lambda>w.
     Ok \<lparr>pos_x = x, pos_y = y, pos_z = z, ex_roll = r, ex_pitch = p, ex_yaw = w\<rparr>))))))"
| "coerce_extrinsics v = Err (ConfigError ''extrinsics'')"

fun coerce_bridge :: "pyval \<Rightarrow> bridge_config cfg" where
  "coerce_bridge VNone = Ok default_bridge"
| "coerce_bridge (VDict d) =
     bindr (str_field d ''serial_device'' ''/dev/ttyACM0'') (\<lambda>dev.
     bindr (int_field d ''source_system'' 1 (\<lambda>n. 0 \<le> n)) (\<lambda>sys.
     bindr (int_field d ''source_component'' 197 (\<lambda>n. 0 \<le> n)) (\<lambda>comp.
     Ok \<lparr>serial_device = dev, source_system = sys, source_component = comp\<rparr>)))"
| "coerce_bridge v = Err (ConfigError ''bridge'')"

definition coerce_vslam_section :: "doc \<Rightarrow> pyval \<Rightarrow> vslam_config cfg" where
  "coerce_vslam_section d bridge_raw =
     bindr (choice_field d ''odometry_strategy'' ''f2m'' valid_odometry) (\<lambda>odo.
     bindr (choice_field d ''stereo_resolution'' ''400p'' valid_resolutions) (\<lambda>res.
     bindr (int_field d ''stereo_fps'' 30 positive) (\<lambda>fps.
     bindr (int_field d ''imu_rate_hz'' 200 positive) (\<lambda>imu.
     bindr (choice_field d ''imu_rotation_sensor'' ''game_rotation_vector'' valid_imu_rotation_sensors) (\<lambda>rot.
     bindr (int_field d ''pose_output_rate_hz'' 20 positive) (\<lambda>rate.
     bindr (int_field d ''memory_threshold_mb'' 6000 positive) (\<lambda>mem.
     bindr (bool_field d ''loop_closure'' True) (\<lambda>loop.
     bindr (str_field d ''database_path'' ''/var/lib/mower/rtabmap.db'') (\<lambda>db.
     bindr (str_field d ''socket_path'' ''/run/mower/vslam-pose.sock'') (\<lambda>sock.
     bindr (choice_field d ''usb_max_speed'' ''SUPER'' valid_usb_speeds) (\<lambda>usb.
     bindr (int_field d ''ir_dot_projector_ma'' 750 (\<lambda>n. 0 \<le> n \<and> n \<le> 1200)) (\<lambda>dot.
     bindr (int_field d ''ir_flood_led_ma'' 200 (\<lambda>n. 0 \<le> n \<and> n \<le> 1500)) (\<lambda>flood.
     bindr (choice_field d ''slam_mode'' ''mapping'' valid_slam_modes) (\<lambda>mode.
     bindr (coerce_extrinsics (dict_get_or d ''extrinsics'' VNone)) (\<lambda>ext.
     bindr (coerce_bridge bridge_raw) (\<lambda>br.
     Ok \<lparr>odometry_strategy = odo, stereo_resolution = res, stereo_fps = fps, imu_rate_hz = imu,
         imu_rotation_sensor = rot, pose_output_rate_hz = rate, memory_threshold_mb = mem,
         loop_closure = loop, database_path = db, socket_path = sock, usb_max_speed = usb,
         ir_dot_projector_ma = dot, ir_flood_led_ma = flood, slam_mode = mode,
         vc_extrinsics = ext, vc_bridge = br\<rparr>))))))))))))))))"

fun coerce_vslam :: "pyval \<Rightarrow> vslam_config cfg" where
  "coerce_vslam (VDict raw) =
     (case dict_get_or raw ''vslam'' (VDict []) of
        VDict d \<Rightarrow> coerce_vslam_section d (dict_get_or raw ''bridge'' VNone)
      | _ \<Rightarrow> Err (ConfigError ''vslam''))"
| "coerce_vslam v = Err (ConfigError ''top-level'')"

section \<open>Files\<close>

text \<open>\<open>sort_keys=True\<close> of \<open>yaml.safe_dump\<close> orders every mapping of the document by its keys.\<close>

fun sort_keys :: "pyval \<Rightarrow> pyval" where
  "sort_keys (VList xs) = VList (map sort_keys xs)"
| "sort_keys (VDict d) = VDict (sort_key fst (map (\<lambda>(k, v). (k, sort_keys v)) d))"
| "sort_keys v = v"

text \<open>
  Loading with a coercion: \<open>None\<close> is a missing file, for which the defaults hold; \<open>yaml_load\<close> gives
  \<open>None\<close> on a \<open>YAMLError\<close>; a falsy document counts as an empty mapping.
\<close>

definition load_config :: "(string \<Rightarrow> pyval option) \<Rightarrow> 'c \<Rightarrow> (pyval \<Rightarrow> 'c cfg) \<Rightarrow> string option \<Rightarrow> 'c cfg" where
  "load_config yaml_load dflt coerce file =
     (case file of
        None \<Rightarrow> Ok dflt
      | Some text \<Rightarrow>
          (case yaml_load text of
             None \<Rightarrow> Err (ConfigError ''parse'')
           | Some v \<Rightarrow> coerce (if py_bool v then v else VDict [])))"

definition load_vslam_config :: "(string \<Rightarrow> pyval option) \<Rightarrow> string option \<Rightarrow> vslam_config cfg" where
  "load_vslam_config yaml_load = load_config yaml_load default_vslam_config coerce_vslam"

definition save_vslam_config :: "(pyval \<Rightarrow> string) \<Rightarrow> vslam_config \<Rightarrow> string" where
  "save_vslam_config yaml_dump c = yaml_dump (vslam_to_dict c)"

section \<open>Jetson\<close>

text \<open>
  \<open>str(Path(s))\<close> on POSIX: empty and dot components go, an absolute path keeps its root (a
  double slash at the start as well), and nothing left is a dot.
\<close>

definition path_root :: "string \<Rightarrow> string" where
  "path_root s =
     (let n = length (takeWhile (\<lambda>c. c = CHR ''/'') s)
      in if n = 0 then [] else if n = 2 then ''//'' else ''/'')"

definition posix_path :: "string \<Rightarrow> string" where
  "posix_path s =
     (let parts = filter (\<lambda>p. p \<noteq> [] \<and> p \<noteq> ''.'') (split_char CHR ''/'' s);
          r = path_root s @ join_with ''/'' parts
      in if r = [] then ''.'' else r)"

text \<open>\<open>Path(d) / f\<close> for a relative \<open>f\<close>.\<close>

definition path_join :: "string \<Rightarrow> string \<Rightarrow> string" where
  "path_join d f = posix_path (d @ ''/'' @ f)"

record kiosk_config =
  mavproxy_endpoint :: string
  mavproxy_master :: string
  mavproxy_outputs :: "string list"
  vslam_socket :: string
  refresh_hz :: int
  heartbeat_staleness_s :: pyfloat
  service_check_units :: "string list"

record jetson_config =
  log_dir :: "string option"
  oakd_required :: bool
  health_interval_s :: int
  service_user_level :: bool
  jc_kiosk :: kiosk_config
  jc_extra :: doc

definition default_kiosk :: kiosk_config where
  "default_kiosk = \<lparr>mavproxy_endpoint = ''udp:127.0.0.1:14551'', mavproxy_master = ''/dev/ttyACM0'',
     mavproxy_outputs = [''udp:127.0.0.1:14550'', ''udp:127.0.0.1:14551'', ''udp:127.0.0.1:14552''],
     vslam_socket = ''/run/mower/vslam-pose.sock'', refresh_hz = 1, heartbeat_staleness_s = Fin 60,
     service_check_units = [''mower-health.service'', ''mower-vslam.service'', ''mower-vslam-bridge.service'',
       ''mower-weston.service'', ''mower-mavproxy.service'']\<rparr>"

definition default_jetson_config :: jetson_config where
  "default_jetson_config = \<lparr>log_dir = None, oakd_required = False, health_interval_s = 60,
     service_user_level = False, jc_kiosk = default_kiosk, jc_extra = []\<rparr>"

text \<open>A Boolean is no positive number here; an integer is compared before it is converted.\<close>

definition staleness_field :: "doc \<Rightarrow> pyfloat cfg" where
  "staleness_field d =
     (case dict_get_or d ''heartbeat_staleness_s'' (VFloat (Fin 60)) of
        VInt n \<Rightarrow> if n \<le> 0 then Err (ConfigError ''heartbeat_staleness_s'')
                   else map_err ConfigRaised (py_float (VInt n))
      | VFloat x \<Rightarrow> if fle x (Fin 0) then Err (ConfigError ''heartbeat_staleness_s'') else Ok x
      | _ \<Rightarrow> Err (ConfigError ''heartbeat_staleness_s''))"

fun coerce_kiosk :: "pyval \<Rightarrow> kiosk_config cfg" where
  "coerce_kiosk VNone = Ok default_kiosk"
| "coerce_kiosk (VDict d) =
     bindr (str_field d ''mavproxy_endpoint'' (mavproxy_endpoint default_kiosk)) (\<lambda>ep.
     bindr (str_field d ''mavproxy_master'' (mavproxy_master default_kiosk)) (\<lambda>ma.
     bindr (str_list_field d ''mavproxy_outputs'' (mavproxy_outputs default_kiosk)) (\<lambda>outs.
     bindr (str_field d ''vslam_socket'' (vslam_socket default_kiosk)) (\<lambda>sock.
     bindr (int_field d ''refresh_hz'' 1 positive) (\<lambda>hz.
     bindr (staleness_field d) (\<lambda>st.
     bindr (str_list_field d ''service_check_units'' (service_check_units default_kiosk)) (\<lambda>units.
     Ok \<lparr>mavproxy_endpoint = ep, mavproxy_master = ma, mavproxy_outputs = outs, vslam_socket = sock,
         refresh_hz = hz, heartbeat_staleness_s = st, service_check_units = units\<rparr>)))))))"
| "coerce_kiosk v = Err (ConfigError ''kiosk'')"

definition jetson_known :: "string list" where
  "jetson_known = [''log_dir'', ''oakd_required'', ''health_interval_s'', ''service_user_level'', ''kiosk'']"

definition unknown_fields :: "string list \<Rightarrow> doc \<Rightarrow> doc" where
  "unknown_fields known d = filter (\<lambda>(k, v). k \<notin> set known) d"

definition path_field :: "(string \<Rightarrow> string) \<Rightarrow> doc \<Rightarrow> string \<Rightarrow> string option cfg" where
  "path_field conv d k =
     (case dict_get_or d k VNone of
        VNone \<Rightarrow> Ok None
      | VStr s \<Rightarrow> Ok (Some (conv s))
      | _ \<Rightarrow> Err (ConfigError k))"

fun coerce_jetson :: "pyval \<Rightarrow> jetson_config cfg" where
  "coerce_jetson (VDict d) =
     bindr (path_field posix_path d ''log_dir'') (\<lambda>dir.
     bindr (bool_field d ''oakd_required'' False) (\<lambda>oakd.
     bindr (int_field d ''health_interval_s'' 60 positive) (\<lambda>intv.
     bindr (bool_field d ''service_user_level'' False) (\<lambda>lvl.
     bindr (coerce_kiosk (dict_get_or d ''kiosk'' VNone)) (\<lambda>kiosk.
     Ok \<lparr>log_dir = dir, oakd_required = oakd, health_interval_s = intv, service_user_level = lvl,
         jc_kiosk = kiosk, jc_extra = unknown_fields jetson_known d\<rparr>)))))"
| "coerce_jetson v = Err (ConfigError ''top-level'')"

definition kiosk_to_dict :: "kiosk_config \<Rightarrow> pyval" where
  "kiosk_to_dict k = VDict [(''mavproxy_endpoint'', VStr (mavproxy_endpoint k)),
     (''mavproxy_master'', VStr (mavproxy_master k)),
     (''mavproxy_outputs'', VList (map VStr (mavproxy_outputs k))),
     (''vslam_socket'', VStr (vslam_socket k)), (''refresh_hz'', VInt (refresh_hz k)),
     (''heartbeat_staleness_s'', VFloat (heartbeat_staleness_s k)),
     (''service_check_units'', VList (map VStr (service_check_units k)))]"

definition opt_str :: "string option \<Rightarrow> pyval" where
  "opt_str v = (case v of None \<Rightarrow> VNone | Some s \<Rightarrow> VStr s)"

definition jetson_to_dict :: "jetson_config \<Rightarrow> doc" where
  "jetson_to_dict c = [(''log_dir'', opt_str (log_dir c)), (''oakd_required'', VBool (oakd_required c)),
     (''health_interval_s'', VInt (health_interval_s c)),
     (''service_user_level'', VBool (service_user_level c)),
     (''kiosk'', kiosk_to_dict (jc_kiosk c)), (''extra'', VDict (jc_extra c))]"

definition jetson_payload :: "jetson_config \<Rightarrow> doc" where
  "jetson_payload c = dict_pop ''extra'' (dict_update (jetson_to_dict c) (jc_extra c))"

definition load_jetson_config :: "(string \<Rightarrow> pyval option) \<Rightarrow> string option \<Rightarrow> jetson_config cfg" where
  "load_jetson_config yaml_load = load_config yaml_load default_jetson_config coerce_jetson"

definition save_jetson_config :: "(pyval \<Rightarrow> string) \<Rightarrow> jetson_config \<Rightarrow> string" where
  "save_jetson_config yaml_dump c = yaml_dump (sort_keys (VDict (jetson_payload c)))"

section \<open>Laptop\<close>

record jetson_endpoint =
  je_host :: string
  je_user :: string
  je_port :: int
  je_key_path :: "string option"

record laptop_config =
  lc_jetson :: "jetson_endpoint option"
  lc_extra :: doc

definition port_ok :: "int \<Rightarrow> bool" where "port_ok n \<longleftrightarrow> 0 < n \<and> n \<le> 65535"

fun coerce_endpoint :: "(string \<Rightarrow> string) \<Rightarrow> pyval \<Rightarrow> jetson_endpoint cfg" where
  "coerce_endpoint expand (VDict d) =
     (case (dict_get d ''host'', dict_get d ''user'') of
        (Some (VStr host), Some (VStr user)) \<Rightarrow>
          bindr (int_field d ''port'' 22 port_ok) (\<lambda>port.
          bindr (path_field expand d ''key_path'') (\<lambda>key.
          Ok \<lparr>je_host = host, je_user = user, je_port = port, je_key_path = key\<rparr>))
      | _ \<Rightarrow> Err (ConfigError ''jetson''))"
| "coerce_endpoint expand v = Err (ConfigError ''jetson'')"

fun coerce_laptop :: "(string \<Rightarrow> string) \<Rightarrow> pyval \<Rightarrow> laptop_config cfg" where
  "coerce_laptop expand (VDict d) =
     (let raw = dict_get_or d ''jetson'' VNone
      in bindr (if py_bool raw then bindr (coerce_endpoint expand raw) (\<lambda>e. Ok (Some e)) else Ok None)
           (\<lambda>ep. Ok \<lparr>lc_jetson = ep, lc_extra = unknown_fields [''jetson''] d\<rparr>))"
| "coerce_laptop expand v = Err (ConfigError ''top-level'')"

definition endpoint_to_dict :: "jetson_endpoint \<Rightarrow> pyval" where
  "endpoint_to_dict e = VDict [(''host'', VStr (je_host e)), (''user'', VStr (je_user e)),
     (''port'', VInt (je_port e)), (''key_path'', opt_str (je_key_path e))]"

definition laptop_payload :: "laptop_config \<Rightarrow> doc" where
  "laptop_payload c =
     dict_update [(''jetson'', case lc_jetson c of None \<Rightarrow> VNone | Some e \<Rightarrow> endpoint_to_dict e)] (lc_extra c)"

definition load_laptop_config ::
  "(string \<Rightarrow> string) \<Rightarrow> (string \<Rightarrow> pyval option) \<Rightarrow> string option \<Rightarrow> laptop_config cfg" where
  "load_laptop_config expand yaml_load =
     load_config yaml_load \<lparr>lc_jetson = None, lc_extra = []\<rparr> (coerce_laptop expand)"

definition save_laptop_config :: "(pyval \<Rightarrow> string) \<Rightarrow> laptop_config \<Rightarrow> string" where
  "save_laptop_config yaml_dump c = yaml_dump (sort_keys (VDict (laptop_payload c)))"

section \<open>Sorted documents\<close>

definition sort_doc :: "doc \<Rightarrow> doc" where
  "sort_doc d = sort_key fst (map (\<lambda>(k, v). (k, sort_keys v)) d)"

lemma sort_keys_VDict [simp]: "sort_keys (VDict d) = VDict (sort_doc d)"
  by (simp add: sort_doc_def)

declare sort_keys.simps(2) [simp del]

lemma map_of_find: "map_of e k = map_option snd (find (\<lambda>p. fst p = k) e)"
  by (induction e) auto

lemma find_filter: "find P e = (case filter P e of [] \<Rightarrow> None | p # ps \<Rightarrow> Some p)"
  by (induction e) auto

lemma map_of_sort_key: "map_of (sort_key fst d) k = map_of d k"
  using sort_key_stable [of fst k d] by (simp only: map_of_find find_filter)

lemma map_of_sort_doc: "map_of (sort_doc d) k = map_option sort_keys (map_of d k)"
proof -
  have "map_of (map (\<lambda>(k, v). (k, sort_keys v)) d) k = map_option sort_keys (map_of d k)"
    by (induction d) auto
  then show ?thesis by (simp add: sort_doc_def map_of_sort_key)
qed

lemma sort_doc_nonempty [simp]: "sort_doc d = [] \<longleftrightarrow> d = []"
  unfolding sort_doc_def by (metis length_0_conv length_map length_sort)

lemma set_sort_doc: "set (sort_doc d) = (\<lambda>(k, v). (k, sort_keys v)) ` set d"
  by (simp add: sort_doc_def)

lemma keys_sort_doc [simp]: "fst ` set (sort_doc d) = fst ` set d"
  by (force simp: set_sort_doc image_iff)

lemma dict_ok_sort_doc [simp]: "dict_ok (sort_doc d) \<longleftrightarrow> dict_ok d"
proof -
  have "length (sort_doc d) = length d" by (simp add: sort_doc_def)
  moreover have "set (map fst (sort_doc d)) = set (map fst d)" using keys_sort_doc [of d] by simp
  ultimately show ?thesis unfolding dict_ok_def by (metis card_distinct distinct_card length_map)
qed

lemma sort_keys_idem: "sort_keys (sort_keys v) = sort_keys v"
proof (induction v rule: sort_keys.induct)
  case (2 d)
  have "map (\<lambda>(k, v). (k, sort_keys v)) (sort_doc d) = sort_doc d"
    using 2 by (intro map_idI) (auto simp: set_sort_doc)
  then have "sort_doc (sort_doc d) = sort_key fst (sort_doc d)" by (simp add: sort_doc_def)
  also have "\<dots> = sort_doc d" by (simp add: sort_doc_def sort_key_id_if_sorted)
  finally show ?case by simp
qed auto

lemma sort_doc_idem [simp]: "sort_doc (sort_doc d) = sort_doc d"
  using sort_keys_idem [of "VDict d"] by simp

lemma unknown_fields_sort_doc: "unknown_fields ks (sort_doc d) = sort_doc (unknown_fields ks d)"
proof -
  have "filter (\<lambda>(k, v). k \<notin> set ks) (map (\<lambda>(k, v). (k, sort_keys v)) d) =
      map (\<lambda>(k, v). (k, sort_keys v)) (filter (\<lambda>(k, v). k \<notin> set ks) d)"
    by (induction d) auto
  then show ?thesis by (simp add: unknown_fields_def sort_doc_def filter_sort)
qed

lemma dict_get_or_sort_doc: "dict_get_or (sort_doc d) k v = (case map_of d k of None \<Rightarrow> v | Some x \<Rightarrow> sort_keys x)"
  by (simp add: dict_get_or_def map_of_sort_doc split: option.splits)

section \<open>Paths\<close>

lemma split_char_join:
  "ps \<noteq> [] \<Longrightarrow> (\<forall>p \<in> set ps. c \<notin> set p) \<Longrightarrow> split_char c (join_with [c] ps) = ps"
proof (induction ps rule: induct_list012)
  case (2 p)
  then have "c \<notin> set p" by simp
  then show ?case by (induction p) auto
next
  case (3 p q ps)
  have "split_char c (w @ c # t) = w # split_char c t" if "c \<notin> set w" for w t
    using that by (induction w) auto
  with 3 show ?case by simp
qed simp

lemma split_char_parts: "p \<in> set (split_char c s) \<Longrightarrow> c \<notin> set p"
  by (induction s arbitrary: p) (auto split: if_splits list.splits)

lemma join_with_hd: "p \<noteq> [] \<Longrightarrow> hd (join_with sep (p # ps)) = hd p"
  by (cases ps) auto

lemma posix_path_rebuild:
  assumes ps: "\<forall>p \<in> set ps. CHR ''/'' \<notin> set p \<and> p \<noteq> [] \<and> p \<noteq> ''.''"
    and r: "r = [] \<or> r = ''/'' \<or> r = ''//''" and ne: "r @ join_with ''/'' ps \<noteq> []"
  shows "posix_path (r @ join_with ''/'' ps) = r @ join_with ''/'' ps"
proof (cases ps)
  case Nil
  then show ?thesis using r ne by (auto simp: posix_path_def path_root_def)
next
  case (Cons p qs)
  let ?j = "join_with ''/'' ps"
  have sp: "split_char CHR ''/'' ?j = ps" using split_char_join [of ps "CHR ''/''"] ps Cons by simp
  obtain c w where j: "?j = c # w" using Cons ps join_with_hd [of p "''/''" qs] by (cases ?j) (cases qs, auto)+
  then have c: "c \<noteq> CHR ''/''"
    using join_with_hd [of p "''/''" qs] ps Cons by (metis hd_in_set list.sel(1) list.set_intros(1))
  have root: "path_root (r @ ?j) = r" using r c j by (auto simp: path_root_def)
  have keep: "filter (\<lambda>p. p \<noteq> [] \<and> p \<noteq> ''.'') ps = ps" using ps by (simp add: filter_id_conv)
  have "filter (\<lambda>p. p \<noteq> [] \<and> p \<noteq> ''.'') (split_char CHR ''/'' (r @ ?j)) = ps"
    using r keep by (auto simp: sp)
  then show ?thesis using ne root by (simp add: posix_path_def Let_def)
qed

lemma posix_path_idem: "posix_path (posix_path s) = posix_path s"
proof -
  define ps where "ps = filter (\<lambda>p. p \<noteq> [] \<and> p \<noteq> ''.'') (split_char CHR ''/'' s)"
  have ps: "\<forall>p \<in> set ps. CHR ''/'' \<notin> set p \<and> p \<noteq> [] \<and> p \<noteq> ''.''"
    using split_char_parts by (auto simp: ps_def)
  have r: "path_root s = [] \<or> path_root s = ''/'' \<or> path_root s = ''//''"
    by (simp add: path_root_def Let_def)
  have eq: "posix_path s = (if path_root s @ join_with ''/'' ps = [] then ''.'' else path_root s @ join_with ''/'' ps)"
    by (simp add: posix_path_def ps_def Let_def)
  show ?thesis
  proof (cases "path_root s @ join_with ''/'' ps = []")
    case True
    then have "posix_path s = ''.''" using eq by simp
    then show ?thesis by (simp add: posix_path_def path_root_def)
  next
    case False
    then have "posix_path s = path_root s @ join_with ''/'' ps" using eq by simp
    then show ?thesis using posix_path_rebuild [OF ps r False] by simp
  qed
qed

section \<open>The contract of a configuration file\<close>

locale config_codec =
  fixes encode :: "'c \<Rightarrow> pyval" and decode :: "pyval \<Rightarrow> 'c cfg" and dflt :: 'c
    and wf :: "'c \<Rightarrow> bool" and norm :: "'c \<Rightarrow> 'c" and good :: "pyval \<Rightarrow> bool"
  assumes decode_encode: "wf c \<Longrightarrow> decode (encode c) = Ok (norm c)"
    and encode_truthy: "wf c \<Longrightarrow> py_bool (encode c)"
    and decode_wf: "good v \<Longrightarrow> decode v = Ok c \<Longrightarrow> wf c"
    and good_empty: "good v \<Longrightarrow> good (VDict [])"
    and wf_dflt: "wf dflt"
    and wf_norm: "wf c \<Longrightarrow> wf (norm c)"
    and norm_norm: "norm (norm c) = norm c"
begin

lemma load_save:
  assumes "yaml_load (yaml_dump (encode c)) = Some (encode c)" "wf c"
  shows "load_config yaml_load dflt decode (Some (yaml_dump (encode c))) = Ok (norm c)"
  using assms decode_encode encode_truthy by (simp add: load_config_def)

lemma loaded_wf:
  assumes "load_config yaml_load dflt decode f = Ok c"
    and "\<And>t v. f = Some t \<Longrightarrow> yaml_load t = Some v \<Longrightarrow> good v"
  shows "wf c"
proof (cases f)
  case None
  then show ?thesis using assms(1) wf_dflt by (simp add: load_config_def)
next
  case (Some t)
  then obtain v where v: "yaml_load t = Some v" "decode (if py_bool v then v else VDict []) = Ok c"
    using assms(1) by (auto simp: load_config_def split: option.splits)
  moreover have "good (if py_bool v then v else VDict [])" using assms(2) Some v(1) good_empty by auto
  ultimately show ?thesis using decode_wf by blast
qed

text \<open>What a file was loaded to survives being saved and loaded again.\<close>

lemma load_save_load:
  assumes "load_config yaml_load dflt decode f = Ok c"
    and "\<And>t v. f = Some t \<Longrightarrow> yaml_load t = Some v \<Longrightarrow> good v"
    and "yaml_load (yaml_dump (encode c)) = Some (encode c)"
  shows "load_config yaml_load dflt decode (Some (yaml_dump (encode c))) = Ok (norm c)"
  using assms(3) loaded_wf [OF assms(1,2)] by (rule load_save)

lemma load_save_stable:
  assumes "yaml_load (yaml_dump (encode (norm c))) = Some (encode (norm c))" "wf c"
  shows "load_config yaml_load dflt decode (Some (yaml_dump (encode (norm c)))) = Ok (norm c)"
  using load_save [of yaml_load yaml_dump "norm c"] assms wf_norm by (simp add: norm_norm)

end

section \<open>The three files\<close>

definition vslam_wf :: "vslam_config \<Rightarrow> bool" where
  "vslam_wf c \<longleftrightarrow> odometry_strategy c \<in> set valid_odometry \<and> stereo_resolution c \<in> set valid_resolutions
     \<and> 0 < stereo_fps c \<and> 0 < imu_rate_hz c \<and> imu_rotation_sensor c \<in> set valid_imu_rotation_sensors
     \<and> 0 < pose_output_rate_hz c \<and> 0 < memory_threshold_mb c \<and> usb_max_speed c \<in> set valid_usb_speeds
     \<and> ir_dot_projector_ma c \<in> {0..1200} \<and> ir_flood_led_ma c \<in> {0..1500}
     \<and> slam_mode c \<in> set valid_slam_modes
     \<and> 0 \<le> source_system (vc_bridge c) \<and> 0 \<le> source_component (vc_bridge c)"

lemma choice_field_Ok: "choice_field d k dflt valid = Ok s \<Longrightarrow> s \<in> set valid"
  by (auto simp: choice_field_def split: pyval.splits if_splits)

lemma int_field_Ok: "int_field d k dflt valid = Ok n \<Longrightarrow> valid n"
  by (auto simp: int_field_def split: option.splits if_splits)

lemma coerce_extrinsics_to_dict: "coerce_extrinsics (extrinsics_to_dict e) = Ok e"
  by (simp add: extrinsics_to_dict_def float_field_def dict_get_or_def)

lemma coerce_bridge_to_dict:
  "0 \<le> source_system b \<Longrightarrow> 0 \<le> source_component b \<Longrightarrow> coerce_bridge (bridge_to_dict b) = Ok b"
  by (simp add: bridge_to_dict_def str_field_def int_field_def dict_get_or_def)

lemma coerce_bridge_wf:
  "coerce_bridge v = Ok b \<Longrightarrow> 0 \<le> source_system b \<and> 0 \<le> source_component b"
  by (cases v) (auto simp: result_simps default_bridge_def dest!: int_field_Ok)

lemma coerce_vslam_to_dict: "vslam_wf c \<Longrightarrow> coerce_vslam (vslam_to_dict c) = Ok c"
  by (simp add: vslam_wf_def vslam_to_dict_def coerce_vslam_section_def choice_field_def int_field_def
      bool_field_def str_field_def dict_get_or_def positive_def coerce_extrinsics_to_dict
      coerce_bridge_to_dict)

lemma coerce_vslam_wf: "coerce_vslam v = Ok c \<Longrightarrow> vslam_wf c"
proof -
  assume "coerce_vslam v = Ok c"
  then obtain d b where "coerce_vslam_section d b = Ok c"
    by (cases v) (auto split: pyval.splits)
  then show ?thesis
    unfolding coerce_vslam_section_def bindr_Inr
    by (auto simp: vslam_wf_def positive_def dest!: choice_field_Ok int_field_Ok dest: coerce_bridge_wf)
qed

interpretation vslam: config_codec vslam_to_dict coerce_vslam default_vslam_config vslam_wf "\<lambda>c. c" "\<lambda>v. True"
proof unfold_locales
  show "vslam_wf default_vslam_config"
    by (simp add: vslam_wf_def default_vslam_config_def default_bridge_def valid_odometry_def
        valid_resolutions_def valid_imu_rotation_sensors_def valid_usb_speeds_def valid_slam_modes_def)
  show "py_bool (vslam_to_dict c)" for c by (simp add: vslam_to_dict_def)
qed (simp_all add: coerce_vslam_to_dict coerce_vslam_wf)

definition kiosk_wf :: "kiosk_config \<Rightarrow> bool" where
  "kiosk_wf k \<longleftrightarrow> 0 < refresh_hz k \<and> \<not> fle (heartbeat_staleness_s k) (Fin 0)"

definition extra_wf :: "string list \<Rightarrow> doc \<Rightarrow> bool" where
  "extra_wf reserved d \<longleftrightarrow> dict_ok d \<and> (\<forall>k \<in> set (dict_keys d). k \<notin> set reserved)"

definition jetson_wf :: "jetson_config \<Rightarrow> bool" where
  "jetson_wf c \<longleftrightarrow> (case log_dir c of None \<Rightarrow> True | Some p \<Rightarrow> posix_path p = p) \<and> 0 < health_interval_s c
     \<and> kiosk_wf (jc_kiosk c) \<and> extra_wf (''extra'' # jetson_known) (jc_extra c)"

definition jetson_norm :: "jetson_config \<Rightarrow> jetson_config" where
  "jetson_norm c = c\<lparr>jc_extra := sort_doc (jc_extra c)\<rparr>"

text \<open>A document the loader can see: distinct keys, and none called \<open>extra\<close> (see \<open>save_drops_extra\<close>).\<close>

definition jetson_doc :: "pyval \<Rightarrow> bool" where
  "jetson_doc v \<longleftrightarrow> (case v of VDict d \<Rightarrow> dict_ok d \<and> ''extra'' \<notin> set (dict_keys d) | _ \<Rightarrow> True)"

lemma those_as_str [simp]: "those (map (as_str \<circ> (sort_keys \<circ> VStr)) ss) = Some ss"
  by (induction ss) auto

lemma extra_wf_sort [simp]: "extra_wf ks (sort_doc d) \<longleftrightarrow> extra_wf ks d"
  by (simp add: extra_wf_def set_dict_keys)

lemma extra_wf_append:
  assumes "extra_wf ks e" "fst ` set d \<subseteq> set ks"
  shows "dict_update d e = d @ e" and "k \<in> set ks \<Longrightarrow> map_of (d @ e) k = map_of d k"
    and "set us \<subseteq> set ks \<Longrightarrow> unknown_fields us e = e"
proof -
  have disj: "\<forall>k \<in> fst ` set e. k \<notin> set ks" and ok: "dict_ok e"
    using assms(1) by (auto simp: extra_wf_def set_dict_keys)
  show "dict_update d e = d @ e" using disj assms(2) ok by (intro dict_update_fresh) auto
  show "map_of (d @ e) k = map_of d k" if "k \<in> set ks"
  proof -
    have "map_of e k = None" using that disj by (auto simp: map_of_eq_None_iff)
    then show ?thesis by (simp add: map_add_def split: option.splits)
  qed
  show "unknown_fields us e = e" if "set us \<subseteq> set ks"
    using that disj by (force simp: unknown_fields_def filter_id_conv)
qed

lemma extra_wf_unknown:
  "dict_ok d \<Longrightarrow> (\<forall>k \<in> set ks. k \<in> set us \<or> k \<notin> set (dict_keys d)) \<Longrightarrow> extra_wf ks (unknown_fields us d)"
  by (force simp: extra_wf_def unknown_fields_def dict_ok_def dict_keys_def distinct_map_filter)

lemma coerce_kiosk_to_dict: "kiosk_wf k \<Longrightarrow> coerce_kiosk (sort_keys (kiosk_to_dict k)) = Ok k"
  by (simp add: kiosk_wf_def kiosk_to_dict_def str_field_def str_list_field_def int_field_def
      staleness_field_def positive_def dict_get_or_sort_doc)

lemma staleness_field_Ok: "staleness_field d = Ok x \<Longrightarrow> \<not> fle x (Fin 0)"
proof -
  have pos: "\<not> fle y (Fin 0)" if "\<not> n \<le> 0" "float_of_int n = Ok y" for n :: int and y
  proof -
    have "(1::rat) \<le> of_int n" using that(1) by simp
    then have "fl (of_int n) > 0" using fl_close [of "of_int n"] by simp
    moreover have "y = Fin (fl (of_int n))"
      using that(2) rnd_cases [of "of_int n"] by (auto simp: float_of_int_def)
    ultimately show ?thesis by simp
  qed
  assume "staleness_field d = Ok x"
  then show ?thesis using pos
    by (fastforce simp: staleness_field_def result_simps split: pyval.splits if_splits)
qed

lemma coerce_kiosk_wf: "coerce_kiosk v = Ok k \<Longrightarrow> kiosk_wf k"
  by (cases v) (auto simp: result_simps kiosk_wf_def default_kiosk_def positive_def
      dest!: int_field_Ok staleness_field_Ok)

lemma jetson_payload_eq:
  "jetson_wf c \<Longrightarrow> jetson_payload c =
     [(''log_dir'', opt_str (log_dir c)), (''oakd_required'', VBool (oakd_required c)),
      (''health_interval_s'', VInt (health_interval_s c)),
      (''service_user_level'', VBool (service_user_level c)), (''kiosk'', kiosk_to_dict (jc_kiosk c))] @ jc_extra c"
proof -
  assume "jetson_wf c"
  then have e: "extra_wf (''extra'' # jetson_known) (jc_extra c)" by (simp add: jetson_wf_def)
  have "dict_pop ''extra'' (jc_extra c) = jc_extra c"
    using e by (auto simp: extra_wf_def dict_pop_def filter_id_conv set_dict_keys)
  then show ?thesis
    unfolding jetson_payload_def using extra_wf_append(1) [OF e, of "jetson_to_dict c"]
    by (simp add: jetson_known_def jetson_to_dict_def dict_pop_def)
qed

lemma coerce_jetson_payload:
  assumes wf: "jetson_wf c"
  shows "coerce_jetson (sort_keys (VDict (jetson_payload c))) = Ok (jetson_norm c)"
proof -
  have e: "extra_wf (''extra'' # jetson_known) (jc_extra c)" using wf by (simp add: jetson_wf_def)
  note get = extra_wf_append(2) [OF e, of "butlast (jetson_to_dict c)"]
  have un: "unknown_fields jetson_known (jetson_payload c) = jc_extra c"
    unfolding jetson_payload_eq [OF wf] using extra_wf_append(3) [OF e, of "[]" jetson_known]
    by (simp add: unknown_fields_def jetson_known_def subset_iff)
  have "map_of (jetson_payload c) k = map_of (butlast (jetson_to_dict c)) k" if "k \<in> set jetson_known" for k
    unfolding jetson_payload_eq [OF wf] using get [of k] that
    by (simp add: jetson_to_dict_def jetson_known_def)
  then have g: "map_of (jetson_payload c) ''log_dir'' = Some (opt_str (log_dir c))"
    "map_of (jetson_payload c) ''oakd_required'' = Some (VBool (oakd_required c))"
    "map_of (jetson_payload c) ''health_interval_s'' = Some (VInt (health_interval_s c))"
    "map_of (jetson_payload c) ''service_user_level'' = Some (VBool (service_user_level c))"
    "map_of (jetson_payload c) ''kiosk'' = Some (kiosk_to_dict (jc_kiosk c))"
    by (simp_all add: jetson_known_def jetson_to_dict_def)
  have "path_field posix_path (sort_doc (jetson_payload c)) ''log_dir'' = Ok (log_dir c)"
    using wf g by (auto simp: jetson_wf_def path_field_def dict_get_or_sort_doc opt_str_def split: option.splits)
  then show ?thesis
    using wf g un coerce_kiosk_to_dict [of "jc_kiosk c"]
    by (simp add: jetson_wf_def bool_field_def int_field_def positive_def dict_get_or_sort_doc
        unknown_fields_sort_doc jetson_norm_def)
qed

lemma coerce_jetson_wf:
  assumes "jetson_doc v" "coerce_jetson v = Ok c"
  shows "jetson_wf c"
proof (cases v)
  case (VDict d)
  then have "extra_wf (''extra'' # jetson_known) (unknown_fields jetson_known d)"
    using assms(1) by (intro extra_wf_unknown) (auto simp: jetson_doc_def)
  moreover have "posix_path p = p" if "path_field posix_path d ''log_dir'' = Ok (Some p)" for p
    using that posix_path_idem by (auto simp: path_field_def split: pyval.splits)
  ultimately show ?thesis using assms(2) VDict
    by (auto simp: jetson_wf_def result_simps positive_def dest!: int_field_Ok coerce_kiosk_wf split: option.splits)
qed (use assms(2) in auto)

interpretation jetson: config_codec "\<lambda>c. sort_keys (VDict (jetson_payload c))" coerce_jetson
  default_jetson_config jetson_wf jetson_norm jetson_doc
proof unfold_locales
  show "jetson_wf default_jetson_config"
    by (simp add: jetson_wf_def default_jetson_config_def kiosk_wf_def default_kiosk_def extra_wf_def
        dict_ok_def dict_keys_def)
  show "py_bool (sort_keys (VDict (jetson_payload c)))" if "jetson_wf c" for c
    using that by (simp add: jetson_payload_eq)
  show "jetson_wf c \<Longrightarrow> jetson_wf (jetson_norm c)" "jetson_norm (jetson_norm c) = jetson_norm c" for c
    by (simp_all add: jetson_wf_def jetson_norm_def)
  show "jetson_doc (VDict [])" by (simp add: jetson_doc_def dict_ok_def dict_keys_def)
qed (rule coerce_jetson_payload coerce_jetson_wf; assumption)+

definition laptop_wf :: "(string \<Rightarrow> string) \<Rightarrow> laptop_config \<Rightarrow> bool" where
  "laptop_wf expand c \<longleftrightarrow> extra_wf [''jetson''] (lc_extra c) \<and>
     (case lc_jetson c of None \<Rightarrow> True
      | Some e \<Rightarrow> port_ok (je_port e) \<and> (case je_key_path e of None \<Rightarrow> True | Some p \<Rightarrow> expand p = p))"

definition laptop_norm :: "laptop_config \<Rightarrow> laptop_config" where
  "laptop_norm c = c\<lparr>lc_extra := sort_doc (lc_extra c)\<rparr>"

definition laptop_doc :: "(string \<Rightarrow> string) \<Rightarrow> pyval \<Rightarrow> bool" where
  "laptop_doc expand v \<longleftrightarrow> (\<forall>s. expand (expand s) = expand s) \<and>
     (case v of VDict d \<Rightarrow> dict_ok d | _ \<Rightarrow> True)"

lemma laptop_payload_eq:
  "laptop_wf expand c \<Longrightarrow> laptop_payload c =
     (''jetson'', case lc_jetson c of None \<Rightarrow> VNone | Some e \<Rightarrow> endpoint_to_dict e) # lc_extra c"
  unfolding laptop_payload_def laptop_wf_def using extra_wf_append(1) [of "[''jetson'']" "lc_extra c"] by simp

lemma coerce_endpoint_to_dict:
  "port_ok (je_port e) \<Longrightarrow> (\<forall>p. je_key_path e = Some p \<longrightarrow> expand p = p) \<Longrightarrow>
   coerce_endpoint expand (sort_keys (endpoint_to_dict e)) = Ok e"
  by (cases "je_key_path e")
    (simp_all add: endpoint_to_dict_def dict_get_def map_of_sort_doc int_field_def path_field_def
      dict_get_or_sort_doc opt_str_def)

lemma coerce_laptop_payload:
  assumes wf: "laptop_wf expand c"
  shows "coerce_laptop expand (sort_keys (VDict (laptop_payload c))) = Ok (laptop_norm c)"
proof -
  have e: "extra_wf [''jetson''] (lc_extra c)" using wf by (simp add: laptop_wf_def)
  have un: "unknown_fields [''jetson''] (laptop_payload c) = lc_extra c"
    unfolding laptop_payload_eq [OF wf] using extra_wf_append(3) [OF e, of "[]" "[''jetson'']"]
    by (simp add: unknown_fields_def)
  show ?thesis
  proof (cases "lc_jetson c")
    case None
    then show ?thesis using un
      by (simp add: dict_get_or_sort_doc unknown_fields_sort_doc laptop_norm_def laptop_payload_eq [OF wf])
  next
    case (Some ep)
    then have "coerce_endpoint expand (sort_keys (endpoint_to_dict ep)) = Ok ep"
      using wf by (intro coerce_endpoint_to_dict) (auto simp: laptop_wf_def)
    moreover have "py_bool (sort_keys (endpoint_to_dict ep))" by (simp add: endpoint_to_dict_def)
    ultimately show ?thesis using un Some
      by (simp add: dict_get_or_sort_doc unknown_fields_sort_doc laptop_norm_def laptop_payload_eq [OF wf])
  qed
qed

lemma coerce_endpoint_wf:
  assumes "coerce_endpoint expand v = Ok e" "\<And>s. expand (expand s) = expand s"
  shows "port_ok (je_port e)" and "je_key_path e = Some p \<Longrightarrow> expand p = p"
  using assms
  by (cases v; auto simp: result_simps path_field_def dest!: int_field_Ok split: option.splits pyval.splits)+

lemma coerce_laptop_wf:
  assumes "laptop_doc expand v" "coerce_laptop expand v = Ok c"
  shows "laptop_wf expand c"
proof (cases v)
  case (VDict d)
  then have "extra_wf [''jetson''] (unknown_fields [''jetson''] d)"
    using assms(1) by (intro extra_wf_unknown) (auto simp: laptop_doc_def)
  then show ?thesis using assms VDict coerce_endpoint_wf
    by (auto simp: laptop_wf_def laptop_doc_def result_simps Let_def split: option.splits if_splits)
qed (use assms(2) in auto)

interpretation laptop: config_codec "\<lambda>c. sort_keys (VDict (laptop_payload c))" "coerce_laptop expand"
  "\<lparr>lc_jetson = None, lc_extra = []\<rparr>" "laptop_wf expand" laptop_norm "laptop_doc expand" for expand
proof unfold_locales
  show "py_bool (sort_keys (VDict (laptop_payload c)))" if "laptop_wf expand c" for c
    using that by (simp add: laptop_payload_eq)
  show "laptop_wf expand c \<Longrightarrow> laptop_wf expand (laptop_norm c)"
    and "laptop_norm (laptop_norm c) = laptop_norm c" for c
    by (simp_all add: laptop_wf_def laptop_norm_def)
  show "laptop_doc expand v \<Longrightarrow> laptop_doc expand (VDict [])" for v by (simp add: laptop_doc_def dict_ok_def)
  show "laptop_wf expand \<lparr>lc_jetson = None, lc_extra = []\<rparr>"
    by (simp add: laptop_wf_def extra_wf_def dict_ok_def dict_keys_def)
qed (rule coerce_laptop_payload coerce_laptop_wf; assumption)+

section \<open>Properties\<close>

text \<open>
  A VSLAM configuration that was loaded, from any file or from none, is valid in every field,
  and saving it and loading the saved file gives the same configuration.
\<close>

lemma vslam_load_save_load:
  assumes "load_vslam_config yaml_load f = Ok c"
    and "yaml_load (yaml_dump (vslam_to_dict c)) = Some (vslam_to_dict c)"
  shows "vslam_wf c \<and> load_vslam_config yaml_load (Some (save_vslam_config yaml_dump c)) = Ok c"
  using vslam.loaded_wf vslam.load_save_load assms
  by (simp add: load_vslam_config_def save_vslam_config_def)

text \<open>
  What the Jetson configuration was loaded to is saved and loaded again with every setting and
  every unknown key kept (the unknown keys come back in key order), provided the file had no key
  called \<open>extra\<close>.
\<close>

lemma jetson_load_save_load:
  assumes "load_jetson_config yaml_load f = Ok c"
    and "\<And>t v. f = Some t \<Longrightarrow> yaml_load t = Some v \<Longrightarrow> jetson_doc v"
    and "yaml_load (yaml_dump (sort_keys (VDict (jetson_payload c)))) = Some (sort_keys (VDict (jetson_payload c)))"
  shows "load_jetson_config yaml_load (Some (save_jetson_config yaml_dump c)) = Ok (jetson_norm c)"
  using jetson.load_save_load assms by (simp add: load_jetson_config_def save_jetson_config_def)

definition site_config :: jetson_config where
  "site_config = default_jetson_config\<lparr>log_dir := Some ''/var/log/mower'', jc_extra := [(''zone'', VInt 2), (''site'', VStr ''north'')]\<rparr>"

text \<open>
  A key named \<open>extra\<close> is kept by the loader among the unknown keys and dropped by the next save.
\<close>

lemma save_drops_extra: "''extra'' \<notin> set (dict_keys (jetson_payload c))"
  by (auto simp: jetson_payload_def dict_pop_def dict_keys_def)

end
