(* ===== verification/BridgeRun.thy ===== *)
theory BridgeRun
  imports Bridge Connection Config
begin

text \<open>
  The life of the bridge daemon, \<open>run_bridge\<close> of \<open>vslam/bridge.py\<close>, around the loop of theory
  \<open>Bridge\<close>: configuration, link, notification, the messages up to a shutdown request, and the
  reader closed at the end. A request is a flag looked at before each message, whoever set it.
\<close>

definition build_connection_config :: "vslam_config \<Rightarrow> connection_config" where
  "build_connection_config cfg =
     \<lparr>cc_endpoint = serial_device (vc_bridge cfg), cc_baud = 0, cc_source_system = source_system (vc_bridge cfg),
      cc_source_component = source_component (vc_bridge cfg), heartbeat_timeout_s = Fin 30, retry_attempts = 5,
      retry_backoff_s = Fin 2\<rparr>"

datatype run_out = ReadyNotified | Forwarded bridge_out | ReaderClosed

datatype run_exc = BadBridgeConfig config_error | LinkFailed

text \<open>Each message comes with the state of the shutdown flag when it is read.\<close>

definition before_shutdown :: "(bool \<times> 'a) list \<Rightarrow> 'a list" where
  "before_shutdown ms = map snd (takeWhile (\<lambda>m. \<not> fst m) ms)"

text \<open>\<open>opens\<close> says whether \<open>open_link\<close> yields a connection for these settings (theory \<open>Connection\<close>).\<close>

definition run_bridge ::
  "bridge_env \<Rightarrow> vslam_config cfg \<Rightarrow> (connection_config \<Rightarrow> bool) \<Rightarrow> (bool \<times> pose_msg \<times> (nat \<Rightarrow> rat)) list
     \<Rightarrow> (run_exc, run_out list) result" where
  "run_bridge E config opens inputs =
     (case config of
        Inl e \<Rightarrow> Err (BadBridgeConfig e)
      | Inr c \<Rightarrow>
          if \<not> opens (build_connection_config c) then Err LinkFailed
          else Ok (ReadyNotified # map Forwarded (fst (bridge_loop E bridge_init (before_shutdown inputs))) @ [ReaderClosed]))"

section \<open>What a run forwards\<close>

text \<open>Once the flag is set nothing more is forwarded, whatever the node still sends.\<close>

lemma shutdown_final: "before_shutdown (xs @ (True, m) # ys) = before_shutdown xs"
  by (induction xs) (simp_all add: before_shutdown_def)

text \<open>
  C31: A bridge whose link opens announces itself once, forwards every pose it reads before the shutdown
  request exactly once and in order, with its time and converted to the NED frame, whatever else
  it sends in between, forwards none after the request, and closes its reader last.
\<close>

theorem run_bridge_forwards:
  assumes "opens (build_connection_config c)"
  shows "\<exists>outs. run_bridge E (Ok c) opens inputs = Ok (ReadyNotified # map Forwarded outs @ [ReaderClosed])
    \<and> concat (map position_of outs)
        = map (\<lambda>mc. (timestamp_us (fst mc), flu_to_ned_pose (pm_pose (fst mc)))) (before_shutdown inputs)
    \<and> (\<forall>xs m ys. inputs = xs @ (True, m) # ys \<longrightarrow> before_shutdown inputs = before_shutdown xs)"
  using assms loop_positions [of E bridge_init "before_shutdown inputs"]
  by (auto simp: run_bridge_def shutdown_final)

theorem run_bridge_forwards_witness:
  "\<forall>E. \<exists>outs. run_bridge E (Ok default_vslam_config) (\<lambda>cfg. cc_endpoint cfg \<noteq> []) [(False, sample_pose, \<lambda>i. of_nat i), (True, sample_pose, \<lambda>i. of_nat i)]
      = Ok (ReadyNotified # map Forwarded outs @ [ReaderClosed])
    \<and> concat (map position_of outs) = [(timestamp_us sample_pose, flu_to_ned_pose (pm_pose sample_pose))]"
proof
  fix E
  have "cc_endpoint (build_connection_config default_vslam_config) \<noteq> []"
    by (simp add: build_connection_config_def default_vslam_config_def default_bridge_def)
  from run_bridge_forwards [where opens = "\<lambda>cfg. cc_endpoint cfg \<noteq> []", OF this, of E "[(False, sample_pose, \<lambda>i. of_nat i), (True, sample_pose, \<lambda>i. of_nat i)]"]
  show "\<exists>outs. run_bridge E (Ok default_vslam_config) (\<lambda>cfg. cc_endpoint cfg \<noteq> []) [(False, sample_pose, \<lambda>i. of_nat i), (True, sample_pose, \<lambda>i. of_nat i)]
      = Ok (ReadyNotified # map Forwarded outs @ [ReaderClosed])
    \<and> concat (map position_of outs) = [(timestamp_us sample_pose, flu_to_ned_pose (pm_pose sample_pose))]"
    by (auto simp: before_shutdown_def)
qed

end
