(* ===== verification/Safety.thy ===== *)
theory Safety
  imports Prelude
begin

text \<open>
  The safety primitive of \<open>safety/confirm.py\<close>: the shared safety state, the safe-stop hooks and
  the confirmation decorator, over a world of any type. A command's body is a function of the world
  that returns or raises. The locale \<open>guarded_command\<close> states what a command that routes through
  the decorator promises; the commands of other components interpret it.
\<close>

section \<open>State and hooks\<close>

type_synonym ('w, 'e, 'a) action = "'w \<Rightarrow> ('e, 'a) result \<times> 'w"

text \<open>Sequences of actions.\<close>

definition act_bind :: "('w, 'e, 'a) action \<Rightarrow> ('a \<Rightarrow> ('w, 'e, 'b) action) \<Rightarrow> ('w, 'e, 'b) action" where
  "act_bind m k w = (case m w of (Inl e, w') \<Rightarrow> (Inl e, w') | (Inr a, w') \<Rightarrow> k a w')"

definition act_ret :: "'a \<Rightarrow> ('w, 'e, 'a) action" where "act_ret a w = (Inr a, w)"
definition act_raise :: "'e \<Rightarrow> ('w, 'e, 'a) action" where "act_raise e w = (Inl e, w)"

named_theorems act_simps \<open>running actions\<close>

lemma act_run [act_simps]:
  "act_ret a w = (Inr a, w)" "act_raise e w = (Inl e, w)"
  "act_bind m k w = (case m w of (Inl e, w') \<Rightarrow> (Inl e, w') | (Inr a, w') \<Rightarrow> k a w')"
  by (simp_all add: act_ret_def act_raise_def act_bind_def)

record 'w safety_context =
  dry_run :: bool
  assume_yes :: bool
  safe_stop_hooks :: "('w, pyexc, unit) action list"

definition new_context :: "bool \<Rightarrow> bool \<Rightarrow> 'w safety_context" where
  "new_context dry yes = \<lparr>dry_run = dry, assume_yes = yes, safe_stop_hooks = []\<rparr>"

definition register_safe_stop :: "('w, pyexc, unit) action \<Rightarrow> 'w safety_context \<Rightarrow> 'w safety_context" where
  "register_safe_stop hook ctx = ctx\<lparr>safe_stop_hooks := safe_stop_hooks ctx @ [hook]\<rparr>"

text \<open>\<open>safe_stop\<close> returns the failures it logs, in order.\<close>

fun run_hooks :: "('w, pyexc, unit) action list \<Rightarrow> 'w \<Rightarrow> pyexc list \<times> 'w" where
  "run_hooks [] w = ([], w)"
| "run_hooks (hook # hooks) w =
     (case hook w of
        (Inl e, w') \<Rightarrow> (let (log, w'') = run_hooks hooks w' in (e # log, w''))
      | (Inr u, w') \<Rightarrow> run_hooks hooks w')"

definition safe_stop :: "'w safety_context \<Rightarrow> 'w \<Rightarrow> pyexc list \<times> 'w" where
  "safe_stop ctx w = run_hooks (safe_stop_hooks ctx) w"

section \<open>Confirmation\<close>

text \<open>What the operator's terminal delivers to \<open>input\<close>.\<close>

datatype console_input = Eof | Line string

fun prompt :: "console_input \<Rightarrow> bool" where
  "prompt Eof = False"
| "prompt (Line s) = (py_lower (py_strip s) \<in> {''y'', ''yes''})"

text \<open>An argument of the decorated function: a safety context, \<open>None\<close>, or anything else.\<close>

datatype 'c pyarg = ArgContext 'c | ArgNone | ArgOther

datatype 'e guard_error =
    NoSafetyContext
  | ConfirmationAborted
  | BodyError 'e

fun first_context :: "'c pyarg list \<Rightarrow> 'c pyarg" where
  "first_context [] = ArgNone"
| "first_context (ArgContext c # args) = ArgContext c"
| "first_context (a # args) = first_context args"

text \<open>\<open>kwargs.get(ctx_arg)\<close>, and the positional arguments when that is \<open>None\<close>.\<close>

definition find_context :: "'c pyarg list \<Rightarrow> (string \<times> 'c pyarg) list \<Rightarrow> string \<Rightarrow> 'c pyarg" where
  "find_context args kwargs ctx_arg =
     (case dict_get kwargs ctx_arg of
        None \<Rightarrow> first_context args
      | Some ArgNone \<Rightarrow> first_context args
      | Some a \<Rightarrow> a)"

definition call_body :: "('w, 'e, 'a) action \<Rightarrow> ('w, 'e guard_error, 'a) action" where
  "call_body f w = (case f w of (r, w') \<Rightarrow> (map_err BodyError r, w'))"

definition requires_confirmation ::
  "string \<Rightarrow> 'w safety_context pyarg list \<Rightarrow> (string \<times> 'w safety_context pyarg) list \<Rightarrow> console_input
     \<Rightarrow> ('w, 'e, 'a) action \<Rightarrow> ('w, 'e guard_error, 'a) action"
  where
  "requires_confirmation ctx_arg args kwargs answer f w =
     (case find_context args kwargs ctx_arg of
        ArgContext ctx \<Rightarrow>
          if dry_run ctx then call_body f w
          else if assume_yes ctx then call_body f w
          else if \<not> prompt answer then (Err ConfirmationAborted, w)
          else call_body f w
      | _ \<Rightarrow> (Err NoSafetyContext, w))"

text \<open>The way every command of the program calls a decorated function: \<open>f(ctx=ctx, ...)\<close>.\<close>

definition confirmed :: "'w safety_context \<Rightarrow> console_input \<Rightarrow> ('w, 'e, 'a) action \<Rightarrow> ('w, 'e guard_error, 'a) action"
  where "confirmed ctx answer = requires_confirmation ''ctx'' [] [(''ctx'', ArgContext ctx)] answer"

section \<open>What the primitive guarantees\<close>

definition authorised :: "'w safety_context \<Rightarrow> console_input \<Rightarrow> bool" where
  "authorised ctx answer \<longleftrightarrow> dry_run ctx \<or> assume_yes ctx \<or> prompt answer"

lemma confirmed_simps [simp]:
  "authorised ctx answer \<Longrightarrow> confirmed ctx answer f w = call_body f w"
  "\<not> authorised ctx answer \<Longrightarrow> confirmed ctx answer f w = (Err ConfirmationAborted, w)"
  by (auto simp: confirmed_def requires_confirmation_def find_context_def authorised_def dict_get_def)

lemma call_body_world [simp]: "snd (call_body f w) = snd (f w)"
  by (simp add: call_body_def split: prod.splits)

text \<open>
  The contract of a command behind the decorator whose body honours \<open>dry_run\<close>: a dry run and a
  declined prompt leave the world as it was.
\<close>

locale guarded_command =
  fixes run :: "'w safety_context \<Rightarrow> console_input \<Rightarrow> 'w \<Rightarrow> 'r \<times> 'w"
  assumes dry: "dry_run ctx \<Longrightarrow> snd (run ctx answer w) = w"
    and declined: "\<not> authorised ctx answer \<Longrightarrow> snd (run ctx answer w) = w"
begin

lemma change_is_authorised:
  "snd (run ctx answer w) \<noteq> w \<Longrightarrow> \<not> dry_run ctx \<and> (assume_yes ctx \<or> prompt answer)"
  using dry [of ctx answer w] declined [of ctx answer w] by (auto simp: authorised_def)

text \<open>A session of commands, each with the operator's answer to it.\<close>

lemma session_change:
  "fold (\<lambda>(ctx, answer) w. snd (run ctx answer w)) cmds w \<noteq> w \<Longrightarrow>
     \<exists>(ctx, answer) \<in> set cmds. \<not> dry_run ctx \<and> (assume_yes ctx \<or> prompt answer)"
proof (induction cmds arbitrary: w)
  case (Cons cmd cmds)
  obtain ctx answer where cmd: "cmd = (ctx, answer)" by fastforce
  show ?case
  proof (cases "snd (run ctx answer w) = w")
    case True
    with Cons show ?thesis by (simp add: cmd)
  next
    case False
    with change_is_authorised show ?thesis by (auto simp: cmd)
  qed
qed simp

end

lemma run_hooks_all:
  "snd (run_hooks hooks w) = fold (\<lambda>h w. snd (h w)) hooks w"
  by (induction hooks w rule: run_hooks.induct) (auto split: prod.splits sum.splits)

lemma run_hooks_log_le: "length (fst (run_hooks hooks w)) \<le> length hooks"
  by (induction hooks w rule: run_hooks.induct) (auto split: prod.splits sum.splits intro: le_SucI)

text \<open>
  safe-stop runs every registered hook, in the order of registration and whether or not an
  earlier hook raised; it logs at most one failure per hook and never raises.
\<close>

lemma safe_stop_runs_all:
  "snd (safe_stop (fold register_safe_stop hooks ctx) w)
     = fold (\<lambda>h w. snd (h w)) (safe_stop_hooks ctx @ hooks) w
   \<and> length (fst (safe_stop (fold register_safe_stop hooks ctx) w))
     \<le> length (safe_stop_hooks ctx) + length hooks"
proof -
  have "safe_stop_hooks (fold register_safe_stop hooks ctx) = safe_stop_hooks ctx @ hooks"
    by (induction hooks arbitrary: ctx) (simp_all add: register_safe_stop_def)
  then show ?thesis
    using run_hooks_log_le [of "safe_stop_hooks ctx @ hooks" w]
    by (simp add: safe_stop_def run_hooks_all)
qed

text \<open>
  The decorated function runs exactly when it received a safety context and that context is a
  dry run, assumes yes, or the operator answered y or yes; otherwise the world is untouched and the
  call raises.
\<close>

lemma requires_confirmation_guards:
  "requires_confirmation ctx_arg args kwargs answer f w =
     (case find_context args kwargs ctx_arg of
        ArgContext ctx \<Rightarrow>
          if authorised ctx answer then call_body f w else (Err ConfirmationAborted, w)
      | _ \<Rightarrow> (Err NoSafetyContext, w))"
  by (auto simp: requires_confirmation_def authorised_def split: pyarg.splits)

end
