(* ===== verification/Params.thy ===== *)
theory Params
  imports Link PyValue Safety
begin

text \<open>
  Autopilot parameters: \<open>params/io.py\<close> (named sets of floats, their files and snapshots),
  \<open>params/diff.py\<close>, \<open>params/mav.py\<close> (fetching and writing them over the link),
  \<open>params/baseline.py\<close> and the commands of \<open>cli/params.py\<close>. The YAML and JSON codecs, the file
  system and the \<open>:g\<close> number format are arguments of the definitions that use them.
\<close>

section \<open>Parameter sets\<close>

type_synonym param_set = "(string, pyfloat) dict"

definition normalize_name :: "string \<Rightarrow> (pyexc, string) result" where
  "normalize_name name =
     (let n = py_upper (py_strip name)
      in if n = [] \<or> list_ex py_isspace n then Err ValueError else Ok n)"

text \<open>In an assignment \<open>out[f(name)] = float(value)\<close> the right-hand side is evaluated first.\<close>

fun add_pairs :: "param_set \<Rightarrow> (string \<times> pyval) list \<Rightarrow> (pyexc, param_set) result" where
  "add_pairs out [] = Ok out"
| "add_pairs out ((name, value) # pairs) =
     bindr (py_float value) (\<lambda>v. bindr (normalize_name name) (\<lambda>n. add_pairs (dict_set n v out) pairs))"

definition from_pairs :: "(string \<times> pyval) list \<Rightarrow> (pyexc, param_set) result" where
  "from_pairs pairs = add_pairs [] pairs"

fun from_mapping :: "pyval \<Rightarrow> (pyexc, param_set) result" where
  "from_mapping (VDict kvs) = from_pairs kvs"
| "from_mapping v = Err AttributeError"

definition param_contains :: "param_set \<Rightarrow> string \<Rightarrow> (pyexc, bool) result" where
  "param_contains ps name = bindr (normalize_name name) (\<lambda>n. Ok (dict_has ps n))"

definition param_getitem :: "param_set \<Rightarrow> string \<Rightarrow> (pyexc, pyfloat) result" where
  "param_getitem ps name = bindr (normalize_name name) (\<lambda>n. of_opt KeyError (dict_get ps n))"

definition param_get :: "param_set \<Rightarrow> string \<Rightarrow> pyfloat option \<Rightarrow> (pyexc, pyfloat option) result" where
  "param_get ps name dflt = bindr (normalize_name name) (\<lambda>n.
     Ok (case dict_get ps n of None \<Rightarrow> dflt | Some v \<Rightarrow> Some v))"

definition param_names :: "param_set \<Rightarrow> string list" where
  "param_names ps = sort (dict_keys ps)"

definition as_sorted_dict :: "param_set \<Rightarrow> param_set" where
  "as_sorted_dict ps = map (\<lambda>k. (k, the (dict_get ps k))) (param_names ps)"

section \<open>Files and snapshots\<close>

text \<open>\<open>s.split(None, 1)\<close>.\<close>

definition split_ws1 :: "string \<Rightarrow> string list" where
  "split_ws1 s =
     (let t = py_lstrip s;
          a = takeWhile (\<lambda>c. \<not> py_isspace c) t;
          r = py_lstrip (dropWhile (\<lambda>c. \<not> py_isspace c) t)
      in if a = [] then [] else if r = [] then [a] else [a, r])"

definition parm_pair :: "string \<Rightarrow> string \<Rightarrow> (pyexc, (string \<times> pyval) list) result" where
  "parm_pair name value =
     bindr (py_float (VStr (py_strip value))) (\<lambda>v. Ok [(py_strip name, VFloat v)])"

definition parm_line :: "string \<Rightarrow> (pyexc, (string \<times> pyval) list) result" where
  "parm_line raw =
     (let line = py_strip (before_str ''//'' (before_char CHR ''#'' raw))
      in if line = [] then Ok []
         else if CHR '','' \<in> set line
         then parm_pair (before_char CHR '','' line) (after_char CHR '','' line)
         else (case split_ws1 line of
             [name, value] \<Rightarrow> parm_pair name value
           | _ \<Rightarrow> Err ValueError))"

definition parse_parm_text :: "string \<Rightarrow> (pyexc, param_set) result" where
  "parse_parm_text text = bindr (mapr parm_line (splitlines text)) (\<lambda>pairs. from_pairs (concat pairs))"

type_synonym decoder = "string \<Rightarrow> (pyexc, pyval) result"

definition load_param_file :: "decoder \<Rightarrow> string \<Rightarrow> string \<Rightarrow> (pyexc, param_set) result" where
  "load_param_file yaml_load suffix text =
     (if py_lower suffix \<in> {''.yaml'', ''.yml'', ''.json''}
      then bindr (yaml_load text) (\<lambda>d.
        case if py_bool d then d else VDict [] of
          VDict kvs \<Rightarrow> from_pairs kvs
        | _ \<Rightarrow> Err ValueError)
      else parse_parm_text text)"

definition snapshot_payload :: "param_set \<Rightarrow> string \<Rightarrow> (string \<times> pyval) list \<Rightarrow> pyval" where
  "snapshot_payload ps captured_at metadata =
     VDict [(''schema'', VStr ''mower-rover.params.snapshot.v1''),
            (''captured_at'', VStr captured_at),
            (''metadata'', VDict metadata),
            (''params'', VDict (map (\<lambda>(k, v). (k, VFloat v)) (as_sorted_dict ps)))]"

definition write_json_snapshot ::
  "(pyval \<Rightarrow> string) \<Rightarrow> param_set \<Rightarrow> string \<Rightarrow> (string \<times> pyval) list \<Rightarrow> string" where
  "write_json_snapshot dumps ps captured_at metadata =
     dumps (snapshot_payload ps captured_at metadata) @ [CHR 0x0A]"

definition load_json_snapshot :: "decoder \<Rightarrow> string \<Rightarrow> (pyexc, param_set) result" where
  "load_json_snapshot loads text = bindr (loads text) (\<lambda>payload.
     case payload of
       VDict kvs \<Rightarrow> (case dict_get kvs ''params'' of
           None \<Rightarrow> Err ValueError
         | Some m \<Rightarrow> from_mapping m)
     | _ \<Rightarrow> Err ValueError)"

section \<open>Differences\<close>

record param_change =
  pc_name :: string
  pc_old :: "pyfloat option"
  pc_new :: "pyfloat option"

definition change_kind :: "param_change \<Rightarrow> string" where
  "change_kind c =
     (if pc_old c = None then ''added'' else if pc_new c = None then ''removed'' else ''changed'')"

record param_diff =
  pd_added :: "param_change list"
  pd_removed :: "param_change list"
  pd_changed :: "param_change list"

definition diff_is_empty :: "param_diff \<Rightarrow> bool" where
  "diff_is_empty d \<longleftrightarrow> \<not> (pd_added d \<noteq> [] \<or> pd_removed d \<noteq> [] \<or> pd_changed d \<noteq> [])"

definition change_of :: "string \<Rightarrow> pyfloat option \<Rightarrow> pyfloat option \<Rightarrow> param_change" where
  "change_of n ov nv = \<lparr>pc_name = n, pc_old = ov, pc_new = nv\<rparr>"

definition diff_step ::
  "pyfloat \<Rightarrow> param_set \<Rightarrow> param_set \<Rightarrow> string \<Rightarrow> param_diff \<Rightarrow> param_diff" where
  "diff_step tolerance old new name d =
     (case (dict_get old name, dict_get new name) of
        (None, nv) \<Rightarrow> d\<lparr>pd_added := pd_added d @ [change_of name None nv]\<rparr>
      | (Some ov, None) \<Rightarrow> d\<lparr>pd_removed := pd_removed d @ [change_of name (Some ov) None]\<rparr>
      | (Some ov, Some nv) \<Rightarrow>
          if fgt (fabs (fsub ov nv)) tolerance
          then d\<lparr>pd_changed := pd_changed d @ [change_of name (Some ov) (Some nv)]\<rparr> else d)"

definition default_tol :: pyfloat where "default_tol = rnd (1 / 1000000)"

definition diff_names :: "param_set \<Rightarrow> param_set \<Rightarrow> string list" where
  "diff_names old new = sort (remdups (dict_keys old @ dict_keys new))"

definition diff_params :: "param_set \<Rightarrow> param_set \<Rightarrow> pyfloat \<Rightarrow> param_diff" where
  "diff_params old new tolerance =
     fold (diff_step tolerance (as_sorted_dict old) (as_sorted_dict new))
       (diff_names (as_sorted_dict old) (as_sorted_dict new))
       \<lparr>pd_added = [], pd_removed = [], pd_changed = []\<rparr>"

definition opt_float :: "pyfloat option \<Rightarrow> pyval" where
  "opt_float v = (case v of None \<Rightarrow> VNone | Some x \<Rightarrow> VFloat x)"

definition change_row :: "param_change \<Rightarrow> pyval" where
  "change_row c = VDict [(''name'', VStr (pc_name c)), (''old'', opt_float (pc_old c)),
     (''new'', opt_float (pc_new c))]"

definition diff_to_dict :: "param_diff \<Rightarrow> pyval" where
  "diff_to_dict d = VDict [(''schema'', VStr ''mower-rover.params.diff.v1''),
     (''added'', VList (map change_row (pd_added d))),
     (''removed'', VList (map change_row (pd_removed d))),
     (''changed'', VList (map change_row (pd_changed d)))]"

text \<open>The cells of the table \<open>render_diff\<close> prints; \<open>general\<close> is the \<open>:g\<close> format.\<close>

definition fmt_value :: "(pyfloat \<Rightarrow> string) \<Rightarrow> pyfloat \<Rightarrow> string" where
  "fmt_value general v =
     (case v of
        Fin x \<Rightarrow> if x = of_int \<lfloor>x\<rfloor> then str_int \<lfloor>x\<rfloor> else general v
      | _ \<Rightarrow> general v)"

definition render_cell :: "(pyfloat \<Rightarrow> string) \<Rightarrow> pyfloat option \<Rightarrow> string" where
  "render_cell general v = (case v of None \<Rightarrow> ''-'' | Some x \<Rightarrow> fmt_value general x)"

definition render_diff :: "(pyfloat \<Rightarrow> string) \<Rightarrow> param_diff \<Rightarrow> string list list" where
  "render_diff general d =
     (if diff_is_empty d then []
      else map (\<lambda>c. [change_kind c, pc_name c, render_cell general (pc_old c), render_cell general (pc_new c)])
             (pd_changed d @ pd_added d @ pd_removed d))"

section \<open>Fetching and applying over the link\<close>

text \<open>
  A receive delivers at most one \<open>PARAM_VALUE\<close> and takes time: an observation holds the message
  and the clock after the receive. Other messages are dropped by \<open>recv_match\<close>.
\<close>

datatype raw_name = RawBytes string | RawStr string

record param_value_msg =
  pv_id :: raw_name
  pv_value :: pyfloat
  pv_count :: int

type_synonym param_rx = "param_value_msg option \<times> pyfloat"

definition rx_msg :: "param_rx obs \<Rightarrow> param_value_msg option" where
  "rx_msg p = (case snd p of None \<Rightarrow> None | Some x \<Rightarrow> fst x)"

definition rx_after :: "param_rx obs \<Rightarrow> pyfloat" where
  "rx_after p = (case snd p of None \<Rightarrow> fst p | Some x \<Rightarrow> snd x)"

datatype param_out =
    ParamRequestListSend
  | ParamSetSend string pyfloat
  | SnapshotWritten param_set

type_synonym 'a param_io = "(param_out, param_rx, 'a) io"

definition is_ascii :: "char \<Rightarrow> bool" where
  "is_ascii c \<longleftrightarrow> (of_char c :: nat) < 128"

text \<open>
  The character that \<open>errors="replace"\<close> puts for a byte that is not ASCII lies outside the
  character type, so it is an argument.
\<close>

fun decode_name :: "char \<Rightarrow> raw_name \<Rightarrow> string" where
  "decode_name repl (RawBytes raw) =
     py_upper (map (\<lambda>c. if is_ascii c then c else repl) (before_char CHR 0x00 raw))"
| "decode_name repl (RawStr raw) = py_upper (py_strip (before_char CHR 0x00 raw))"

definition encode_name :: "string \<Rightarrow> (pyexc, string) result" where
  "encode_name name =
     (let e = py_upper name
      in if \<not> list_all is_ascii e then Err UnicodeError
         else if 16 < length e then Err ValueError
         else Ok e)"

type_synonym fetch_state = "param_set \<times> int option \<times> pyfloat"

definition fetch_pass ::
  "char \<Rightarrow> pyfloat \<Rightarrow> pyfloat \<Rightarrow> fetch_state \<Rightarrow> param_rx obs \<Rightarrow> param_out list \<times> (fetch_state, param_set) pass"
  where
  "fetch_pass repl quiet_window deadline = (\<lambda>(collected, expected, last_rx) p.
     if \<not> flt (fst p) deadline then ([], Leave collected)
     else (case rx_msg p of
         None \<Rightarrow>
           ([], if collected \<noteq> [] \<and> fgt (fsub (rx_after p) last_rx) quiet_window
                then Leave collected else Again (collected, expected, last_rx))
       | Some m \<Rightarrow>
           (let collected' = dict_set (decode_name repl (pv_id m)) (pv_value m) collected;
                expected' = (case expected of None \<Rightarrow> pv_count m | Some e \<Rightarrow> e)
            in ([], if expected' \<noteq> 0 \<and> expected' \<le> int (length collected')
                    then Leave collected' else Again (collected', Some expected', rx_after p)))))"

definition float_values :: "param_set \<Rightarrow> (string \<times> pyval) list" where
  "float_values d = map (\<lambda>(k, v). (k, VFloat v)) d"

definition fetch_params :: "char \<Rightarrow> pyfloat \<Rightarrow> pyfloat \<Rightarrow> (pyexc, param_set) result param_io" where
  "fetch_params repl timeout quiet_window =
     io_bind (io_emit ParamRequestListSend) (\<lambda>_.
     io_bind io_clock (\<lambda>last_rx.
     io_bind (poll (\<lambda>_. True) (fetch_pass repl quiet_window (fadd last_rx timeout)) ([], None, last_rx))
       (\<lambda>res. case res of
          Inr collected \<Rightarrow> io_ret (from_pairs (float_values collected))
        | Inl s \<Rightarrow> io_ret (from_pairs (float_values (fst s))))))"

text \<open>\<open>time.monotonic() < deadline\<close> with \<open>deadline = time.monotonic() + timeout_s\<close>.\<close>

definition echo_pass ::
  "char \<Rightarrow> string \<Rightarrow> pyfloat \<Rightarrow> pyfloat \<Rightarrow> unit \<Rightarrow> param_rx obs \<Rightarrow> param_out list \<times> (unit, pyfloat option) pass"
  where
  "echo_pass repl name timeout start u p =
     (if flt (fst p) (fadd start timeout)
      then (case rx_msg p of
          None \<Rightarrow> ([], Again ())
        | Some m \<Rightarrow> ([], if decode_name repl (pv_id m) = name then Leave (Some (pv_value m)) else Again ()))
      else ([], Leave None))"

definition await_param_echo :: "char \<Rightarrow> string \<Rightarrow> pyfloat \<Rightarrow> pyfloat option param_io" where
  "await_param_echo repl name timeout = await (echo_pass repl name timeout)"

datatype apply_failure = NoResponse | NoEcho | EchoMismatch pyfloat pyfloat

definition param_verify_tol :: pyfloat where "param_verify_tol = rnd (1 / 10000)"

fun try_param ::
  "char \<Rightarrow> bool \<Rightarrow> pyfloat \<Rightarrow> string \<Rightarrow> string \<Rightarrow> pyfloat \<Rightarrow> nat \<Rightarrow> apply_failure
     \<Rightarrow> (apply_failure + pyfloat) param_io"
  where
  "try_param repl verify timeout name encoded val 0 last_error = io_ret (Inl last_error)"
| "try_param repl verify timeout name encoded val (Suc k) last_error =
     io_bind (io_emit (ParamSetSend encoded val)) (\<lambda>_.
     if \<not> verify then io_ret (Inr val)
     else io_bind (await_param_echo repl name timeout) (\<lambda>echo.
       case echo of
         None \<Rightarrow> try_param repl verify timeout name encoded val k NoEcho
       | Some e \<Rightarrow>
           if fle (fabs (fsub e val)) param_verify_tol then io_ret (Inr e)
           else try_param repl verify timeout name encoded val k (EchoMismatch e val)))"

record apply_result =
  applied :: param_set
  failures :: "(string \<times> pyfloat \<times> apply_failure) list"

definition apply_ok :: "apply_result \<Rightarrow> bool" where
  "apply_ok r \<longleftrightarrow> length (failures r) = 0"

definition apply_partial :: "apply_result \<Rightarrow> bool" where
  "apply_partial r \<longleftrightarrow> 0 < length (applied r) \<and> 0 < length (failures r)"

fun apply_each ::
  "char \<Rightarrow> bool \<Rightarrow> pyfloat \<Rightarrow> nat \<Rightarrow> param_set \<Rightarrow> apply_result \<Rightarrow> (pyexc, apply_result) result param_io"
  where
  "apply_each repl verify timeout retries [] acc = io_ret (Ok acc)"
| "apply_each repl verify timeout retries ((name, val) # rest) acc =
     (case encode_name name of
        Inl e \<Rightarrow> io_ret (Err e)
      | Inr encoded \<Rightarrow>
          io_bind (try_param repl verify timeout name encoded val retries NoResponse) (\<lambda>r.
            case r of
              Inl err \<Rightarrow> apply_each repl verify timeout retries rest
                           (acc\<lparr>failures := failures acc @ [(name, val, err)]\<rparr>)
            | Inr v \<Rightarrow> apply_each repl verify timeout retries rest
                         (acc\<lparr>applied := dict_set name v (applied acc)\<rparr>)))"

definition apply_params ::
  "char \<Rightarrow> bool \<Rightarrow> pyfloat \<Rightarrow> nat \<Rightarrow> param_set \<Rightarrow> (pyexc, apply_result) result param_io" where
  "apply_params repl verify timeout retries ps =
     apply_each repl verify timeout retries (as_sorted_dict ps) \<lparr>applied = [], failures = []\<rparr>"

section \<open>Profiles and commands\<close>

definition baseline_filename :: string where "baseline_filename = ''z254_baseline.yaml''"
definition safety_defaults_filename :: string where "safety_defaults_filename = ''safety-defaults.yaml''"

definition profiles :: "(string, string) dict" where
  "profiles = [(''baseline'', baseline_filename), (''safety-defaults'', safety_defaults_filename)]"

text \<open>\<open>Path(s).suffix\<close>: from the last dot of the last component, unless that dot is its first or last character.\<close>

definition path_name :: "string \<Rightarrow> string" where
  "path_name s = last (split_char CHR ''/'' (rstrip_char CHR ''/'' s))"

definition path_suffix :: "string \<Rightarrow> string" where
  "path_suffix s =
     (let n = path_name s;
          ext = rev (takeWhile (\<lambda>c. c \<noteq> CHR ''.'') (rev n))
      in if ext = [] \<or> length n \<le> length ext + 1 then [] else CHR ''.'' # ext)"

text \<open>\<open>pkg\<close> is the text of a packaged data file, \<open>fs\<close> that of an existing file.\<close>

definition load_baseline :: "decoder \<Rightarrow> (string \<Rightarrow> string) \<Rightarrow> (pyexc, param_set) result" where
  "load_baseline yaml_load pkg =
     load_param_file yaml_load (path_suffix baseline_filename) (pkg baseline_filename)"

definition load_profile :: "decoder \<Rightarrow> (string \<Rightarrow> string) \<Rightarrow> string \<Rightarrow> (pyexc, param_set) result" where
  "load_profile yaml_load pkg name =
     bindr (of_opt KeyError (dict_get profiles name)) (\<lambda>path.
       load_param_file yaml_load (path_suffix path) (pkg path))"

datatype cli_error = BadParameter | Raised pyexc

definition is_value_error :: "pyexc \<Rightarrow> bool" where
  "is_value_error e \<longleftrightarrow> e = ValueError \<or> e = UnicodeError"

definition load_any ::
  "decoder \<Rightarrow> decoder \<Rightarrow> (string \<Rightarrow> string) \<Rightarrow> (string \<Rightarrow> string option) \<Rightarrow> string \<Rightarrow> (cli_error, param_set) result"
  where
  "load_any yaml_load loads pkg fs s =
     (if dict_has profiles s then map_err Raised (load_profile yaml_load pkg s)
      else if py_lower s = ''baseline'' then map_err Raised (load_baseline yaml_load pkg)
      else case fs s of
          None \<Rightarrow>
            if py_lower s = py_lower baseline_filename then map_err Raised (load_baseline yaml_load pkg)
            else Err BadParameter
        | Some text \<Rightarrow>
            if py_lower (path_suffix s) = ''.json''
            then (case load_json_snapshot loads text of
                Inl e \<Rightarrow> if is_value_error e
                  then map_err Raised (load_param_file yaml_load (path_suffix s) text) else Err (Raised e)
              | Inr ps \<Rightarrow> Ok ps)
            else map_err Raised (load_param_file yaml_load (path_suffix s) text))"

definition select_params ::
  "decoder \<Rightarrow> decoder \<Rightarrow> (string \<Rightarrow> string) \<Rightarrow> (string \<Rightarrow> string option) \<Rightarrow> string option \<Rightarrow> string option
     \<Rightarrow> (cli_error, param_set) result"
  where
  "select_params yaml_load loads pkg fs params_file profile =
     (case (params_file, profile) of
        (None, Some name) \<Rightarrow>
          if dict_has profiles name then map_err Raised (load_profile yaml_load pkg name)
          else Err BadParameter
      | (Some file, None) \<Rightarrow> load_any yaml_load loads pkg fs file
      | _ \<Rightarrow> Err BadParameter)"

definition diff_command ::
  "decoder \<Rightarrow> decoder \<Rightarrow> (string \<Rightarrow> string) \<Rightarrow> (string \<Rightarrow> string option) \<Rightarrow> string \<Rightarrow> string
     \<Rightarrow> (cli_error, param_diff) result"
  where
  "diff_command yaml_load loads pkg fs left right =
     bindr (load_any yaml_load loads pkg fs left) (\<lambda>l.
     bindr (load_any yaml_load loads pkg fs right) (\<lambda>r. Ok (diff_params l r default_tol)))"

definition snapshot_command :: "char \<Rightarrow> pyfloat \<Rightarrow> (pyexc, nat) result param_io" where
  "snapshot_command repl timeout =
     io_bindr (fetch_params repl timeout (Fin (3 / 2))) (\<lambda>ps.
     io_bind (io_emit (SnapshotWritten ps)) (\<lambda>_. io_ret (Ok (length ps))))"

fun before_pairs :: "param_set \<Rightarrow> string list \<Rightarrow> (pyexc, (string \<times> pyval) list) result" where
  "before_pairs before [] = Ok []"
| "before_pairs before (n # ns) =
     bindr (param_contains before n) (\<lambda>c.
       if c then bindr (param_getitem before n) (\<lambda>v.
              bindr (before_pairs before ns) (\<lambda>rest. Ok ((n, VFloat v) # rest)))
       else before_pairs before ns)"

definition before_subset :: "param_set \<Rightarrow> param_set \<Rightarrow> (pyexc, param_set) result" where
  "before_subset before desired = bindr (before_pairs before (dict_keys desired)) from_pairs"

datatype apply_outcome = NothingToApply | Aborted | DryRunOnly | Wrote apply_result

definition exit_code :: "apply_outcome \<Rightarrow> int" where
  "exit_code x =
     (case x of Aborted \<Rightarrow> 1 | Wrote r \<Rightarrow> if apply_ok r then 0 else 1 | _ \<Rightarrow> 0)"

text \<open>The body of \<open>_confirm_apply\<close> only logs.\<close>

definition confirm_apply :: "'w safety_context \<Rightarrow> console_input \<Rightarrow> ('w, pyexc guard_error, unit) action" where
  "confirm_apply ctx answer = confirmed ctx answer (\<lambda>w. (Ok (), w))"

definition apply_command ::
  "char \<Rightarrow> bool \<Rightarrow> param_set \<Rightarrow> param_out list safety_context \<Rightarrow> console_input
     \<Rightarrow> (pyexc, apply_outcome) result param_io"
  where
  "apply_command repl snapshot desired ctx answer =
     io_bindr (fetch_params repl (fint 60) (Fin (3 / 2))) (\<lambda>before.
     io_bind (if snapshot then io_emit (SnapshotWritten before) else io_ret ()) (\<lambda>_.
     case before_subset before desired of
       Inl e \<Rightarrow> io_ret (Err e)
     | Inr sub \<Rightarrow>
         if diff_is_empty (diff_params sub desired default_tol) then io_ret (Ok NothingToApply)
         else (case fst (confirm_apply ctx answer []) of
             Inl e \<Rightarrow> io_ret (Ok Aborted)
           | Inr u \<Rightarrow>
               if dry_run ctx then io_ret (Ok DryRunOnly)
               else io_bindr (apply_params repl True (fint 2) 3 desired) (\<lambda>r. io_ret (Ok (Wrote r))))))"

section \<open>Well-formed parameter sets\<close>

definition param_set_ok :: "param_set \<Rightarrow> bool" where
  "param_set_ok ps \<longleftrightarrow> dict_ok ps \<and> (\<forall>k \<in> set (dict_keys ps). normalize_name k = Ok k)"

lemma normalize_name_Ok:
  "normalize_name s = Ok n \<longleftrightarrow> n = py_upper (py_strip s) \<and> n \<noteq> [] \<and> (\<forall>c \<in> set n. \<not> py_isspace c)"
  by (auto simp: normalize_name_def Let_def list_ex_iff)

lemma normalize_name_idem: "normalize_name s = Ok n \<Longrightarrow> normalize_name n = Ok n"
  using py_strip_id by (auto simp: normalize_name_Ok)

lemma add_pairs_ok: "param_set_ok out \<Longrightarrow> add_pairs out pairs = Ok ps \<Longrightarrow> param_set_ok ps"
proof (induction out pairs rule: add_pairs.induct)
  case (2 out name val pairs)
  then obtain v n where "normalize_name name = Ok n" and rest: "add_pairs (dict_set n v out) pairs = Ok ps"
    and "py_float val = Ok v" by (auto simp: result_simps)
  moreover from this have "param_set_ok (dict_set n v out)"
    using 2(2) by (auto simp: param_set_ok_def set_dict_keys keys_dict_set dest: normalize_name_idem)
  ultimately show ?case using 2(1) by blast
qed simp

lemma from_pairs_ok: "from_pairs pairs = Ok ps \<Longrightarrow> param_set_ok ps"
  unfolding from_pairs_def by (rule add_pairs_ok) (simp_all add: param_set_ok_def dict_ok_def dict_keys_def)

lemma from_mapping_ok: "from_mapping v = Ok ps \<Longrightarrow> param_set_ok ps"
  by (cases v) (auto intro: from_pairs_ok)

lemma parse_parm_text_ok: "parse_parm_text text = Ok ps \<Longrightarrow> param_set_ok ps"
  by (auto simp: parse_parm_text_def result_simps intro: from_pairs_ok)

lemma load_yaml_ok: "load_param_file yaml_load suffix text = Ok ps \<Longrightarrow> param_set_ok ps"
  by (auto simp: load_param_file_def result_simps intro: from_pairs_ok parse_parm_text_ok
      split: if_splits pyval.splits)

lemma load_json_ok:
  assumes "load_json_snapshot loads text = Ok ps"
  shows "param_set_ok ps"
proof -
  from assms obtain payload where "loads text = Ok payload" by (auto simp: load_json_snapshot_def result_simps)
  with assms show ?thesis
    by (cases payload) (auto simp: load_json_snapshot_def intro: from_mapping_ok split: option.splits)
qed

text \<open>
  whatever a file holds, a parameter set that loads has distinct names, all in the normal form
  \<open>normalize_name\<close> gives: stripped, upper case, not empty and free of white space.
\<close>

lemma load_param_file_ok:
  "load_param_file yaml_load suffix text = Ok ps \<or> load_json_snapshot loads text = Ok ps
     \<Longrightarrow> param_set_ok ps"
  using load_yaml_ok load_json_ok by blast

lemma param_set_ok_distinct: "param_set_ok ps \<Longrightarrow> distinct (map fst ps)"
  by (simp add: param_set_ok_def dict_ok_def dict_keys_def)

lemma add_pairs_fresh:
  assumes "distinct (map fst d)" and "\<forall>k \<in> set (map fst d). normalize_name k = Ok k"
    and "set (map fst d) \<inter> set (map fst out) = {}"
  shows "add_pairs out (map (\<lambda>(k, v). (k, VFloat v)) d) = Ok (out @ d)"
  using assms
proof (induction d arbitrary: out)
  case (Cons kv d)
  obtain k v where kv: "kv = (k, v)" by fastforce
  have "add_pairs (out @ [(k, v)]) (map (\<lambda>(k, v). (k, VFloat v)) d) = Ok ((out @ [(k, v)]) @ d)"
    using Cons.prems by (intro Cons.IH) (auto simp: kv)
  moreover have "dict_set k v out = out @ [(k, v)]" using Cons.prems by (intro dict_set_fresh) (auto simp: kv)
  ultimately show ?case using Cons.prems by (simp add: kv)
qed simp

lemma as_sorted_dict_keys: "dict_keys (as_sorted_dict ps) = sort (dict_keys ps)"
  by (simp add: as_sorted_dict_def dict_keys_def param_names_def comp_def)

lemma as_sorted_dict_get: "dict_get (as_sorted_dict ps) k = dict_get ps k"
proof -
  have "map_of (map (\<lambda>k. (k, f k)) ks) k = (if k \<in> set ks then Some (f k) else None)" for f :: "string \<Rightarrow> pyfloat" and ks
    by (induction ks) auto
  then show ?thesis
    using dict_get_None_key [of ps k]
    by (auto simp: as_sorted_dict_def dict_get_def param_names_def)
qed

lemma as_sorted_dict_ok: "param_set_ok ps \<Longrightarrow> param_set_ok (as_sorted_dict ps)"
  by (simp add: param_set_ok_def dict_ok_def as_sorted_dict_keys [unfolded dict_keys_def] as_sorted_dict_keys)

lemma from_pairs_floats: "param_set_ok ps \<Longrightarrow> from_pairs (map (\<lambda>(k, v). (k, VFloat v)) ps) = Ok ps"
  unfolding from_pairs_def
  by (subst add_pairs_fresh) (auto simp: param_set_ok_def dict_ok_def dict_keys_def)

text \<open>
  a snapshot read back is the set that was written, in the order of its names; the JSON codec
  has to read what it wrote.
\<close>

lemma snapshot_round_trip:
  assumes "param_set_ok ps"
    and "loads (dumps (snapshot_payload ps captured_at metadata) @ [CHR 0x0A])
           = Ok (snapshot_payload ps captured_at metadata)"
  shows "load_json_snapshot loads (write_json_snapshot dumps ps captured_at metadata) = Ok (as_sorted_dict ps)
     \<and> (\<forall>k. dict_get (as_sorted_dict ps) k = dict_get ps k)
     \<and> sorted (dict_keys (as_sorted_dict ps))"
proof -
  have "from_pairs (map (\<lambda>(k, v). (k, VFloat v)) (as_sorted_dict ps)) = Ok (as_sorted_dict ps)"
    using assms(1) by (intro from_pairs_floats as_sorted_dict_ok)
  with assms(2) show ?thesis
    by (simp add: load_json_snapshot_def write_json_snapshot_def snapshot_payload_def dict_get_def
        as_sorted_dict_get [unfolded dict_get_def] as_sorted_dict_keys)
qed

section \<open>Differences\<close>

definition beyond :: "pyfloat \<Rightarrow> pyfloat \<Rightarrow> pyfloat \<Rightarrow> bool" where
  "beyond tol a b \<longleftrightarrow> fgt (fabs (fsub a b)) tol"

definition is_added :: "param_set \<Rightarrow> param_set \<Rightarrow> string \<Rightarrow> bool" where
  "is_added old new n \<longleftrightarrow> dict_get old n = None"
definition is_removed :: "param_set \<Rightarrow> param_set \<Rightarrow> string \<Rightarrow> bool" where
  "is_removed old new n \<longleftrightarrow> dict_get old n \<noteq> None \<and> dict_get new n = None"
definition is_changed :: "pyfloat \<Rightarrow> param_set \<Rightarrow> param_set \<Rightarrow> string \<Rightarrow> bool" where
  "is_changed tol old new n \<longleftrightarrow>
     (\<exists>a b. dict_get old n = Some a \<and> dict_get new n = Some b \<and> beyond tol a b)"

definition changes :: "(string \<Rightarrow> bool) \<Rightarrow> param_set \<Rightarrow> param_set \<Rightarrow> string list \<Rightarrow> param_change list" where
  "changes P old new ns = map (\<lambda>n. change_of n (dict_get old n) (dict_get new n)) (filter P ns)"

lemma fold_diff_step:
  "fold (diff_step tol old new) ns d =
     \<lparr>pd_added = pd_added d @ changes (is_added old new) old new ns,
      pd_removed = pd_removed d @ changes (is_removed old new) old new ns,
      pd_changed = pd_changed d @ changes (is_changed tol old new) old new ns\<rparr>"
proof (induction ns arbitrary: d)
  case Nil
  then show ?case by (simp add: changes_def)
next
  case (Cons n ns)
  then show ?case
    by (cases "dict_get old n"; cases "dict_get new n")
      (auto simp: diff_step_def changes_def is_added_def is_removed_def is_changed_def beyond_def)
qed

lemma diff_params_eq:
  "diff_params old new tol =
     \<lparr>pd_added = changes (is_added old new) old new (diff_names old new),
      pd_removed = changes (is_removed old new) old new (diff_names old new),
      pd_changed = changes (is_changed tol old new) old new (diff_names old new)\<rparr>"
proof -
  have "diff_names (as_sorted_dict old) (as_sorted_dict new) = diff_names old new"
    unfolding diff_names_def by (rule sorted_distinct_set_unique) (auto simp: as_sorted_dict_keys)
  then show ?thesis
    by (simp add: diff_params_def fold_diff_step changes_def is_added_def is_removed_def is_changed_def
        as_sorted_dict_get cong: filter_cong)
qed

text \<open>
  Replaying a difference: the names it removes go, the values it adds or changes are set.
\<close>

definition patch :: "param_diff \<Rightarrow> (string \<Rightarrow> pyfloat option) \<Rightarrow> (string \<Rightarrow> pyfloat option)" where
  "patch d m n =
     (if n \<in> pc_name ` set (pd_removed d) then None
      else case map_of (map (\<lambda>c. (pc_name c, pc_new c)) (pd_added d @ pd_changed d)) n of
          Some v \<Rightarrow> v
        | None \<Rightarrow> m n)"

lemma map_of_changes:
  "map_of (map (\<lambda>c. (pc_name c, pc_new c)) (changes P old new ns)) n
     = (if n \<in> set ns \<and> P n then Some (dict_get new n) else None)"
  by (induction ns) (auto simp: changes_def change_of_def)

lemma names_changes: "pc_name ` set (changes P old new ns) = {n \<in> set ns. P n}"
  by (simp add: changes_def change_of_def image_image)

lemma changes_Nil: "changes P old new ns = [] \<longleftrightarrow> (\<forall>n \<in> set ns. \<not> P n)"
  by (simp add: changes_def filter_empty_conv)

lemma set_diff_names: "set (diff_names old new) = set (dict_keys old) \<union> set (dict_keys new)"
  by (simp add: diff_names_def)

lemmas diff_defs = is_added_def is_removed_def is_changed_def

text \<open>
  replaying the difference of two sets on the old one gives the new one, except that a value
  within the tolerance of the new one is kept.
\<close>

lemma diff_params_patch:
  "patch (diff_params old new tol) (dict_get old) n =
     (case (dict_get old n, dict_get new n) of
        (Some a, Some b) \<Rightarrow> if beyond tol a b then Some b else Some a
      | (_, nv) \<Rightarrow> nv)"
proof (cases "n \<in> set (diff_names old new)")
  case True
  then show ?thesis
    by (cases "dict_get old n"; cases "dict_get new n")
      (auto simp: patch_def diff_params_eq map_add_def map_of_changes names_changes diff_defs split: option.splits)
next
  case False
  then have "dict_get old n = None" "dict_get new n = None"
    by (auto simp: set_diff_names dict_get_None_key)
  with False show ?thesis
    by (simp add: patch_def diff_params_eq map_of_changes map_add_def names_changes)
qed

text \<open>
  a difference is empty exactly when both sets have the same names and no value moved by more
  than the tolerance.
\<close>

lemma diff_params_empty:
  "diff_is_empty (diff_params old new tol) \<longleftrightarrow>
     set (dict_keys old) = set (dict_keys new)
     \<and> (\<nexists>n a b. dict_get old n = Some a \<and> dict_get new n = Some b \<and> beyond tol a b)"
proof -
  have "diff_is_empty (diff_params old new tol) \<longleftrightarrow>
     (\<forall>n \<in> set (dict_keys old) \<union> set (dict_keys new).
        \<not> is_added old new n \<and> \<not> is_removed old new n \<and> \<not> is_changed tol old new n)"
    unfolding diff_is_empty_def diff_params_eq by (simp add: changes_Nil set_diff_names) blast
  then show ?thesis by (auto simp: dict_get_None_key diff_defs dest: dict_get_Some_key)
qed

section \<open>Applying parameters\<close>

definition heard :: "char \<Rightarrow> string \<Rightarrow> pyfloat \<Rightarrow> param_rx obs set \<Rightarrow> bool" where
  "heard repl name v T \<longleftrightarrow>
     (\<exists>p \<in> T. \<exists>m. rx_msg p = Some m \<and> decode_name repl (pv_id m) = name \<and> pv_value m = v)"

lemma heard_mono: "heard repl name v S \<Longrightarrow> S \<subseteq> T \<Longrightarrow> heard repl name v T"
  by (auto simp: heard_def)

interpretation echo_wait: timed_wait "echo_pass repl name timeout"
  "\<lambda>start t. \<not> flt t (fadd start timeout)"
  "\<lambda>start p r. \<forall>v. r = Some v \<longrightarrow> heard repl name v {p}"
  for repl :: char and name :: string and timeout :: pyfloat
  by unfold_locales
    (auto simp: echo_pass_def heard_def split: if_splits option.splits)

definition confirmed_value :: "char \<Rightarrow> bool \<Rightarrow> string \<Rightarrow> pyfloat \<Rightarrow> pyfloat \<Rightarrow> param_rx obs set \<Rightarrow> bool" where
  "confirmed_value repl verify name val v T \<longleftrightarrow>
     (if verify then heard repl name v T \<and> fle (fabs (fsub v val)) param_verify_tol else v = val)"

lemma confirmed_value_mono:
  "confirmed_value repl verify name val v S \<Longrightarrow> S \<subseteq> T \<Longrightarrow> confirmed_value repl verify name val v T"
  by (auto simp: confirmed_value_def intro: heard_mono split: if_splits)

lemma try_param_Some:
  "try_param repl verify timeout name encoded val k err tr = (out, Some (r, tr')) \<Longrightarrow>
     set out \<subseteq> {ParamSetSend encoded val} \<and> length out \<le> k \<and> set tr' \<subseteq> set tr
     \<and> (\<forall>v. r = Inr v \<longrightarrow> confirmed_value repl verify name val v (set tr))"
proof (induction k arbitrary: err tr out)
  case 0
  then show ?case by (auto simp: io_ret_run)
next
  case (Suc k)
  show ?case
  proof (cases verify)
    case False
    then show ?thesis using Suc.prems by (auto simp: io_bind_emit io_ret_run confirmed_value_def)
  next
    case verify: True
    let ?go = "\<lambda>echo. case echo of
         None \<Rightarrow> try_param repl verify timeout name encoded val k NoEcho
       | Some e \<Rightarrow>
           if fle (fabs (fsub e val)) param_verify_tol then io_ret (Inr e)
           else try_param repl verify timeout name encoded val k (EchoMismatch e val)"
    have if_verify: "(if \<not> verify then a else b) = b" for a b :: "(apply_failure + pyfloat) param_io"
      using verify by simp
    obtain o1 where "io_bind (await_param_echo repl name timeout) ?go tr = (o1, Some (r, tr'))"
      and out: "out = ParamSetSend encoded val # o1"
      using Suc.prems [unfolded try_param.simps if_verify] by (rule io_bind_emit_SomeE)
    then obtain o2 o3 echo tr1 where echo: "await (echo_pass repl name timeout) tr = (o2, Some (echo, tr1))"
      and go: "?go echo tr1 = (o3, Some (r, tr'))" and o1: "o1 = o2 @ o3"
      unfolding await_param_echo_def by (elim io_bind_SomeE)
    from echo_wait.await_Some [OF echo] have o2: "o2 = []" and sub: "set tr1 \<subseteq> set tr"
      and hd: "\<forall>v. echo = Some v \<longrightarrow> heard repl name v (set tr)"
      by (auto simp: heard_def)
    show ?thesis
    proof (cases "\<exists>e. echo = Some e \<and> fle (fabs (fsub e val)) param_verify_tol")
      case True
      then show ?thesis using go hd sub o1 o2 out verify by (auto simp: io_ret_run confirmed_value_def)
    next
      case False
      then obtain err' where rec: "try_param repl verify timeout name encoded val k err' tr1 = (o3, Some (r, tr'))"
        using go by (auto split: option.splits)
      show ?thesis using Suc.IH [OF rec] sub out o1 o2 by (auto intro: confirmed_value_mono)
    qed
  qed
qed

definition apply_inv :: "char \<Rightarrow> bool \<Rightarrow> param_rx obs set \<Rightarrow> param_set \<Rightarrow> apply_result \<Rightarrow> bool" where
  "apply_inv repl verify T dn r \<longleftrightarrow>
     set (dict_keys (applied r)) \<union> fst ` set (failures r) = set (dict_keys dn)
   \<and> set (dict_keys (applied r)) \<inter> fst ` set (failures r) = {}
   \<and> (\<forall>n v. dict_get (applied r) n = Some v \<longrightarrow>
        (\<exists>val. (n, val) \<in> set dn \<and> confirmed_value repl verify n val v T))"

lemma apply_inv_failed:
  "apply_inv repl verify T dn r \<Longrightarrow> n \<notin> set (dict_keys dn) \<Longrightarrow>
     apply_inv repl verify T (dn @ [(n, val)]) (r\<lparr>failures := failures r @ [(n, val, err)]\<rparr>)"
  by (auto simp: apply_inv_def dict_keys_def conj_disj_distribR ex_disj_distrib)

lemma apply_inv_applied:
  "apply_inv repl verify T dn r \<Longrightarrow> n \<notin> set (dict_keys dn) \<Longrightarrow> confirmed_value repl verify n val v T \<Longrightarrow>
     apply_inv repl verify T (dn @ [(n, val)]) (r\<lparr>applied := dict_set n v (applied r)\<rparr>)"
  by (auto simp: apply_inv_def dict_keys_def keys_dict_set dict_get_def conj_disj_distribR ex_disj_distrib
      split: if_splits)

lemma apply_each_Ok:
  "apply_each repl verify timeout retries todo acc tr = (out, Some (Ok r, tr')) \<Longrightarrow>
   apply_inv repl verify T dn acc \<Longrightarrow> set tr \<subseteq> T \<Longrightarrow> distinct (map fst (dn @ todo)) \<Longrightarrow>
   apply_inv repl verify T (dn @ todo) r
   \<and> set out \<subseteq> (\<lambda>(n, v). ParamSetSend (py_upper n) v) ` set todo
   \<and> length out \<le> retries * length todo"
proof (induction todo arbitrary: acc tr out dn)
  case Nil
  then show ?case by (simp add: io_ret_run)
next
  case (Cons nv todo)
  obtain n val where nv: "nv = (n, val)" by fastforce
  from Cons.prems(1) obtain enc where enc: "encode_name n = Ok enc"
    by (auto simp: nv io_ret_run split: sum.splits)
  then have encu: "enc = py_upper n" by (auto simp: encode_name_def Let_def split: if_splits)
  let ?next = "\<lambda>x. case x of
      Inl err \<Rightarrow> acc\<lparr>failures := failures acc @ [(n, val, err)]\<rparr>
    | Inr v \<Rightarrow> acc\<lparr>applied := dict_set n v (applied acc)\<rparr>"
  from Cons.prems(1) enc obtain x o1 o2 tr1
    where tried: "try_param repl verify timeout n enc val retries NoResponse tr = (o1, Some (x, tr1))"
      and rest: "apply_each repl verify timeout retries todo (?next x) tr1 = (o2, Some (Ok r, tr'))"
      and out: "out = o1 @ o2"
    by (auto simp: nv elim!: io_bind_SomeE split: sum.splits)
  note step = try_param_Some [OF tried]
  have fresh: "n \<notin> set (dict_keys dn)" using Cons.prems(4) by (auto simp: nv dict_keys_def)
  have conf: "\<forall>v. x = Inr v \<longrightarrow> confirmed_value repl verify n val v T"
    using step Cons.prems(3) confirmed_value_mono by blast
  have "apply_inv repl verify T (dn @ [(n, val)]) (?next x)"
    using Cons.prems(2) conf fresh
    by (cases x) (simp_all add: apply_inv_failed apply_inv_applied)
  moreover have "set tr1 \<subseteq> T" using step Cons.prems(3) by auto
  moreover have "distinct (map fst ((dn @ [(n, val)]) @ todo))" using Cons.prems(4) by (simp add: nv)
  ultimately have IH: "apply_inv repl verify T ((dn @ [(n, val)]) @ todo) r
     \<and> set o2 \<subseteq> (\<lambda>(n, v). ParamSetSend (py_upper n) v) ` set todo \<and> length o2 \<le> retries * length todo"
    using Cons.IH [OF rest] by blast
  have "set out \<subseteq> (\<lambda>(n, v). ParamSetSend (py_upper n) v) ` set (nv # todo)"
    using IH step encu by (auto simp: nv out)
  moreover have "length out \<le> retries * length (nv # todo)" using IH step by (simp add: out)
  ultimately show ?case using IH by (simp add: nv)
qed

text \<open>
  C9: when the parameters were applied and verified, every requested parameter is either applied or
  listed as failed and none is both; the value recorded for an applied one was echoed by the vehicle
  under its name and is within the tolerance of the requested one; only requested values were written,
  each at most \<open>max_retries\<close> times on average.
\<close>

theorem apply_params_sound:
  assumes "param_set_ok ps"
    and "apply_params repl True timeout retries ps tr = (out, Some (Ok r, tr'))"
  shows "set (dict_keys (applied r)) \<union> fst ` set (failures r) = set (dict_keys ps)
     \<and> set (dict_keys (applied r)) \<inter> fst ` set (failures r) = {}
     \<and> (\<forall>n v. dict_get (applied r) n = Some v \<longrightarrow>
          (\<exists>val. dict_get ps n = Some val \<and> heard repl n v (set tr)
             \<and> fle (fabs (fsub v val)) param_verify_tol))
     \<and> (\<forall>x \<in> set out. \<exists>n val. dict_get ps n = Some val \<and> x = ParamSetSend (py_upper n) val)
     \<and> length out \<le> retries * length ps"
proof -
  let ?s = "as_sorted_dict ps"
  have ok: "distinct (map fst ?s)" using as_sorted_dict_ok [OF assms(1)] by (rule param_set_ok_distinct)
  have mem: "(n, v) \<in> set ?s \<longleftrightarrow> dict_get ps n = Some v" for n v
    using ok as_sorted_dict_get [of ps n] by (metis dict_get_def map_of_eq_Some_iff)
  have init: "apply_inv repl True (set tr) [] \<lparr>applied = [], failures = []\<rparr>"
    by (simp add: apply_inv_def dict_keys_def dict_get_def)
  from apply_each_Ok [OF assms(2) [unfolded apply_params_def] init subset_refl] ok
  have res: "apply_inv repl True (set tr) ?s r" "length out \<le> retries * length ?s"
    and snd: "set out \<subseteq> (\<lambda>(n, v). ParamSetSend (py_upper n) v) ` set ?s" by simp_all
  have "\<forall>x \<in> set out. \<exists>n val. dict_get ps n = Some val \<and> x = ParamSetSend (py_upper n) val"
    using snd mem by fastforce
  moreover have "length ?s = length ps" by (simp add: as_sorted_dict_def param_names_def dict_keys_def)
  ultimately show ?thesis
    using res mem by (simp add: apply_inv_def confirmed_value_def as_sorted_dict_keys)
qed

section \<open>Fetching parameters\<close>

lemma fetch_pass_silent: "fst (fetch_pass repl quiet deadline s p) = []"
  by (cases s) (auto simp: fetch_pass_def Let_def split: option.splits)

interpretation fetch_deadline: poll_deadline "\<lambda>_. True" "fetch_pass repl quiet deadline"
  "\<lambda>t. \<not> flt t deadline"
  for repl :: char and quiet :: pyfloat and deadline :: pyfloat
  by unfold_locales (auto simp: fetch_pass_def)

lemma fetch_poll_heard:
  "poll (\<lambda>_. True) (fetch_pass repl quiet deadline) (c, e, l) tr = (out, Some (Inr r, tr')) \<Longrightarrow>
     dict_get r k = Some v \<Longrightarrow> dict_get c k = Some v \<or> heard repl k v (set tr)"
proof (induction tr arbitrary: c e l out)
  case (Cons p ps)
  let ?m = "rx_msg p"
  consider (stop) "r = c" | (again) e' l' o2 where "poll (\<lambda>_. True) (fetch_pass repl quiet deadline) (c, e', l') ps = (o2, Some (Inr r, tr'))"
    | (last) m where "?m = Some m" "r = dict_set (decode_name repl (pv_id m)) (pv_value m) c"
    | (more) m e' l' o2 where "?m = Some m"
       "poll (\<lambda>_. True) (fetch_pass repl quiet deadline) (dict_set (decode_name repl (pv_id m)) (pv_value m) c, e', l') ps = (o2, Some (Inr r, tr'))"
    using Cons.prems(1) by (auto simp: fetch_pass_def Let_def split: if_splits option.splits prod.splits)
  then show ?case
  proof cases
    case stop
    then show ?thesis using Cons.prems by simp
  next
    case again
    then show ?thesis using Cons.IH Cons.prems(2) by (fastforce intro: heard_mono)
  next
    case last
    then show ?thesis using Cons.prems(2) by (auto simp: heard_def dict_get_def split: if_splits)
  next
    case (more m e' l' o2)
    from Cons.IH [OF this(2) Cons.prems(2)] more(1) show ?thesis
      by (auto simp: heard_def dict_get_def split: if_splits)
  qed
qed simp

lemma fetch_poll_ok:
  "dict_ok c \<Longrightarrow>
   poll (\<lambda>_. True) (fetch_pass repl quiet deadline) (c, e, l) tr = (out, Some (Inr r, tr')) \<Longrightarrow> dict_ok r"
proof (induction tr arbitrary: c e l out)
  case (Cons p ps)
  from Cons.prems show ?case
    by (auto simp: fetch_pass_def Let_def split: if_splits option.splits prod.splits
        intro: Cons.IH [OF dict_ok_set] Cons.IH)
qed simp

lemma add_pairs_get:
  "add_pairs out pairs = Ok ps \<Longrightarrow> dict_get ps n = Some v \<Longrightarrow>
     dict_get out n = Some v \<or> (\<exists>k val. (k, val) \<in> set pairs \<and> normalize_name k = Ok n \<and> py_float val = Ok v)"
proof (induction out pairs rule: add_pairs.induct)
  case (2 out name val pairs)
  then obtain x m where "normalize_name name = Ok m" "py_float val = Ok x"
    and "add_pairs (dict_set m x out) pairs = Ok ps" by (auto simp: result_simps)
  with 2 show ?case by (fastforce simp: dict_get_def split: if_splits)
qed auto

lemma fetch_params_emits [emits]: "P ParamRequestListSend \<Longrightarrow> emits_only P (fetch_params repl timeout quiet)"
  unfolding fetch_params_def
  by (intro emits) (simp_all add: fetch_pass_silent)

lemma fetch_params_Some:
  assumes "fetch_params repl timeout quiet tr = (out, Some (r, tr'))"
  obtains p ps collected where "tr = p # ps" and "r = from_pairs (float_values collected)"
    and "poll (\<lambda>_. True) (fetch_pass repl quiet (fadd (fst p) timeout)) ([], None, fst p) ps
           = ([], Some (Inr collected, tr'))"
proof -
  from assms obtain o1 where o1: "out = ParamRequestListSend # o1"
    and run: "io_bind io_clock (\<lambda>last_rx.
      io_bind (poll (\<lambda>_. True) (fetch_pass repl quiet (fadd last_rx timeout)) ([], None, last_rx))
       (\<lambda>res. case res of
          Inr collected \<Rightarrow> io_ret (from_pairs (float_values collected))
        | Inl s \<Rightarrow> io_ret (from_pairs (float_values (fst s))))) tr = (o1, Some (r, tr'))"
    unfolding fetch_params_def by (elim io_bind_emit_SomeE)
  then obtain p ps where tr: "tr = p # ps" by (cases tr) (auto simp: io_bind_clock)
  let ?poll = "poll (\<lambda>_. True) (fetch_pass repl quiet (fadd (fst p) timeout)) ([], None, fst p)"
  from run obtain o2 x tr1 where poll: "?poll ps = (o2, Some (x, tr1))"
    and x: "(case x of
          Inr collected \<Rightarrow> io_ret (from_pairs (float_values collected))
        | Inl s \<Rightarrow> io_ret (from_pairs (float_values (fst s)))) tr1 = ([], Some (r, tr'))"
    unfolding tr io_bind_clock by (elim io_bind_SomeE) (auto simp: io_ret_run split: sum.splits)
  obtain collected where c: "x = Inr collected"
    using poll poll_True_not_finished [where b = "fetch_pass repl quiet (fadd (fst p) timeout)"]
    by (cases x) simp_all
  have "emits_only (\<lambda>_. False) ?poll" by (intro emits) (simp add: fetch_pass_silent)
  then have "\<forall>x \<in> set (fst (?poll ps)). False" unfolding emits_only_def by blast
  then have "o2 = []" using poll by simp
  with poll x c tr show thesis by (intro that [of p ps collected]) (auto simp: io_ret_run)
qed

text \<open>
  every value in a fetched set was reported by the vehicle under a name that normalises to
  the one in the set, and the set is well formed.
\<close>

lemma fetch_params_sound:
  assumes "fetch_params repl timeout quiet tr = (out, Some (Ok ps, tr'))" and "dict_get ps n = Some v"
  shows "param_set_ok ps \<and> (\<exists>k. normalize_name k = Ok n \<and> heard repl k v (set tr))"
proof -
  from assms(1) obtain p qs c where tr: "tr = p # qs" and ps: "from_pairs (float_values c) = Ok ps"
    and poll: "poll (\<lambda>_. True) (fetch_pass repl quiet (fadd (fst p) timeout)) ([], None, fst p) qs
           = ([], Some (Inr c, tr'))" by (elim fetch_params_Some) simp
  have ok: "dict_ok c" using fetch_poll_ok [OF _ poll] by (simp add: dict_ok_def)
  from add_pairs_get [OF ps [unfolded from_pairs_def] assms(2)]
  obtain k where k: "normalize_name k = Ok n" and "(k, v) \<in> set c"
    by (auto simp: dict_get_def float_values_def)
  with ok have "dict_get c k = Some v" by (simp add: dict_get_def dict_ok_def)
  from fetch_poll_heard [OF poll this] have "heard repl k v (set tr)"
    by (auto simp: dict_get_def tr intro: heard_mono)
  with k from_pairs_ok [OF ps] show ?thesis by blast
qed

text \<open>
  A vehicle that streams its parameters: each under a name of its own, with the total count.
\<close>

definition stream_obs :: "pyfloat \<times> param_value_msg \<times> pyfloat \<Rightarrow> param_rx obs" where
  "stream_obs x = (fst x, Some (Some (fst (snd x)), snd (snd x)))"

definition reported :: "char \<Rightarrow> param_value_msg \<Rightarrow> string \<times> pyfloat" where
  "reported repl m = (decode_name repl (pv_id m), pv_value m)"

text \<open>
  Polls before the deadline; once a parameter has arrived, silence lasts no longer than the quiet
  window. The messages of a list of polls are those the silent ones leave out.
\<close>

fun in_time :: "pyfloat \<Rightarrow> pyfloat \<Rightarrow> bool \<Rightarrow> pyfloat \<Rightarrow> param_rx obs list \<Rightarrow> bool" where
  "in_time quiet deadline started l [] = True"
| "in_time quiet deadline started l (p # ps) =
     (flt (fst p) deadline
      \<and> (case rx_msg p of
           None \<Rightarrow> (started \<longrightarrow> \<not> fgt (fsub (rx_after p) l) quiet) \<and> in_time quiet deadline started l ps
         | Some m \<Rightarrow> in_time quiet deadline True (rx_after p) ps))"

definition messages :: "param_rx obs list \<Rightarrow> param_value_msg list" where
  "messages ps = concat (map (\<lambda>p. case rx_msg p of None \<Rightarrow> [] | Some m \<Rightarrow> [m]) ps)"

lemma messages_simps [simp]:
  "messages [] = []"
  "messages (p # ps) = (case rx_msg p of None \<Rightarrow> messages ps | Some m \<Rightarrow> m # messages ps)"
  by (simp_all add: messages_def split: option.split)

lemma messages_last: "ps \<noteq> [] \<Longrightarrow> rx_msg (last ps) \<noteq> None \<Longrightarrow> messages ps \<noteq> []"
  by (auto simp: messages_def intro!: bexI [of _ "last ps"])

lemma fetch_poll_in_time:
  assumes "ps \<noteq> []" and "rx_msg (last ps) \<noteq> None" and "in_time quiet deadline (c \<noteq> []) l ps"
    and "\<forall>m \<in> set (messages ps). pv_count m = int (length c + length (messages ps))"
    and "distinct (map fst (c @ map (reported repl) (messages ps)))"
    and "e = None \<or> e = Some (int (length c + length (messages ps)))"
  shows "poll (\<lambda>_. True) (fetch_pass repl quiet deadline) (c, e, l) (ps @ B)
     = ([], Some (Inr (c @ map (reported repl) (messages ps)), B))"
  using assms
proof (induction ps arbitrary: c e l)
  case (Cons p ps)
  show ?case
  proof (cases "rx_msg p")
    case None
    then have "ps \<noteq> []" using Cons.prems(2) by auto
    moreover have "fetch_pass repl quiet deadline (c, e, l) p = ([], Again (c, e, l))"
      using Cons.prems(3) None by (auto simp: fetch_pass_def)
    ultimately show ?thesis using Cons None by simp
  next
    case (Some m)
    let ?c = "c @ [reported repl m]" and ?n = "length c + Suc (length (messages ps))"
    have set: "dict_set (decode_name repl (pv_id m)) (pv_value m) c = ?c"
      using Cons.prems(5) Some by (subst dict_set_fresh) (auto simp: reported_def)
    have "(case e of None \<Rightarrow> pv_count m | Some e \<Rightarrow> e) = int ?n" using Cons.prems(4,6) Some by auto
    then have pass: "fetch_pass repl quiet deadline (c, e, l) p
       = ([], if messages ps = [] then Leave ?c else Again (?c, Some (int ?n), rx_after p))"
      using Cons.prems(3) Some by (simp add: fetch_pass_def set Let_def)
    show ?thesis
    proof (cases "ps = []")
      case True
      then show ?thesis using pass Some by simp
    next
      case False
      then have ne: "messages ps \<noteq> []" using Cons.prems(2) messages_last by auto
      have "poll (\<lambda>_. True) (fetch_pass repl quiet deadline) (?c, Some (int ?n), rx_after p) (ps @ B)
       = ([], Some (Inr (?c @ map (reported repl) (messages ps)), B))"
        using Cons.prems False Some by (intro Cons.IH) auto
      with ne show ?thesis using pass Some by simp
    qed
  qed
qed simp

lemma fetch_in_time_run:
  assumes "ps \<noteq> []" and "rx_msg (last ps) \<noteq> None" and "in_time quiet (fadd t0 timeout) False t0 ps"
    and "\<forall>m \<in> set (messages ps). pv_count m = int (length (messages ps))"
    and "param_set_ok (map (reported repl) (messages ps))"
  shows "fetch_params repl timeout quiet ((t0, m0) # ps @ B)
     = ([ParamRequestListSend], Some (Ok (map (reported repl) (messages ps)), B))"
proof -
  have "poll (\<lambda>_. True) (fetch_pass repl quiet (fadd t0 timeout)) ([], None, t0) (ps @ B)
     = ([], Some (Inr ([] @ map (reported repl) (messages ps)), B))"
    using assms param_set_ok_distinct [OF assms(5)] by (intro fetch_poll_in_time) auto
  with from_pairs_floats [OF assms(5)] show ?thesis
    by (simp add: fetch_params_def io_bind_emit io_bind_clock io_bind_Some io_ret_run float_values_def)
qed

lemma messages_stream: "messages (map stream_obs xs) = map (fst \<circ> snd) xs"
  by (induction xs) (simp_all add: stream_obs_def rx_msg_def)

lemma in_time_stream:
  "\<forall>x \<in> set xs. flt (fst x) deadline \<Longrightarrow> in_time quiet deadline started l (map stream_obs xs)"
  by (induction xs arbitrary: started l) (simp_all add: stream_obs_def rx_msg_def)

lemma fetch_run:
  assumes "xs \<noteq> []" and "\<forall>x \<in> set xs. flt (fst x) (fadd t0 timeout) \<and> pv_count (fst (snd x)) = int (length xs)"
    and "param_set_ok (map (reported repl \<circ> fst \<circ> snd) xs)"
  shows "fetch_params repl timeout quiet ((t0, m0) # map stream_obs xs @ B)
     = ([ParamRequestListSend], Some (Ok (map (reported repl \<circ> fst \<circ> snd) xs), B))"
  using fetch_in_time_run [of "map stream_obs xs" quiet t0 timeout repl m0 B] assms
  by (simp add: messages_stream in_time_stream last_map o_assoc) (simp add: stream_obs_def rx_msg_def)

text \<open>
  C10: a vehicle that reports every parameter before the timeout, under distinct well-formed names
  and with the right count, is fetched completely, and the fetch returns with the last message. Polls
  that bring nothing may come between the messages: any number before the first one, and after it as
  long as the silence does not exceed the quiet window.
\<close>

theorem fetch_params_complete:
  assumes "ps \<noteq> []" and "rx_msg (last ps) \<noteq> None" and "in_time quiet (fadd t0 timeout) False t0 ps"
    and "\<forall>m \<in> set (messages ps). pv_count m = int (length (messages ps))"
    and "param_set_ok (map (reported repl) (messages ps))"
  shows "fetch_params repl timeout quiet ((t0, m0) # ps @ B)
     = ([ParamRequestListSend], Some (Ok (map (reported repl) (messages ps)), B))"
  using assms by (rule fetch_in_time_run)

section \<open>The apply command\<close>

fun is_param_write :: "param_out \<Rightarrow> bool" where
  "is_param_write (ParamSetSend n v) = True"
| "is_param_write x = False"

lemma apply_command_emits:
  assumes "dry_run ctx \<or> \<not> authorised ctx answer"
  shows "emits_only (\<lambda>x. \<not> is_param_write x) (apply_command repl snapshot desired ctx answer)"
  unfolding apply_command_def
  by (intro emits) (use assms in \<open>auto simp: confirm_apply_def\<close>)

text \<open>The world of the command: the parameter writes the autopilot has received.\<close>

definition apply_world ::
  "char \<Rightarrow> bool \<Rightarrow> param_set \<Rightarrow> param_rx trace \<Rightarrow> param_out list safety_context \<Rightarrow> console_input
     \<Rightarrow> param_out list \<Rightarrow> ((pyexc, apply_outcome) result \<times> param_rx trace) option \<times> param_out list" where
  "apply_world repl snapshot desired tr ctx answer w =
     (let (out, r) = apply_command repl snapshot desired ctx answer tr in (r, w @ filter is_param_write out))"

interpretation apply_guard: guarded_command "apply_world repl snapshot desired tr"
  for repl :: char and snapshot :: bool and desired :: param_set and tr :: "param_rx trace"
proof unfold_locales
  fix ctx :: "param_out list safety_context" and answer w
  have "snd (apply_world repl snapshot desired tr ctx answer w) = w"
    if "dry_run ctx \<or> \<not> authorised ctx answer"
    using apply_command_emits [OF that, of repl snapshot desired]
    by (auto simp: apply_world_def emits_only_def Let_def case_prod_unfold filter_empty_conv)
  then show "dry_run ctx \<Longrightarrow> snd (apply_world repl snapshot desired tr ctx answer w) = w"
    and "\<not> authorised ctx answer \<Longrightarrow> snd (apply_world repl snapshot desired tr ctx answer w) = w" by auto
qed

text \<open>
  C8: in any session of apply commands, whatever the vehicle answers, the autopilot receives a
  parameter write only if some command was not a dry run and was confirmed by the operator or by
  the option that assumes yes.
\<close>

theorem apply_sessions_confirmed:
  assumes "fold (\<lambda>(ctx, answer) w. snd (apply_world repl snapshot desired tr ctx answer w)) cmds w \<noteq> w"
  shows "\<exists>(ctx, answer) \<in> set cmds. \<not> dry_run ctx \<and> (assume_yes ctx \<or> prompt answer)"
  using assms by (rule apply_guard.session_change)

lemma sample_set_ok: "param_set_ok [(''B'', Fin 2), (''A'', Fin 1)]"
  by code_simp

definition sample_msg :: param_value_msg where
  "sample_msg = \<lparr>pv_id = RawStr ''A'', pv_value = Fin 1, pv_count = 1\<rparr>"

lemma sample_ok: "param_set_ok [(''A'', Fin 1)]" "decode_name (CHR ''?'') (pv_id sample_msg) = ''A''"
  "pv_value sample_msg = Fin 1"
  by code_simp+

lemma sample_eval:
  "as_sorted_dict [(''A'', Fin 1)] = [(''A'', Fin 1)]" "encode_name ''A'' = Ok ''A''"
  "fle (fabs (fsub (Fin 1) (Fin 1))) param_verify_tol" "flt (Fin 1) (rnd 2)"
  "flt (Fin 1) (rnd 60)"
  by (code_simp, code_simp, simp_all add: param_verify_tol_def float_eval)

theorem apply_params_sound_witness:
  "set (dict_keys [(''A'', Fin 1)]) \<union> fst ` set ([] :: (string \<times> pyfloat \<times> apply_failure) list)
       = set (dict_keys [(''A'', Fin 1)])"
proof -
  let ?tr = "[(Fin 0, None), (Fin 1, Some (Some sample_msg, Fin 1))]"
  have "await (echo_pass (CHR ''?'') ''A'' (Fin 2)) ?tr = ([], Some (Some (Fin 1), []))"
    by (intro await_leave) (simp add: echo_pass_def sample_eval rx_msg_def sample_ok)
  then have "apply_params (CHR ''?'') True (Fin 2) 1 [(''A'', Fin 1)] ?tr
     = ([ParamSetSend ''A'' (Fin 1)], Some (Ok \<lparr>applied = [(''A'', Fin 1)], failures = []\<rparr>, []))"
    by (simp add: apply_params_def sample_eval io_bind_emit io_bind_Some await_param_echo_def io_ret_run
       numeral_eq_Suc)
  from apply_params_sound [OF sample_ok(1) this] show ?thesis by simp
qed

theorem fetch_params_complete_witness:
  "fetch_params (CHR ''?'') (Fin 2) (Fin 1)
     ((Fin 0, None) # [(Fin (1 / 2), Some (None, Fin 1)), (Fin 1, Some (Some sample_msg, Fin 1))] @ [])
     = ([ParamRequestListSend],
        Some (Ok (map (reported (CHR ''?''))
          (messages [(Fin (1 / 2), Some (None, Fin 1)), (Fin 1, Some (Some sample_msg, Fin 1))])), []))"
  by (rule fetch_params_complete)
    (simp_all add: sample_eval float_eval rx_msg_def reported_def sample_ok, simp_all add: sample_msg_def)

theorem apply_sessions_confirmed_witness:
  "\<exists>(ctx, answer) \<in> set [(new_context False True :: param_out list safety_context, Eof)].
     \<not> dry_run ctx \<and> (assume_yes ctx \<or> prompt answer)"
proof (rule apply_sessions_confirmed)
  let ?ctx = "new_context False True :: param_out list safety_context"
  let ?tr = "[(Fin 0, None), stream_obs (Fin 1, sample_msg, Fin 1), (Fin 2, None)]"
  have fetch: "fetch_params (CHR ''?'') (fint 60) (Fin (3 / 2)) ?tr
     = ([ParamRequestListSend], Some (Ok [(''A'', Fin 1)], [(Fin 2, None)]))"
    using fetch_run [of "[(Fin 1, sample_msg, Fin 1)]" "Fin 0" "fint 60" "CHR ''?''" "Fin (3 / 2)" None "[(Fin 2, None)]"]
    by (simp add: reported_def sample_ok fint_def sample_eval) (simp add: sample_msg_def)
  have sub: "before_subset [(''A'', Fin 1)] [(''B'', Fin 2)] = Ok []" by code_simp
  have diff: "\<not> diff_is_empty (diff_params [] [(''B'', Fin 2)] default_tol)"
    by (simp add: diff_is_empty_def diff_params_eq changes_def is_added_def diff_names_def dict_keys_def dict_get_def)
  have B: "as_sorted_dict [(''B'', Fin 2)] = [(''B'', Fin 2)]" "encode_name ''B'' = Ok ''B''"
    by code_simp+
  have app: "apply_params (CHR ''?'') True (fint 2) 3 [(''B'', Fin 2)] [(Fin 2, None)]
     = ([ParamSetSend ''B'' (Fin 2)], None)"
    by (simp add: apply_params_def B numeral_eq_Suc io_bind_emit io_bind_None await_param_echo_def await_unfold)
  have conf: "fst (confirm_apply ?ctx Eof []) = Ok ()" and nodry: "\<not> dry_run ?ctx"
    by (simp_all add: confirm_apply_def authorised_def new_context_def call_body_def)
  have "apply_command (CHR ''?'') False [(''B'', Fin 2)] ?ctx Eof ?tr
     = ([ParamRequestListSend, ParamSetSend ''B'' (Fin 2)], None)"
    by (simp add: apply_command_def io_bindr_def io_bind_Some fetch io_bind_ret sub diff conf nodry
        io_bind_None [of "apply_params (CHR ''?'') True (fint 2) 3 [(''B'', Fin 2)]", OF app])
  then show "fold (\<lambda>(ctx, answer) w. snd (apply_world (CHR ''?'') False [(''B'', Fin 2)] ?tr ctx answer w))
      [(?ctx, Eof)] [] \<noteq> []" by (simp add: apply_world_def)
qed

end
