(* ===== verification/Sync.thy ===== *)
theory Sync
  imports Params
begin

text \<open>
  Bringing the autopilot's configuration up to date: \<open>vslam/lua_deploy.py\<close> (the Lua script on the
  SD card, over MAVLink FTP) and \<open>pixhawk/sync.py\<close> (parameter profiles, then the script). The FTP
  client of pymavlink is an argument: a record of the calls the code makes, each an action on an
  abstract state that may answer anything or raise. The script is text; in messages a dash is written as a hyphen.
\<close>

section \<open>The FTP session\<close>

datatype lua_exc = OSErr string | OtherExc

type_synonym ('f, 'a) ftp = "('f, lua_exc, 'a) action"

record ftp_ret =
  error_code :: int
  system_error :: "int option"

record 'f mavftp =
  ft_success :: int
  ft_fail_errno :: int
  ft_file_exists :: int
  ft_error_name :: "int \<Rightarrow> string option"
  ft_errorcode :: "int \<Rightarrow> string option"
  ft_open :: "('f, unit) ftp"
  ft_list :: "string \<Rightarrow> ('f, ftp_ret \<times> string list) ftp"
  ft_read :: "string \<Rightarrow> ('f, string option) ftp"
  ft_put :: "string \<Rightarrow> string \<Rightarrow> ('f, ftp_ret) ftp"
  ft_reply :: "('f, ftp_ret) ftp"
  ft_mkdir :: "string \<Rightarrow> ('f, ftp_ret) ftp"

text \<open>\<open>try: m except OSError as exc: h\<close>\<close>

definition catch_oserror :: "('f, 'a) ftp \<Rightarrow> ('f, 'a) ftp \<Rightarrow> ('f, 'a) ftp" where
  "catch_oserror m h w = (case m w of (Inl (OSErr s), w') \<Rightarrow> h w' | r \<Rightarrow> r)"

definition errno_hints :: "(int, string) dict" where
  "errno_hints =
     [(28, ''SD card full - delete old logs from /APM/LOGS''),
      (13, ''permission denied - check SD card write-protect''),
      (30, ''read-only filesystem - SD card may be locked''),
      (2, ''parent directory missing''),
      (5, ''SD card I/O error - card may be failing''),
      (20, ''path component is not a directory''),
      (21, ''target path is a directory, not a file''),
      (36, ''filename too long for filesystem'')]"

definition decode_ftp_error :: "'f mavftp \<Rightarrow> ftp_ret \<Rightarrow> string \<Rightarrow> string \<Rightarrow> string" where
  "decode_ftp_error F ret op path =
     (let code = error_code ret;
          name = (case ft_error_name F code of None \<Rightarrow> ''code '' @ str_int code | Some n \<Rightarrow> n);
          head = op @ '' '' @ path @ '': '' @ name
      in case system_error ret of
           Some e \<Rightarrow>
             if code = ft_fail_errno F
             then head @ '' ('' @ (case ft_errorcode F e of None \<Rightarrow> ''errno '' @ str_int e | Some n \<Rightarrow> n) @ '': ''
                  @ dict_get_or errno_hints e ''see ArduPilot FTP server logs'' @ '')''
             else head
         | None \<Rightarrow> head)"

definition list_directory :: "'f mavftp \<Rightarrow> string \<Rightarrow> ('f, string list) ftp" where
  "list_directory F path =
     act_bind (ft_list F path) (\<lambda>(ret, names).
       if error_code ret \<noteq> ft_success F then act_raise (OSErr (decode_ftp_error F ret ''list'' path))
       else act_ret names)"

definition read_file :: "'f mavftp \<Rightarrow> string \<Rightarrow> ('f, string) ftp" where
  "read_file F path =
     act_bind (ft_read F path) (\<lambda>data.
       case data of
         None \<Rightarrow> act_raise (OSErr (''read '' @ path @ '': FTP transfer failed''))
       | Some d \<Rightarrow> act_ret d)"

definition write_file :: "'f mavftp \<Rightarrow> string \<Rightarrow> string \<Rightarrow> ('f, unit) ftp" where
  "write_file F path data =
     act_bind (ft_put F path data) (\<lambda>ret.
     if error_code ret \<noteq> ft_success F then act_raise (OSErr (decode_ftp_error F ret ''write-create'' path))
     else act_bind (ft_reply F) (\<lambda>ret2.
     if error_code ret2 \<noteq> ft_success F then act_raise (OSErr (decode_ftp_error F ret2 ''write'' path))
     else act_ret ()))"

definition mkdir :: "'f mavftp \<Rightarrow> string \<Rightarrow> ('f, unit) ftp" where
  "mkdir F path =
     act_bind (ft_mkdir F path) (\<lambda>ret.
       if error_code ret \<noteq> ft_success F \<and> error_code ret \<noteq> ft_file_exists F
       then act_raise (OSErr (decode_ftp_error F ret ''mkdir'' path)) else act_ret ())"

section \<open>The script\<close>

definition script_name :: string where "script_name = ''ahrs-source-gps-vslam.lua''"
definition remote_dir :: string where "remote_dir = ''/APM/scripts''"
definition remote_path :: string where "remote_path = remote_dir @ ''/'' @ script_name"

text \<open>
  \<open>^-- VERSION:\s*(.+)$\<close> in multi-line mode. The white space may run over line ends; the group is
  the rest of the line where text follows. Where nothing but white space is left the match backs
  up to a blank that is no line end, if there is one, and the stripped group is empty.
\<close>

definition newline :: char where "newline = CHR 0x0A"

definition version_mark :: string where "version_mark = ''-- VERSION:''"

definition version_group :: "string \<Rightarrow> string option" where
  "version_group rest =
     (case dropWhile py_isspace rest of
        [] \<Rightarrow> if list_ex (\<lambda>c. c \<noteq> newline) rest then Some [] else None
      | c # cs \<Rightarrow> Some (py_strip (takeWhile (\<lambda>d. d \<noteq> newline) (c # cs))))"

fun search_version :: "bool \<Rightarrow> string \<Rightarrow> string option" where
  "search_version at_start [] = None"
| "search_version at_start (c # cs) =
     (case (if at_start \<and> is_prefix version_mark (c # cs)
            then version_group (drop (length version_mark) (c # cs)) else None) of
        Some v \<Rightarrow> Some v
      | None \<Rightarrow> search_version (c = newline) cs)"

definition extract_version :: "string \<Rightarrow> string option" where
  "extract_version content = search_version True content"

datatype upload_check = ReadBackSame | ReadBackDiffers | ReadBackFailed

datatype lua_outcome = LuaListFailed | LuaCurrent | LuaUploaded upload_check | LuaDeployFailed lua_exc

definition upload_script :: "'f mavftp \<Rightarrow> string \<Rightarrow> ('f, lua_outcome) ftp" where
  "upload_script F bundled =
     act_bind (write_file F remote_path bundled) (\<lambda>_.
     act_bind (catch_oserror
         (act_bind (read_file F remote_path) (\<lambda>r.
            act_ret (if r \<noteq> bundled then ReadBackDiffers else ReadBackSame)))
         (act_ret ReadBackFailed)) (\<lambda>chk.
     act_ret (LuaUploaded chk)))"

definition deploy_body :: "'f mavftp \<Rightarrow> lua_exc + string \<Rightarrow> ('f, lua_outcome) ftp" where
  "deploy_body F bundle =
     (case bundle of
        Inl e \<Rightarrow> act_raise e
      | Inr bundled \<Rightarrow>
          act_bind (ft_open F) (\<lambda>_.
          act_bind (catch_oserror (mkdir F remote_dir) (act_ret ())) (\<lambda>_.
          act_bind (catch_oserror (act_bind (list_directory F remote_dir) (\<lambda>ns. act_ret (Some ns)))
                      (act_ret None)) (\<lambda>listing.
          case listing of
            None \<Rightarrow> act_ret LuaListFailed
          | Some names \<Rightarrow>
              if script_name \<in> set names
              then act_bind (catch_oserror
                       (act_bind (read_file F remote_path) (\<lambda>r. act_ret (extract_version r)))
                       (act_ret None)) (\<lambda>remote_ver.
                   if remote_ver = extract_version bundled then act_ret LuaCurrent
                   else upload_script F bundled)
              else upload_script F bundled))))"

text \<open>\<open>except Exception\<close>: every failure is logged and swallowed.\<close>

definition check_and_deploy_lua :: "'f mavftp \<Rightarrow> lua_exc + string \<Rightarrow> ('f, lua_outcome) ftp" where
  "check_and_deploy_lua F bundle f =
     (case deploy_body F bundle f of
        (Inl e, f') \<Rightarrow> (Ok (LuaDeployFailed e), f')
      | (Inr out, f') \<Rightarrow> (Ok out, f'))"

section \<open>Synchronisation\<close>

datatype sync_issue =
    UnknownProfile string
  | FetchFailed pyexc
  | ApplyFailed pyexc
  | ParamFailed string pyfloat apply_failure
  | LuaIssue lua_exc

record sync_result =
  params_checked :: nat
  params_applied :: nat
  params_already_current :: bool
  lua_deployed :: bool
  profiles_applied :: "string list"
  sync_errors :: "sync_issue list"

definition new_result :: sync_result where
  "new_result = \<lparr>params_checked = 0, params_applied = 0, params_already_current = False,
     lua_deployed = False, profiles_applied = [], sync_errors = []\<rparr>"

definition sync_ok :: "sync_result \<Rightarrow> bool" where "sync_ok r \<longleftrightarrow> length (sync_errors r) = 0"

definition default_sync_profiles :: "string list" where "default_sync_profiles = [''safety-defaults'']"

fun copy_params :: "param_set \<Rightarrow> string list \<Rightarrow> param_set \<Rightarrow> (pyexc, param_set) result" where
  "copy_params ps [] combined = Ok combined"
| "copy_params ps (k # ks) combined =
     bindr (param_getitem ps k) (\<lambda>v. copy_params ps ks (dict_set k v combined))"

fun combine_profiles ::
  "(string \<Rightarrow> (pyexc, param_set) result) \<Rightarrow> string list \<Rightarrow> param_set \<Rightarrow> sync_issue list
     \<Rightarrow> (pyexc, param_set \<times> sync_issue list) result" where
  "combine_profiles load [] combined errs = Ok (combined, errs)"
| "combine_profiles load (name # names) combined errs =
     (if \<not> dict_has profiles name then combine_profiles load names combined (errs @ [UnknownProfile name])
      else bindr (load name) (\<lambda>ps.
           bindr (copy_params ps (dict_keys ps) combined) (\<lambda>combined'.
           combine_profiles load names combined' errs)))"

definition desired_params ::
  "(string \<Rightarrow> (pyexc, param_set) result) \<Rightarrow> string list \<Rightarrow> (pyexc, param_set \<times> sync_issue list) result" where
  "desired_params load names =
     bindr (combine_profiles load names [] []) (\<lambda>(combined, errs).
     bindr (from_pairs (float_values combined)) (\<lambda>desired. Ok (desired, errs)))"

text \<open>The parameters that drifted, with their wanted values: \<open>{c.name: c.new for c in diff.changed}\<close>.\<close>

definition changed_pairs :: "param_diff \<Rightarrow> (string \<times> pyval) list" where
  "changed_pairs d = map (\<lambda>c. (pc_name c, opt_float (pc_new c))) (pd_changed d)"

definition apply_drift ::
  "char \<Rightarrow> string list \<Rightarrow> sync_result \<Rightarrow> param_diff \<Rightarrow> (pyexc, sync_result) result param_io" where
  "apply_drift repl profs res d =
     (case from_pairs (changed_pairs d) of
        Inl e \<Rightarrow> io_ret (Err e)
      | Inr to_apply \<Rightarrow>
          let finished = res\<lparr>params_applied := length (pd_changed d), profiles_applied := profs\<rparr>
          in if to_apply = [] then io_ret (Ok finished)
             else io_bind (apply_params repl True (fint 2) 3 to_apply) (\<lambda>r.
               case r of
                 Inl e \<Rightarrow> io_ret (Ok (res\<lparr>sync_errors := sync_errors res @ [ApplyFailed e]\<rparr>))
               | Inr a \<Rightarrow> io_ret (Ok (finished\<lparr>sync_errors := sync_errors res
                   @ map (\<lambda>(n, v, err). ParamFailed n v err) (failures a)\<rparr>))))"

definition sync_params ::
  "char \<Rightarrow> (string \<Rightarrow> (pyexc, param_set) result) \<Rightarrow> string list \<Rightarrow> bool \<Rightarrow> (pyexc, sync_result) result param_io" where
  "sync_params repl load profs dry =
     (case desired_params load profs of
        Inl e \<Rightarrow> io_ret (Err e)
      | Inr (desired, errs) \<Rightarrow>
          let res = new_result\<lparr>params_checked := length desired, sync_errors := errs\<rparr>
          in if desired = [] then io_ret (Ok (res\<lparr>params_already_current := True\<rparr>))
             else io_bind (fetch_params repl (fint 60) (Fin (3 / 2))) (\<lambda>r.
               case r of
                 Inl e \<Rightarrow> io_ret (Ok (res\<lparr>sync_errors := errs @ [FetchFailed e]\<rparr>))
               | Inr current \<Rightarrow>
                   (case before_subset current desired of
                      Inl e \<Rightarrow> io_ret (Err e)
                    | Inr sub \<Rightarrow>
                        let d = diff_params sub desired default_tol
                        in if diff_is_empty d
                           then io_ret (Ok (res\<lparr>params_already_current := True, profiles_applied := profs\<rparr>))
                           else if dry
                           then io_ret (Ok (res\<lparr>params_applied := length (pd_changed d) + length (pd_added d),
                                              profiles_applied := profs\<rparr>))
                           else apply_drift repl profs res d)))"

definition sync_lua :: "'f mavftp \<Rightarrow> lua_exc + string \<Rightarrow> 'f \<Rightarrow> sync_result \<times> 'f" where
  "sync_lua F bundle f =
     (case check_and_deploy_lua F bundle f of
        (Inl e, f') \<Rightarrow> (new_result\<lparr>sync_errors := [LuaIssue e]\<rparr>, f')
      | (Inr out, f') \<Rightarrow> (new_result\<lparr>lua_deployed := True\<rparr>, f'))"

definition merge_results :: "sync_result \<Rightarrow> sync_result \<Rightarrow> sync_result" where
  "merge_results p l =
     \<lparr>params_checked = params_checked p, params_applied = params_applied p,
      params_already_current = params_already_current p, lua_deployed = lua_deployed l,
      profiles_applied = profiles_applied p, sync_errors = sync_errors p @ sync_errors l\<rparr>"

definition sync_pixhawk ::
  "char \<Rightarrow> (string \<Rightarrow> (pyexc, param_set) result) \<Rightarrow> 'f mavftp \<Rightarrow> lua_exc + string \<Rightarrow> 'f \<Rightarrow> string list \<Rightarrow> bool
     \<Rightarrow> ((pyexc, sync_result) result \<times> 'f) param_io" where
  "sync_pixhawk repl load F bundle f profs dry =
     io_bind (sync_params repl load profs dry) (\<lambda>r.
       case r of
         Inl e \<Rightarrow> io_ret (Err e, f)
       | Inr p \<Rightarrow> (let (l, f') = sync_lua F bundle f in io_ret (Ok (merge_results p l), f')))"

section \<open>Deployment\<close>


section \<open>Properties\<close>

text \<open>
  A client seen from the outside: every operation of an arbitrary client is recorded with its answer,
  an exception included.
\<close>

datatype ftp_call =
    FOpen "(lua_exc, unit) result"
  | FMkdir string "(lua_exc, ftp_ret) result"
  | FList string "(lua_exc, ftp_ret \<times> string list) result"
  | FRead string "(lua_exc, string option) result"
  | FPut string string "(lua_exc, ftp_ret) result"
  | FReply "(lua_exc, ftp_ret) result"




definition puts :: "ftp_call list \<Rightarrow> (string \<times> string) list" where
  "puts calls = concat (map (\<lambda>x. case x of FPut p c a \<Rightarrow> [(p, c)] | _ \<Rightarrow> []) calls)"





lemma puts_simps [simp]:
  "puts [] = []" "puts (x # xs) = (case x of FPut p c a \<Rightarrow> [(p, c)] | _ \<Rightarrow> []) @ puts xs"
  "puts (xs @ ys) = puts xs @ puts ys"
  by (simp_all add: puts_def)









section \<open>Writes\<close>

lemma await_param_echo_emits [emits]: "emits_only P (await_param_echo repl name timeout)"
  unfolding await_param_echo_def await_def
  by (intro emits) (auto simp: echo_pass_def emits_only_def split: option.splits if_splits)

lemma try_param_emits [emits]:
  "P (ParamSetSend encoded val) \<Longrightarrow> emits_only P (try_param repl verify timeout name encoded val k err)"
  by (induction k arbitrary: err) (simp_all, intro emits, auto intro!: emits)

lemma apply_each_emits:
  "(\<And>n v. (n, v) \<in> set todo \<Longrightarrow> P (ParamSetSend (py_upper n) v)) \<Longrightarrow>
   emits_only P (apply_each repl verify timeout retries todo acc)"
proof (induction todo arbitrary: acc)
  case (Cons nv todo)
  obtain n v where nv: "nv = (n, v)" by fastforce
  have "P (ParamSetSend enc v)" if "encode_name n = Ok enc" for enc
    using that Cons.prems [of n v] by (auto simp: nv encode_name_def Let_def split: if_splits)
  then show ?case unfolding nv using Cons by (auto intro!: emits split: sum.splits)
qed (simp add: emits)

lemma set_as_sorted_dict: "dict_ok ps \<Longrightarrow> set (as_sorted_dict ps) = set ps"
  by (force simp: as_sorted_dict_def param_names_def dict_keys_def dict_get_def dict_ok_def)

lemma apply_params_emits:
  "param_set_ok ps \<Longrightarrow> (\<And>n v. dict_get ps n = Some v \<Longrightarrow> P (ParamSetSend (py_upper n) v)) \<Longrightarrow>
   emits_only P (apply_params repl verify timeout retries ps)"
  unfolding apply_params_def
  by (rule apply_each_emits) (auto simp: param_set_ok_def set_as_sorted_dict dict_get_def dict_ok_def)

lemma before_subset_get:
  assumes cur: "param_set_ok cur" and des: "param_set_ok desired"
  obtains sub where "before_subset cur desired = Ok sub"
    "\<And>n. dict_get sub n = (if n \<in> set (dict_keys desired) then dict_get cur n else None)"
proof -
  define ps where "ps = map (\<lambda>n. (n, the (dict_get cur n))) (filter (dict_has cur) (dict_keys desired))"
  have norm: "normalize_name n = Ok n" if "n \<in> set (dict_keys desired)" for n using des that by (simp add: param_set_ok_def)
  have "before_pairs cur ns = Ok (float_values (map (\<lambda>n. (n, the (dict_get cur n))) (filter (dict_has cur) ns)))"
    if "set ns \<subseteq> set (dict_keys desired)" for ns
    using that by (induction ns)
      (auto simp: param_contains_def param_getitem_def norm float_values_def dict_has_def dict_get_def)
  then have "before_pairs cur (dict_keys desired) = Ok (float_values ps)" by (simp add: ps_def)
  moreover have "param_set_ok ps"
    using des by (auto simp: param_set_ok_def dict_ok_def dict_keys_def ps_def comp_def)
  then have "from_pairs (float_values ps) = Ok ps" unfolding float_values_def by (rule from_pairs_floats)
  ultimately have "before_subset cur desired = Ok ps" by (simp add: before_subset_def)
  moreover have "dict_get ps n = (if n \<in> set (dict_keys desired) then dict_get cur n else None)" for n
  proof -
    have "map_of (map (\<lambda>n. (n, the (map_of cur n))) ns) n = (if n \<in> set ns then Some (the (map_of cur n)) else None)" for ns
      by (induction ns) auto
    then show ?thesis by (auto simp: ps_def dict_get_def dict_has_def)
  qed
  ultimately show ?thesis using that by blast
qed

lemma desired_params_ok: "desired_params load profs = Ok (desired, errs) \<Longrightarrow> param_set_ok desired"
  by (auto simp: desired_params_def result_simps dest: from_pairs_ok)

lemma fetch_params_ok:
  "fetch_params repl timeout quiet tr = (out, Some (Ok cur, tr')) \<Longrightarrow> param_set_ok cur"
  by (erule fetch_params_Some) (auto dest: sym intro: from_pairs_ok)

text \<open>What drifted: the names the vehicle reported with a value too far from the wanted one.\<close>

definition drifted :: "param_set \<Rightarrow> param_set \<Rightarrow> string \<Rightarrow> pyfloat \<Rightarrow> bool" where
  "drifted cur desired n v \<longleftrightarrow>
     dict_get desired n = Some v \<and> (\<exists>old. dict_get cur n = Some old \<and> beyond default_tol old v)"

lemma changed_set:
  assumes "param_set_ok desired"
    and sub: "\<And>n. dict_get sub n = (if n \<in> set (dict_keys desired) then dict_get cur n else None)"
  obtains ps where "from_pairs (changed_pairs (diff_params sub desired default_tol)) = Ok ps" "param_set_ok ps"
    "\<And>n v. dict_get ps n = Some v \<longleftrightarrow> drifted cur desired n v"
proof -
  let ?ns = "filter (is_changed default_tol sub desired) (diff_names sub desired)"
  define ps where "ps = map (\<lambda>n. (n, the (dict_get desired n))) ?ns"
  have ch: "n \<in> set ?ns \<longleftrightarrow> (\<exists>v. drifted cur desired n v)" for n
    by (auto simp: set_diff_names is_changed_def drifted_def sub dest: dict_get_Some_key split: if_splits)
  have "changed_pairs (diff_params sub desired default_tol) = float_values ps"
    by (auto simp: changed_pairs_def diff_params_eq changes_def change_of_def opt_float_def float_values_def ps_def
        is_changed_def)
  moreover have ok: "param_set_ok ps"
    unfolding param_set_ok_def
  proof (intro conjI ballI)
    show "dict_ok ps" by (simp add: dict_ok_def ps_def comp_def diff_names_def)
    show "normalize_name k = Ok k" if "k \<in> set (dict_keys ps)" for k
    proof -
      have "k \<in> set ?ns" using that by (auto simp: ps_def dict_keys_def)
      then have "k \<in> set (dict_keys desired)" using ch by (auto simp: drifted_def dest: dict_get_Some_key)
      then show ?thesis using assms(1) by (simp add: param_set_ok_def)
    qed
  qed
  moreover have "dict_get ps n = Some v \<longleftrightarrow> drifted cur desired n v" for n v
  proof -
    have "map_of (map (\<lambda>n. (n, the (map_of desired n))) ns) n = (if n \<in> set ns then Some (the (map_of desired n)) else None)" for ns
      by (induction ns) auto
    then have "dict_get ps n = (if n \<in> set ?ns then Some (the (dict_get desired n)) else None)"
      by (simp add: ps_def dict_get_def)
    then show ?thesis using ch by (auto simp: drifted_def)
  qed
  ultimately show ?thesis using that from_pairs_floats [OF ok] by (simp add: float_values_def)
qed

lemma apply_drift_emits:
  assumes "param_set_ok desired"
    and "\<And>n. dict_get sub n = (if n \<in> set (dict_keys desired) then dict_get cur n else None)"
    and "\<And>n v. drifted cur desired n v \<Longrightarrow> P (ParamSetSend (py_upper n) v)"
  shows "emits_only P (apply_drift repl profs res (diff_params sub desired default_tol))"
proof -
  obtain ps where ps: "from_pairs (changed_pairs (diff_params sub desired default_tol)) = Ok ps" "param_set_ok ps"
    "\<And>n v. dict_get ps n = Some v \<longleftrightarrow> drifted cur desired n v" using changed_set [OF assms(1,2)] by metis
  then show ?thesis
    unfolding apply_drift_def ps(1) sum.case Let_def using assms(3)
    by (intro emits apply_params_emits) auto
qed

text \<open>
  C11: A parameter the sync writes is one of the profiles' parameters that the vehicle itself reported
  with a value beyond the tolerance, and it is written with the wanted value; a dry run writes
  nothing, and so does a sync that cannot fetch the parameters first.
\<close>

theorem sync_params_writes:
  assumes "ParamSetSend enc v \<in> set (fst (sync_params repl load profs dry tr))"
  shows "\<not> dry \<and> (\<exists>desired errs cur out tr' n.
     desired_params load profs = Ok (desired, errs)
     \<and> fetch_params repl (fint 60) (Fin (3 / 2)) tr = (out, Some (Ok cur, tr'))
     \<and> enc = py_upper n \<and> drifted cur desired n v)"
proof -
  obtain desired errs where d: "desired_params load profs = Ok (desired, errs)" "desired \<noteq> []"
    using assms by (auto simp: sync_params_def io_ret_run Let_def split: sum.splits if_splits)
  let ?fetch = "fetch_params repl (fint 60) (Fin (3 / 2))"
  have "emits_only (\<lambda>x. \<not> is_param_write x) ?fetch" by (rule fetch_params_emits) simp
  then have quiet: "ParamSetSend enc v \<notin> set (fst (?fetch tr))" unfolding emits_only_def by force
  obtain out r tr' where f: "?fetch tr = (out, Some (r, tr'))"
    using assms d quiet by (cases "?fetch tr") (auto simp: sync_params_def Let_def io_bind_def split: option.splits)
  then obtain cur where cur: "r = Ok cur"
    using assms d quiet by (cases r) (auto simp: sync_params_def Let_def io_bind_def io_ret_run)
  obtain sub where sub: "before_subset cur desired = Ok sub"
    "\<And>n. dict_get sub n = (if n \<in> set (dict_keys desired) then dict_get cur n else None)"
    using before_subset_get fetch_params_ok desired_params_ok f d(1) unfolding cur by metis
  define res where "res = new_result\<lparr>params_checked := length desired, sync_errors := errs\<rparr>"
  have "ParamSetSend enc v \<in> set (fst (apply_drift repl profs res (diff_params sub desired default_tol) tr')) \<and> \<not> dry"
    using assms d quiet f sub(1)
    by (auto simp: sync_params_def Let_def io_bind_def io_ret_run cur res_def split: if_splits prod.splits)
  moreover have "emits_only (\<lambda>x. \<forall>enc v. x = ParamSetSend enc v \<longrightarrow> (\<exists>n. enc = py_upper n \<and> drifted cur desired n v))
      (apply_drift repl profs res (diff_params sub desired default_tol))"
    using desired_params_ok [OF d(1)] sub(2) by (rule apply_drift_emits) auto
  ultimately have "\<exists>n. enc = py_upper n \<and> drifted cur desired n v" "\<not> dry" by (auto simp: emits_only_def)
  then show ?thesis using d(1) f cur by blast
qed

lemma apply_params_inv:
  assumes "param_set_ok ps" "apply_params repl True timeout retries ps tr = (out, Some (Ok a, tr'))"
  shows "apply_inv repl True (set tr) (as_sorted_dict ps) a"
proof -
  have "distinct (map fst ([] @ as_sorted_dict ps))"
    using assms(1) as_sorted_dict_keys [of ps] by (auto simp: param_set_ok_def dict_ok_def dict_keys_def)
  then show ?thesis
    using apply_each_Ok [of repl True timeout retries "as_sorted_dict ps" "\<lparr>applied = [], failures = []\<rparr>" tr out a tr' "set tr" "[]"]
      assms(2) by (simp add: apply_params_def apply_inv_def dict_keys_def dict_get_def)
qed

lemma apply_drift_ok:
  assumes "param_set_ok desired"
    and "\<And>n. dict_get sub n = (if n \<in> set (dict_keys desired) then dict_get cur n else None)"
    and run: "apply_drift repl profs res (diff_params sub desired default_tol) tr = (out, Some (Ok r, tr'))"
    and ok: "sync_ok r" and d: "drifted cur desired n v"
  shows "\<exists>w. confirmed_value repl True n v w (set tr)"
proof -
  obtain ps where ps: "from_pairs (changed_pairs (diff_params sub desired default_tol)) = Ok ps" "param_set_ok ps"
    "\<And>n v. dict_get ps n = Some v \<longleftrightarrow> drifted cur desired n v" using changed_set [OF assms(1,2)] by metis
  have get: "dict_get ps n = Some v" using ps(3) d by blast
  then have "ps \<noteq> []" by (auto simp: dict_get_def)
  then obtain a o1 tr1 where a: "apply_params repl True (fint 2) 3 ps tr = (o1, Some (Ok a, tr1))" "failures a = []"
    using run ok unfolding apply_drift_def ps(1) sum.case Let_def
    by (auto simp: io_ret_run sync_ok_def elim!: io_bind_SomeE split: sum.splits)
  note inv = apply_params_inv [OF ps(2) a(1)]
  have "n \<in> set (dict_keys (as_sorted_dict ps))" using get by (simp add: as_sorted_dict_keys dict_get_Some_key)
  then obtain w where "dict_get (applied a) n = Some w"
    using inv a(2) by (auto simp: apply_inv_def) (metis dict_get_None_key not_None_eq)
  then obtain val where val: "(n, val) \<in> set (as_sorted_dict ps)" "confirmed_value repl True n val w (set tr)"
    using inv unfolding apply_inv_def by blast
  have "dict_ok ps" using ps(2) by (simp add: param_set_ok_def)
  then have "(n, val) \<in> set ps" using val(1) by (simp add: set_as_sorted_dict)
  then have "val = v" using get \<open>dict_ok ps\<close> by (simp add: dict_get_def dict_ok_def)
  then show ?thesis using val(2) by blast
qed

text \<open>
  After a sync that reports no error and was no dry run, every parameter of the profiles that
  the vehicle has is within the tolerance of the wanted value: it was so when it was read, or the
  vehicle echoed a value within the verification tolerance after it was written.
\<close>

lemma sync_params_confirms:
  assumes run: "sync_params repl load profs False tr = (out, Some (Ok r, tr'))" and ok: "sync_ok r"
    and d: "desired_params load profs = Ok (desired, errs)" "dict_get desired n = Some v"
  shows "\<exists>cur o1 tr1. fetch_params repl (fint 60) (Fin (3 / 2)) tr = (o1, Some (Ok cur, tr1))
     \<and> (\<forall>old. dict_get cur n = Some old \<longrightarrow>
          \<not> beyond default_tol old v \<or> (\<exists>w. confirmed_value repl True n v w (set tr1)))"
proof -
  have ne: "desired \<noteq> []" using d(2) by (auto simp: dict_get_def)
  define res where "res = new_result\<lparr>params_checked := length desired, sync_errors := errs\<rparr>"
  obtain fr o1 tr1 where f: "fetch_params repl (fint 60) (Fin (3 / 2)) tr = (o1, Some (fr, tr1))"
    using run ne unfolding sync_params_def d(1) sum.case prod.case Let_def by (auto elim!: io_bind_SomeE)
  then obtain cur where cur: "fr = Ok cur"
    using run ne ok unfolding sync_params_def d(1) sum.case prod.case Let_def
    by (cases fr) (auto simp: io_bind_Some io_ret_run sync_ok_def)
  obtain sub where sub: "before_subset cur desired = Ok sub"
    "\<And>n. dict_get sub n = (if n \<in> set (dict_keys desired) then dict_get cur n else None)"
    using before_subset_get fetch_params_ok desired_params_ok f d(1) unfolding cur by metis
  let ?d = "diff_params sub desired default_tol"
  have "\<exists>w. confirmed_value repl True n v w (set tr1)" if dr: "drifted cur desired n v"
  proof (cases "diff_is_empty ?d")
    case True
    have "is_changed default_tol sub desired n" using dr sub(2) d(2) by (auto simp: drifted_def is_changed_def dest: dict_get_Some_key)
    moreover have "n \<in> set (diff_names sub desired)" using d(2) by (auto simp: set_diff_names dest: dict_get_Some_key)
    ultimately show ?thesis using True by (auto simp: diff_is_empty_def diff_params_eq changes_Nil)
  next
    case False
    then have "snd (apply_drift repl profs res ?d tr1) = Some (Ok r, tr')"
      using run ne f cur sub(1) unfolding sync_params_def d(1) sum.case prod.case Let_def res_def
      by (auto simp: io_bind_Some)
    then obtain o2 where "apply_drift repl profs res ?d tr1 = (o2, Some (Ok r, tr'))" by (metis prod.collapse)
    then show ?thesis using apply_drift_ok [OF desired_params_ok [OF d(1)] sub(2)] ok dr by blast
  qed
  then show ?thesis using f cur d(2) by (auto simp: drifted_def)
qed

text \<open>
  Whatever becomes of the script, the sync reports it deployed: \<open>check_and_deploy_lua\<close> swallows every
  exception, so the handler in \<open>sync_lua\<close> is never reached.
\<close>

lemma sync_lua_always_deployed: "lua_deployed (fst (sync_lua F bundle f)) \<and> sync_errors (fst (sync_lua F bundle f)) = []"
  by (simp add: sync_lua_def check_and_deploy_lua_def new_result_def split: prod.splits sum.splits)

text \<open>A vehicle that reports \<open>A = 1\<close> where the profile wants 3, and does not answer the write.\<close>

definition wanted :: "string \<Rightarrow> (pyexc, param_set) result" where
  "wanted name = Ok [(''A'', Fin 3)]"

lemma wanted_desired: "desired_params wanted [''safety-defaults''] = Ok ([(''A'', Fin 3)], [])"
  by code_simp

definition drift_trace :: "param_rx trace" where
  "drift_trace = [(Fin 0, None), stream_obs (Fin 1, sample_msg, Fin 1), (Fin 2, None)]"

lemma drift_fetch: "fetch_params (CHR ''?'') (fint 60) (Fin (3 / 2)) drift_trace
     = ([ParamRequestListSend], Some (Ok [(''A'', Fin 1)], [(Fin 2, None)]))"
  using fetch_run [of "[(Fin 1, sample_msg, Fin 1)]" "Fin 0" "fint 60" "CHR ''?''" "Fin (3 / 2)" None "[(Fin 2, None)]"]
  by (simp add: drift_trace_def reported_def sample_ok fint_def sample_eval) (simp add: sample_msg_def)

lemma drift_diff:
  "changed_pairs (diff_params [(''A'', Fin 1)] [(''A'', Fin 3)] default_tol) = [(''A'', VFloat (Fin 3))]"
  by (simp add: changed_pairs_def diff_params_eq changes_def is_changed_def diff_names_def dict_keys_def dict_get_def
      beyond_def change_of_def opt_float_def default_tol_def fsub_def float_eval)

lemma drift_sub: "before_subset [(''A'', Fin 1)] [(''A'', Fin 3)] = Ok [(''A'', Fin 1)]"
  "from_pairs [(''A'', VFloat (Fin 3))] = Ok [(''A'', Fin 3)]" "as_sorted_dict [(''A'', Fin 3)] = [(''A'', Fin 3)]"
  "encode_name ''A'' = Ok ''A''"
  by code_simp+

lemma drift_nonempty: "\<not> diff_is_empty (diff_params [(''A'', Fin 1)] [(''A'', Fin 3)] default_tol)"
  using drift_diff by (auto simp: diff_is_empty_def changed_pairs_def)

lemma drift_run:
  "ParamSetSend ''A'' (Fin 3) \<in> set (fst (sync_params (CHR ''?'') wanted [''safety-defaults''] False drift_trace))"
proof -
  have app: "apply_params (CHR ''?'') True (fint 2) 3 [(''A'', Fin 3)] [(Fin 2, None)]
     = ([ParamSetSend ''A'' (Fin 3)], None)"
    by (simp add: apply_params_def drift_sub numeral_eq_Suc io_bind_emit io_bind_None await_param_echo_def await_unfold)
  show ?thesis
    by (simp add: sync_params_def wanted_desired Let_def io_bind_Some drift_fetch drift_sub drift_nonempty
        apply_drift_def drift_diff io_bind_None [of "apply_params (CHR ''?'') True (fint 2) 3 [(''A'', Fin 3)]", OF app])
qed

theorem sync_params_writes_witness:
  "\<exists>desired errs cur out tr' n.
     desired_params wanted [''safety-defaults''] = Ok (desired, errs)
     \<and> fetch_params (CHR ''?'') (fint 60) (Fin (3 / 2)) drift_trace = (out, Some (Ok cur, tr'))
     \<and> ''A'' = py_upper n \<and> drifted cur desired n (Fin 3)"
  using sync_params_writes [OF drift_run] by blast

section \<open>The command\<close>

text \<open>
  \<open>mower-jetson pixhawk sync\<close> on what becomes of its session: \<open>None\<close> when the link could not be opened.
  Any exception, and a result with errors, ends with status 1.
\<close>

definition pixhawk_sync_command :: "(pyexc, sync_result) result option \<Rightarrow> (int, sync_result) result" where
  "pixhawk_sync_command session =
     (case session of
        None \<Rightarrow> Err 1
      | Some (Inl e) \<Rightarrow> Err 1
      | Some (Inr r) \<Rightarrow> if \<not> sync_ok r then Err 1 else Ok r)"

lemma pixhawk_sync_command_Ok:
  "pixhawk_sync_command session = Ok r \<longleftrightarrow> session = Some (Ok r) \<and> sync_errors r = []"
  by (auto simp: pixhawk_sync_command_def sync_ok_def split: option.splits sum.splits)

end
