(* ===== verification/Firmware.thy ===== *)
theory Firmware
  imports PyValue Link "HOL-Library.Word"
begin

unbundle bit_operations_syntax

text \<open>
  Firmware management, \<open>pixhawk/firmware.py\<close>, with the vendored uploader \<open>pixhawk/_uploader.py\<close>
  (a stub in this repository): the packed version field, what the vehicle and the server report, the
  validation and the download of an image, waiting for the boot loader, flashing. The network, the
  JSON decoder and the outcome of every write are arguments; a file system is a map from paths to
  contents, and a write may fail to open the file or be cut short after it was truncated.
\<close>

section \<open>Versions\<close>

definition VERSION_TYPE_DEV :: int where "VERSION_TYPE_DEV = 0"
definition VERSION_TYPE_ALPHA :: int where "VERSION_TYPE_ALPHA = 64"
definition VERSION_TYPE_BETA :: int where "VERSION_TYPE_BETA = 128"
definition VERSION_TYPE_RC :: int where "VERSION_TYPE_RC = 192"
definition VERSION_TYPE_OFFICIAL :: int where "VERSION_TYPE_OFFICIAL = 255"

definition BOARD_ID_CUBE_ORANGE :: int where "BOARD_ID_CUBE_ORANGE = 140"

record firmware_info =
  fi_major :: int
  fi_minor :: int
  fi_patch :: int
  fi_type_code :: int
  fi_type_name :: string
  fi_version_string :: string

text \<open>The constructor with its \<open>__post_init__\<close>.\<close>

definition byte_ok :: "int \<Rightarrow> bool" where "byte_ok n \<longleftrightarrow> 0 \<le> n \<and> n \<le> 255"

definition mk_firmware_info ::
  "int \<Rightarrow> int \<Rightarrow> int \<Rightarrow> int \<Rightarrow> string \<Rightarrow> string \<Rightarrow> (pyexc, firmware_info) result" where
  "mk_firmware_info a b c t name s =
     (if byte_ok a \<and> byte_ok b \<and> byte_ok c \<and> byte_ok t
      then Ok \<lparr>fi_major = a, fi_minor = b, fi_patch = c, fi_type_code = t, fi_type_name = name,
               fi_version_string = s\<rparr>
      else Err ValueError)"

definition decode_flight_sw_version :: "int \<Rightarrow> int \<times> int \<times> int \<times> int" where
  "decode_flight_sw_version v =
     (drop_bit 24 v AND 0xFF, drop_bit 16 v AND 0xFF, drop_bit 8 v AND 0xFF, v AND 0xFF)"

definition type_names :: "(int, string) dict" where
  "type_names = [(VERSION_TYPE_DEV, ''dev''), (VERSION_TYPE_ALPHA, ''alpha''), (VERSION_TYPE_BETA, ''beta''),
     (VERSION_TYPE_RC, ''rc''), (VERSION_TYPE_OFFICIAL, ''official'')]"

definition type_name :: "int \<Rightarrow> string" where
  "type_name t = dict_get_or type_names t (''unknown-'' @ str_int t)"

definition format_version :: "int \<times> int \<times> int \<times> int \<Rightarrow> string" where
  "format_version v =
     (case v of (a, b, c, t) \<Rightarrow> str_int a @ ''.'' @ str_int b @ ''.'' @ str_int c @ ''-'' @ type_name t)"

datatype vehicle_out = CommandLong int "int list" | ConnClosed

text \<open>
  One poll for \<open>AUTOPILOT_VERSION\<close> follows the request: \<open>recv_match\<close> is called without
  \<open>blocking\<close>, so the time-out does not make it wait.
\<close>

definition read_running_version :: "(vehicle_out, int, firmware_info option) io" where
  "read_running_version =
     io_bind (io_emit (CommandLong 520 [0, 1, 0, 0, 0, 0, 0, 0])) (\<lambda>_.
     io_bind io_recv (\<lambda>msg.
       case msg of
         None \<Rightarrow> io_ret None
       | Some v \<Rightarrow>
           (case decode_flight_sw_version v of (a, b, c, t) \<Rightarrow>
              (case mk_firmware_info a b c t (type_name t) (format_version (a, b, c, t)) of
                 Inl e \<Rightarrow> io_ret None
               | Inr i \<Rightarrow> io_ret (Some i)))))"

datatype net_exc = URLError | OtherNet

definition track_paths :: "(string, string) dict" where
  "track_paths = [(''stable'', ''stable''), (''beta'', ''beta''), (''latest'', ''latest'')]"

text \<open>\<open>FIRMWARE_BASE_URL.replace('/stable/', ...)\<close>: the base has one such part.\<close>

definition base_url :: "string \<Rightarrow> string" where
  "base_url path = ''https://firmware.ardupilot.org/Rover/'' @ path @ ''/CubeOrange''"

definition parse_remote_version :: "string \<Rightarrow> (int \<times> int \<times> int) option" where
  "parse_remote_version text =
     (case split_char CHR ''.'' (hd (split_char CHR ''-'' (py_strip text))) of
        a # b # c # rest \<Rightarrow>
          (case (parse_int a, parse_int b, parse_int c) of
             (Some x, Some y, Some z) \<Rightarrow> Some (x, y, z)
           | _ \<Rightarrow> None)
      | _ \<Rightarrow> None)"

definition check_remote_version ::
  "(string \<Rightarrow> (net_exc, string) result) \<Rightarrow> string \<Rightarrow> (int \<times> int \<times> int) option" where
  "check_remote_version net track =
     (case dict_get track_paths track of
        None \<Rightarrow> None
      | Some path \<Rightarrow>
          (case net (base_url path @ ''/firmware-version.txt'') of
             Inl e \<Rightarrow> None
           | Inr text \<Rightarrow> parse_remote_version text))"

section \<open>Images\<close>

datatype apj_error = ApjNotFound | ApjValueError | ApjTypeError

text \<open>\<open>field in data\<close> and \<open>data[field]\<close> for whatever the file decodes to.\<close>

fun has_field :: "pyval \<Rightarrow> string \<Rightarrow> (apj_error, bool) result" where
  "has_field (VDict d) k = Ok (dict_has d k)"
| "has_field (VList xs) k = Ok (VStr k \<in> set xs)"
| "has_field (VStr s) k = Ok (str_contains k s)"
| "has_field v k = Err ApjTypeError"

fun get_field :: "pyval \<Rightarrow> string \<Rightarrow> (apj_error, pyval) result" where
  "get_field (VDict d) k = of_opt ApjTypeError (dict_get d k)"
| "get_field v k = Err ApjTypeError"

fun equals_int :: "pyval \<Rightarrow> int \<Rightarrow> bool" where
  "equals_int (VInt n) m = (n = m)"
| "equals_int (VBool b) m = (int_of_bool b = m)"
| "equals_int (VFloat x) m = (x = Fin (of_int m))"
| "equals_int v m = False"

definition require :: "bool \<Rightarrow> (apj_error, unit) result" where
  "require ok = (if ok then Ok () else Err ApjValueError)"

definition required_fields :: "string list" where
  "required_fields = [''board_id'', ''magic'', ''image_size'', ''image'']"

fun check_fields :: "pyval \<Rightarrow> string list \<Rightarrow> (apj_error, unit) result" where
  "check_fields v [] = Ok ()"
| "check_fields v (k # ks) = bindr (has_field v k) (\<lambda>b. bindr (require b) (\<lambda>_. check_fields v ks))"

definition positive_int :: "pyval \<Rightarrow> bool" where
  "positive_int v = (case as_int v of None \<Rightarrow> False | Some n \<Rightarrow> 0 < n)"

definition nonempty_str :: "pyval \<Rightarrow> bool" where
  "nonempty_str v = (case as_str v of None \<Rightarrow> False | Some s \<Rightarrow> s \<noteq> [])"

definition validate_data :: "pyval \<Rightarrow> (apj_error, unit) result" where
  "validate_data v =
     bindr (check_fields v required_fields) (\<lambda>_.
     bindr (get_field v ''magic'') (\<lambda>magic.
     bindr (require (magic = VStr ''APJFWv1'')) (\<lambda>_.
     bindr (get_field v ''board_id'') (\<lambda>board.
     bindr (require (equals_int board BOARD_ID_CUBE_ORANGE)) (\<lambda>_.
     bindr (get_field v ''image_size'') (\<lambda>size.
     bindr (require (positive_int size)) (\<lambda>_.
     bindr (get_field v ''image'') (\<lambda>image.
     require (nonempty_str image)))))))))"

text \<open>The decoder's \<open>None\<close> is a \<open>JSONDecodeError\<close> or an undecodable byte, both value errors.\<close>

definition validate_apj :: "(string \<Rightarrow> pyval option) \<Rightarrow> (string \<Rightarrow> string option) \<Rightarrow> string \<Rightarrow> (apj_error, unit) result" where
  "validate_apj loads fs path =
     (case fs path of
        None \<Rightarrow> Err ApjNotFound
      | Some text \<Rightarrow>
          (case loads text of
             None \<Rightarrow> Err ApjValueError
           | Some v \<Rightarrow> validate_data v))"

definition apj_cache_path :: "string \<Rightarrow> string \<Rightarrow> int \<times> int \<times> int \<Rightarrow> string" where
  "apj_cache_path dir track v =
     (case v of (a, b, c) \<Rightarrow>
       dir @ ''/ardurover-'' @ track @ ''-'' @ str_int a @ ''.'' @ str_int b @ ''.'' @ str_int c @ ''.apj'')"

definition version_cache_path :: "string \<Rightarrow> string \<Rightarrow> int \<times> int \<times> int \<Rightarrow> string" where
  "version_cache_path dir track v =
     (case v of (a, b, c) \<Rightarrow>
       dir @ ''/firmware-version-'' @ track @ ''-'' @ str_int a @ ''.'' @ str_int b @ ''.'' @ str_int c @ ''.txt'')"

text \<open>
  \<open>writes\<close> tells what becomes of a write to a path; a cache directory that cannot be made keeps both
  from opening. Returns the path, if any, and the files afterwards.
\<close>

definition download_firmware ::
  "(string \<Rightarrow> pyval option) \<Rightarrow> (string \<Rightarrow> (net_exc, string) result) \<Rightarrow> (string \<Rightarrow> write_outcome) \<Rightarrow> string
     \<Rightarrow> int \<times> int \<times> int \<Rightarrow> string \<Rightarrow> (string \<Rightarrow> string option) \<Rightarrow> string option \<times> (string \<Rightarrow> string option)" where
  "download_firmware loads net writes track version dir fs =
     (case dict_get track_paths track of
        None \<Rightarrow> (None, fs)
      | Some path \<Rightarrow>
          let apj = apj_cache_path dir track version; ver = version_cache_path dir track version
          in case net (base_url path @ ''/ardurover.apj'') of
               Inl e \<Rightarrow> (None, fs)
             | Inr data \<Rightarrow>
                 let fs1 = fs(apj := file_after (writes apj) data (fs apj))
                 in if writes apj \<noteq> Written then (None, fs1)
                    else case net (base_url path @ ''/firmware-version.txt'') of
                           Inl e \<Rightarrow> (None, fs1)
                         | Inr vtext \<Rightarrow>
                             let fs2 = fs1(ver := file_after (writes ver) vtext (fs1 ver))
                             in if writes ver \<noteq> Written then (None, fs2)
                                else case validate_apj loads fs2 apj of
                                       Inr u \<Rightarrow> (Some apj, fs2)
                                     | Inl ApjValueError \<Rightarrow> (None, fs2(apj := None))
                                     | Inl e \<Rightarrow> (None, fs2))"

section \<open>The boot loader\<close>

definition INSYNC :: int where "INSYNC = 0x12"
definition EOC :: int where "EOC = 0x20"
definition BL_OK :: int where "BL_OK = 0x00"
definition GET_SYNC :: int where "GET_SYNC = 0x21"

text \<open>Reboot into the boot loader; the flags tell whether the send and the close go through.\<close>

definition reboot_to_bootloader :: "bool \<Rightarrow> bool \<Rightarrow> vehicle_out list \<times> bool" where
  "reboot_to_bootloader sends closes_ok =
     (if \<not> sends then ([], False)
      else ([CommandLong 246 [0, 3, 0, 0, 0, 0, 0, 0]] @ (if closes_ok then [ConnClosed] else []), closes_ok))"

text \<open>
  Polling the port: every pass sees the clock and what the port answered to the sync request, \<open>None\<close>
  when it could not be opened. Leaving with \<open>Inl ()\<close> is the \<open>TimeoutError\<close>.
\<close>

definition boot_pass ::
  "pyfloat \<Rightarrow> string \<Rightarrow> pyfloat \<Rightarrow> unit \<Rightarrow> int list obs \<Rightarrow> int list list \<times> (unit, unit + string) pass" where
  "boot_pass timeout port start u p =
     (if flt (fsub (fst p) start) timeout
      then (case snd p of
              None \<Rightarrow> ([], Again ())
            | Some response \<Rightarrow>
                ([[GET_SYNC, EOC]], if response = [INSYNC, BL_OK] then Leave (Inr port) else Again ()))
      else ([], Leave (Inl ())))"

definition wait_for_bootloader :: "pyfloat \<Rightarrow> string \<Rightarrow> (int list, int list, unit + string) io" where
  "wait_for_bootloader timeout port = await (boot_pass timeout port)"

section \<open>Flashing\<close>

datatype flash_error = FlashNoFile | FlashBadFile | FlashBadMagic | FlashBadSize

record apj_firmware =
  fw_board_id :: pyval
  fw_image_size :: pyval
  fw_magic :: pyval

definition load_firmware :: "(string \<Rightarrow> pyval option) \<Rightarrow> (string \<Rightarrow> string option) \<Rightarrow> string \<Rightarrow> (flash_error, apj_firmware) result" where
  "load_firmware loads fs path =
     (case fs path of
        None \<Rightarrow> Err FlashNoFile
      | Some text \<Rightarrow>
          (case loads text of
             Some (VDict d) \<Rightarrow>
               (if dict_get_or d ''magic'' (VStr []) \<noteq> VStr ''APJFWv1'' then Err FlashBadMagic
                else Ok \<lparr>fw_board_id = dict_get_or d ''board_id'' (VInt 0),
                         fw_image_size = dict_get_or d ''image_size'' (VInt 0), fw_magic = VStr ''APJFWv1''\<rparr>)
           | _ \<Rightarrow> Err FlashBadFile))"

text \<open>\<open>range(0, tot, 1024)\<close> from \<open>i\<close> on, and the progress it reports.\<close>

function block_starts :: "int \<Rightarrow> int \<Rightarrow> int list" where
  "block_starts i tot = (if i < tot then i # block_starts (i + 1024) tot else [])"
  by auto
termination by (relation "measure (\<lambda>(i, tot). nat (tot - i))") auto

declare block_starts.simps [simp del]

definition upload_calls :: "int \<Rightarrow> (int \<times> int) list" where
  "upload_calls tot = map (\<lambda>i. (min (i + 1024) tot, tot)) (block_starts 0 tot)"

definition upload_progress :: "int \<times> int \<Rightarrow> string \<times> int \<times> int" where
  "upload_progress ct =
     (case ct of (cur, tot) \<Rightarrow>
        if cur \<le> tot div 4 then (''erase'', cur * 4, tot * 4)
        else if cur \<le> tot div 2 then (''program'', cur * 2, tot * 2)
        else (''verify'', cur, tot))"

record flash_result =
  fr_success :: bool
  fr_old_version :: "firmware_info option"
  fr_new_version :: "firmware_info option"
  fr_error :: "flash_error option"
  fr_bytes_flashed :: int
  fr_time_s :: pyfloat

text \<open>
  The stub uploader always succeeds. \<open>has_cb\<close> tells whether a progress callback was passed, \<open>t0\<close> and \<open>t1\<close>
  are the clock at the start and at the end.
\<close>

definition flash_firmware ::
  "(string \<Rightarrow> pyval option) \<Rightarrow> (string \<Rightarrow> string option) \<Rightarrow> bool \<Rightarrow> pyfloat \<Rightarrow> pyfloat \<Rightarrow> string
     \<Rightarrow> (string \<times> int \<times> int) list \<times> flash_result" where
  "flash_firmware loads fs has_cb t0 t1 path =
     (let failed = (\<lambda>e. \<lparr>fr_success = False, fr_old_version = None, fr_new_version = None, fr_error = Some e, fr_bytes_flashed = 0, fr_time_s = fsub t1 t0\<rparr>);
          start = (if has_cb then [(''sync'', 0, 4), (''sync'', 1, 4)] else [])
      in case load_firmware loads fs path of
           Inl e \<Rightarrow> ([], failed e)
         | Inr fw \<Rightarrow>
             (case as_int (fw_image_size fw) of
                None \<Rightarrow> (start, failed FlashBadSize)
              | Some tot \<Rightarrow>
                  (start @ (if has_cb then map upload_progress (upload_calls tot) @ [(''reboot'', 4, 4)] else []),
                   \<lparr>fr_success = True, fr_old_version = None, fr_new_version = None, fr_error = None, fr_bytes_flashed = tot, fr_time_s = fsub t1 t0\<rparr>)))"

section \<open>Packed versions\<close>

lemma byte_of: "v AND 0xFF = v mod 256" for v :: int
  using take_bit_eq_mask [of 8 v] by (simp add: take_bit_eq_mod mask_eq_exp_minus_1)

lemma mult_256: "(256 :: int) * 256 = 65536" "(256 :: int) * 65536 = 16777216" "(256 :: int) * 16777216 = 4294967296"
  and pow_256: "(2 :: int) ^ 8 = 256" "(2 :: int) ^ 16 = 65536" "(2 :: int) ^ 24 = 16777216" "(2 :: int) ^ 32 = 4294967296"
  by simp_all

lemma decode_fields:
  "decode_flight_sw_version v =
     (v div 256 div 256 div 256 mod 256, v div 256 div 256 mod 256, v div 256 mod 256, v mod 256)"
proof -
  have 16: "v div 65536 = v div 256 div 256" for v :: int
    using zdiv_zmult2_eq [of 256 v 256, unfolded mult_256] by (metis zero_le_numeral)
  have "v div 16777216 = v div 256 div 256 div 256"
    using zdiv_zmult2_eq [of 65536 v 256, unfolded mult_256] 16 [of "v div 256"] by (metis zero_le_numeral)
  note eqs = this 16 [of v]
  show ?thesis unfolding decode_flight_sw_version_def byte_of drop_bit_eq_div
    by (simp only: pow_256 eqs)
qed

lemma mod_256:
  "v mod 4294967296 = 256 * (256 * (256 * (v div 256 div 256 div 256 mod 256) + v div 256 div 256 mod 256)
     + v div 256 mod 256) + v mod 256" for v :: int
proof -
  have "v mod 4294967296 = 256 * (v div 256 mod 16777216) + v mod 256"
    using zmod_zmult2_eq [of 16777216 v 256, unfolded mult_256] by (metis zero_le_numeral)
  moreover have "w mod 16777216 = 256 * (w div 256 mod 65536) + w mod 256" for w :: int
    using zmod_zmult2_eq [of 65536 w 256, unfolded mult_256] by (metis zero_le_numeral)
  moreover have "w mod 65536 = 256 * (w div 256 mod 256) + w mod 256" for w :: int
    using zmod_zmult2_eq [of 256 w 256, unfolded mult_256] by (metis zero_le_numeral)
  ultimately show ?thesis by (simp only:)
qed

lemma base256: "byte_ok t \<Longrightarrow> (q * 256 + t) div 256 = q \<and> (q * 256 + t) mod 256 = t"
  by (simp add: byte_ok_def)

text \<open>The packing the vehicle uses, from the doc string: \<open>major<<24 | minor<<16 | patch<<8 | type\<close>.\<close>

definition pack_version :: "int \<times> int \<times> int \<times> int \<Rightarrow> int" where
  "pack_version v = (case v of (a, b, c, t) \<Rightarrow> push_bit 24 a OR push_bit 16 b OR push_bit 8 c OR t)"

lemma or_low:
  assumes "0 \<le> y" "y < 2 ^ n"
  shows "push_bit n x OR y = x * 2 ^ n + (y :: int)"
proof -
  have "push_bit n x AND take_bit n y = 0" by (simp add: bit_eq_iff bit_simps)
  moreover have "take_bit n y = y" using assms by (simp add: take_bit_int_eq_self_iff)
  ultimately show ?thesis using disjunctive_add_eq_or [of "push_bit n x" y] by (simp add: push_bit_eq_mult)
qed

lemma pack_value:
  assumes "byte_ok a" "byte_ok b" "byte_ok c" "byte_ok t"
  shows "pack_version (a, b, c, t) = ((a * 256 + b) * 256 + c) * 256 + t"
proof -
  have 1: "push_bit 8 c OR t = c * 2 ^ 8 + t" using assms by (intro or_low) (auto simp: byte_ok_def)
  have 2: "push_bit 16 b OR (c * 2 ^ 8 + t) = b * 2 ^ 16 + (c * 2 ^ 8 + t)"
    using assms by (intro or_low) (auto simp: byte_ok_def)
  have 3: "push_bit 24 a OR (b * 2 ^ 16 + (c * 2 ^ 8 + t)) = a * 2 ^ 24 + (b * 2 ^ 16 + (c * 2 ^ 8 + t))"
    using assms by (intro or_low) (auto simp: byte_ok_def)
  show ?thesis unfolding pack_version_def prod.case or.assoc 1 2 3 by simp
qed

section \<open>Blocks\<close>

lemma block_starts_range:
  "x \<in> set (block_starts i tot) \<Longrightarrow> i \<le> x \<and> x < tot"
proof (induction i tot rule: block_starts.induct)
  case (1 i tot)
  then show ?case by (cases "i < tot") (auto simp: block_starts.simps [of i tot])
qed

lemma block_starts_last: "i < tot \<Longrightarrow> block_starts i tot \<noteq> [] \<and> tot \<le> last (block_starts i tot) + 1024"
proof (induction i tot rule: block_starts.induct)
  case (1 i tot)
  then show ?case
    by (cases "i + 1024 < tot") (simp_all add: block_starts.simps [of i tot] block_starts.simps [of "i + 1024" tot])
qed

lemma upload_calls_last: "0 < tot \<Longrightarrow> upload_calls tot \<noteq> [] \<and> last (upload_calls tot) = (tot, tot)"
  using block_starts_last [of 0 tot] by (auto simp: upload_calls_def last_map min_def)

interpretation boot_wait: poll_deadline "\<lambda>_. True" "boot_pass timeout port start"
  "\<lambda>t. \<not> flt (fsub t start) timeout" for timeout :: pyfloat and port :: string and start :: pyfloat
  by unfold_locales (simp add: boot_pass_def)

section \<open>Properties\<close>

text \<open>
  The version field round trips: unpacking a packed version gives the version back, packing what
  was unpacked gives the field modulo \<open>2\<^sup>3\<^sup>2\<close>, and every field a vehicle can send makes a valid
  version record, so that reading the running version fails only when no message is there.
\<close>

lemma version_round_trip:
  "(byte_ok a \<and> byte_ok b \<and> byte_ok c \<and> byte_ok t \<longrightarrow> decode_flight_sw_version (pack_version (a, b, c, t)) = (a, b, c, t))
   \<and> pack_version (decode_flight_sw_version v) = v mod 2 ^ 32
   \<and> (\<exists>i tr'. read_running_version ((time, Some v) # tr) = ([CommandLong 520 [0, 1, 0, 0, 0, 0, 0, 0]], Some (Some i, tr'))
        \<and> (fi_major i, fi_minor i, fi_patch i, fi_type_code i) = decode_flight_sw_version v)"
proof (intro conjI impI)
  assume "byte_ok a \<and> byte_ok b \<and> byte_ok c \<and> byte_ok t"
  then have ok: "byte_ok a" "byte_ok b" "byte_ok c" "byte_ok t" by simp_all
  have "a mod 256 = a" using ok(1) by (simp add: byte_ok_def)
  then show "decode_flight_sw_version (pack_version (a, b, c, t)) = (a, b, c, t)"
    unfolding pack_value [OF ok] decode_fields by (simp only: base256 ok)
next
  have bytes: "byte_ok (x mod 256)" for x by (simp add: byte_ok_def)
  then show "pack_version (decode_flight_sw_version v) = v mod 2 ^ 32"
    unfolding decode_fields pack_value [OF bytes bytes bytes bytes] pow_256
    by (simp only: mod_256 zero_le_numeral mult.commute)
  show "\<exists>i tr'. read_running_version ((time, Some v) # tr) = ([CommandLong 520 [0, 1, 0, 0, 0, 0, 0, 0]], Some (Some i, tr'))
        \<and> (fi_major i, fi_minor i, fi_patch i, fi_type_code i) = decode_flight_sw_version v"
    using bytes by (simp add: read_running_version_def io_bind_def io_emit_run io_recv_run io_ret_run decode_fields mk_firmware_info_def)
qed

text \<open>An image for this board: the right magic, the board id of the Cube Orange, a positive size, a body.\<close>

definition good_image :: "(string, pyval) dict \<Rightarrow> bool" where
  "good_image d \<longleftrightarrow> dict_get d ''magic'' = Some (VStr ''APJFWv1'')
     \<and> (\<exists>b. dict_get d ''board_id'' = Some b \<and> equals_int b BOARD_ID_CUBE_ORANGE)
     \<and> (\<exists>s. dict_get d ''image_size'' = Some s \<and> positive_int s)
     \<and> (\<exists>i. dict_get d ''image'' = Some i \<and> nonempty_str i)"

lemma dict_has_get: "dict_has d k = (dict_get d k \<noteq> None)"
  by (auto simp: dict_has_def dict_keys_def dict_get_def map_of_eq_None_iff)

lemma validate_object: "validate_data (VDict d) = (if good_image d then Ok () else Err ApjValueError)"
  by (auto simp: validate_data_def required_fields_def good_image_def require_def dict_has_get of_opt_def
      split: option.splits if_splits)

lemma validate_data_Ok:
  assumes "validate_data v = Ok u"
  shows "\<exists>d. v = VDict d \<and> good_image d"
proof (cases v)
  case (VDict d)
  then show ?thesis using assms by (simp add: validate_object split: if_splits)
qed (use assms in \<open>auto simp: validate_data_def result_simps require_def split: if_splits\<close>)

lemma cache_paths_differ: "apj_cache_path dir track version \<noteq> version_cache_path dir track version"
  by (cases version) (simp add: apj_cache_path_def version_cache_path_def)

text \<open>
  C24: A path that the download returns is the cache path, it holds exactly the image the server sent,
  and that image is one for this board: a mapping with the right magic, the board id of the Cube
  Orange, a positive size and a non-empty body. When both files were fetched and written, an image
  that does not decode, or decodes to a mapping that is no image for this board, is not returned and
  is no longer in the cache, whatever was there before.
\<close>

theorem download_firmware_validated:
  assumes "download_firmware loads net writes track version dir fs = (r, fs')"
  shows "(\<forall>path. r = Some path \<longrightarrow> path = apj_cache_path dir track version
      \<and> (\<exists>data d p. fs' path = Some data \<and> loads data = Some (VDict d) \<and> good_image d
           \<and> dict_get track_paths track = Some p \<and> net (base_url p @ ''/ardurover.apj'') = Ok data))
    \<and> (\<forall>p data vtext. dict_get track_paths track = Some p
         \<and> net (base_url p @ ''/ardurover.apj'') = Ok data \<and> writes (apj_cache_path dir track version) = Written
         \<and> net (base_url p @ ''/firmware-version.txt'') = Ok vtext \<and> writes (version_cache_path dir track version) = Written
         \<and> (loads data = None \<or> (\<exists>d. loads data = Some (VDict d) \<and> \<not> good_image d))
        \<longrightarrow> r = None \<and> fs' (apj_cache_path dir track version) = None)"
proof -
  show ?thesis using assms cache_paths_differ [of dir track version]
    by (auto simp: download_firmware_def Let_def validate_apj_def validate_object
      dest: validate_data_Ok split: option.splits sum.splits if_splits apj_error.splits)
qed

definition apj_data :: pyval where
  "apj_data = VDict [(''magic'', VStr ''APJFWv1''), (''board_id'', VInt 140), (''image_size'', VInt 5), (''image'', VStr ''eJw='')]"

theorem download_firmware_validated_witness:
  "(\<exists>data d. snd (download_firmware (\<lambda>s. Some apj_data) (\<lambda>url. Ok url) (\<lambda>p. Written) ''beta'' (4, 6, 3) ''/c'' Map.empty)
       ''/c/ardurover-beta-4.6.3.apj'' = Some data \<and> (\<lambda>s. Some apj_data) data = Some (VDict d))
   \<and> snd (download_firmware (\<lambda>s. Some (VDict [])) (\<lambda>url. Ok url) (\<lambda>p. Written) ''beta'' (4, 6, 3) ''/c''
       [''/c/ardurover-beta-4.6.3.apj'' \<mapsto> ''old'']) ''/c/ardurover-beta-4.6.3.apj'' = None"
proof
  have path: "apj_cache_path ''/c'' ''beta'' (4, 6, 3) = ''/c/ardurover-beta-4.6.3.apj''" by code_simp
  have track: "dict_get track_paths ''beta'' = Some ''beta''" by code_simp
  have "validate_data apj_data = Ok ()" by code_simp
  then have "fst (download_firmware (\<lambda>s. Some apj_data) (\<lambda>url. Ok url) (\<lambda>p. Written) ''beta'' (4, 6, 3) ''/c'' Map.empty)
      = Some ''/c/ardurover-beta-4.6.3.apj''"
    using cache_paths_differ [of "''/c''" "''beta''" "(4, 6, 3)"]
    by (simp add: download_firmware_def track validate_apj_def Let_def path)
  then show "\<exists>data d. snd (download_firmware (\<lambda>s. Some apj_data) (\<lambda>url. Ok url) (\<lambda>p. Written) ''beta'' (4, 6, 3) ''/c'' Map.empty)
       ''/c/ardurover-beta-4.6.3.apj'' = Some data \<and> (\<lambda>s. Some apj_data) data = Some (VDict d)"
    using download_firmware_validated [of "\<lambda>s. Some apj_data" "\<lambda>url. Ok url" "\<lambda>p. Written" "''beta''" "(4, 6, 3)" "''/c''" Map.empty]
    by (metis (no_types, lifting) prod.collapse)
  have "\<not> good_image []" by (simp add: good_image_def dict_get_def)
  then show "snd (download_firmware (\<lambda>s. Some (VDict [])) (\<lambda>url. Ok url) (\<lambda>p. Written) ''beta'' (4, 6, 3) ''/c''
       [''/c/ardurover-beta-4.6.3.apj'' \<mapsto> ''old'']) ''/c/ardurover-beta-4.6.3.apj'' = None"
    using download_firmware_validated [of "\<lambda>s. Some (VDict [])" "\<lambda>url. Ok url" "\<lambda>p. Written" "''beta''" "(4, 6, 3)" "''/c''"
        "[''/c/ardurover-beta-4.6.3.apj'' \<mapsto> ''old'']"] track path
    by (metis (no_types, lifting) prod.collapse)
qed

end
