(* ===== verification/Mission.thy ===== *)
theory Mission
  imports Link
begin

text \<open>
  The MAVLink mission protocol client of \<open>mavlink/mission.py\<close>: upload, download, clear and
  round-trip verification of missions, fences and rally points. The vehicle is the trace of
  \<open>Link\<close>; sequence numbers and counts on the wire are unsigned. Log calls have no effect on the
  protocol and are left out.
\<close>

section \<open>Data\<close>

record mission_item =
  mi_seq :: int
  mi_frame :: int
  mi_command :: int
  mi_param1 :: pyfloat
  mi_param2 :: pyfloat
  mi_param3 :: pyfloat
  mi_param4 :: pyfloat
  mi_x :: int
  mi_y :: int
  mi_z :: pyfloat
  mi_mission_type :: int
  mi_autocontinue :: int
  mi_current :: int

text \<open>Messages received and messages sent.\<close>

datatype mav_msg =
    MISSION_REQUEST_INT nat
  | MISSION_REQUEST nat
  | MISSION_ACK int int
  | MISSION_COUNT nat int
  | MISSION_ITEM_INT mission_item
  | MISSION_CURRENT int
  | HEARTBEAT nat

datatype mav_out =
    MissionCountSend nat int
  | MissionItemIntSend mission_item
  | MissionRequestListSend int
  | MissionRequestIntSend nat int
  | MissionAckSend int int
  | MissionClearAllSend int
  | MissionSetCurrentSend int

fun is_upload_msg :: "mav_msg \<Rightarrow> bool" where
  "is_upload_msg (MISSION_REQUEST_INT sq) = True"
| "is_upload_msg (MISSION_REQUEST sq) = True"
| "is_upload_msg (MISSION_ACK ty mt) = True"
| "is_upload_msg m = False"

fun is_ack :: "mav_msg \<Rightarrow> bool" where
  "is_ack (MISSION_ACK ty mt) = True"
| "is_ack m = False"

fun is_count :: "mav_msg \<Rightarrow> bool" where
  "is_count (MISSION_COUNT n mt) = True"
| "is_count m = False"

fun is_item :: "mav_msg \<Rightarrow> bool" where
  "is_item (MISSION_ITEM_INT it) = True"
| "is_item m = False"

text \<open>\<open>MissionDownloadError\<close> and \<open>MissionUploadError\<close>, one constructor per \<open>raise\<close>.\<close>

datatype download_error =
    CountTimeout
  | ItemTimeout nat

datatype upload_error =
    RequestTimeout
  | UploadRejected int
  | SeqOutOfRange nat nat
  | FinalAckRejected int
  | FinalAckTimeout
  | ClearRejected int
  | ClearAckTimeout
  | ClearItemsRemain nat
  | ClearDownloadFailed download_error

type_synonym 'a mission_io = "(mav_out, mav_msg, 'a) io"

section \<open>Upload\<close>

definition upload_reply ::
  "mission_item list \<Rightarrow> nat set \<Rightarrow> nat \<Rightarrow> mav_out list \<times> (nat set, (upload_error, unit) result) pass"
  where
  "upload_reply items sent sq =
     (if length items \<le> sq then ([], Leave (Err (SeqOutOfRange sq (length items))))
      else ([MissionItemIntSend (items ! sq)], Again (insert sq sent)))"

definition upload_pass ::
  "mission_item list \<Rightarrow> pyfloat \<Rightarrow> nat set \<Rightarrow> mav_msg obs
     \<Rightarrow> mav_out list \<times> (nat set, (upload_error, unit) result) pass"
  where
  "upload_pass items start_time sent p =
     (if fgt (fsub (fst p) start_time) (fint 10) then ([], Leave (Err RequestTimeout))
      else (case recv_match is_upload_msg (snd p) of
          None \<Rightarrow> ([], Again sent)
        | Some (MISSION_ACK ty mt) \<Rightarrow>
            ([], Leave (if ty = 0 then Ok () else Err (UploadRejected ty)))
        | Some (MISSION_REQUEST_INT sq) \<Rightarrow> upload_reply items sent sq
        | Some (MISSION_REQUEST sq) \<Rightarrow> upload_reply items sent sq
        | Some _ \<Rightarrow> ([], Again sent)))"

definition upload_pending :: "mission_item list \<Rightarrow> nat set \<Rightarrow> bool" where
  "upload_pending items sent \<longleftrightarrow> card sent < length items"

definition final_ack_pass ::
  "pyfloat \<Rightarrow> unit \<Rightarrow> mav_msg obs \<Rightarrow> mav_out list \<times> (unit, (upload_error, unit) result) pass"
  where
  "final_ack_pass ack_start u p =
     (if flt (fsub (fst p) ack_start) (fint 5)
      then (case recv_match is_ack (snd p) of
          Some (MISSION_ACK ty mt) \<Rightarrow>
            ([], Leave (if ty = 0 then Ok () else Err (FinalAckRejected ty)))
        | _ \<Rightarrow> ([], Again ()))
      else ([], Leave (Err FinalAckTimeout)))"

definition upload_mission :: "mission_item list \<Rightarrow> int \<Rightarrow> (upload_error, unit) result mission_io" where
  "upload_mission items mission_type =
     (if items = [] then io_ret (Ok ())
      else
        io_bind (io_emit (MissionCountSend (length items) mission_type)) (\<lambda>_.
        io_bind io_clock (\<lambda>start_time.
        io_bind (poll (upload_pending items) (upload_pass items start_time) {}) (\<lambda>res.
          case res of
            Inr r \<Rightarrow> io_ret r
          | Inl sent \<Rightarrow> await final_ack_pass))))"

section \<open>Download\<close>

definition count_pass ::
  "int \<Rightarrow> pyfloat \<Rightarrow> unit \<Rightarrow> mav_msg obs \<Rightarrow> mav_out list \<times> (unit, (download_error, nat) result) pass"
  where
  "count_pass mission_type start_time u p =
     (if flt (fsub (fst p) start_time) (fint 10)
      then (case recv_match is_count (snd p) of
          Some (MISSION_COUNT n mt) \<Rightarrow>
            ([], if mt = mission_type then Leave (Ok n) else Again ())
        | _ \<Rightarrow> ([], Again ()))
      else ([], Leave (Err CountTimeout)))"

definition item_pass ::
  "int \<Rightarrow> nat \<Rightarrow> pyfloat \<Rightarrow> unit \<Rightarrow> mav_msg obs
     \<Rightarrow> mav_out list \<times> (unit, (download_error, mission_item) result) pass"
  where
  "item_pass mission_type sq item_start u p =
     (if flt (fsub (fst p) item_start) (fint 5)
      then (case recv_match is_item (snd p) of
          Some (MISSION_ITEM_INT it) \<Rightarrow>
            ([], if mi_seq it = int sq \<and> mi_mission_type it = mission_type
                 then Leave (Ok it) else Again ())
        | _ \<Rightarrow> ([], Again ()))
      else ([], Leave (Err (ItemTimeout sq))))"

definition download_item :: "int \<Rightarrow> nat \<Rightarrow> (download_error, mission_item) result mission_io" where
  "download_item mission_type sq =
     io_bind (io_emit (MissionRequestIntSend sq mission_type)) (\<lambda>_.
     await (item_pass mission_type sq))"

text \<open>\<open>for seq in range(item_count)\<close>, filling \<open>items[seq]\<close> in order.\<close>

fun download_items :: "int \<Rightarrow> nat list \<Rightarrow> (download_error, mission_item list) result mission_io" where
  "download_items mission_type [] = io_ret (Ok [])"
| "download_items mission_type (sq # sqs) =
     io_bindr (download_item mission_type sq) (\<lambda>it.
     io_bindr (download_items mission_type sqs) (\<lambda>rest.
     io_ret (Ok (it # rest))))"

definition download_mission :: "int \<Rightarrow> (download_error, mission_item list) result mission_io" where
  "download_mission mission_type =
     io_bind (io_emit (MissionRequestListSend mission_type)) (\<lambda>_.
     io_bindr (await (count_pass mission_type)) (\<lambda>item_count.
       if item_count = 0 then io_ret (Ok [])
       else
         io_bindr (download_items mission_type [0..<item_count]) (\<lambda>items.
         io_bind (io_emit (MissionAckSend 0 mission_type)) (\<lambda>_.
         io_ret (Ok items)))))"

section \<open>Clear\<close>

definition clear_ack_pass ::
  "int \<Rightarrow> pyfloat \<Rightarrow> unit \<Rightarrow> mav_msg obs \<Rightarrow> mav_out list \<times> (unit, (upload_error, unit) result) pass"
  where
  "clear_ack_pass mission_type start_time u p =
     (if flt (fsub (fst p) start_time) (fint 5)
      then (case recv_match is_ack (snd p) of
          Some (MISSION_ACK ty mt) \<Rightarrow>
            ([], if mt = mission_type
                 then Leave (if ty = 0 then Ok () else Err (ClearRejected ty)) else Again ())
        | _ \<Rightarrow> ([], Again ()))
      else ([], Leave (Err ClearAckTimeout)))"

definition clear_verdict :: "int \<Rightarrow> (download_error, mission_item list) result \<Rightarrow> (upload_error, unit) result"
  where
  "clear_verdict mission_type dl =
     (case dl of
        Inl e \<Rightarrow> Err (ClearDownloadFailed e)
      | Inr items \<Rightarrow>
          if mission_type = 0 \<and> length items \<le> 1 then Ok ()
          else if mission_type \<noteq> 0 \<and> length items = 0 then Ok ()
          else Err (ClearItemsRemain (length items)))"

definition clear_mission :: "int \<Rightarrow> (upload_error, unit) result mission_io" where
  "clear_mission mission_type =
     io_bind (io_emit (MissionClearAllSend mission_type)) (\<lambda>_.
     io_bindr (await (clear_ack_pass mission_type)) (\<lambda>_.
     io_bind (download_mission mission_type) (\<lambda>dl. io_ret (clear_verdict mission_type dl))))"

section \<open>Round-trip verification\<close>

definition verify_tolerance :: pyfloat where "verify_tolerance = rnd (1 / 10000000)"

definition differs :: "pyfloat \<Rightarrow> pyfloat \<Rightarrow> bool" where
  "differs a b \<longleftrightarrow> fgt (fabs (fsub a b)) verify_tolerance"

definition note_if :: "bool \<Rightarrow> string \<Rightarrow> nat \<Rightarrow> (string \<times> nat) list" where
  "note_if c field i = (if c then [(field, i)] else [])"

definition item_mismatches :: "nat \<Rightarrow> mission_item \<Rightarrow> mission_item \<Rightarrow> (string \<times> nat) list" where
  "item_mismatches i ex got =
     note_if (mi_seq ex \<noteq> mi_seq got) ''seq'' i
   @ note_if (mi_frame ex \<noteq> mi_frame got) ''frame'' i
   @ note_if (mi_command ex \<noteq> mi_command got) ''command'' i
   @ note_if (differs (mi_param1 ex) (mi_param1 got)) ''param1'' i
   @ note_if (differs (mi_param2 ex) (mi_param2 got)) ''param2'' i
   @ note_if (differs (mi_param3 ex) (mi_param3 got)) ''param3'' i
   @ note_if (differs (mi_param4 ex) (mi_param4 got)) ''param4'' i
   @ note_if (mi_x ex \<noteq> mi_x got) ''x'' i
   @ note_if (mi_y ex \<noteq> mi_y got) ''y'' i
   @ note_if (differs (mi_z ex) (mi_z got)) ''z'' i
   @ note_if (mi_mission_type ex \<noteq> mi_mission_type got) ''mission_type'' i
   @ note_if (mi_autocontinue ex \<noteq> mi_autocontinue got) ''autocontinue'' i
   @ note_if (mi_current ex \<noteq> mi_current got) ''current'' i"

definition round_trip_verdict ::
  "mission_item list \<Rightarrow> (download_error, mission_item list) result \<Rightarrow> bool"
  where
  "round_trip_verdict ex dl =
     (case dl of
        Inl e \<Rightarrow> False
      | Inr got \<Rightarrow>
          length got = length ex \<and>
          concat (map (\<lambda>(i, e, g). item_mismatches i e g) (enumerate 0 (zip ex got))) = [])"

definition verify_round_trip :: "mission_item list \<Rightarrow> int \<Rightarrow> bool mission_io" where
  "verify_round_trip ex mission_type =
     io_bind (download_mission mission_type) (\<lambda>dl. io_ret (round_trip_verdict ex dl))"

section \<open>What the loops guarantee\<close>

text \<open>
  The set of sequence numbers answered so far and the items on the wire agree, and every answered
  number is an index of the list; on success the observation that ended the loop is an accepting ACK.
\<close>

definition sends_of :: "mission_item list \<Rightarrow> nat set \<Rightarrow> mav_out set" where
  "sends_of items S = (\<lambda>i. MissionItemIntSend (items ! i)) ` S"

definition upload_rel :: "mission_item list \<Rightarrow> nat set \<Rightarrow> mav_out list \<Rightarrow> bool" where
  "upload_rel items S h \<longleftrightarrow> S \<subseteq> {..<length items} \<and> set h = sends_of items S"

definition accepts :: "mav_msg obs \<Rightarrow> bool" where
  "accepts p \<longleftrightarrow> (\<exists>mt. snd p = Some (MISSION_ACK 0 mt))"

definition final_verdict :: "(upload_error, unit) result \<Rightarrow> bool" where
  "final_verdict r \<longleftrightarrow> r = Err FinalAckTimeout \<or> (\<exists>k. r = Err (FinalAckRejected k))"

definition upload_left ::
  "mission_item list \<Rightarrow> mav_msg obs \<Rightarrow> (upload_error, unit) result \<Rightarrow> mav_out list \<Rightarrow> bool" where
  "upload_left items p r h \<longleftrightarrow> (\<exists>S. upload_rel items S h)
     \<and> (r = Ok () \<longrightarrow> accepts p) \<and> \<not> final_verdict r"

interpretation upload_inv: poll_inv "upload_pending items" "upload_pass items start_time"
  "upload_rel items" "upload_left items"
  for items :: "mission_item list" and start_time :: pyfloat
proof unfold_locales
  fix S h p out S'
  assume "upload_rel items S h" and "upload_pass items start_time S p = (out, Again S')"
  then show "upload_rel items S' (h @ out)"
    by (auto simp: upload_rel_def sends_of_def upload_pass_def upload_reply_def
        split: if_splits option.splits mav_msg.splits)
next
  fix S h p out r
  assume rel: "upload_rel items S h" and b: "upload_pass items start_time S p = (out, Leave r)"
  then have "out = []" "r = Ok () \<longrightarrow> accepts p" "\<not> final_verdict r"
    by (auto simp: upload_pass_def upload_reply_def accepts_def recv_match_Some final_verdict_def
        split: if_splits option.splits mav_msg.splits)
  with rel show "upload_left items p r (h @ out)" by (auto simp: upload_left_def)
qed

interpretation upload_deadline: poll_deadline "upload_pending items" "upload_pass items start_time"
  "\<lambda>t. fgt (fsub t start_time) (fint 10)"
  for items :: "mission_item list" and start_time :: pyfloat
  by unfold_locales (auto simp: upload_pass_def)

interpretation final_ack: timed_wait final_ack_pass
  "\<lambda>start t. \<not> flt (fsub t start) (fint 5)" "\<lambda>start p r. r = Ok () \<longrightarrow> accepts p"
  by unfold_locales
    (auto simp: final_ack_pass_def accepts_def recv_match_Some
      split: if_splits option.splits mav_msg.splits)

interpretation count_wait: timed_wait "count_pass mission_type"
  "\<lambda>start t. \<not> flt (fsub t start) (fint 10)"
  "\<lambda>start p r. \<forall>n. r = Ok n \<longrightarrow> snd p = Some (MISSION_COUNT n mission_type)"
  for mission_type :: int
  by unfold_locales
    (auto simp: count_pass_def recv_match_Some split: if_splits option.splits mav_msg.splits)

interpretation item_wait: timed_wait "item_pass mission_type sq"
  "\<lambda>start t. \<not> flt (fsub t start) (fint 5)"
  "\<lambda>start p r. \<forall>it. r = Ok it \<longrightarrow>
     snd p = Some (MISSION_ITEM_INT it) \<and> mi_seq it = int sq \<and> mi_mission_type it = mission_type"
  for mission_type :: int and sq :: nat
  by unfold_locales
    (auto simp: item_pass_def recv_match_Some split: if_splits option.splits mav_msg.splits)

interpretation clear_wait: timed_wait "clear_ack_pass mission_type"
  "\<lambda>start t. \<not> flt (fsub t start) (fint 5)"
  "\<lambda>start p r. r = Ok () \<longrightarrow> snd p = Some (MISSION_ACK 0 mission_type)"
  for mission_type :: int
  by unfold_locales
    (auto simp: clear_ack_pass_def recv_match_Some split: if_splits option.splits mav_msg.splits)



lemma upload_rel_empty: "upload_rel items {} []"
  by (simp add: upload_rel_def sends_of_def)

lemma upload_rel_full: "upload_rel items S h \<Longrightarrow> \<not> upload_pending items S \<Longrightarrow> S = {..<length items}"
  unfolding upload_rel_def upload_pending_def by (intro card_seteq) auto

text \<open>The ways a run of an upload of a non-empty list can go, phase by phase.\<close>

lemma upload_mission_cases:
  assumes "items \<noteq> []"
  obtains (no_clock) "tr = []" "upload_mission items mt tr = ([MissionCountSend (length items) mt], None)"
  | (requests) p ps h where "tr = p # ps"
      "poll (upload_pending items) (upload_pass items (fst p)) {} ps = (h, None)"
      "upload_mission items mt tr = (MissionCountSend (length items) mt # h, None)"
  | (left) p ps h r ps' where "tr = p # ps"
      "poll (upload_pending items) (upload_pass items (fst p)) {} ps = (h, Some (Inr r, ps'))"
      "upload_mission items mt tr = (MissionCountSend (length items) mt # h, Some (r, ps'))"
  | (all_sent) p ps h S ps' out res where "tr = p # ps"
      "poll (upload_pending items) (upload_pass items (fst p)) {} ps = (h, Some (Inl S, ps'))"
      "await final_ack_pass ps' = (out, res)"
      "upload_mission items mt tr = (MissionCountSend (length items) mt # h @ out, res)"
proof (cases tr)
  case Nil
  then show thesis using assms by (intro no_clock) (simp_all add: upload_mission_def io_simps)
next
  case (Cons p ps)
  define cont where "cont = (\<lambda>res :: nat set + (upload_error, unit) result. case res of Inr r \<Rightarrow> io_ret r | Inl sent \<Rightarrow> await final_ack_pass)"
  obtain h res where poll: "poll (upload_pending items) (upload_pass items (fst p)) {} ps = (h, res)"
    by fastforce
  have run: "upload_mission items mt tr =
      (MissionCountSend (length items) mt # fst (io_bind (poll (upload_pending items) (upload_pass items (fst p)) {}) cont ps),
       snd (io_bind (poll (upload_pending items) (upload_pass items (fst p)) {}) cont ps))"
    using assms Cons by (simp add: upload_mission_def io_bind_emit io_bind_clock cont_def)
  show thesis
  proof (cases res)
    case None
    then show thesis using run poll Cons by (intro requests) (auto simp: io_bind_None)
  next
    case (Some x)
    then obtain y ps' where x: "res = Some (y, ps')" by (cases x) auto
    show thesis
    proof (cases y)
      case (Inr r)
      then show thesis using run poll Cons x
        by (intro left) (auto simp: io_bind_Some cont_def io_ret_run)
    next
      case (Inl S)
      then show thesis using run poll Cons x
        by (intro all_sent [of p ps h S ps' "fst (await final_ack_pass ps')" "snd (await final_ack_pass ps')"])
          (auto simp: io_bind_Some cont_def)
    qed
  qed
qed

text \<open>
  C1: an upload that returns has announced the length of the list and sent items of the list only;
  it succeeds only after an accepting \<open>MISSION_ACK\<close>, and it reports a missing or a rejecting final
  acknowledgement only after every item was sent.
\<close>

theorem upload_mission_sound:
  assumes "items \<noteq> []" and "upload_mission items mt tr = (out, Some (r, tr'))"
  shows "\<exists>h. out = MissionCountSend (length items) mt # h
       \<and> set h \<subseteq> sends_of items {..<length items}
       \<and> (r = Ok () \<longrightarrow> (\<exists>p \<in> set tr. accepts p))
       \<and> (final_verdict r \<longrightarrow> set h = sends_of items {..<length items})"
  using assms(1)
proof (cases rule: upload_mission_cases [where tr = tr and mt = mt])
  case (left p ps h q ps')
  then obtain p' where p': "p' \<in> set ps" "upload_left items p' q h"
    using upload_inv.left_with [OF upload_rel_empty] by force
  then have "set h \<subseteq> sends_of items {..<length items}"
    unfolding upload_left_def upload_rel_def sends_of_def by blast
  with left assms p' show ?thesis by (auto simp: upload_left_def)
next
  case (all_sent p ps h S ps' o2 res)
  then have rel: "upload_rel items S h" and "\<not> upload_pending items S"
    using upload_inv.finished [OF upload_rel_empty] by force+
  then have "S = {..<length items}" by (rule upload_rel_full)
  with rel have "set h = sends_of items {..<length items}" by (simp add: upload_rel_def)
  moreover have "o2 = []" and ack: "r = Ok () \<longrightarrow> (\<exists>q \<in> set ps'. accepts q)"
    using final_ack.await_Some [of ps' o2 r tr'] all_sent assms(2) by auto
  moreover have "r = Ok () \<longrightarrow> (\<exists>q \<in> set ps. accepts q)" using ack poll_suffix [OF all_sent(2)] by blast
  ultimately show ?thesis using all_sent assms(2) by auto
qed (use assms in auto)

text \<open>The home item every mission starts with, as a sample.\<close>

definition home_item :: mission_item where
  "home_item = \<lparr>mi_seq = 0, mi_frame = 0, mi_command = 16, mi_param1 = Fin 0, mi_param2 = Fin 0,
     mi_param3 = Fin 0, mi_param4 = Fin 0, mi_x = 0, mi_y = 0, mi_z = Fin 0, mi_mission_type = 0,
     mi_autocontinue = 1, mi_current = 1\<rparr>"

lemma fint_eval: "fint 5 = Fin 5" "fint 10 = Fin 10" by (simp_all add: fint_def)

lemmas upload_eval = upload_mission_def io_bind_emit io_bind_clock io_bind_None io_bind_Some io_ret_run
  upload_pending_def upload_pass_def upload_reply_def recv_match_def fint_eval float_eval

theorem upload_mission_sound_witness:
  "\<exists>h. [MissionCountSend 1 0] = MissionCountSend (length [home_item]) 0 # h
       \<and> set h \<subseteq> sends_of [home_item] {..<length [home_item]}
       \<and> (Ok () = (Ok () :: (upload_error, unit) result) \<longrightarrow> (\<exists>p \<in> set [(Fin 0, None), (Fin 1, Some (MISSION_ACK 0 0))]. accepts p))
       \<and> (final_verdict (Ok ()) \<longrightarrow> set h = sends_of [home_item] {..<length [home_item]})"
proof (rule upload_mission_sound)
  show "upload_mission [home_item] 0 [(Fin 0, None), (Fin 1, Some (MISSION_ACK 0 0))]
     = ([MissionCountSend 1 0], Some (Ok (), []))" by (simp add: upload_eval)
qed simp

section \<open>What a download returns\<close>

lemma download_item_Some:
  assumes "download_item mt sq tr = (out, Some (r, tr'))"
  shows "out = [MissionRequestIntSend sq mt] \<and> set tr' \<subseteq> set tr \<and>
     (\<forall>it. r = Ok it \<longrightarrow> mi_seq it = int sq \<and> mi_mission_type it = mt
        \<and> (\<exists>p \<in> set tr. snd p = Some (MISSION_ITEM_INT it)))"
proof -
  obtain o2 where "await (item_pass mt sq) tr = (o2, Some (r, tr'))" and "out = MissionRequestIntSend sq mt # o2"
    using assms by (cases "await (item_pass mt sq) tr") (auto simp: download_item_def io_bind_emit)
  with item_wait.await_Some [of mt sq tr o2 r tr'] show ?thesis by force
qed

lemma download_items_Some:
  "download_items mt sqs tr = (out, Some (Ok its, tr')) \<Longrightarrow>
     out = map (\<lambda>sq. MissionRequestIntSend sq mt) sqs \<and> length its = length sqs \<and> set tr' \<subseteq> set tr
     \<and> (\<forall>i < length sqs. mi_seq (its ! i) = int (sqs ! i) \<and> mi_mission_type (its ! i) = mt
          \<and> (\<exists>p \<in> set tr. snd p = Some (MISSION_ITEM_INT (its ! i))))"
proof (induction sqs arbitrary: its tr out)
  case Nil
  then show ?case by (auto simp: io_ret_run)
next
  case (Cons sq sqs)
  from Cons.prems obtain o1 o2 it tr1 where item: "download_item mt sq tr = (o1, Some (Ok it, tr1))"
    and rest: "io_bindr (download_items mt sqs) (\<lambda>rest. io_ret (Ok (it # rest))) tr1 = (o2, Some (Ok its, tr'))"
    and out: "out = o1 @ o2"
    unfolding download_items.simps by (rule io_bindr_SomeE) auto
  from rest obtain its' where its: "its = it # its'"
    and tl: "download_items mt sqs tr1 = (o2, Some (Ok its', tr'))"
    by (auto elim!: io_bindr_SomeE simp: io_ret_run)
  note hd = download_item_Some [OF item]
  note IH = Cons.IH [OF tl]
  show ?case
  proof (intro conjI allI impI)
    fix i assume "i < length (sq # sqs)"
    then show "mi_seq (its ! i) = int ((sq # sqs) ! i)" "mi_mission_type (its ! i) = mt"
      "\<exists>p \<in> set tr. snd p = Some (MISSION_ITEM_INT (its ! i))"
      using hd IH its by (cases i; fastforce)+
  qed (use hd IH its out in auto)
qed

lemma download_mission_Ok:
  assumes "download_mission mt tr = (out, Some (Ok items, tr'))"
  shows "(\<forall>i < length items. mi_seq (items ! i) = int i \<and> mi_mission_type (items ! i) = mt
            \<and> (\<exists>p \<in> set tr. snd p = Some (MISSION_ITEM_INT (items ! i))))
      \<and> (\<exists>p \<in> set tr. snd p = Some (MISSION_COUNT (length items) mt))
      \<and> out = MissionRequestListSend mt # map (\<lambda>i. MissionRequestIntSend i mt) [0..<length items]
             @ (if items = [] then [] else [MissionAckSend 0 mt])"
proof -
  let ?rest = "\<lambda>n. if n = 0 then io_ret (Ok [])
       else io_bindr (download_items mt [0..<n]) (\<lambda>items.
         io_bind (io_emit (MissionAckSend 0 mt)) (\<lambda>_. io_ret (Ok items)))"
  from assms obtain o1 where run: "io_bindr (await (count_pass mt)) ?rest tr = (o1, Some (Ok items, tr'))"
    and out: "out = MissionRequestListSend mt # o1"
    by (cases "io_bindr (await (count_pass mt)) ?rest tr") (auto simp: download_mission_def io_bind_emit)
  from run obtain o2 o3 n tr1 where cnt: "await (count_pass mt) tr = (o2, Some (Ok n, tr1))"
    and rest: "?rest n tr1 = (o3, Some (Ok items, tr'))" and o1: "o1 = o2 @ o3"
    by (elim io_bindr_SomeE) auto
  from count_wait.await_Some [OF cnt] have o2: "o2 = []" and sub: "set tr1 \<subseteq> set tr"
    and cm: "\<exists>p \<in> set tr. snd p = Some (MISSION_COUNT n mt)" by auto
  show ?thesis
  proof (cases "n = 0")
    case True
    then show ?thesis using rest out o1 o2 cm by (auto simp: io_ret_run)
  next
    case False
    then obtain o4 where its: "download_items mt [0..<n] tr1 = (o4, Some (Ok items, tr'))"
      and o3: "o3 = o4 @ [MissionAckSend 0 mt]"
      using rest by (auto elim!: io_bindr_SomeE simp: io_bind_emit io_ret_run)
    from download_items_Some [OF its] False show ?thesis
      using out o1 o2 o3 cm sub by (auto 4 3)
  qed
qed

section \<open>A vehicle that answers\<close>

fun asked :: "mav_msg obs \<Rightarrow> nat list" where
  "asked (t, Some (MISSION_REQUEST_INT sq)) = [sq]"
| "asked (t, Some (MISSION_REQUEST sq)) = [sq]"
| "asked p = []"

definition asking :: "pyfloat \<Rightarrow> mav_msg obs \<Rightarrow> bool" where
  "asking t0 p \<longleftrightarrow> \<not> fgt (fsub (fst p) t0) (fint 10) \<and> (\<forall>ty mt. snd p \<noteq> Some (MISSION_ACK ty mt))"

lemma upload_pass_asking:
  assumes "asking t0 p" and "set (asked p) \<subseteq> {..<length items}"
  shows "upload_pass items t0 S p =
     (map (\<lambda>i. MissionItemIntSend (items ! i)) (asked p), Again (S \<union> set (asked p)))"
  using assms by (cases p rule: asked.cases)
    (auto simp: asking_def upload_pass_def upload_reply_def recv_match_def)

lemma upload_poll_asking:
  assumes "\<forall>p \<in> set A. asking t0 p" and "set (concat (map asked A)) \<subseteq> {..<length items}"
    and "S \<union> set (concat (map asked A)) = {..<length items}"
    and "A \<noteq> [] \<Longrightarrow> S \<union> set (concat (map asked (butlast A))) \<noteq> {..<length items}"
  shows "poll (upload_pending items) (upload_pass items t0) S (A @ B)
     = (map (\<lambda>i. MissionItemIntSend (items ! i)) (concat (map asked A)), Some (Inl {..<length items}, B))"
  using assms
proof (induction A arbitrary: S)
  case Nil
  then show ?case by (cases B) (auto simp: upload_pending_def)
next
  case (Cons p A)
  have "set (concat (map asked (butlast (p # A)))) \<subseteq> {..<length items}"
    using Cons.prems(2) by (auto dest!: in_set_butlastD split: if_splits)
  with Cons.prems(3,4) have "S \<subset> {..<length items}" by blast
  then have g: "upload_pending items S" using psubset_card_mono [of "{..<length items}" S]
    by (simp add: upload_pending_def)
  have b: "upload_pass items t0 S p =
     (map (\<lambda>i. MissionItemIntSend (items ! i)) (asked p), Again (S \<union> set (asked p)))"
    using Cons.prems by (intro upload_pass_asking) auto
  have "poll (upload_pending items) (upload_pass items t0) (S \<union> set (asked p)) (A @ B)
     = (map (\<lambda>i. MissionItemIntSend (items ! i)) (concat (map asked A)), Some (Inl {..<length items}, B))"
  proof (rule Cons.IH)
    show "A \<noteq> [] \<Longrightarrow> S \<union> set (asked p) \<union> set (concat (map asked (butlast A))) \<noteq> {..<length items}"
      using Cons.prems(4) by (simp add: Un_assoc)
  qed (use Cons.prems(1-3) in \<open>simp_all add: Un_assoc\<close>)
  with g b show ?case by simp
qed

text \<open>What one pass that goes round again did, and so what the loop has sent so far.\<close>

lemma upload_pass_again:
  assumes "upload_pass items t0 S p = (out, Again S')"
  shows "out = map (\<lambda>i. MissionItemIntSend (items ! i)) (asked p) \<and> S' = S \<union> set (asked p)
     \<and> \<not> fgt (fsub (fst p) t0) (fint 10)"
  using assms by (cases p rule: asked.cases)
    (auto simp: upload_pass_def upload_reply_def recv_match_def split: if_splits mav_msg.splits)

lemma upload_poll_waiting:
  "poll (upload_pending items) (upload_pass items t0) S tr = (out, None) \<Longrightarrow>
     out = map (\<lambda>i. MissionItemIntSend (items ! i)) (concat (map asked tr))"
proof (induction tr arbitrary: S out)
  case (Cons p tr)
  obtain o1 q where b: "upload_pass items t0 S p = (o1, q)" by fastforce
  with Cons.prems obtain S' o2 where "q = Again S'" "out = o1 @ o2"
    "poll (upload_pending items) (upload_pass items t0) S' tr = (o2, None)"
    by (auto split: pass.splits prod.splits if_splits)
  with Cons.IH b upload_pass_again show ?case by fastforce
qed (auto split: if_splits)

lemma upload_poll_finished:
  "poll (upload_pending items) (upload_pass items t0) S tr = (out, Some (Inl S', tr')) \<Longrightarrow>
     \<exists>A. tr = A @ tr' \<and> out = map (\<lambda>i. MissionItemIntSend (items ! i)) (concat (map asked A))
       \<and> S' = S \<union> set (concat (map asked A)) \<and> (\<forall>q \<in> set A. \<not> fgt (fsub (fst q) t0) (fint 10))"
proof (induction tr arbitrary: S out)
  case (Cons p tr)
  show ?case
  proof (cases "upload_pending items S")
    case True
    obtain o1 q where b: "upload_pass items t0 S p = (o1, q)" by fastforce
    with Cons.prems True obtain S1 o2 where q: "q = Again S1" "out = o1 @ o2"
      "poll (upload_pending items) (upload_pass items t0) S1 tr = (o2, Some (Inl S', tr'))"
      by (auto split: pass.splits prod.splits)
    from Cons.IH [OF q(3)] obtain A where "tr = A @ tr'"
      "o2 = map (\<lambda>i. MissionItemIntSend (items ! i)) (concat (map asked A))"
      "S' = S1 \<union> set (concat (map asked A))" "\<forall>q \<in> set A. \<not> fgt (fsub (fst q) t0) (fint 10)" by blast
    with b q upload_pass_again [of items t0 S p o1 S1] show ?thesis
      by (intro exI [of _ "p # A"]) (auto simp: Un_assoc)
  qed (use Cons.prems in \<open>auto intro: exI [of _ "[]"]\<close>)
qed (auto split: if_splits)

text \<open>
  C2: an upload does not hang. While it has not returned, it has announced the list and answered every
  request polled so far, in order, with the item asked for, and the clock has not passed ten seconds
  since the count was sent; or it did so until every item had been requested, and no more than five
  seconds have passed since.
\<close>

theorem upload_mission_no_hang:
  assumes "items \<noteq> []" and "upload_mission items mt (p # ps) = (out, None)"
  shows "\<exists>A B. ps = A @ B
     \<and> out = MissionCountSend (length items) mt # map (\<lambda>i. MissionItemIntSend (items ! i)) (concat (map asked A))
     \<and> (\<forall>q \<in> set A. \<not> fgt (fsub (fst q) (fst p)) (fint 10))
     \<and> (B = [] \<or> set (concat (map asked A)) = {..<length items})
     \<and> (\<forall>q \<in> set (tl B). flt (fsub (fst q) (fst (hd B))) (fint 5))"
  using assms(1)
proof (cases rule: upload_mission_cases [where tr = "p # ps" and mt = mt])
  case (requests p' ps' h)
  then have "h = map (\<lambda>i. MissionItemIntSend (items ! i)) (concat (map asked ps))"
    "\<forall>q \<in> set ps. \<not> fgt (fsub (fst q) (fst p)) (fint 10)"
    using upload_poll_waiting [of items "fst p" "{}" ps h]
      upload_deadline.waiting_not_expired [of items "fst p" "{}" ps h] by auto
  with requests assms(2) show ?thesis by (intro exI [of _ ps] exI [of _ "[]"]) auto
next
  case (all_sent p' ps1 h S ps' o2 res)
  then obtain A where A: "ps = A @ ps'" "h = map (\<lambda>i. MissionItemIntSend (items ! i)) (concat (map asked A))"
    "S = set (concat (map asked A))" "\<forall>q \<in> set A. \<not> fgt (fsub (fst q) (fst p)) (fint 10)"
    using upload_poll_finished [of items "fst p" "{}" ps h S ps'] by auto
  have "S = {..<length items}"
    using all_sent upload_inv.finished [OF upload_rel_empty, of items "fst p" ps h S ps'] upload_rel_full by force
  moreover have "o2 = []" "\<forall>q \<in> set (tl ps'). flt (fsub (fst q) (fst (hd ps'))) (fint 5)"
    using final_ack.await_None [of ps' o2] all_sent assms(2) by (cases ps'; auto)+
  ultimately show ?thesis using A all_sent assms(2) by (intro exI [of _ A] exI [of _ ps']) auto
qed (use assms in auto)

theorem upload_mission_no_hang_witness:
  "\<exists>A B. [(Fin 1, Some (MISSION_REQUEST_INT 0)), (Fin 2, None), (Fin 3, None)] = A @ B
     \<and> [MissionCountSend 1 0, MissionItemIntSend home_item]
          = MissionCountSend (length [home_item]) 0 # map (\<lambda>i. MissionItemIntSend ([home_item] ! i)) (concat (map asked A))
     \<and> (\<forall>q \<in> set A. \<not> fgt (fsub (fst q) (fst (Fin 0, None :: mav_msg option))) (fint 10))
     \<and> (B = [] \<or> set (concat (map asked A)) = {..<length [home_item]})
     \<and> (\<forall>q \<in> set (tl B). flt (fsub (fst q) (fst (hd B))) (fint 5))"
proof (rule upload_mission_no_hang)
  show "upload_mission [home_item] 0 [(Fin 0, None), (Fin 1, Some (MISSION_REQUEST_INT 0)), (Fin 2, None), (Fin 3, None)]
     = ([MissionCountSend 1 0, MissionItemIntSend home_item], None)"
    by (simp add: upload_eval await_unfold final_ack_pass_def)
qed simp

text \<open>Waiting through polls that bring no acknowledgement, in time.\<close>

definition awaiting :: "pyfloat \<Rightarrow> mav_msg obs \<Rightarrow> bool" where
  "awaiting t1 q \<longleftrightarrow> flt (fsub (fst q) t1) (fint 5) \<and> (\<forall>ty mt. snd q \<noteq> Some (MISSION_ACK ty mt))"

lemma final_ack_awaiting:
  "\<forall>q \<in> set W. awaiting (fst p) q \<Longrightarrow> await final_ack_pass (p # W @ B) = await final_ack_pass (p # B)"
proof (induction W)
  case (Cons q W)
  then have "final_ack_pass (fst p) () q = ([], Again ())"
    by (auto simp: awaiting_def final_ack_pass_def recv_match_def split: option.splits mav_msg.splits if_splits)
  with Cons show ?case by (simp add: await_again)
qed simp

text \<open>
  C3: a vehicle that requests every item within ten seconds, in any order, with any repetitions and
  with any silent polls between, and then accepts within five, after any silent polls and any other
  messages, gets exactly the items it asked for, and the upload succeeds.
\<close>

theorem upload_mission_complete:
  assumes "items \<noteq> []" and "\<forall>p \<in> set A. asking t0 p"
    and "set (concat (map asked A)) = {..<length items}"
    and "set (concat (map asked (butlast A))) \<noteq> {..<length items}"
    and "\<forall>q \<in> set W. awaiting t1 q" and "flt (fsub t2 t1) (fint 5)"
  shows "upload_mission items mt ((t0, m0) # A @ (t1, m1) # W @ (t2, Some (MISSION_ACK 0 mt')) # B)
     = (MissionCountSend (length items) mt
          # map (\<lambda>i. MissionItemIntSend (items ! i)) (concat (map asked A)), Some (Ok (), B))"
proof -
  let ?rest = "(t1, m1) # W @ (t2, Some (MISSION_ACK 0 mt')) # B"
  have "poll (upload_pending items) (upload_pass items t0) {} (A @ ?rest)
     = (map (\<lambda>i. MissionItemIntSend (items ! i)) (concat (map asked A)), Some (Inl {..<length items}, ?rest))"
    using assms by (intro upload_poll_asking) auto
  moreover have "await final_ack_pass ?rest = ([], Some (Ok (), B))"
    using assms(5,6) final_ack_awaiting [of W "(t1, m1)"]
      await_leave [of final_ack_pass "(t1, m1)" "(t2, Some (MISSION_ACK 0 mt'))" "[]" "Ok ()" B]
    by (simp add: final_ack_pass_def recv_match_def)
  ultimately show ?thesis using assms(1)
    by (simp add: upload_mission_def io_bind_emit io_bind_clock io_bind_Some)
qed

theorem upload_mission_complete_witness:
  "upload_mission [home_item] 0
     ((Fin 0, None) # [(Fin 0, None), (Fin 1, Some (MISSION_REQUEST_INT 0))]
        @ (Fin 2, None) # [(Fin 2, None), (Fin 2, Some (HEARTBEAT 0))] @ (Fin 3, Some (MISSION_ACK 0 0)) # [])
     = (MissionCountSend (length [home_item]) 0
          # map (\<lambda>i. MissionItemIntSend ([home_item] ! i))
              (concat (map asked [(Fin 0, None), (Fin 1, Some (MISSION_REQUEST_INT 0))])), Some (Ok (), []))"
  by (rule upload_mission_complete) (auto simp: asking_def awaiting_def fint_eval float_eval)

text \<open>
  an accepting acknowledgement of any mission type that arrives before the first request makes
  the upload report success although no item was sent.
\<close>

lemma upload_mission_early_ack:
  "upload_mission (it # its) mt [(Fin 0, None), (Fin 0, Some (MISSION_ACK 0 mt'))]
     = ([MissionCountSend (Suc (length its)) mt], Some (Ok (), []))"
proof -
  have "poll (upload_pending (it # its)) (upload_pass (it # its) (Fin 0)) {} [(Fin 0, Some (MISSION_ACK 0 mt'))]
     = ([], Some (Inr (Ok ()), []))"
    by (simp add: upload_pending_def upload_pass_def recv_match_def fint_def float_eval)
  then show ?thesis by (simp add: upload_mission_def io_bind_emit io_bind_clock io_bind_Some io_ret_run)
qed

definition serve_items :: "(pyfloat \<times> pyfloat) list \<Rightarrow> mission_item list \<Rightarrow> mav_msg trace" where
  "serve_items ts items =
     concat (map (\<lambda>((t, u), it). [(t, None), (u, Some (MISSION_ITEM_INT it))]) (zip ts items))"

lemma download_items_serve:
  assumes "length ts = length items" and "length sqs = length items"
    and "\<forall>(t, u) \<in> set ts. flt (fsub u t) (fint 5)"
    and "\<forall>i < length items. mi_seq (items ! i) = int (sqs ! i) \<and> mi_mission_type (items ! i) = mt"
  shows "download_items mt sqs (serve_items ts items @ B)
     = (map (\<lambda>sq. MissionRequestIntSend sq mt) sqs, Some (Ok items, B))"
  using assms
proof (induction ts items arbitrary: sqs rule: list_induct2)
  case Nil
  then show ?case by (simp add: serve_items_def io_ret_run)
next
  case (Cons tu ts it items)
  obtain t u where tu: "tu = (t, u)" by fastforce
  obtain sq sqs' where sqs: "sqs = sq # sqs'" using Cons.prems by (cases sqs) auto
  have it: "mi_seq it = int sq \<and> mi_mission_type it = mt" using Cons.prems sqs by fastforce
  have hd: "download_item mt sq ((t, None) # (u, Some (MISSION_ITEM_INT it)) # tr)
     = ([MissionRequestIntSend sq mt], Some (Ok it, tr))" for tr
    using it Cons.prems tu
    by (simp add: download_item_def io_bind_emit await_leave item_pass_def recv_match_def)
  have tl: "download_items mt sqs' (serve_items ts items @ B)
     = (map (\<lambda>sq. MissionRequestIntSend sq mt) sqs', Some (Ok items, B))"
    using Cons.prems sqs by (intro Cons.IH) force+
  have split: "serve_items (tu # ts) (it # items) @ B
     = (t, None) # (u, Some (MISSION_ITEM_INT it)) # serve_items ts items @ B"
    by (simp add: serve_items_def tu)
  show ?case unfolding split sqs download_items.simps
    by (simp add: io_bindr_def io_bind_Some hd tl io_ret_run)
qed

lemma differs_refl: "\<not> differs a a"
  by (cases a) (simp_all add: differs_def verify_tolerance_def float_eval)


lemma download_mission_serve:
  assumes "length ts = length items" and "flt (fsub u0 t0) (fint 10)"
    and "\<forall>(t, u) \<in> set ts. flt (fsub u t) (fint 5)"
    and "\<forall>i < length items. mi_seq (items ! i) = int i \<and> mi_mission_type (items ! i) = mt"
  shows "download_mission mt ((t0, None) # (u0, Some (MISSION_COUNT (length items) mt)) # serve_items ts items @ B)
     = (MissionRequestListSend mt # map (\<lambda>i. MissionRequestIntSend i mt) [0..<length items]
          @ (if items = [] then [] else [MissionAckSend 0 mt]), Some (Ok items, B))"
proof -
  have cnt: "await (count_pass mt) ((t0, None) # (u0, Some (MISSION_COUNT (length items) mt)) # tr)
     = ([], Some (Ok (length items), tr))" for tr
    using assms by (intro await_leave) (simp add: count_pass_def recv_match_def)
  have its: "download_items mt [0..<length items] (serve_items ts items @ B)
     = (map (\<lambda>i. MissionRequestIntSend i mt) [0..<length items], Some (Ok items, B))"
    using assms by (intro download_items_serve) auto
  show ?thesis
  proof (cases "items = []")
    case True
    then show ?thesis using cnt assms(1)
      by (simp add: download_mission_def io_bind_emit io_bindr_def io_bind_Some io_ret_run serve_items_def)
  next
    case False
    then show ?thesis
      by (simp add: download_mission_def io_bind_emit io_bindr_def io_bind_Some cnt its io_ret_run)
  qed
qed

lemma item_mismatches_refl: "item_mismatches i it it = []"
  by (simp add: item_mismatches_def note_if_def differs_refl)

lemma enumerate_zip_conv:
  "length xs = length ys \<Longrightarrow>
     enumerate k (zip xs ys) = map (\<lambda>i. (k + i, xs ! i, ys ! i)) [0..<length xs]"
  by (intro nth_equalityI) (auto simp: nth_enumerate_eq)

lemma round_trip_verdict_Ok:
  "round_trip_verdict ex (Ok got) \<longleftrightarrow>
     length got = length ex \<and> (\<forall>i < length ex. item_mismatches i (ex ! i) (got ! i) = [])"
  by (auto simp: round_trip_verdict_def enumerate_zip_conv)

text \<open>
  the round-trip check passes on a vehicle that stores the uploaded list and serves it in time.
\<close>

lemma verify_round_trip_complete:
  assumes "length ts = length items" and "flt (fsub u0 t0) (fint 10)"
    and "\<forall>(t, u) \<in> set ts. flt (fsub u t) (fint 5)"
    and "\<forall>i < length items. mi_seq (items ! i) = int i \<and> mi_mission_type (items ! i) = mt"
  shows "snd (verify_round_trip items mt
      ((t0, None) # (u0, Some (MISSION_COUNT (length items) mt)) # serve_items ts items @ B)) = Some (True, B)"
proof -
  note dl = download_mission_serve [OF assms]
  show ?thesis unfolding verify_round_trip_def
    by (simp add: io_bind_Some [where m = "download_mission mt", OF dl] io_ret_run round_trip_verdict_Ok
        item_mismatches_refl)
qed

text \<open>
  What the check promises of a stored item: finite values within the tolerance, infinities equal. No
  value is close to a NaN; the check does not tell a NaN from any other value.
\<close>

fun float_close :: "pyfloat \<Rightarrow> pyfloat \<Rightarrow> bool" where
  "float_close (Fin x) (Fin y) = (\<bar>x - y\<bar> \<le> 11 / 100000000)"
| "float_close NaN b = False"
| "float_close a NaN = False"
| "float_close a b = (a = b)"

definition same_mission_item :: "mission_item \<Rightarrow> mission_item \<Rightarrow> bool" where
  "same_mission_item a b \<longleftrightarrow>
     mi_seq a = mi_seq b \<and> mi_frame a = mi_frame b \<and> mi_command a = mi_command b
   \<and> float_close (mi_param1 a) (mi_param1 b) \<and> float_close (mi_param2 a) (mi_param2 b)
   \<and> float_close (mi_param3 a) (mi_param3 b) \<and> float_close (mi_param4 a) (mi_param4 b)
   \<and> mi_x a = mi_x b \<and> mi_y a = mi_y b \<and> float_close (mi_z a) (mi_z b)
   \<and> mi_mission_type a = mi_mission_type b
   \<and> mi_autocontinue a = mi_autocontinue b \<and> mi_current a = mi_current b"

definition no_nan :: "mission_item \<Rightarrow> bool" where
  "no_nan it \<longleftrightarrow> NaN \<notin> {mi_param1 it, mi_param2 it, mi_param3 it, mi_param4 it, mi_z it}"

lemma verify_tolerance_finite: "verify_tolerance = Fin (fl (1 / 10000000))"
  unfolding verify_tolerance_def
  by (intro rnd_finite) (use fl_bounded [of "1 / 10000000"] in simp)

lemma differs_Fin:
  assumes "\<not> differs (Fin a) (Fin b)"
  shows "\<bar>a - b\<bar> \<le> 11 / 100000000"
proof -
  let ?d = "a - b"
  have "\<bar>fl ?d\<bar> \<le> fl (1 / 10000000)"
    using assms rnd_cases [of ?d] by (auto simp: differs_def verify_tolerance_finite fsub_def)
  moreover have "fl (1 / 10000000) \<le> 1 / 10000000 + (1 / 10000000) / 2 ^ 53 + 1 / 10 ^ 12"
    using fl_close [of "1 / 10000000"] unfolding abs_le_iff by simp
  moreover have "\<bar>?d\<bar> \<le> \<bar>fl ?d\<bar> + (\<bar>?d\<bar> / 2 ^ 53 + 1 / 10 ^ 12)"
    using fl_close [of ?d] by linarith
  ultimately show ?thesis by (simp add: field_simps)
qed

lemma differs_float_close: "\<not> differs a b \<Longrightarrow> a \<noteq> NaN \<Longrightarrow> b \<noteq> NaN \<Longrightarrow> float_close a b"
  using differs_Fin by (cases a; cases b) (auto simp: differs_def verify_tolerance_finite fsub_def)

lemma item_mismatches_Nil:
  "item_mismatches i a b = [] \<Longrightarrow> no_nan a \<Longrightarrow> no_nan b \<Longrightarrow> same_mission_item a b"
  by (simp add: item_mismatches_def note_if_def same_mission_item_def differs_float_close no_nan_def
      split: if_splits)

text \<open>
  C4: when the round-trip check passes, and no float field of an uploaded item or of an item received
  is a NaN, the vehicle announced as many items as were uploaded and sent, for every index, an item
  that agrees with the uploaded one in every integer field and in every float field up to the
  tolerance.
\<close>

theorem verify_round_trip_sound:
  assumes "verify_round_trip ex mt tr = (out, Some (True, tr'))"
    and "\<forall>it \<in> set ex. no_nan it"
    and "\<forall>p \<in> set tr. \<forall>it. snd p = Some (MISSION_ITEM_INT it) \<longrightarrow> no_nan it"
  shows "\<exists>got. list_all2 same_mission_item ex got
     \<and> (\<exists>p \<in> set tr. snd p = Some (MISSION_COUNT (length ex) mt))
     \<and> (\<forall>i < length got. mi_seq (got ! i) = int i \<and> mi_mission_type (got ! i) = mt
          \<and> (\<exists>p \<in> set tr. snd p = Some (MISSION_ITEM_INT (got ! i))))"
proof -
  from assms(1) obtain dl where dl: "download_mission mt tr = (out, Some (dl, tr'))"
    and v: "round_trip_verdict ex dl"
    unfolding verify_round_trip_def by (elim io_bind_SomeE) (auto simp: io_ret_run)
  from v obtain got where got: "dl = Ok got" by (cases dl) (auto simp: round_trip_verdict_def)
  note dm = download_mission_Ok [OF dl [unfolded got]]
  then have "\<forall>i < length got. no_nan (got ! i)" using assms(3) by blast
  with v got assms(2) have "list_all2 same_mission_item ex got"
    by (auto simp: round_trip_verdict_Ok item_mismatches_Nil list_all2_conv_all_nth)
  moreover from this have "length ex = length got" by (rule list_all2_lengthD)
  ultimately show ?thesis using dm by auto
qed

theorem verify_round_trip_sound_witness:
  "\<exists>got. list_all2 same_mission_item [home_item] got
     \<and> (\<exists>p \<in> set [(Fin 0, None), (Fin 1, Some (MISSION_COUNT 1 0)),
          (Fin 1, None), (Fin 2, Some (MISSION_ITEM_INT home_item))]. snd p = Some (MISSION_COUNT (length [home_item]) 0))
     \<and> (\<forall>i < length got. mi_seq (got ! i) = int i \<and> mi_mission_type (got ! i) = 0
          \<and> (\<exists>p \<in> set [(Fin 0, None), (Fin 1, Some (MISSION_COUNT 1 0)),
          (Fin 1, None), (Fin 2, Some (MISSION_ITEM_INT home_item))]. snd p = Some (MISSION_ITEM_INT (got ! i))))"
proof (rule verify_round_trip_sound)
  show "verify_round_trip [home_item] 0 [(Fin 0, None), (Fin 1, Some (MISSION_COUNT 1 0)),
          (Fin 1, None), (Fin 2, Some (MISSION_ITEM_INT home_item))]
     = ([MissionRequestListSend 0, MissionRequestIntSend 0 0, MissionAckSend 0 0], Some (True, []))"
    using download_mission_serve [of "[(Fin 1, Fin 2)]" "[home_item]" "Fin 1" "Fin 0" 0 "[]"]
    by (simp add: verify_round_trip_def io_bind_Some io_ret_run serve_items_def round_trip_verdict_Ok
        item_mismatches_refl home_item_def fint_eval float_eval)
qed (simp_all add: no_nan_def home_item_def)

text \<open>
  C5: a successful clear sent the clear request and then asked for the list; it polled an accepting
  acknowledgement for that mission type, and after it a count of no remaining item (at most the home
  item for the mission type 0).
\<close>

theorem clear_mission_sound:
  assumes "clear_mission mt tr = (out, Some (Ok (), tr'))"
  shows "(\<exists>rest. out = MissionClearAllSend mt # MissionRequestListSend mt # rest)
     \<and> (\<exists>pre a mid c post n. tr = pre @ a # mid @ c # post
          \<and> snd a = Some (MISSION_ACK 0 mt)
          \<and> snd c = Some (MISSION_COUNT n mt) \<and> n \<le> (if mt = 0 then 1 else 0))"
proof -
  let ?dl = "io_bind (download_mission mt) (\<lambda>dl. io_ret (clear_verdict mt dl))"
  from assms obtain o1 where run: "io_bindr (await (clear_ack_pass mt)) (\<lambda>_. ?dl) tr = (o1, Some (Ok (), tr'))"
    and out: "out = MissionClearAllSend mt # o1"
    by (cases "io_bindr (await (clear_ack_pass mt)) (\<lambda>_. ?dl) tr") (auto simp: clear_mission_def io_bind_emit)
  from run obtain o2 o3 tr1 where ack: "await (clear_ack_pass mt) tr = (o2, Some (Ok (), tr1))"
    and rest: "?dl tr1 = (o3, Some (Ok (), tr'))" and o1: "o1 = o2 @ o3"
    by (elim io_bindr_SomeE) auto
  from rest obtain dl where dl: "download_mission mt tr1 = (o3, Some (dl, tr'))"
    and v: "clear_verdict mt dl = Ok ()" by (elim io_bind_SomeE) (auto simp: io_ret_run)
  from v obtain its where its: "dl = Ok its" and "length its \<le> (if mt = 0 then 1 else 0)"
    by (auto simp: clear_verdict_def split: sum.splits if_splits)
  with download_mission_Ok [OF dl [unfolded its]] obtain c n r where c: "c \<in> set tr1"
    "snd c = Some (MISSION_COUNT n mt)" "n \<le> (if mt = 0 then 1 else 0)"
    and o3: "o3 = MissionRequestListSend mt # r" by blast
  from await_left_last [OF ack] obtain pre a t u o4 where a: "tr = pre @ a # tr1"
    "clear_ack_pass mt t u a = (o4, Leave (Ok ()))" by blast
  then have "snd a = Some (MISSION_ACK 0 mt)" using clear_wait.leaves_with by blast
  moreover from c(1) obtain mid post where "tr1 = mid @ c # post" by (auto dest: split_list)
  moreover have "o2 = []" using clear_wait.await_Some [OF ack] by simp
  ultimately show ?thesis using a(1) c(2,3) out o1 o3 by blast
qed

theorem clear_mission_sound_witness:
  "(\<exists>rest. [MissionClearAllSend 1, MissionRequestListSend 1]
        = MissionClearAllSend 1 # MissionRequestListSend 1 # rest)
     \<and> (\<exists>pre a mid c post n. [(Fin 0, None), (Fin 1, Some (MISSION_ACK 0 1)), (Fin 1, None),
           (Fin 2, Some (MISSION_COUNT 0 1))] = pre @ a # mid @ c # post
          \<and> snd a = Some (MISSION_ACK 0 1)
          \<and> snd c = Some (MISSION_COUNT n 1) \<and> n \<le> (if (1 :: int) = 0 then 1 else 0))"
proof (rule clear_mission_sound)
  have "await (clear_ack_pass 1) ((Fin 0, None) # (Fin 1, Some (MISSION_ACK 0 1)) # tr)
     = ([], Some (Ok (), tr))" for tr
    by (intro await_leave) (simp add: clear_ack_pass_def recv_match_def fint_eval float_eval)
  moreover have "download_mission 1 [(Fin 1, None), (Fin 2, Some (MISSION_COUNT 0 1))]
     = ([MissionRequestListSend 1], Some (Ok [], []))"
    using download_mission_serve [of "[]" "[]" "Fin 2" "Fin 1" 1 "[]"]
    by (simp add: serve_items_def fint_eval float_eval)
  ultimately show "clear_mission 1 [(Fin 0, None), (Fin 1, Some (MISSION_ACK 0 1)), (Fin 1, None),
        (Fin 2, Some (MISSION_COUNT 0 1))]
     = ([MissionClearAllSend 1, MissionRequestListSend 1], Some (Ok (), []))"
    by (simp add: clear_mission_def io_bind_emit io_bindr_def io_bind_Some io_ret_run clear_verdict_def)
qed
end
