(* ===== verification/ZoneConfig.thy ===== *)
theory ZoneConfig
  imports PyValue
begin

text \<open>
  Zone configurations, \<open>zone/config.py\<close>: the coercion of a YAML document into a zone, its
  validation, and loading a directory of zone files. The geometry library and the YAML parser are
  arguments: a geometry operation returns \<open>None\<close> where the library raises. Well-formed zones are defined
  by what the loader's messages ask for, which its tests do not quite ensure.
\<close>

section \<open>Data\<close>

record latlon =
  ll_lat :: pyfloat
  ll_lon :: pyfloat

text \<open>The description of a rally point is whatever the document holds.\<close>

record rally_point =
  rp_lat :: pyfloat
  rp_lon :: pyfloat
  rp_description :: pyval

record exclusion_zone =
  ez_name :: string
  ez_buffer_m :: pyfloat
  ez_polygon :: "latlon list"

record coverage_params =
  cv_pattern :: string
  cutting_width_in :: pyfloat
  overlap_pct :: pyfloat
  angle_deg :: pyfloat
  headland_passes :: int
  mow_speed_mps :: pyfloat
  turn_speed_mps :: pyfloat

record mission_commands =
  fence_enable :: bool
  resume_dist_m :: pyfloat
  blade_engage :: bool

record output_config =
  waypoints_file :: string
  geojson_file :: string

record zone_config =
  z_schema :: string
  z_zone_id :: string
  z_name :: string
  z_home :: latlon
  z_rally_point :: rally_point
  z_boundary :: "latlon list"
  z_description :: string
  z_exclusion_zones :: "exclusion_zone list"
  z_coverage :: coverage_params
  z_commands :: mission_commands
  z_slam_mode :: string
  z_output :: output_config

definition default_coverage :: coverage_params where
  "default_coverage = \<lparr>cv_pattern = ''boustrophedon'', cutting_width_in = Fin 54, overlap_pct = Fin 10,
     angle_deg = Fin 0, headland_passes = 2, mow_speed_mps = Fin 2, turn_speed_mps = Fin 1\<rparr>"

definition default_commands :: mission_commands where
  "default_commands = \<lparr>fence_enable = True, resume_dist_m = Fin (5 / 2), blade_engage = True\<rparr>"

definition default_slam_mode :: string where "default_slam_mode = ''localization''"

definition default_output :: output_config where
  "default_output = \<lparr>waypoints_file = [], geojson_file = []\<rparr>"

text \<open>\<open>ZoneConfigError\<close> with its message, and the exceptions that pass through unchanged.\<close>

datatype zone_error =
    ZoneConfigError string
  | FileNotFound
  | Uncaught pyexc

type_synonym 'a zone_result = "(zone_error, 'a) result"
type_synonym coords = "(pyfloat \<times> pyfloat) list"

record geometry =
  g_is_valid :: "coords \<Rightarrow> bool option"
  g_area :: "coords \<Rightarrow> pyfloat option"
  g_covers_point :: "coords \<Rightarrow> pyfloat \<times> pyfloat \<Rightarrow> bool option"
  g_contains :: "coords \<Rightarrow> coords \<Rightarrow> bool option"

definition coords_of :: "latlon list \<Rightarrow> coords" where
  "coords_of ps = map (\<lambda>p. (ll_lat p, ll_lon p)) ps"

section \<open>Coercion\<close>

definition zfloat :: "pyval \<Rightarrow> pyfloat zone_result" where
  "zfloat v = map_err Uncaught (py_float v)"

definition latlon_of :: "pyval \<Rightarrow> pyval \<Rightarrow> latlon zone_result" where
  "latlon_of a b = bindr (zfloat a) (\<lambda>lat. bindr (zfloat b) (\<lambda>lon. Ok \<lparr>ll_lat = lat, ll_lon = lon\<rparr>))"

definition bad_latlng :: "string \<Rightarrow> 'a zone_result" where
  "bad_latlng name = Err (ZoneConfigError (name @ '': must be [lat, lon] or {lat: ..., lon: ...}''))"

fun coerce_latlng :: "pyval \<Rightarrow> string \<Rightarrow> latlon zone_result" where
  "coerce_latlng (VList [a, b]) name = latlon_of a b"
| "coerce_latlng (VDict d) name =
     (case (dict_get d ''lat'', dict_get d ''lon'') of
        (Some a, Some b) \<Rightarrow> latlon_of a b
      | _ \<Rightarrow> bad_latlng name)"
| "coerce_latlng v name = bad_latlng name"

fun coerce_rally_point :: "pyval \<Rightarrow> rally_point zone_result" where
  "coerce_rally_point (VDict d) =
     (case (dict_get d ''lat'', dict_get d ''lon'') of
        (Some a, Some b) \<Rightarrow>
          bindr (zfloat a) (\<lambda>lat. bindr (zfloat b) (\<lambda>lon.
            Ok \<lparr>rp_lat = lat, rp_lon = lon, rp_description = dict_get_or d ''description'' (VStr [])\<rparr>))
      | _ \<Rightarrow> Err (ZoneConfigError ''rally_point: missing lat/lon''))"
| "coerce_rally_point v = Err (ZoneConfigError ''rally_point: must be dict'')"

definition indexed :: "string \<Rightarrow> nat \<Rightarrow> string" where
  "indexed field i = field @ ''['' @ digits_of_nat i @ '']''"

text \<open>\<open>except ZoneConfigError as e: raise ZoneConfigError(f"{where}: {e}")\<close>.\<close>

fun reraise :: "string \<Rightarrow> 'a zone_result \<Rightarrow> 'a zone_result" where
  "reraise loc (Inl (ZoneConfigError m)) = Err (ZoneConfigError (loc @ '': '' @ m))"
| "reraise loc r = r"

text \<open>\<open>for i, point in enumerate(raw)\<close>.\<close>

fun coerce_points :: "string \<Rightarrow> nat \<Rightarrow> pyval list \<Rightarrow> latlon list zone_result" where
  "coerce_points field i [] = Ok []"
| "coerce_points field i (v # vs) =
     bindr (reraise (indexed field i) (coerce_latlng v (indexed field i))) (\<lambda>p.
     bindr (coerce_points field (Suc i) vs) (\<lambda>ps. Ok (p # ps)))"

fun coerce_boundary :: "geometry \<Rightarrow> pyval \<Rightarrow> latlon list zone_result" where
  "coerce_boundary G (VList vs) =
     (if length vs < 3 then Err (ZoneConfigError ''boundary: must have at least 3 vertices'')
      else bindr (coerce_points ''boundary'' 0 vs) (\<lambda>points.
        if g_is_valid G (coords_of points) = Some True then Ok points
        else Err (ZoneConfigError ''boundary: Shapely validation failed'')))"
| "coerce_boundary G v = Err (ZoneConfigError ''boundary: must be list'')"

definition exclusion_polygon :: "geometry \<Rightarrow> string \<Rightarrow> pyval \<Rightarrow> latlon list zone_result" where
  "exclusion_polygon G loc raw =
     (case raw of
        VList vs \<Rightarrow>
          if length vs < 3 then Err (ZoneConfigError (loc @ '': must be list with 3 vertices''))
          else bindr (coerce_points loc 0 vs) (\<lambda>points.
            if g_is_valid G (coords_of points) = Some True then Ok points
            else Err (ZoneConfigError (loc @ '': validation failed'')))
      | _ \<Rightarrow> Err (ZoneConfigError (loc @ '': must be list with 3 vertices'')))"

fun coerce_exclusion_zone ::
  "(pyfloat \<Rightarrow> string) \<Rightarrow> geometry \<Rightarrow> nat \<Rightarrow> pyval \<Rightarrow> exclusion_zone zone_result" where
  "coerce_exclusion_zone fr G i (VDict d) =
     (case (dict_get d ''name'', dict_get d ''polygon'') of
        (None, _) \<Rightarrow> Err (ZoneConfigError (indexed ''exclusion_zones'' i @ '': missing name''))
      | (Some n, None) \<Rightarrow> Err (ZoneConfigError (indexed ''exclusion_zones'' i @ '': missing polygon''))
      | (Some n, Some poly) \<Rightarrow>
          bindr (exclusion_polygon G (indexed ''exclusion_zones'' i @ ''.polygon'') poly) (\<lambda>points.
          bindr (zfloat (dict_get_or d ''buffer_m'' (VFloat (Fin 0)))) (\<lambda>buffer.
          Ok \<lparr>ez_name = py_str fr n, ez_buffer_m = buffer, ez_polygon = points\<rparr>)))"
| "coerce_exclusion_zone fr G i v = Err (ZoneConfigError (indexed ''exclusion_zones'' i @ '': must be dict''))"

fun coerce_exclusions ::
  "(pyfloat \<Rightarrow> string) \<Rightarrow> geometry \<Rightarrow> nat \<Rightarrow> pyval list \<Rightarrow> exclusion_zone list zone_result" where
  "coerce_exclusions fr G i [] = Ok []"
| "coerce_exclusions fr G i (v # vs) =
     bindr (coerce_exclusion_zone fr G i v) (\<lambda>z.
     bindr (coerce_exclusions fr G (Suc i) vs) (\<lambda>zs. Ok (z # zs)))"

fun coerce_exclusion_zones :: "(pyfloat \<Rightarrow> string) \<Rightarrow> geometry \<Rightarrow> pyval \<Rightarrow> exclusion_zone list zone_result" where
  "coerce_exclusion_zones fr G (VList vs) = coerce_exclusions fr G 0 vs"
| "coerce_exclusion_zones fr G v = Err (ZoneConfigError ''exclusion_zones: must be list'')"

definition field_float :: "(string \<times> pyval) list \<Rightarrow> string \<Rightarrow> pyfloat \<Rightarrow> pyfloat zone_result" where
  "field_float d k dflt = zfloat (dict_get_or d k (VFloat dflt))"

definition zone_check :: "bool \<Rightarrow> string \<Rightarrow> unit zone_result" where
  "zone_check ok m = (if ok then Ok () else Err (ZoneConfigError m))"

fun coerce_coverage :: "(pyfloat \<Rightarrow> string) \<Rightarrow> pyval \<Rightarrow> coverage_params zone_result" where
  "coerce_coverage fr (VDict d) =
     bindr (field_float d ''cutting_width_in'' (Fin 54)) (\<lambda>cutting_width.
     bindr (zone_check (\<not> fle cutting_width (Fin 0)) ''coverage.cutting_width_in: must be > 0'') (\<lambda>_.
     bindr (field_float d ''overlap_pct'' (Fin 10)) (\<lambda>overlap.
     bindr (zone_check (fle (Fin 0) overlap \<and> fle overlap (Fin 50)) ''coverage.overlap_pct: must be 0-50'') (\<lambda>_.
     bindr (field_float d ''mow_speed_mps'' (Fin 2)) (\<lambda>mow_speed.
     bindr (zone_check (\<not> fle mow_speed (Fin 0)) ''coverage.mow_speed_mps: must be > 0'') (\<lambda>_.
     bindr (field_float d ''turn_speed_mps'' (Fin 1)) (\<lambda>turn_speed.
     bindr (zone_check (\<not> fle turn_speed (Fin 0)) ''coverage.turn_speed_mps: must be > 0'') (\<lambda>_.
     bindr (field_float d ''angle_deg'' (Fin 0)) (\<lambda>angle.
     bindr (map_err Uncaught (py_int (dict_get_or d ''headland_passes'' (VInt 2)))) (\<lambda>passes.
     Ok \<lparr>cv_pattern = py_str fr (dict_get_or d ''pattern'' (VStr ''boustrophedon'')),
         cutting_width_in = cutting_width, overlap_pct = overlap, angle_deg = angle,
         headland_passes = passes, mow_speed_mps = mow_speed, turn_speed_mps = turn_speed\<rparr>))))))))))"
| "coerce_coverage fr v = Ok default_coverage"

fun coerce_commands :: "pyval \<Rightarrow> mission_commands zone_result" where
  "coerce_commands (VDict d) =
     bindr (field_float d ''resume_dist_m'' (Fin (5 / 2))) (\<lambda>dist.
     Ok \<lparr>fence_enable = py_bool (dict_get_or d ''fence_enable'' (VBool True)), resume_dist_m = dist,
         blade_engage = py_bool (dict_get_or d ''blade_engage'' (VBool True))\<rparr>)"
| "coerce_commands v = Ok default_commands"

fun coerce_slam :: "(pyfloat \<Rightarrow> string) \<Rightarrow> pyval \<Rightarrow> string" where
  "coerce_slam fr (VDict d) = py_str fr (dict_get_or d ''mode'' (VStr ''localization''))"
| "coerce_slam fr v = default_slam_mode"

fun coerce_output :: "(pyfloat \<Rightarrow> string) \<Rightarrow> pyval \<Rightarrow> output_config" where
  "coerce_output fr (VDict d) =
     \<lparr>waypoints_file = py_str fr (dict_get_or d ''waypoints_file'' (VStr [])),
      geojson_file = py_str fr (dict_get_or d ''geojson_file'' (VStr []))\<rparr>"
| "coerce_output fr v = default_output"

definition is_lower :: "char \<Rightarrow> bool" where
  "is_lower c \<longleftrightarrow> CHR ''a'' \<le> c \<and> c \<le> CHR ''z''"

definition id_char :: "char \<Rightarrow> bool" where
  "id_char c \<longleftrightarrow> is_lower c \<or> py_isdigit c \<or> c = CHR ''_'' \<or> c = CHR ''-''"

text \<open>\<open>re.match(r"^[a-z][a-z0-9_-]{0,31}$", s)\<close>; the dollar also matches before a final newline.\<close>

definition zone_id_body :: "string \<Rightarrow> bool" where
  "zone_id_body s \<longleftrightarrow>
     (case s of [] \<Rightarrow> False | c # cs \<Rightarrow> is_lower c \<and> length cs \<le> 31 \<and> list_all id_char cs)"

definition zone_id_matches :: "string \<Rightarrow> bool" where
  "zone_id_matches s \<longleftrightarrow>
     zone_id_body s \<or> (s \<noteq> [] \<and> last s = CHR 0x0A \<and> zone_id_body (butlast s))"

definition required :: "(string \<times> pyval) list \<Rightarrow> string \<Rightarrow> pyval zone_result" where
  "required d k = of_opt (ZoneConfigError (''missing required field: '' @ k)) (dict_get d k)"

definition coerce_zone :: "(pyfloat \<Rightarrow> string) \<Rightarrow> geometry \<Rightarrow> (string \<times> pyval) list \<Rightarrow> zone_config zone_result" where
  "coerce_zone fr G raw =
     bindr (required raw ''schema'') (\<lambda>schema.
     bindr (required raw ''zone_id'') (\<lambda>zone_id.
     bindr (required raw ''name'') (\<lambda>name.
     bindr (required raw ''home'') (\<lambda>home.
     bindr (required raw ''rally_point'') (\<lambda>rally.
     bindr (required raw ''boundary'') (\<lambda>boundary.
     bindr (zone_check (zone_id_matches (py_str fr zone_id)) ''zone_id: must match ^[a-z][a-z0-9_-]{0,31}$'') (\<lambda>_.
     bindr (coerce_latlng home ''home'') (\<lambda>home_ll.
     bindr (coerce_rally_point rally) (\<lambda>rp.
     bindr (coerce_boundary G boundary) (\<lambda>bd.
     bindr (coerce_exclusion_zones fr G (dict_get_or raw ''exclusion_zones'' (VList []))) (\<lambda>ex.
     bindr (coerce_coverage fr (dict_get_or raw ''coverage'' (VDict []))) (\<lambda>cov.
     bindr (coerce_commands (dict_get_or raw ''commands'' (VDict []))) (\<lambda>cmds.
     Ok \<lparr>z_schema = py_str fr schema, z_zone_id = py_str fr zone_id, z_name = py_str fr name,
         z_home = home_ll, z_rally_point = rp, z_boundary = bd,
         z_description = py_str fr (dict_get_or raw ''description'' (VStr [])),
         z_exclusion_zones = ex, z_coverage = cov, z_commands = cmds,
         z_slam_mode = coerce_slam fr (dict_get_or raw ''slam'' (VDict [])),
         z_output = coerce_output fr (dict_get_or raw ''output'' (VDict []))\<rparr>)))))))))))))"

section \<open>Loading\<close>

text \<open>A path as the loader finds it; \<open>yaml_load\<close> returns \<open>None\<close> on a \<open>YAMLError\<close>.\<close>

datatype zone_file = Missing | Undecodable | Text string

fun load_zone_config ::
  "(pyfloat \<Rightarrow> string) \<Rightarrow> geometry \<Rightarrow> (string \<Rightarrow> pyval option) \<Rightarrow> zone_file \<Rightarrow> zone_config zone_result" where
  "load_zone_config fr G yaml_load Missing = Err FileNotFound"
| "load_zone_config fr G yaml_load Undecodable = Err (Uncaught UnicodeError)"
| "load_zone_config fr G yaml_load (Text t) =
     (case yaml_load t of
        None \<Rightarrow> Err (ZoneConfigError ''Invalid YAML'')
      | Some VNone \<Rightarrow> Err (ZoneConfigError ''Empty YAML file'')
      | Some (VDict raw) \<Rightarrow> coerce_zone fr G raw
      | Some v \<Rightarrow> Err (ZoneConfigError ''YAML root must be dict''))"

definition zone_schema_prefix :: string where "zone_schema_prefix = ''mower-rover.zone.''"

text \<open>\<open>load_all_zones\<close>: the directory's files in the order the glob yields them, \<open>None\<close> for no directory.\<close>

fun load_zone_files ::
  "(pyfloat \<Rightarrow> string) \<Rightarrow> geometry \<Rightarrow> (string \<Rightarrow> pyval option) \<Rightarrow> zone_file list \<Rightarrow> zone_config list zone_result" where
  "load_zone_files fr G yaml_load [] = Ok []"
| "load_zone_files fr G yaml_load (f # fs) =
     (case load_zone_config fr G yaml_load f of
        Inr cfg \<Rightarrow>
          if is_prefix zone_schema_prefix (z_schema cfg)
          then bindr (load_zone_files fr G yaml_load fs) (\<lambda>cfgs. Ok (cfg # cfgs))
          else load_zone_files fr G yaml_load fs
      | Inl (Uncaught e) \<Rightarrow> Err (Uncaught e)
      | Inl e \<Rightarrow> load_zone_files fr G yaml_load fs)"

definition load_all_zones ::
  "(pyfloat \<Rightarrow> string) \<Rightarrow> geometry \<Rightarrow> (string \<Rightarrow> pyval option) \<Rightarrow> zone_file list option \<Rightarrow> zone_config list zone_result"
  where
  "load_all_zones fr G yaml_load dir =
     (case dir of None \<Rightarrow> Ok [] | Some fs \<Rightarrow> load_zone_files fr G yaml_load fs)"

section \<open>Validation\<close>

datatype zone_issue =
    LatOutOfRange string pyfloat
  | LonOutOfRange string pyfloat
  | AreaVerySmall pyfloat
  | AreaVeryLarge pyfloat
  | RallyOutside
  | ExclusionOutside string

fun is_error :: "zone_issue \<Rightarrow> bool" where
  "is_error (LatOutOfRange n v) = True"
| "is_error (LonOutOfRange n v) = True"
| "is_error i = False"

definition lat_ok :: "pyfloat \<Rightarrow> bool" where
  "lat_ok v \<longleftrightarrow> fle (Fin (- 90)) v \<and> fle v (Fin 90)"

definition lon_ok :: "pyfloat \<Rightarrow> bool" where
  "lon_ok v \<longleftrightarrow> fle (Fin (- 180)) v \<and> fle v (Fin 180)"

definition check_latlng :: "pyfloat \<Rightarrow> pyfloat \<Rightarrow> string \<Rightarrow> zone_issue list" where
  "check_latlng lat lon name =
     (if lat_ok lat then [] else [LatOutOfRange name lat])
   @ (if lon_ok lon then [] else [LonOutOfRange name lon])"

definition check_area :: "geometry \<Rightarrow> coords \<Rightarrow> zone_issue list" where
  "check_area G cs =
     (case g_area G cs of
        None \<Rightarrow> []
      | Some area_deg_sq \<Rightarrow>
          (let area = fmul area_deg_sq (fint (111000 ^ 2))
           in if flt area (Fin 100) then [AreaVerySmall area]
              else if fgt area (Fin 100000) then [AreaVeryLarge area] else []))"

definition check_rally :: "geometry \<Rightarrow> coords \<Rightarrow> pyfloat \<times> pyfloat \<Rightarrow> zone_issue list" where
  "check_rally G cs p = (if g_covers_point G cs p = Some False then [RallyOutside] else [])"

text \<open>An exception ends the loop over the exclusion zones and keeps what it found.\<close>

fun check_exclusions :: "geometry \<Rightarrow> coords \<Rightarrow> exclusion_zone list \<Rightarrow> zone_issue list" where
  "check_exclusions G cs [] = []"
| "check_exclusions G cs (z # zs) =
     (case g_contains G cs (coords_of (ez_polygon z)) of
        None \<Rightarrow> []
      | Some inside \<Rightarrow> (if inside then [] else [ExclusionOutside (ez_name z)]) @ check_exclusions G cs zs)"

definition check_boundary :: "latlon list \<Rightarrow> zone_issue list" where
  "check_boundary bd =
     concat (map (\<lambda>(i, p). check_latlng (ll_lat p) (ll_lon p) (indexed ''boundary'' i)) (enumerate 0 bd))"

definition validate_zone_config :: "geometry \<Rightarrow> zone_config \<Rightarrow> zone_issue list" where
  "validate_zone_config G cfg =
     check_latlng (ll_lat (z_home cfg)) (ll_lon (z_home cfg)) ''home''
   @ check_latlng (rp_lat (z_rally_point cfg)) (rp_lon (z_rally_point cfg)) ''rally_point''
   @ check_boundary (z_boundary cfg)
   @ check_area G (coords_of (z_boundary cfg))
   @ check_rally G (coords_of (z_boundary cfg)) (rp_lat (z_rally_point cfg), rp_lon (z_rally_point cfg))
   @ check_exclusions G (coords_of (z_boundary cfg)) (z_exclusion_zones cfg)"

section \<open>Well-formed zones\<close>

definition polygon_wf :: "geometry \<Rightarrow> latlon list \<Rightarrow> bool" where
  "polygon_wf G ps \<longleftrightarrow> 3 \<le> length ps \<and> g_is_valid G (coords_of ps) = Some True"

text \<open>
  What the messages of the loader ask for: widths and speeds above zero, the overlap between 0 and 50, an
  identifier of 1 to 32 characters, the first a lower-case letter. A NaN is not above zero.
\<close>

definition coverage_wf :: "coverage_params \<Rightarrow> bool" where
  "coverage_wf cv \<longleftrightarrow> flt (Fin 0) (cutting_width_in cv)
     \<and> fle (Fin 0) (overlap_pct cv) \<and> fle (overlap_pct cv) (Fin 50)
     \<and> flt (Fin 0) (mow_speed_mps cv) \<and> flt (Fin 0) (turn_speed_mps cv)"

definition zone_id_wf :: "string \<Rightarrow> bool" where
  "zone_id_wf s \<longleftrightarrow> s \<noteq> [] \<and> length s \<le> 32 \<and> is_lower (hd s)
     \<and> (\<forall>c \<in> set s. is_lower c \<or> py_isdigit c \<or> c = CHR ''_'' \<or> c = CHR ''-'')"

definition polygons_wf :: "geometry \<Rightarrow> zone_config \<Rightarrow> bool" where
  "polygons_wf G z \<longleftrightarrow> polygon_wf G (z_boundary z) \<and> list_all (polygon_wf G \<circ> ez_polygon) (z_exclusion_zones z)"

definition zone_wf :: "geometry \<Rightarrow> zone_config \<Rightarrow> bool" where
  "zone_wf G z \<longleftrightarrow> zone_id_wf (z_zone_id z) \<and> polygons_wf G z \<and> coverage_wf (z_coverage z)"

text \<open>What the loader lets through beyond that: an identifier with a final newline, a NaN.\<close>

definition clean_zone :: "zone_config \<Rightarrow> bool" where
  "clean_zone z \<longleftrightarrow> CHR 0x0A \<notin> set (z_zone_id z)
     \<and> NaN \<notin> {cutting_width_in (z_coverage z), mow_speed_mps (z_coverage z), turn_speed_mps (z_coverage z)}"

lemma zone_check_Ok [result_simps]: "zone_check ok m = Ok u \<longleftrightarrow> ok"
  by (simp add: zone_check_def)

lemma coerce_points_length: "coerce_points field i vs = Ok ps \<Longrightarrow> length ps = length vs"
  by (induction field i vs arbitrary: ps rule: coerce_points.induct) (auto simp: result_simps)

lemma coerce_boundary_wf: "coerce_boundary G v = Ok ps \<Longrightarrow> polygon_wf G ps"
  by (cases v) (auto simp: result_simps polygon_wf_def dest: coerce_points_length split: if_splits)

lemma exclusion_polygon_wf: "exclusion_polygon G loc v = Ok ps \<Longrightarrow> polygon_wf G ps"
  by (cases v) (auto simp: exclusion_polygon_def result_simps polygon_wf_def
      dest: coerce_points_length split: if_splits)

lemma coerce_exclusion_zone_wf: "coerce_exclusion_zone fr G i v = Ok z \<Longrightarrow> polygon_wf G (ez_polygon z)"
  by (cases v) (auto simp: result_simps dest: exclusion_polygon_wf split: option.splits)

lemma coerce_exclusion_zones_wf:
  "coerce_exclusion_zones fr G v = Ok zs \<Longrightarrow> list_all (polygon_wf G \<circ> ez_polygon) zs"
proof -
  have "coerce_exclusions fr G i vs = Ok zs \<Longrightarrow> list_all (polygon_wf G \<circ> ez_polygon) zs" for i vs
    by (induction fr G i vs arbitrary: zs rule: coerce_exclusions.induct)
      (auto simp: result_simps dest: coerce_exclusion_zone_wf)
  then show "coerce_exclusion_zones fr G v = Ok zs \<Longrightarrow> list_all (polygon_wf G \<circ> ez_polygon) zs"
    by (cases v) auto
qed

lemma coerce_coverage_wf:
  "coerce_coverage fr v = Ok cv \<Longrightarrow>
     NaN \<notin> {cutting_width_in cv, mow_speed_mps cv, turn_speed_mps cv} \<Longrightarrow> coverage_wf cv"
proof -
  have pos: "\<not> fle x (Fin 0) \<Longrightarrow> x \<noteq> NaN \<Longrightarrow> flt (Fin 0) x" for x by (cases x) auto
  show "coerce_coverage fr v = Ok cv \<Longrightarrow>
     NaN \<notin> {cutting_width_in cv, mow_speed_mps cv, turn_speed_mps cv} \<Longrightarrow> coverage_wf cv"
    by (cases v) (auto simp: result_simps coverage_wf_def default_coverage_def intro: pos)
qed

lemma zone_id_matches_wf:
  assumes "zone_id_matches s" and "CHR 0x0A \<notin> set s"
  shows "zone_id_wf s"
proof -
  have "\<not> (s \<noteq> [] \<and> last s = CHR 0x0A)" using assms(2) by (metis last_in_set)
  with assms(1) have "zone_id_body s" by (auto simp: zone_id_matches_def)
  then show ?thesis
    by (auto simp: zone_id_body_def zone_id_wf_def list_all_iff id_char_def split: list.splits)
qed

lemma coerce_zone_polygons: "coerce_zone fr G raw = Ok z \<Longrightarrow> polygons_wf G z"
  by (auto simp: coerce_zone_def result_simps polygons_wf_def dest: coerce_boundary_wf coerce_exclusion_zones_wf)

lemma coerce_zone_wf: "coerce_zone fr G raw = Ok z \<Longrightarrow> clean_zone z \<Longrightarrow> zone_wf G z"
  using coerce_zone_polygons [of fr G raw z]
  by (auto simp: coerce_zone_def result_simps zone_wf_def clean_zone_def
      intro: zone_id_matches_wf dest: coerce_coverage_wf)

lemma load_zone_config_coerced:
  "load_zone_config fr G yaml_load f = Ok z \<Longrightarrow> \<exists>raw. coerce_zone fr G raw = Ok z"
  by (cases f) (auto split: option.splits pyval.splits)

lemma load_zone_config_polygons: "load_zone_config fr G yaml_load f = Ok z \<Longrightarrow> polygons_wf G z"
  by (blast dest: load_zone_config_coerced coerce_zone_polygons)

text \<open>
  C29: every zone a directory loads to whose id holds no newline and whose widths and speeds are not NaN
  is well formed: its id has 1 to 32 characters of the allowed ones and starts with a lower-case letter, its
  boundary and every exclusion polygon have at least three vertices and are valid, its width and
  speeds are above zero and its overlap is between 0 and 50 percent; and its schema is a zone schema. The
  two conditions are needed: the loader accepts an id that ends in a newline, and a NaN.
\<close>

theorem load_all_zones_wf:
  assumes "load_all_zones fr G yaml_load dir = Ok zs" and "z \<in> set zs" and "clean_zone z"
  shows "zone_wf G z \<and> is_prefix zone_schema_prefix (z_schema z)"
proof -
  have "load_zone_files fr G yaml_load fs = Ok zs \<Longrightarrow> z \<in> set zs \<Longrightarrow>
      (\<exists>raw. coerce_zone fr G raw = Ok z) \<and> is_prefix zone_schema_prefix (z_schema z)" for fs zs
    by (induction fr G yaml_load fs arbitrary: zs rule: load_zone_files.induct)
      (auto simp: result_simps dest: load_zone_config_coerced split: sum.splits if_splits zone_error.splits)
  with assms coerce_zone_wf show ?thesis by (fastforce simp: load_all_zones_def split: option.splits)
qed

definition bad_home :: "(string \<times> pyval) list" where
  "bad_home = [(''schema'', VStr ''mower-rover.zone.v1''), (''zone_id'', VStr ''front''),
     (''name'', VStr ''Front''), (''home'', VList [VStr ''north'', VInt 0]),
     (''rally_point'', VNone), (''boundary'', VNone)]"

text \<open>
  a single document with a coordinate that is not a number makes the whole directory fail: the
  \<open>ValueError\<close> of \<open>float()\<close> is not among the exceptions the loader skips a file for.
\<close>

lemma load_all_zones_bad_number:
  "load_all_zones fr G (\<lambda>t. Some (VDict bad_home)) (Some (Text t # fs)) = Err (Uncaught ValueError)"
proof -
  have "parse_float ''north'' = None" and "zone_id_matches ''front''" by code_simp+
  then have "coerce_zone fr G bad_home = Err (Uncaught ValueError)"
    by (simp add: coerce_zone_def bad_home_def required_def dict_get_def zone_check_def latlon_of_def zfloat_def)
  then show ?thesis by (simp add: load_all_zones_def)
qed

lemma filter_check_latlng: "filter is_error (check_latlng lat lon n) = [] \<longleftrightarrow> lat_ok lat \<and> lon_ok lon"
  by (simp add: check_latlng_def)

lemma filter_check_boundary:
  "filter is_error (check_boundary bd) = [] \<longleftrightarrow> list_all (\<lambda>p. lat_ok (ll_lat p) \<and> lon_ok (ll_lon p)) bd"
proof -
  have "filter is_error (concat (map (\<lambda>(i, p). check_latlng (ll_lat p) (ll_lon p) (indexed ''boundary'' i))
          (enumerate k bd))) = [] \<longleftrightarrow> list_all (\<lambda>p. lat_ok (ll_lat p) \<and> lon_ok (ll_lon p)) bd" for k
    by (induction bd arbitrary: k) (simp_all add: filter_check_latlng del: filter_concat)
  then show ?thesis by (simp only: check_boundary_def)
qed

lemma check_exclusions_no_error: "filter is_error (check_exclusions G cs zs) = []"
  by (induction zs) (auto split: option.splits)

lemma no_error_iff:
  "filter is_error (validate_zone_config G cfg) = [] \<longleftrightarrow>
     lat_ok (ll_lat (z_home cfg)) \<and> lon_ok (ll_lon (z_home cfg))
   \<and> lat_ok (rp_lat (z_rally_point cfg)) \<and> lon_ok (rp_lon (z_rally_point cfg))
   \<and> list_all (\<lambda>p. lat_ok (ll_lat p) \<and> lon_ok (ll_lon p)) (z_boundary cfg)"
proof -
  have "filter is_error (check_area G cs) = []" "filter is_error (check_rally G cs p) = []" for cs p
    by (auto simp: check_area_def check_rally_def Let_def split: option.splits)
  then show ?thesis
    by (simp only: validate_zone_config_def filter_append append_is_Nil_conv filter_check_latlng
        filter_check_boundary check_exclusions_no_error) blast
qed

text \<open>
  validation reports no error exactly when home, rally point and every boundary vertex have a
  latitude within 90 and a longitude within 180 degrees; everything else it reports is a warning.
\<close>

lemma validate_zone_config_errors:
  "filter is_error (validate_zone_config G cfg) = [] \<longleftrightarrow>
     lat_ok (ll_lat (z_home cfg)) \<and> lon_ok (ll_lon (z_home cfg))
   \<and> lat_ok (rp_lat (z_rally_point cfg)) \<and> lon_ok (rp_lon (z_rally_point cfg))
   \<and> list_all (\<lambda>p. lat_ok (ll_lat p) \<and> lon_ok (ll_lon p)) (z_boundary cfg)"
  by (rule no_error_iff)



text \<open>A small zone, as a document and as it loads.\<close>

definition any_geometry :: geometry where
  "any_geometry = \<lparr>g_is_valid = \<lambda>cs. Some True, g_area = \<lambda>cs. Some (Fin 1),
     g_covers_point = \<lambda>cs p. Some True, g_contains = \<lambda>cs ds. Some True\<rparr>"

definition sample_boundary :: "latlon list" where
  "sample_boundary = [\<lparr>ll_lat = Fin 1, ll_lon = Fin 1\<rparr>, \<lparr>ll_lat = Fin 1, ll_lon = Fin 2\<rparr>,
     \<lparr>ll_lat = Fin 2, ll_lon = Fin 1\<rparr>]"

definition sample_zone :: zone_config where
  "sample_zone = \<lparr>z_schema = ''mower-rover.zone.v1'', z_zone_id = ''front'', z_name = ''Front'',
     z_home = \<lparr>ll_lat = Fin 1, ll_lon = Fin 1\<rparr>,
     z_rally_point = \<lparr>rp_lat = Fin 1, rp_lon = Fin 1, rp_description = VStr []\<rparr>,
     z_boundary = sample_boundary, z_description = [], z_exclusion_zones = [],
     z_coverage = default_coverage, z_commands = default_commands, z_slam_mode = default_slam_mode,
     z_output = default_output\<rparr>"

definition latlon_doc :: "latlon \<Rightarrow> pyval" where
  "latlon_doc p = VDict [(''lat'', VFloat (ll_lat p)), (''lon'', VFloat (ll_lon p))]"

definition sample_doc :: "(string \<times> pyval) list" where
  "sample_doc = [(''schema'', VStr ''mower-rover.zone.v1''), (''zone_id'', VStr ''front''),
     (''name'', VStr ''Front''), (''home'', latlon_doc (z_home sample_zone)),
     (''rally_point'', latlon_doc (z_home sample_zone)),
     (''boundary'', VList (map latlon_doc sample_boundary))]"

lemma sample_zone_loads: "coerce_zone fr any_geometry sample_doc = Ok sample_zone"
proof -
  have "zone_id_matches ''front''" by code_simp
  then show ?thesis
    by (simp add: coerce_zone_def sample_doc_def required_def dict_get_def dict_get_or_def zone_check_def
        latlon_doc_def latlon_of_def zfloat_def sample_zone_def sample_boundary_def any_geometry_def
        field_float_def default_coverage_def default_commands_def default_slam_mode_def default_output_def)
qed

theorem load_all_zones_wf_witness:
  "zone_wf any_geometry sample_zone \<and> is_prefix zone_schema_prefix (z_schema sample_zone)"
proof (rule load_all_zones_wf)
  have "is_prefix zone_schema_prefix (z_schema sample_zone)" by code_simp
  with sample_zone_loads [of "\<lambda>_. []"]
  show "load_all_zones (\<lambda>_. []) any_geometry (\<lambda>t. Some (VDict sample_doc)) (Some [Text []]) = Ok [sample_zone]"
    by (simp add: load_all_zones_def)
  show "clean_zone sample_zone" by (simp add: clean_zone_def sample_zone_def default_coverage_def)
qed simp

end
