(* ===== verification/MissionItems.thy ===== *)
theory MissionItems
  imports Mission ZoneConfig
begin

text \<open>
  From zones to mission items, \<open>zone/mission_items.py\<close>: the mission, the fence and the rally
  points of a zone. Coordinates go to the wire as integers in units of \<open>10\<^sup>-\<^sup>7\<close> degrees; the
  conversion raises on infinite and undefined values. A polygon of the fence has its vertex count on its
  first vertex only.
\<close>

section \<open>Conversion\<close>

definition MAV_FRAME_GLOBAL_INT :: int where "MAV_FRAME_GLOBAL_INT = 5"
definition MAV_CMD_NAV_WAYPOINT :: int where "MAV_CMD_NAV_WAYPOINT = 16"
definition MAV_CMD_DO_CHANGE_SPEED :: int where "MAV_CMD_DO_CHANGE_SPEED = 178"
definition MAV_CMD_DO_SET_RESUME_REPEAT_DIST :: int where "MAV_CMD_DO_SET_RESUME_REPEAT_DIST = 215"
definition MAV_CMD_DO_FENCE_ENABLE :: int where "MAV_CMD_DO_FENCE_ENABLE = 207"
definition MAV_CMD_FENCE_INCLUSION :: int where "MAV_CMD_FENCE_INCLUSION = 5001"
definition MAV_CMD_FENCE_EXCLUSION :: int where "MAV_CMD_FENCE_EXCLUSION = 5002"
definition MAV_CMD_NAV_RALLY_POINT :: int where "MAV_CMD_NAV_RALLY_POINT = 5100"

definition latlng_to_int32 :: "pyfloat \<Rightarrow> pyfloat \<Rightarrow> (pyexc, int \<times> int) result" where
  "latlng_to_int32 lat lon =
     bindr (int_of_float (fmul lat (Fin 10000000))) (\<lambda>x.
     bindr (int_of_float (fmul lon (Fin 10000000))) (\<lambda>y. Ok (x, y)))"

definition make_item :: "nat \<Rightarrow> int \<Rightarrow> pyfloat \<Rightarrow> pyfloat \<Rightarrow> int \<times> int \<Rightarrow> int \<Rightarrow> int \<Rightarrow> mission_item" where
  "make_item sq command p1 p2 xy mission_type current =
     \<lparr>mi_seq = int sq, mi_frame = MAV_FRAME_GLOBAL_INT, mi_command = command,
      mi_param1 = p1, mi_param2 = p2, mi_param3 = Fin 0, mi_param4 = Fin 0,
      mi_x = fst xy, mi_y = snd xy, mi_z = Fin 0, mi_mission_type = mission_type,
      mi_autocontinue = 1, mi_current = current\<rparr>"

text \<open>The items before the waypoints.\<close>

definition mission_prologue :: "zone_config \<Rightarrow> int \<times> int \<Rightarrow> mission_item list" where
  "mission_prologue zone home_xy =
     [make_item 0 MAV_CMD_NAV_WAYPOINT (Fin 0) (Fin 0) home_xy 0 1,
      make_item 1 MAV_CMD_DO_CHANGE_SPEED (Fin 1) (mow_speed_mps (z_coverage zone)) (0, 0) 0 0,
      make_item 2 MAV_CMD_DO_SET_RESUME_REPEAT_DIST (resume_dist_m (z_commands zone)) (Fin 0) (0, 0) 0 0]
   @ (if fence_enable (z_commands zone)
      then [make_item 3 MAV_CMD_DO_FENCE_ENABLE (Fin 1) (Fin 0) (0, 0) 0 0] else [])"

fun waypoint_items :: "nat \<Rightarrow> latlon list \<Rightarrow> (pyexc, mission_item list) result" where
  "waypoint_items sq [] = Ok []"
| "waypoint_items sq (w # ws) =
     bindr (latlng_to_int32 (ll_lat w) (ll_lon w)) (\<lambda>xy.
     bindr (waypoint_items (Suc sq) ws) (\<lambda>items.
     Ok (make_item sq MAV_CMD_NAV_WAYPOINT (Fin 0) (Fin 2) xy 0 0 # items)))"

definition zone_to_mission :: "zone_config \<Rightarrow> latlon list \<Rightarrow> (pyexc, mission_item list) result" where
  "zone_to_mission zone waypoints =
     bindr (latlng_to_int32 (ll_lat (z_home zone)) (ll_lon (z_home zone))) (\<lambda>home_xy.
     let items = mission_prologue zone home_xy
     in bindr (waypoint_items (length items) waypoints) (\<lambda>ws. Ok (items @ ws)))"

text \<open>
  The vertices of one polygon: \<open>i\<close> is the index within the polygon, whose first item carries the
  number of vertices.
\<close>

fun vertex_items :: "int \<Rightarrow> nat \<Rightarrow> nat \<Rightarrow> nat \<Rightarrow> latlon list \<Rightarrow> (pyexc, mission_item list) result" where
  "vertex_items command count i sq [] = Ok []"
| "vertex_items command count i sq (v # vs) =
     bindr (latlng_to_int32 (ll_lat v) (ll_lon v)) (\<lambda>xy.
     bindr (vertex_items command count (Suc i) (Suc sq) vs) (\<lambda>items.
     Ok (make_item sq command (if i = 0 then rnd (of_nat count) else Fin 0) (Fin 0) xy 1 0 # items)))"

fun exclusion_items :: "nat \<Rightarrow> exclusion_zone list \<Rightarrow> (pyexc, mission_item list) result" where
  "exclusion_items sq [] = Ok []"
| "exclusion_items sq (z # zs) =
     bindr (vertex_items MAV_CMD_FENCE_EXCLUSION (length (ez_polygon z)) 0 sq (ez_polygon z)) (\<lambda>items.
     bindr (exclusion_items (sq + length (ez_polygon z)) zs) (\<lambda>rest. Ok (items @ rest)))"

definition zone_to_fence :: "zone_config \<Rightarrow> (pyexc, mission_item list) result" where
  "zone_to_fence zone =
     bindr (vertex_items MAV_CMD_FENCE_INCLUSION (length (z_boundary zone)) 0 0 (z_boundary zone)) (\<lambda>items.
     bindr (exclusion_items (length (z_boundary zone)) (z_exclusion_zones zone)) (\<lambda>rest.
     Ok (items @ rest)))"

definition zone_to_rally :: "zone_config \<Rightarrow> (pyexc, mission_item list) result" where
  "zone_to_rally zone =
     bindr (latlng_to_int32 (rp_lat (z_rally_point zone)) (rp_lon (z_rally_point zone))) (\<lambda>xy.
     Ok [make_item 0 MAV_CMD_NAV_RALLY_POINT (Fin 0) (Fin 0) xy 2 0])"

section \<open>Numbering\<close>

definition numbered :: "nat \<Rightarrow> int \<Rightarrow> mission_item list \<Rightarrow> bool" where
  "numbered k mt items \<longleftrightarrow>
     (\<forall>i < length items. mi_seq (items ! i) = int (k + i) \<and> mi_mission_type (items ! i) = mt)"

lemma numbered_Nil [simp]: "numbered k mt []"
  by (simp add: numbered_def)

lemma numbered_Cons [simp]:
  "numbered k mt (it # items) \<longleftrightarrow> mi_seq it = int k \<and> mi_mission_type it = mt \<and> numbered (Suc k) mt items"
  by (auto simp: numbered_def nth_Cons less_Suc_eq_0_disj split: nat.splits)

lemma numbered_append [simp]:
  "numbered k mt (xs @ ys) \<longleftrightarrow> numbered k mt xs \<and> numbered (k + length xs) mt ys"
  by (induction xs arbitrary: k) auto

lemma make_item_fields [simp]:
  "mi_seq (make_item sq c p1 p2 xy mt cur) = int sq"
  "mi_mission_type (make_item sq c p1 p2 xy mt cur) = mt"
  "mi_command (make_item sq c p1 p2 xy mt cur) = c"
  "mi_param1 (make_item sq c p1 p2 xy mt cur) = p1"
  "mi_x (make_item sq c p1 p2 xy mt cur) = fst xy"
  "mi_y (make_item sq c p1 p2 xy mt cur) = snd xy"
  "mi_current (make_item sq c p1 p2 xy mt cur) = cur"
  by (simp_all add: make_item_def)

lemma waypoint_items_numbered:
  "waypoint_items sq ws = Ok items \<Longrightarrow> numbered sq 0 items \<and> length items = length ws
     \<and> list_all (\<lambda>it. mi_command it = MAV_CMD_NAV_WAYPOINT \<and> mi_current it = 0) items"
  by (induction sq ws arbitrary: items rule: waypoint_items.induct) (auto simp: result_simps)

lemma vertex_items_numbered:
  "vertex_items c n i sq vs = Ok items \<Longrightarrow> numbered sq 1 items \<and> length items = length vs"
  by (induction c n i sq vs arbitrary: items rule: vertex_items.induct) (auto simp: result_simps)

lemma exclusion_items_numbered: "exclusion_items sq zs = Ok items \<Longrightarrow> numbered sq 1 items"
  by (induction sq zs arbitrary: items rule: exclusion_items.induct)
    (auto simp: result_simps dest: vertex_items_numbered)

lemma mission_prologue_numbered: "numbered 0 0 (mission_prologue zone xy)"
  by (simp add: mission_prologue_def)

lemma zone_to_mission_numbered: "zone_to_mission zone ws = Ok items \<Longrightarrow> numbered 0 0 items"
  using mission_prologue_numbered
  by (auto simp: zone_to_mission_def result_simps Let_def dest!: waypoint_items_numbered)

lemma zone_to_fence_numbered: "zone_to_fence zone = Ok items \<Longrightarrow> numbered 0 1 items"
  by (auto simp: zone_to_fence_def result_simps dest!: vertex_items_numbered exclusion_items_numbered)

lemma zone_to_rally_numbered: "zone_to_rally zone = Ok items \<Longrightarrow> numbered 0 2 items"
  by (auto simp: zone_to_rally_def result_simps)

text \<open>
  a zone's mission is numbered from 0 without gaps; it starts with the home position as the
  only current item, has the three or four commands before the waypoints, and then one waypoint
  command per planned waypoint, so that exactly the home item and the waypoints are navigation items.
\<close>

lemma zone_to_mission_shape:
  assumes "zone_to_mission zone ws = Ok items"
  shows "numbered 0 0 items
     \<and> length items = (if fence_enable (z_commands zone) then 4 else 3) + length ws
     \<and> map mi_current items = 1 # replicate (length items - 1) 0
     \<and> length (filter (\<lambda>it. mi_command it = MAV_CMD_NAV_WAYPOINT) items) = Suc (length ws)"
proof -
  from assms obtain xy wi where wi: "waypoint_items (length (mission_prologue zone xy)) ws = Ok wi"
    and items: "items = mission_prologue zone xy @ wi"
    by (auto simp: zone_to_mission_def result_simps Let_def)
  note w = waypoint_items_numbered [OF wi]
  have "map mi_current wi = map (\<lambda>_. 0) wi" using w by (simp add: list_all_iff)
  then have cur: "map mi_current wi = replicate (length wi) 0" by (simp add: map_replicate_const)
  have "filter (\<lambda>it. mi_command it = MAV_CMD_NAV_WAYPOINT) wi = wi"
    using w by (auto simp: list_all_iff)
  with w cur zone_to_mission_numbered [OF assms] show ?thesis
    by (auto simp: items mission_prologue_def MAV_CMD_NAV_WAYPOINT_def MAV_CMD_DO_CHANGE_SPEED_def
        MAV_CMD_DO_SET_RESUME_REPEAT_DIST_def MAV_CMD_DO_FENCE_ENABLE_def)
qed

section \<open>Coordinates\<close>

lemma lat_ok_Fin: "lat_ok v \<Longrightarrow> \<exists>x. v = Fin x \<and> \<bar>x\<bar> \<le> 90"
  by (cases v) (auto simp: lat_ok_def)

lemma lon_ok_Fin: "lon_ok v \<Longrightarrow> \<exists>x. v = Fin x \<and> \<bar>x\<bar> \<le> 180"
  by (cases v) (auto simp: lon_ok_def)

text \<open>One coordinate: the wire integer is the scaled coordinate, cut towards zero, up to the rounding of one multiplication.\<close>

lemma scaled_coordinate:
  assumes "\<bar>x\<bar> \<le> 180"
  shows "\<exists>n. int_of_float (fmul (Fin x) (Fin 10000000)) = Ok n
     \<and> \<bar>of_int n - x * 10000000\<bar> < 1 + 1 / 1000000 \<and> \<bar>n\<bar> \<le> 1800000001"
proof -
  let ?y = "x * 10000000"
  have y: "\<bar>?y\<bar> \<le> 1800000000" using assms by (simp add: abs_mult)
  have close: "\<bar>fl ?y - ?y\<bar> \<le> 1 / 1000000"
    using fl_close [of ?y] y by (simp add: field_simps)
  then have "\<bar>fl ?y\<bar> < 4294967296" using y by linarith
  also have "(4294967296 :: rat) < 2 ^ 1024" by simp
  finally have "\<bar>fl ?y\<bar> < 2 ^ 1024" .
  then have "int_of_float (fmul (Fin x) (Fin 10000000)) = Ok (trunc (fl ?y))" by (simp add: rnd_finite)
  moreover have "\<bar>of_int (trunc (fl ?y)) - ?y\<bar> < 1 + 1 / 1000000"
    using trunc_error [of "fl ?y"] close by linarith
  moreover from this y have "\<bar>of_int (trunc (fl ?y)) :: rat\<bar> < 1800000002" by linarith
  then have "\<bar>trunc (fl ?y)\<bar> \<le> 1800000001" by (simp add: abs_less_iff) linarith
  ultimately show ?thesis by blast
qed

definition in_int32 :: "int \<Rightarrow> bool" where
  "in_int32 n \<longleftrightarrow> - (2 ^ 31) \<le> n \<and> n < 2 ^ 31"

definition in_range :: "latlon \<Rightarrow> bool" where
  "in_range p \<longleftrightarrow> lat_ok (ll_lat p) \<and> lon_ok (ll_lon p)"

text \<open>A wire coordinate that fits its field and is within one unit of the coordinate it stands for.\<close>

definition wire_near :: "pyfloat \<Rightarrow> int \<Rightarrow> bool" where
  "wire_near v n \<longleftrightarrow> in_int32 n
     \<and> (\<exists>x. v = Fin x \<and> \<bar>of_int n - x * 10000000\<bar> < 1 + 1 / 1000000)"

definition near_item :: "latlon \<Rightarrow> mission_item \<Rightarrow> bool" where
  "near_item p it \<longleftrightarrow> wire_near (ll_lat p) (mi_x it) \<and> wire_near (ll_lon p) (mi_y it)"

lemma near_make_item [simp]:
  "near_item p (make_item sq c p1 p2 xy mt cur) \<longleftrightarrow> wire_near (ll_lat p) (fst xy) \<and> wire_near (ll_lon p) (snd xy)"
  by (simp add: near_item_def)

lemma latlng_to_int32_near:
  assumes "lat_ok lat" and "lon_ok lon"
  shows "\<exists>xy. latlng_to_int32 lat lon = Ok xy \<and> wire_near lat (fst xy) \<and> wire_near lon (snd xy)"
proof -
  obtain a b where ab: "lat = Fin a" "\<bar>a\<bar> \<le> 180" "lon = Fin b" "\<bar>b\<bar> \<le> 180"
    using lat_ok_Fin [OF assms(1)] lon_ok_Fin [OF assms(2)] by force
  obtain m where "int_of_float (fmul (Fin a) (Fin 10000000)) = Ok m"
    "\<bar>of_int m - a * 10000000\<bar> < 1 + 1 / 1000000" "\<bar>m\<bar> \<le> 1800000001"
    using scaled_coordinate [OF ab(2)] by blast
  moreover obtain n where "int_of_float (fmul (Fin b) (Fin 10000000)) = Ok n"
    "\<bar>of_int n - b * 10000000\<bar> < 1 + 1 / 1000000" "\<bar>n\<bar> \<le> 1800000001"
    using scaled_coordinate [OF ab(4)] by blast
  ultimately show ?thesis
    unfolding latlng_to_int32_def ab wire_near_def in_int32_def by (intro exI [of _ "(m, n)"]) auto
qed

lemma waypoint_items_near:
  "list_all in_range ws \<Longrightarrow> \<exists>items. waypoint_items sq ws = Ok items \<and> list_all2 near_item ws items"
proof (induction ws arbitrary: sq)
  case (Cons w ws)
  then obtain xy where "latlng_to_int32 (ll_lat w) (ll_lon w) = Ok xy"
    "wire_near (ll_lat w) (fst xy)" "wire_near (ll_lon w) (snd xy)"
    using latlng_to_int32_near [of "ll_lat w" "ll_lon w"] by (auto simp: in_range_def)
  moreover obtain items where "waypoint_items (Suc sq) ws = Ok items" "list_all2 near_item ws items"
    using Cons by auto
  ultimately show ?case by auto
qed simp

lemma vertex_items_near:
  "list_all in_range vs \<Longrightarrow> \<exists>items. vertex_items c n i sq vs = Ok items \<and> list_all2 near_item vs items"
proof (induction vs arbitrary: i sq)
  case (Cons v vs)
  then obtain xy where "latlng_to_int32 (ll_lat v) (ll_lon v) = Ok xy"
    "wire_near (ll_lat v) (fst xy)" "wire_near (ll_lon v) (snd xy)"
    using latlng_to_int32_near [of "ll_lat v" "ll_lon v"] by (auto simp: in_range_def)
  moreover obtain items where "vertex_items c n (Suc i) (Suc sq) vs = Ok items" "list_all2 near_item vs items"
    using Cons by fastforce
  ultimately show ?case by auto
qed simp

lemma exclusion_items_near:
  "list_all (\<lambda>z. list_all in_range (ez_polygon z)) zs \<Longrightarrow>
     \<exists>items. exclusion_items sq zs = Ok items \<and> list_all2 near_item (concat (map ez_polygon zs)) items"
proof (induction zs arbitrary: sq)
  case (Cons z zs)
  then obtain a where "vertex_items MAV_CMD_FENCE_EXCLUSION (length (ez_polygon z)) 0 sq (ez_polygon z) = Ok a"
    "list_all2 near_item (ez_polygon z) a" using vertex_items_near by fastforce
  moreover obtain b where "exclusion_items (sq + length (ez_polygon z)) zs = Ok b"
    "list_all2 near_item (concat (map ez_polygon zs)) b" using Cons by fastforce
  ultimately show ?case by (auto intro: list_all2_appendI)
qed simp

definition zone_vertices :: "zone_config \<Rightarrow> latlon list" where
  "zone_vertices zone = z_boundary zone @ concat (map ez_polygon (z_exclusion_zones zone))"

text \<open>
  for a zone whose validation reports no error and whose exclusion vertices are in range, the
  fence conversion succeeds, and every fence item is the vertex at its place, within one unit of its
  coordinates and inside the 32-bit field.
\<close>

lemma zone_to_fence_near:
  assumes "filter is_error (validate_zone_config G zone) = []"
    and "list_all (\<lambda>z. list_all in_range (ez_polygon z)) (z_exclusion_zones zone)"
  shows "\<exists>items. zone_to_fence zone = Ok items \<and> numbered 0 1 items
     \<and> list_all2 near_item (zone_vertices zone) items"
proof -
  from assms(1) have "list_all in_range (z_boundary zone)"
    by (simp add: no_error_iff list_all_iff in_range_def)
  then obtain a where a: "vertex_items MAV_CMD_FENCE_INCLUSION (length (z_boundary zone)) 0 0 (z_boundary zone) = Ok a"
    "list_all2 near_item (z_boundary zone) a" using vertex_items_near by blast
  obtain b where b: "exclusion_items (length (z_boundary zone)) (z_exclusion_zones zone) = Ok b"
    "list_all2 near_item (concat (map ez_polygon (z_exclusion_zones zone))) b"
    using exclusion_items_near [OF assms(2)] by blast
  have ok: "zone_to_fence zone = Ok (a @ b)" using a b by (simp add: zone_to_fence_def)
  moreover have "list_all2 near_item (zone_vertices zone) (a @ b)"
    unfolding zone_vertices_def using a b by (intro list_all2_appendI)
  ultimately show ?thesis using zone_to_fence_numbered by blast
qed

text \<open>
  for a zone without validation errors and waypoints in range, the mission conversion succeeds,
  and its navigation items are the home position and the waypoints in order, each within one unit.
\<close>

lemma zone_to_mission_near:
  assumes "filter is_error (validate_zone_config G zone) = []" and "list_all in_range ws"
  shows "\<exists>items. zone_to_mission zone ws = Ok items
     \<and> list_all2 near_item (z_home zone # ws)
         (filter (\<lambda>it. mi_command it = MAV_CMD_NAV_WAYPOINT) items)"
proof -
  from assms(1) have "lat_ok (ll_lat (z_home zone))" "lon_ok (ll_lon (z_home zone))"
    by (simp_all add: no_error_iff)
  then obtain xy where xy: "latlng_to_int32 (ll_lat (z_home zone)) (ll_lon (z_home zone)) = Ok xy"
    "wire_near (ll_lat (z_home zone)) (fst xy)" "wire_near (ll_lon (z_home zone)) (snd xy)"
    using latlng_to_int32_near by blast
  obtain wi where wi: "waypoint_items (length (mission_prologue zone xy)) ws = Ok wi" "list_all2 near_item ws wi"
    using waypoint_items_near [OF assms(2)] by blast
  have "filter (\<lambda>it. mi_command it = MAV_CMD_NAV_WAYPOINT) wi = wi"
    using waypoint_items_numbered [OF wi(1)] by (auto simp: list_all_iff)
  moreover have "zone_to_mission zone ws = Ok (mission_prologue zone xy @ wi)"
    using xy wi by (simp add: zone_to_mission_def Let_def)
  ultimately show ?thesis using xy wi
    by (auto simp: mission_prologue_def MAV_CMD_NAV_WAYPOINT_def MAV_CMD_DO_CHANGE_SPEED_def
        MAV_CMD_DO_SET_RESUME_REPEAT_DIST_def MAV_CMD_DO_FENCE_ENABLE_def)
qed

section \<open>The fence on the wire\<close>

definition wire_xy :: "mission_item \<Rightarrow> int \<times> int" where
  "wire_xy it = (mi_x it, mi_y it)"

text \<open>What the first parameters of a polygon's items hold: the number of its vertices, then zeros.\<close>

fun counted :: "latlon list \<Rightarrow> pyfloat list" where
  "counted [] = []"
| "counted (v # vs) = rnd (of_nat (Suc (length vs))) # replicate (length vs) (Fin 0)"

lemma vertex_items_fields:
  "vertex_items c n i sq vs = Ok items \<Longrightarrow> map mi_command items = replicate (length vs) c
     \<and> (0 < i \<longrightarrow> map mi_param1 items = replicate (length vs) (Fin 0))"
  by (induction c n i sq vs arbitrary: items rule: vertex_items.induct) (auto simp: result_simps)

lemma polygon_items_fields:
  "vertex_items c (length vs) 0 sq vs = Ok items \<Longrightarrow>
     map mi_command items = replicate (length vs) c \<and> map mi_param1 items = counted vs"
  by (cases vs) (auto simp: result_simps dest!: vertex_items_fields)

lemma exclusion_items_fields:
  "exclusion_items sq zs = Ok items \<Longrightarrow>
     map mi_command items = replicate (length (concat (map ez_polygon zs))) MAV_CMD_FENCE_EXCLUSION
     \<and> map mi_param1 items = concat (map (counted \<circ> ez_polygon) zs)"
  by (induction sq zs arbitrary: items rule: exclusion_items.induct)
    (auto simp: result_simps replicate_add dest!: polygon_items_fields)

text \<open>
  C28: for a zone whose validation reports no error and whose exclusion vertices are in range, the
  fence conversion succeeds. Its items are numbered from 0 without gaps, one for every vertex, first of
  the boundary and then of the exclusion zones, in order; each is within one wire unit of its vertex
  and inside the 32-bit fields, and says whether its polygon is to be kept in or kept out of. The first item of
  every polygon carries the number of its vertices, the others zero.
\<close>

theorem zone_to_fence_vertices:
  assumes "filter is_error (validate_zone_config G zone) = []"
    and "list_all (\<lambda>z. list_all in_range (ez_polygon z)) (z_exclusion_zones zone)"
  shows "\<exists>items. zone_to_fence zone = Ok items \<and> numbered 0 1 items
     \<and> list_all2 near_item (z_boundary zone @ concat (map ez_polygon (z_exclusion_zones zone))) items
     \<and> map mi_command items = replicate (length (z_boundary zone)) MAV_CMD_FENCE_INCLUSION
         @ replicate (length (concat (map ez_polygon (z_exclusion_zones zone)))) MAV_CMD_FENCE_EXCLUSION
     \<and> map mi_param1 items = counted (z_boundary zone) @ concat (map (counted \<circ> ez_polygon) (z_exclusion_zones zone))"
proof -
  obtain items where ok: "zone_to_fence zone = Ok items" "numbered 0 1 items"
    "list_all2 near_item (zone_vertices zone) items" using zone_to_fence_near [OF assms] by blast
  then obtain a b where
    "vertex_items MAV_CMD_FENCE_INCLUSION (length (z_boundary zone)) 0 0 (z_boundary zone) = Ok a"
    "exclusion_items (length (z_boundary zone)) (z_exclusion_zones zone) = Ok b" "items = a @ b"
    by (auto simp: zone_to_fence_def result_simps)
  with ok show ?thesis using polygon_items_fields exclusion_items_fields by (auto simp: zone_vertices_def)
qed

section \<open>The sample zone\<close>

lemma sample_wire:
  "latlng_to_int32 (Fin 1) (Fin 1) = Ok (10000000, 10000000)"
  "latlng_to_int32 (Fin 1) (Fin 2) = Ok (10000000, 20000000)"
  "latlng_to_int32 (Fin 2) (Fin 1) = Ok (20000000, 10000000)"
  by (simp_all add: latlng_to_int32_def float_eval)

lemma sample_no_errors: "filter is_error (validate_zone_config any_geometry sample_zone) = []"
  by (simp add: no_error_iff sample_zone_def sample_boundary_def lat_ok_def lon_ok_def)

theorem zone_to_fence_vertices_witness:
  "\<exists>items. zone_to_fence sample_zone = Ok items \<and> list_all2 near_item sample_boundary items
     \<and> map mi_param1 items = [Fin 3, Fin 0, Fin 0]"
proof -
  have "rnd (of_nat 3) = Fin 3" by (simp add: float_eval)
  then have "counted sample_boundary = [Fin 3, Fin 0, Fin 0]" by (simp add: sample_boundary_def numeral_3_eq_3)
  with zone_to_fence_vertices [OF sample_no_errors] show ?thesis
    by (auto simp: sample_zone_def)
qed

end
