(* ===== verification/Planner.thy ===== *)
theory Planner
  imports ZoneConfig "HOL-Library.While_Combinator"
begin

text \<open>
  The coverage planner, \<open>zone/planner.py\<close>: projection to the plane, headland passes, the
  boustrophedon fill with its sweep loop, and their composition into waypoints. Shapely and pyproj
  are arguments (records of the operations the planner calls; \<open>None\<close> is an exception), as are
  \<open>math.cos\<close>, \<open>math.sin\<close> (which raise on an infinity), \<open>math.radians\<close> and the interpreter's \<open>sum\<close> of floats. The sweep
  loop steps a float and need not end: its value is an option, \<open>None\<close> for a loop that never
  returns. The properties give the cutting widths and the areas for which it ends and the distances
  between neighbouring lines.
\<close>

type_synonym point = "pyfloat \<times> pyfloat"

text \<open>
  What the planner looks at in a geometry: a polygon with its rings (closed, the first point
  repeated), several parts, or anything else; and the outcome of clipping a line.
\<close>

datatype 'g view = PolygonView "point list" "point list list" | PartsView "'g list" | OtherView

datatype clip = ClipEmpty | ClipLine "point list" | ClipLines "point list list" | ClipOther

record 'g shapely =
  sh_polygon :: "point list \<Rightarrow> 'g option"
  sh_is_valid :: "'g \<Rightarrow> bool"
  sh_is_empty :: "'g \<Rightarrow> bool"
  sh_area :: "'g \<Rightarrow> pyfloat"
  sh_view :: "'g \<Rightarrow> 'g view"
  sh_buffer :: "'g \<Rightarrow> pyfloat \<Rightarrow> 'g option"
  sh_difference :: "'g \<Rightarrow> 'g \<Rightarrow> 'g option"
  sh_bounds :: "'g \<Rightarrow> pyfloat \<times> pyfloat \<times> pyfloat \<times> pyfloat"
  sh_rotate :: "'g \<Rightarrow> pyfloat \<Rightarrow> point \<Rightarrow> 'g option"
  sh_clip :: "'g \<Rightarrow> point \<Rightarrow> point \<Rightarrow> clip option"

text \<open>The transforms of a UTM zone and hemisphere (north or not), on parallel coordinate lists.\<close>

record pyproj =
  pj_to_utm :: "int \<Rightarrow> bool \<Rightarrow> pyfloat list \<Rightarrow> pyfloat list \<Rightarrow> (pyfloat list \<times> pyfloat list) option"
  pj_to_wgs84 :: "int \<Rightarrow> bool \<Rightarrow> pyfloat list \<Rightarrow> pyfloat list \<Rightarrow> (pyfloat list \<times> pyfloat list) option"

record floatlib =
  fl_sum :: "pyfloat list \<Rightarrow> pyfloat"
  fl_cos :: "pyfloat \<Rightarrow> pyfloat option"
  fl_sin :: "pyfloat \<Rightarrow> pyfloat option"
  fl_radians :: "pyfloat \<Rightarrow> pyfloat"

text \<open>\<open>BadWidth\<close> is the guard before the \<open>try\<close>; every exception inside it becomes \<open>PlanFailed\<close>.\<close>

datatype planner_error = BadWidth | PlanFailed

type_synonym 'a plan = "(planner_error, 'a) result"

section \<open>Projection\<close>

record projector =
  utm_zone :: int
  hemisphere_north :: bool

definition mean :: "floatlib \<Rightarrow> pyfloat list \<Rightarrow> pyfloat" where
  "mean M xs = fquot (fl_sum M xs) (fint (int (length xs)))"

definition geodetic_projector :: "floatlib \<Rightarrow> latlon list \<Rightarrow> projector plan" where
  "geodetic_projector M ps =
     (if ps = [] then Err PlanFailed
      else bindr (map_err (\<lambda>e. PlanFailed)
             (int_of_float (fquot (fadd (mean M (map ll_lon ps)) (Fin 180)) (Fin 6)))) (\<lambda>k.
           Ok \<lparr>utm_zone = k + 1, hemisphere_north = fle (Fin 0) (mean M (map ll_lat ps))\<rparr>))"

definition to_planar :: "pyproj \<Rightarrow> projector \<Rightarrow> latlon list \<Rightarrow> point list plan" where
  "to_planar P pr ps =
     (if ps = [] then Ok []
      else bindr (of_opt PlanFailed (pj_to_utm P (utm_zone pr) (hemisphere_north pr) (map ll_lon ps) (map ll_lat ps)))
        (\<lambda>(xs, ys). Ok (zip xs ys)))"

definition to_geodetic :: "pyproj \<Rightarrow> projector \<Rightarrow> point list \<Rightarrow> latlon list plan" where
  "to_geodetic P pr xys =
     (if xys = [] then Ok []
      else bindr (of_opt PlanFailed (pj_to_wgs84 P (utm_zone pr) (hemisphere_north pr) (map fst xys) (map snd xys)))
        (\<lambda>(lons, lats). Ok (map (\<lambda>(lat, lon). \<lparr>ll_lat = lat, ll_lon = lon\<rparr>) (zip lats lons))))"

section \<open>Headland passes\<close>

text \<open>\<open>cutting_width_m * (1.0 - overlap_pct / 100.0)\<close>\<close>

definition line_spacing :: "pyfloat \<Rightarrow> pyfloat \<Rightarrow> pyfloat" where
  "line_spacing width overlap = fmul width (fsub (Fin 1) (fquot overlap (Fin 100)))"

definition repair :: "'g shapely \<Rightarrow> 'g \<Rightarrow> 'g plan" where
  "repair S g = (if sh_is_valid S g then Ok g else of_opt PlanFailed (sh_buffer S g (Fin 0)))"

fun subtract_exclusions :: "'g shapely \<Rightarrow> ('g \<Rightarrow> 'g plan) \<Rightarrow> 'g \<Rightarrow> point list list \<Rightarrow> 'g plan" where
  "subtract_exclusions S fix_ring g [] = Ok g"
| "subtract_exclusions S fix_ring g (ring # rings) =
     bindr (of_opt PlanFailed (sh_polygon S ring)) (\<lambda>e0.
     bindr (fix_ring e0) (\<lambda>e.
     bindr (of_opt PlanFailed (sh_buffer S e (Fin (1 / 2)))) (\<lambda>b.
     bindr (of_opt PlanFailed (sh_difference S g b)) (\<lambda>g'.
     subtract_exclusions S fix_ring g' rings))))"

text \<open>The outer ring and the holes, each without its repeated last point, empty ones left out.\<close>

definition ring_passes :: "point list \<Rightarrow> point list list \<Rightarrow> point list list" where
  "ring_passes ext holes = filter (\<lambda>c. c \<noteq> []) (map butlast (ext # holes))"

definition part_passes :: "'g shapely \<Rightarrow> 'g \<Rightarrow> point list list" where
  "part_passes S g =
     (case sh_view S g of
        PolygonView ext holes \<Rightarrow> if fgt (sh_area S g) (Fin 1) then ring_passes ext holes else []
      | _ \<Rightarrow> [])"

definition poly_passes :: "'g shapely \<Rightarrow> 'g \<Rightarrow> point list list" where
  "poly_passes S g =
     (case sh_view S g of
        PolygonView ext holes \<Rightarrow> ring_passes ext holes
      | PartsView gs \<Rightarrow> concat (map (part_passes S) gs)
      | OtherView \<Rightarrow> [])"

fun headland_loop :: "'g shapely \<Rightarrow> pyfloat \<Rightarrow> nat \<Rightarrow> 'g \<Rightarrow> point list list plan" where
  "headland_loop S inset 0 g = Ok []"
| "headland_loop S inset (Suc n) g =
     (if sh_is_empty S g \<or> flt (sh_area S g) (Fin 1) then Ok []
      else bindr (of_opt PlanFailed (sh_buffer S g (fneg inset))) (\<lambda>g'.
           if sh_is_empty S g' then Ok (poly_passes S g)
           else bindr (headland_loop S inset n g') (\<lambda>ps. Ok (poly_passes S g @ ps))))"

definition generate_headland_passes ::
  "'g shapely \<Rightarrow> point list \<Rightarrow> point list list \<Rightarrow> pyfloat \<Rightarrow> pyfloat \<Rightarrow> int \<Rightarrow> point list list plan" where
  "generate_headland_passes S boundary_xy exclusions_xy width overlap num_passes =
     (if num_passes \<le> 0 then Ok []
      else bindr (of_opt PlanFailed (sh_polygon S boundary_xy)) (\<lambda>b0.
           bindr (repair S b0) (\<lambda>b.
           bindr (subtract_exclusions S (repair S) b exclusions_xy) (\<lambda>mowable.
           if sh_is_empty S mowable then Ok []
           else headland_loop S (line_spacing width overlap) (nat num_passes) mowable))))"

section \<open>Boustrophedon fill\<close>

record sweep =
  sw_waypoints :: "point list"
  sw_y :: pyfloat
  sw_forward :: bool

record frame =
  fr_minx :: pyfloat
  fr_miny :: pyfloat
  fr_maxx :: pyfloat
  fr_maxy :: pyfloat

definition clip_points :: "bool \<Rightarrow> clip \<Rightarrow> point list" where
  "clip_points forward c =
     (case c of
        ClipEmpty \<Rightarrow> []
      | ClipLine pts \<Rightarrow> pts
      | ClipLines segs \<Rightarrow> if forward then concat segs else concat (map rev (rev segs))
      | ClipOther \<Rightarrow> [])"

definition sweep_line :: "'g shapely \<Rightarrow> 'g \<Rightarrow> frame \<Rightarrow> pyfloat \<Rightarrow> bool \<Rightarrow> point list plan" where
  "sweep_line S g f y forward =
     (let l = (fsub (fr_minx f) (Fin 10), y); r = (fadd (fr_maxx f) (Fin 10), y)
      in bindr (of_opt PlanFailed (if forward then sh_clip S g l r else sh_clip S g r l))
           (\<lambda>c. Ok (clip_points forward c)))"

definition sweep_guard :: "frame \<Rightarrow> pyfloat \<Rightarrow> sweep \<Rightarrow> bool" where
  "sweep_guard f spacing s \<longleftrightarrow> fle (sw_y s) (fsub (fr_maxy f) (fquot spacing (Fin 2)))"

definition sweep_step :: "'g shapely \<Rightarrow> 'g \<Rightarrow> frame \<Rightarrow> pyfloat \<Rightarrow> sweep \<Rightarrow> sweep plan" where
  "sweep_step S g f spacing s =
     bindr (sweep_line S g f (sw_y s) (sw_forward s)) (\<lambda>pts.
     Ok \<lparr>sw_waypoints = sw_waypoints s @ pts, sw_y = fadd (sw_y s) spacing, sw_forward = \<not> sw_forward s\<rparr>)"

definition sweep_start :: "frame \<Rightarrow> pyfloat \<Rightarrow> sweep" where
  "sweep_start f spacing =
     \<lparr>sw_waypoints = [], sw_y = fadd (fr_miny f) (fquot spacing (Fin 2)), sw_forward = True\<rparr>"

text \<open>The loop runs on results: an exception in its body leaves it.\<close>

definition sweep_loop :: "'g shapely \<Rightarrow> 'g \<Rightarrow> frame \<Rightarrow> pyfloat \<Rightarrow> sweep plan option" where
  "sweep_loop S g f spacing =
     while_option (\<lambda>r. case r of Inl e \<Rightarrow> False | Inr s \<Rightarrow> sweep_guard f spacing s)
       (\<lambda>r. bindr r (sweep_step S g f spacing)) (Ok (sweep_start f spacing))"

definition rotate_back :: "floatlib \<Rightarrow> pyfloat \<Rightarrow> pyfloat \<Rightarrow> pyfloat \<Rightarrow> point \<Rightarrow> point plan" where
  "rotate_back M angle minx miny p =
     bindr (of_opt PlanFailed (fl_cos M (fl_radians M angle))) (\<lambda>c.
     bindr (of_opt PlanFailed (fl_sin M (fl_radians M angle))) (\<lambda>s.
     let tx = fsub (fst p) minx; ty = fsub (snd p) miny
     in Ok (fadd (fsub (fmul tx c) (fmul ty s)) minx, fadd (fadd (fmul tx s) (fmul ty c)) miny)))"

definition frame_of :: "'g shapely \<Rightarrow> 'g \<Rightarrow> frame" where
  "frame_of S g = (case sh_bounds S g of (x0, y0, x1, y1) \<Rightarrow>
     \<lparr>fr_minx = x0, fr_miny = y0, fr_maxx = x1, fr_maxy = y1\<rparr>)"

definition finish_fill :: "floatlib \<Rightarrow> pyfloat \<Rightarrow> frame \<Rightarrow> point list \<Rightarrow> point list plan" where
  "finish_fill M angle f pts =
     (if angle \<noteq> Fin 0 then mapr (rotate_back M angle (fr_minx f) (fr_miny f)) pts else Ok pts)"

definition generate_boustrophedon_fill ::
  "'g shapely \<Rightarrow> floatlib \<Rightarrow> 'g \<Rightarrow> pyfloat \<Rightarrow> pyfloat \<Rightarrow> pyfloat \<Rightarrow> point list plan option" where
  "generate_boustrophedon_fill S M g width overlap angle =
     (if sh_is_empty S g \<or> flt (sh_area S g) (Fin 1) then Some (Ok [])
      else (case sh_rotate S g (fneg angle) (fr_minx (frame_of S g), fr_miny (frame_of S g)) of
              None \<Rightarrow> Some (Err PlanFailed)
            | Some rg \<Rightarrow>
                map_option (\<lambda>r. bindr r (\<lambda>s. finish_fill M angle (frame_of S g) (sw_waypoints s)))
                  (sweep_loop S rg (frame_of S rg) (line_spacing width overlap))))"

section \<open>Waypoints\<close>

fun inset_loop :: "'g shapely \<Rightarrow> pyfloat \<Rightarrow> nat \<Rightarrow> 'g \<Rightarrow> 'g plan" where
  "inset_loop S inset 0 g = Ok g"
| "inset_loop S inset (Suc n) g =
     bindr (of_opt PlanFailed (sh_buffer S g (fneg inset))) (\<lambda>g'.
     if sh_is_empty S g' then Ok g' else inset_loop S inset n g')"

definition innermost :: "'g shapely \<Rightarrow> point list \<Rightarrow> point list list \<Rightarrow> pyfloat \<Rightarrow> int \<Rightarrow> 'g plan" where
  "innermost S boundary_xy exclusions_xy inset n =
     bindr (of_opt PlanFailed (sh_polygon S boundary_xy)) (\<lambda>b.
     bindr (subtract_exclusions S Ok b exclusions_xy) (\<lambda>mowable.
     inset_loop S inset (nat n) mowable))"

definition fill_area ::
  "'g shapely \<Rightarrow> floatlib \<Rightarrow> coverage_params \<Rightarrow> pyfloat \<Rightarrow> 'g \<Rightarrow> point list plan option" where
  "fill_area S M cv width g =
     (if \<not> sh_is_empty S g \<and> fgt (sh_area S g) (Fin 1)
      then generate_boustrophedon_fill S M g width (overlap_pct cv) (angle_deg cv)
      else Some (Ok []))"

text \<open>Sequencing where the second part may never return.\<close>

definition then_maybe :: "'a plan \<Rightarrow> ('a \<Rightarrow> 'b plan option) \<Rightarrow> 'b plan option" where
  "then_maybe r k = (case r of Inl e \<Rightarrow> Some (Err e) | Inr a \<Rightarrow> k a)"

definition generate_waypoints ::
  "'g shapely \<Rightarrow> pyproj \<Rightarrow> floatlib \<Rightarrow> zone_config \<Rightarrow> latlon list plan option" where
  "generate_waypoints S P M zone =
     (let cv = z_coverage zone in
      if fle (cutting_width_in cv) (Fin 0) then Some (Err BadWidth)
      else
        then_maybe (geodetic_projector M (z_boundary zone)) (\<lambda>pr.
        then_maybe (to_planar P pr (z_boundary zone)) (\<lambda>boundary_xy.
        then_maybe (mapr (\<lambda>e. to_planar P pr (ez_polygon e)) (z_exclusion_zones zone)) (\<lambda>exclusions_xy.
        let width = fmul (cutting_width_in cv) (rnd (254 / 10000)) in
        then_maybe (generate_headland_passes S boundary_xy exclusions_xy width (overlap_pct cv)
                      (headland_passes cv)) (\<lambda>passes.
        case (if passes \<noteq> []
              then then_maybe (innermost S boundary_xy exclusions_xy (line_spacing width (overlap_pct cv))
                                 (headland_passes cv)) (fill_area S M cv width)
              else Some (Ok [])) of
          None \<Rightarrow> None
        | Some fill \<Rightarrow>
            Some (bindr fill (\<lambda>pts.
              if concat passes @ pts = [] then Ok [] else to_geodetic P pr (concat passes @ pts))))))))"

section \<open>The sweep loop\<close>

lemma while_option_least:
  assumes "\<not> b ((c ^^ n) s)"
  obtains m where "m \<le> n" "while_option b c s = Some ((c ^^ m) s)" "\<not> b ((c ^^ m) s)"
    "\<And>k. k < m \<Longrightarrow> b ((c ^^ k) s)"
proof -
  define m where "m = (LEAST k. \<not> b ((c ^^ k) s))"
  have "m \<le> n" unfolding m_def using assms by (rule Least_le)
  moreover have "\<not> b ((c ^^ m) s)" unfolding m_def using LeastI [of "\<lambda>k. \<not> b ((c ^^ k) s)", OF assms] .
  moreover have "b ((c ^^ k) s)" if "k < m" for k using that not_less_Least unfolding m_def by blast
  moreover have "while_option b c s = Some ((c ^^ m) s)"
    using assms by (auto simp: while_option_def m_def)
  ultimately show ?thesis using that by blast
qed

definition sweep_y :: "frame \<Rightarrow> pyfloat \<Rightarrow> nat \<Rightarrow> pyfloat" where
  "sweep_y f spacing k = ((\<lambda>y. fadd y spacing) ^^ k) (sw_y (sweep_start f spacing))"

definition line_open :: "frame \<Rightarrow> pyfloat \<Rightarrow> nat \<Rightarrow> bool" where
  "line_open f spacing k \<longleftrightarrow> fle (sweep_y f spacing k) (fsub (fr_maxy f) (fquot spacing (Fin 2)))"

definition sweep_lines :: "'g shapely \<Rightarrow> 'g \<Rightarrow> frame \<Rightarrow> pyfloat \<Rightarrow> nat \<Rightarrow> point list list plan" where
  "sweep_lines S g f spacing n = mapr (\<lambda>k. sweep_line S g f (sweep_y f spacing k) (even k)) [0..<n]"

lemma sweep_lines_Suc:
  "sweep_lines S g f spacing (Suc n) =
     bindr (sweep_lines S g f spacing n) (\<lambda>ps.
     bindr (sweep_line S g f (sweep_y f spacing n) (even n)) (\<lambda>p. Ok (ps @ [p])))"
  by (simp add: sweep_lines_def mapr_append bindr_assoc)

lemma sweep_lines_error:
  "sweep_lines S g f spacing m = Err e \<Longrightarrow> m \<le> n \<Longrightarrow> sweep_lines S g f spacing n = Err e"
  by (rotate_tac, induction n rule: nat_induct_at_least) (simp_all add: sweep_lines_Suc)

lemma sweep_state:
  "((\<lambda>r. bindr r (sweep_step S g f spacing)) ^^ k) (Ok (sweep_start f spacing)) =
     bindr (sweep_lines S g f spacing k) (\<lambda>ps.
     Ok \<lparr>sw_waypoints = concat ps, sw_y = sweep_y f spacing k, sw_forward = even k\<rparr>)"
proof (induction k)
  case 0
  show ?case by (simp add: sweep_lines_def sweep_y_def sweep_start_def)
next
  case (Suc k)
  then show ?case
    by (simp add: sweep_step_def sweep_lines_Suc bindr_assoc sweep_y_def)
qed

lemma sweep_loop_lines:
  assumes stop: "\<not> line_open f spacing n" and opened: "\<And>k. k < n \<Longrightarrow> line_open f spacing k"
  shows "sweep_loop S g f spacing = Some (bindr (sweep_lines S g f spacing n) (\<lambda>ps.
     Ok \<lparr>sw_waypoints = concat ps, sw_y = sweep_y f spacing n, sw_forward = even n\<rparr>))"
proof -
  let ?b = "\<lambda>r. case r of Inl e \<Rightarrow> False | Inr s \<Rightarrow> sweep_guard f spacing s"
  let ?c = "\<lambda>r. bindr r (sweep_step S g f spacing)"
  have guard: "?b ((?c ^^ k) (Ok (sweep_start f spacing))) \<longleftrightarrow>
      is_ok (sweep_lines S g f spacing k) \<and> line_open f spacing k" for k
    unfolding sweep_state
    by (cases "sweep_lines S g f spacing k") (simp_all add: sweep_guard_def line_open_def)
  have "\<not> ?b ((?c ^^ n) (Ok (sweep_start f spacing)))" using guard stop by blast
  then obtain m where m: "m \<le> n" "sweep_loop S g f spacing = Some ((?c ^^ m) (Ok (sweep_start f spacing)))"
    "\<not> ?b ((?c ^^ m) (Ok (sweep_start f spacing)))"
    using while_option_least [where b = ?b and c = ?c] unfolding sweep_loop_def by metis
  show ?thesis
  proof (cases "m = n")
    case True
    then show ?thesis using m(2) by (simp add: sweep_state)
  next
    case False
    then obtain e where "sweep_lines S g f spacing m = Err e"
      using m(1,3) guard opened by (cases "sweep_lines S g f spacing m") (auto simp: le_less)
    moreover from this have "sweep_lines S g f spacing n = Err e" using m(1) by (rule sweep_lines_error)
    ultimately show ?thesis using m(2) by (simp add: sweep_state)
  qed
qed


section \<open>Distances\<close>

lemma rnd_near:
  assumes "\<bar>x\<bar> \<le> 10 ^ 9"
  shows "\<exists>y. rnd x = Fin y \<and> \<bar>y - x\<bar> \<le> \<bar>x\<bar> / 2 ^ 53 + 1 / 10 ^ 12"
proof -
  have "\<bar>x\<bar> \<le> 2 ^ 100" using assms by (rule order_trans) simp
  then have "\<bar>fl x\<bar> < 2 ^ 102" by (rule fl_bounded)
  then have "\<bar>fl x\<bar> < 2 ^ 1024" by (rule order.strict_trans2) simp
  then show ?thesis using rnd_finite fl_close by blast
qed

text \<open>The range of the coordinates (metres) and of the distance between lines.\<close>

definition in_range :: "frame \<Rightarrow> rat \<Rightarrow> rat \<Rightarrow> rat \<Rightarrow> bool" where
  "in_range f s a b \<longleftrightarrow> fr_miny f = Fin a \<and> fr_maxy f = Fin b \<and> \<bar>a\<bar> \<le> 10 ^ 8 \<and> \<bar>b\<bar> \<le> 10 ^ 8
     \<and> 1 / 10 ^ 4 \<le> s \<and> s \<le> 10 ^ 4"

lemma half_near:
  assumes "in_range f s a b"
  obtains h where "fquot (Fin s) (Fin 2) = Fin h" "\<bar>h - s / 2\<bar> \<le> 1 / 10 ^ 11" "\<bar>h\<bar> \<le> 10 ^ 5"
proof -
  have "\<bar>s / 2\<bar> \<le> 10 ^ 4" using assms by (simp add: in_range_def)
  then obtain h where "rnd (s / 2) = Fin h" "\<bar>h - s / 2\<bar> \<le> \<bar>s / 2\<bar> / 2 ^ 53 + 1 / 10 ^ 12"
    using rnd_near [of "s / 2"] by fastforce
  moreover have "\<bar>s / 2\<bar> / 2 ^ 53 + 1 / 10 ^ 12 \<le> (1 / 10 ^ 11 :: rat)"
    using \<open>\<bar>s / 2\<bar> \<le> 10 ^ 4\<close> by simp
  ultimately have h: "\<bar>h - s / 2\<bar> \<le> 1 / 10 ^ 11" "rnd (s / 2) = Fin h" by linarith+
  have "\<bar>h\<bar> \<le> \<bar>h - s / 2\<bar> + \<bar>s / 2\<bar>" by linarith
  also have "\<dots> \<le> 1 / 10 ^ 11 + 10 ^ 4" using h(1) \<open>\<bar>s / 2\<bar> \<le> 10 ^ 4\<close> by (rule add_mono)
  also have "\<dots> \<le> 10 ^ 5" by simp
  finally show ?thesis using that [of h] h by simp
qed

lemma sum_near:
  assumes "\<bar>x\<bar> \<le> 10 ^ 8 + 10 ^ 5" "\<bar>d\<bar> \<le> 10 ^ 5"
  obtains y where "fadd (Fin x) (Fin d) = Fin y" "\<bar>y - (x + d)\<bar> \<le> 1 / 10 ^ 7"
proof -
  have xd: "\<bar>x + d\<bar> \<le> 2 * 10 ^ 8" using assms by simp
  then obtain y where "rnd (x + d) = Fin y" "\<bar>y - (x + d)\<bar> \<le> \<bar>x + d\<bar> / 2 ^ 53 + 1 / 10 ^ 12"
    using rnd_near [of "x + d"] by fastforce
  moreover have "\<bar>x + d\<bar> / 2 ^ 53 + 1 / 10 ^ 12 \<le> (1 / 10 ^ 7 :: rat)" using xd by simp
  ultimately show ?thesis using that by simp
qed

lemma sweep_y_0:
  assumes "in_range f s a b"
  obtains y where "sweep_y f (Fin s) 0 = Fin y" "\<bar>y - (a + s / 2)\<bar> \<le> 1 / 10 ^ 6"
proof -
  obtain h where h: "fquot (Fin s) (Fin 2) = Fin h" "\<bar>h - s / 2\<bar> \<le> 1 / 10 ^ 11" "\<bar>h\<bar> \<le> 10 ^ 5"
    using half_near [OF assms] .
  have "\<bar>a\<bar> \<le> 10 ^ 8 + 10 ^ 5" "\<bar>h\<bar> \<le> 10 ^ 5" using assms h(3) by (auto simp: in_range_def)
  then obtain y where y: "fadd (Fin a) (Fin h) = Fin y" "\<bar>y - (a + h)\<bar> \<le> 1 / 10 ^ 7" by (rule sum_near)
  have "\<bar>y - (a + s / 2)\<bar> \<le> \<bar>y - (a + h)\<bar> + \<bar>h - s / 2\<bar>" by linarith
  also have "\<dots> \<le> 1 / 10 ^ 7 + 1 / 10 ^ 11" using y(2) h(2) by (rule add_mono)
  also have "\<dots> \<le> 1 / 10 ^ 6" by simp
  finally show ?thesis using that [of y] y(1) h(1) assms
    by (simp add: sweep_y_def sweep_start_def in_range_def)
qed

lemma line_open_limit:
  assumes "in_range f s a b"
  obtains l where "\<And>k y. sweep_y f (Fin s) k = Fin y \<Longrightarrow> line_open f (Fin s) k \<longleftrightarrow> y \<le> l"
    "\<bar>l - (b - s / 2)\<bar> \<le> 1 / 10 ^ 6"
proof -
  obtain h where h: "fquot (Fin s) (Fin 2) = Fin h" "\<bar>h - s / 2\<bar> \<le> 1 / 10 ^ 11" "\<bar>h\<bar> \<le> 10 ^ 5"
    using half_near [OF assms] .
  have "\<bar>b\<bar> \<le> 10 ^ 8 + 10 ^ 5" "\<bar>- h\<bar> \<le> 10 ^ 5" using assms h(3) by (auto simp: in_range_def)
  then obtain l where l: "fadd (Fin b) (Fin (- h)) = Fin l" "\<bar>l - (b + - h)\<bar> \<le> 1 / 10 ^ 7" by (rule sum_near)
  have "\<bar>l - (b - s / 2)\<bar> \<le> \<bar>l - (b + - h)\<bar> + \<bar>h - s / 2\<bar>" by linarith
  also have "\<dots> \<le> 1 / 10 ^ 7 + 1 / 10 ^ 11" using l(2) h(2) by (rule add_mono)
  also have "\<dots> \<le> 1 / 10 ^ 6" by simp
  finally show ?thesis using that [of l] l(1) h(1) assms
    by (simp add: line_open_def in_range_def fsub_def)
qed

lemma sweep_y_steps:
  assumes r: "in_range f s a b" and "\<And>k. k < n \<Longrightarrow> line_open f (Fin s) k"
  shows "\<exists>ys. (\<forall>k \<le> n. sweep_y f (Fin s) k = Fin (ys k)) \<and> \<bar>ys 0 - (a + s / 2)\<bar> \<le> 1 / 10 ^ 6
     \<and> (\<forall>k < n. \<bar>ys (Suc k) - (ys k + s)\<bar> \<le> 1 / 10 ^ 6) \<and> ys 0 + of_nat n * (s / 2) \<le> ys n"
  using assms(2)
proof (induction n)
  case 0
  obtain y where "sweep_y f (Fin s) 0 = Fin y" "\<bar>y - (a + s / 2)\<bar> \<le> 1 / 10 ^ 6" using sweep_y_0 [OF r] .
  then show ?case by (intro exI [of _ "\<lambda>k. y"]) simp
next
  case (Suc n)
  then obtain ys where ys: "\<forall>k \<le> n. sweep_y f (Fin s) k = Fin (ys k)" "\<bar>ys 0 - (a + s / 2)\<bar> \<le> 1 / 10 ^ 6"
    "\<forall>k < n. \<bar>ys (Suc k) - (ys k + s)\<bar> \<le> 1 / 10 ^ 6" "ys 0 + of_nat n * (s / 2) \<le> ys n" by auto
  obtain l where l: "\<And>k y. sweep_y f (Fin s) k = Fin y \<Longrightarrow> line_open f (Fin s) k \<longleftrightarrow> y \<le> l"
    "\<bar>l - (b - s / 2)\<bar> \<le> 1 / 10 ^ 6" using line_open_limit [OF r] by metis
  have s: "1 / 10 ^ 4 \<le> s" "s \<le> 10 ^ 4" "\<bar>a\<bar> \<le> 10 ^ 8" "\<bar>b\<bar> \<le> 10 ^ 8" using r by (auto simp: in_range_def)
  have "ys n \<le> l" using l(1) ys(1) Suc.prems by blast
  moreover have "0 \<le> of_nat n * (s / 2)" using s by simp
  then have "ys 0 \<le> ys n" using ys(4) by linarith
  ultimately have "\<bar>ys n\<bar> \<le> 10 ^ 8 + 10 ^ 5" using ys(2) l(2) s unfolding abs_le_iff by simp
  then obtain y where y: "fadd (Fin (ys n)) (Fin s) = Fin y" "\<bar>y - (ys n + s)\<bar> \<le> 1 / 10 ^ 7"
    using s by (rule_tac sum_near [of "ys n" s]) auto
  have "sweep_y f (Fin s) (Suc n) = Fin y" using y(1) ys(1) by (simp add: sweep_y_def)
  moreover have "y \<ge> ys n + s / 2" using y(2) s unfolding abs_le_iff by simp
  then have "ys 0 + of_nat (Suc n) * (s / 2) \<le> y" using ys(4) by (simp add: field_simps)
  ultimately show ?case using ys y
    by (intro exI [of _ "ys(Suc n := y)"]) (auto simp: le_Suc_eq less_Suc_eq)
qed


lemma sweep_ends:
  assumes r: "in_range f s a b"
  obtains n where "\<not> line_open f (Fin s) n" "\<And>k. k < n \<Longrightarrow> line_open f (Fin s) k"
proof -
  obtain l where l: "\<And>k y. sweep_y f (Fin s) k = Fin y \<Longrightarrow> line_open f (Fin s) k \<longleftrightarrow> y \<le> l"
    using line_open_limit [OF r] by metis
  have s: "0 < s" using r by (auto simp: in_range_def intro: order.strict_trans2 [rotated])
  have "\<exists>n. \<not> line_open f (Fin s) n"
  proof (rule ccontr)
    assume all: "\<not> (\<exists>n. \<not> line_open f (Fin s) n)"
    obtain y0 where y0: "sweep_y f (Fin s) 0 = Fin y0" using sweep_y_0 [OF r] .
    obtain n where n: "(l - y0) / (s / 2) < of_nat n" using reals_Archimedean2 by blast
    obtain ys where "\<forall>k \<le> n. sweep_y f (Fin s) k = Fin (ys k)" "ys 0 + of_nat n * (s / 2) \<le> ys n"
      using sweep_y_steps [OF r, of n] all by blast
    then have "y0 + of_nat n * (s / 2) \<le> l" using l all y0 by force
    then show False using n s by (simp add: field_simps)
  qed
  then show ?thesis using that [of "LEAST n. \<not> line_open f (Fin s) n"]
    by (metis (mono_tags, lifting) LeastI_ex not_less_Least)
qed


lemma fl_close_unit:
  assumes "\<bar>x\<bar> \<le> 10 ^ 6"
  obtains y where "rnd x = Fin y" "\<bar>y - x\<bar> \<le> 1 / 10 ^ 9"
proof -
  obtain y where "rnd x = Fin y" "\<bar>y - x\<bar> \<le> \<bar>x\<bar> / 2 ^ 53 + 1 / 10 ^ 12"
    using rnd_near [of x] assms by fastforce
  moreover have "\<bar>x\<bar> / 2 ^ 53 + 1 / 10 ^ 12 \<le> (1 / 10 ^ 9 :: rat)" using assms by simp
  ultimately show ?thesis using that by simp
qed

text \<open>Cutting widths from a hundredth of an inch to \<open>10\<^sup>5\<close> inches, with the overlaps a zone file may have.\<close>

lemma spacing_range:
  assumes w: "1 / 100 \<le> w" "w \<le> 10 ^ 5" and p: "0 \<le> p" "p \<le> 50"
  obtains s where "line_spacing (fmul (Fin w) (rnd (254 / 10000))) (Fin p) = Fin s"
    "1 / 10 ^ 4 \<le> s" "s \<le> 10 ^ 4"
proof -
  obtain c where c: "rnd (254 / 10000) = Fin c" "\<bar>c - 254 / 10000\<bar> \<le> 1 / 10 ^ 9"
    using fl_close_unit [of "254 / 10000"] by auto
  have cb: "253 / 10000 \<le> c" "c \<le> 255 / 10000" using c(2) unfolding abs_le_iff by simp_all
  have wc: "253 / 10 ^ 6 \<le> w * c" "w * c \<le> 2550"
    using mult_mono [of "1 / 100" w "253 / 10000" c] mult_mono [of w "10 ^ 5" c "255 / 10000"] w cb by simp_all
  then obtain m where m: "rnd (w * c) = Fin m" "\<bar>m - w * c\<bar> \<le> 1 / 10 ^ 9"
    using fl_close_unit [of "w * c"] by auto
  obtain q where q: "rnd (p / 100) = Fin q" "\<bar>q - p / 100\<bar> \<le> 1 / 10 ^ 9"
    using fl_close_unit [of "p / 100"] p by auto
  have qb: "- 1 / 10 ^ 8 \<le> q" "q \<le> 1 / 2 + 1 / 10 ^ 8" using q(2) p unfolding abs_le_iff by simp_all
  then have "\<bar>1 - q\<bar> \<le> 10 ^ 6" unfolding abs_le_iff by simp
  then obtain o' where o': "rnd (1 - q) = Fin o'" "\<bar>o' - (1 - q)\<bar> \<le> 1 / 10 ^ 9"
    using fl_close_unit by metis
  have ob: "49 / 100 \<le> o'" "o' \<le> 101 / 100" using o'(2) qb unfolding abs_le_iff by simp_all
  have mb: "252 / 10 ^ 6 \<le> m" "m \<le> 2551" using m(2) wc unfolding abs_le_iff by simp_all
  have "(252 / 10 ^ 6) * (49 / 100) \<le> m * o'" using mb ob by (intro mult_mono) simp_all
  moreover have "m * o' \<le> 2551 * (101 / 100)" using mb ob by (intro mult_mono) simp_all
  ultimately have mo: "123 / 10 ^ 6 \<le> m * o'" "m * o' \<le> 3000" by simp_all
  then obtain s where s: "rnd (m * o') = Fin s" "\<bar>s - m * o'\<bar> \<le> 1 / 10 ^ 9"
    using fl_close_unit [of "m * o'"] by auto
  have "1 / 10 ^ 4 \<le> s" "s \<le> 10 ^ 4" using s(2) mo unfolding abs_le_iff by simp_all
  then show ?thesis using that [of s] c(1) m(1) q(1) o'(1) s(1) by (simp add: line_spacing_def fsub_def)
qed

text \<open>A spacing too small to change the coordinate it is added to keeps the loop going for ever.\<close>

lemma sweep_diverges:
  assumes clip: "\<And>p q. sh_clip S g p q \<noteq> None" and y: "sw_y (sweep_start f spacing) = y"
    and stuck: "fadd y spacing = y" and op: "line_open f spacing 0"
  shows "sweep_loop S g f spacing = None"
proof -
  have "sweep_y f spacing k = y" for k using y stuck by (induction k) (simp_all add: sweep_y_def)
  then have always: "line_open f spacing k" for k using op by (simp add: line_open_def)
  have "\<exists>p. sweep_line S g f y' d = Ok p" for y' d
    using clip [of "(fsub (fr_minx f) (Fin 10), y')" "(fadd (fr_maxx f) (Fin 10), y')"]
      clip [of "(fadd (fr_maxx f) (Fin 10), y')" "(fsub (fr_minx f) (Fin 10), y')"]
    by (auto simp: sweep_line_def Let_def)
  then have ok: "\<exists>ps. sweep_lines S g f spacing k = Ok ps" for k
    by (induction k) (auto simp: sweep_lines_Suc sweep_lines_def [where n = 0] result_simps)
  have "case bindr (sweep_lines S g f spacing k) (\<lambda>ps.
      Ok \<lparr>sw_waypoints = concat ps, sw_y = sweep_y f spacing k, sw_forward = even k\<rparr>)
    of Inl e \<Rightarrow> False | Inr t \<Rightarrow> sweep_guard f spacing t" for k
    using ok [of k] always [of k] by (auto simp: sweep_guard_def line_open_def)
  then show ?thesis unfolding sweep_loop_def while_option_def sweep_state by simp
qed

section \<open>Properties\<close>

text \<open>An area twenty metres high at a northing of 4000 kilometres.\<close>

definition tall_strip :: "unit shapely" where
  "tall_strip = \<lparr>sh_polygon = \<lambda>r. Some (), sh_is_valid = \<lambda>g. True, sh_is_empty = \<lambda>g. False,
     sh_area = \<lambda>g. Fin 400, sh_view = \<lambda>g. PolygonView [(Fin 0, Fin 0), (Fin 0, Fin 0)] [],
     sh_buffer = \<lambda>g d. Some (), sh_difference = \<lambda>g h. Some (),
     sh_bounds = \<lambda>g. (Fin 0, Fin 4000000, Fin 20, Fin 4000020), sh_rotate = \<lambda>g a p. Some (),
     sh_clip = \<lambda>g p q. Some (ClipLine [p, q])\<rparr>"



text \<open>
  C34: For an area that is not empty nor below a square metre, that the rotation gives back, whose bounds
  are finite and within \<open>10\<^sup>8\<close> metres of the origin, and a spacing between \<open>10\<^sup>-\<^sup>4\<close> and \<open>10\<^sup>4\<close> metres, the
  boustrophedon fill returns, and it is exactly the passes along \<open>n\<close> sweep lines, clipped to the area and
  taken in alternating directions. The first line is half a spacing above the lower edge, neighbouring
  lines are one spacing apart, the last line leaves at least half and less than one and a half spacings
  to the upper edge (all within a micrometre of float rounding). Outside these bounds a sweep may never
  end, as shown below.
\<close>

theorem boustrophedon_fill_lines:
  assumes "\<not> sh_is_empty S g" "\<not> flt (sh_area S g) (Fin 1)"
    and "sh_rotate S g (fneg angle) (fr_minx (frame_of S g), fr_miny (frame_of S g)) = Some rg"
    and spacing: "line_spacing width overlap = Fin s" and r: "in_range (frame_of S rg) s a b"
  shows "\<exists>n ys.
     generate_boustrophedon_fill S M g width overlap angle = Some (
       bindr (mapr (\<lambda>k. sweep_line S rg (frame_of S rg) (Fin (ys k)) (even k)) [0..<n]) (\<lambda>lines.
       finish_fill M angle (frame_of S g) (concat lines)))
     \<and> \<bar>ys 0 - (a + s / 2)\<bar> \<le> 1 / 10 ^ 6
     \<and> (\<forall>k. Suc k < n \<longrightarrow> \<bar>ys (Suc k) - ys k - s\<bar> \<le> 1 / 10 ^ 6)
     \<and> (0 < n \<longrightarrow> b - ys (n - 1) \<ge> s / 2 - 1 / 10 ^ 6 \<and> b - ys (n - 1) < 3 / 2 * s + 2 / 10 ^ 6)
     \<and> (n = 0 \<longrightarrow> b - a < s + 2 / 10 ^ 6)"
proof -
  let ?f = "frame_of S rg"
  obtain n where n: "\<not> line_open ?f (Fin s) n" "\<And>k. k < n \<Longrightarrow> line_open ?f (Fin s) k"
    using sweep_ends [OF r] by metis
  obtain ys where ys: "\<forall>k \<le> n. sweep_y ?f (Fin s) k = Fin (ys k)" "\<bar>ys 0 - (a + s / 2)\<bar> \<le> 1 / 10 ^ 6"
    "\<forall>k < n. \<bar>ys (Suc k) - (ys k + s)\<bar> \<le> 1 / 10 ^ 6" using sweep_y_steps [OF r n(2)] by blast
  obtain l where l: "\<And>k y. sweep_y ?f (Fin s) k = Fin y \<Longrightarrow> line_open ?f (Fin s) k \<longleftrightarrow> y \<le> l"
    "\<bar>l - (b - s / 2)\<bar> \<le> 1 / 10 ^ 6" using line_open_limit [OF r] by metis
  have past: "ys n > l" using l(1) n(1) ys(1) by (meson not_le order_refl)
  have "mapr (\<lambda>k. sweep_line S rg ?f (sweep_y ?f (Fin s) k) (even k)) [0..<n] =
      mapr (\<lambda>k. sweep_line S rg ?f (Fin (ys k)) (even k)) [0..<n]"
    using ys(1) by (intro mapr_cong) simp_all
  then have "generate_boustrophedon_fill S M g width overlap angle = Some (
       bindr (mapr (\<lambda>k. sweep_line S rg ?f (Fin (ys k)) (even k)) [0..<n]) (\<lambda>lines.
       finish_fill M angle (frame_of S g) (concat lines)))"
    using assms(1-4) sweep_loop_lines [OF n, of S rg]
    by (simp add: generate_boustrophedon_fill_def sweep_lines_def bindr_assoc)
  moreover have "b - ys (n - 1) \<ge> s / 2 - 1 / 10 ^ 6 \<and> b - ys (n - 1) < 3 / 2 * s + 2 / 10 ^ 6" if "0 < n"
  proof -
    have "\<bar>ys n - (ys (n - 1) + s)\<bar> \<le> 1 / 10 ^ 6" using ys(3) that by (metis Suc_diff_1 diff_less zero_less_one)
    moreover have "ys (n - 1) \<le> l" using l(1) n(2) ys(1) that by (meson diff_le_self diff_less zero_less_one)
    ultimately show ?thesis using past l(2) unfolding abs_le_iff by simp
  qed
  moreover have "b - a < s + 2 / 10 ^ 6" if "n = 0" using that past l(2) ys(2) unfolding abs_le_iff by simp
  moreover have "\<forall>k. Suc k < n \<longrightarrow> \<bar>ys (Suc k) - ys k - s\<bar> \<le> 1 / 10 ^ 6"
    using ys(3) by (simp add: diff_diff_eq)
  ultimately show ?thesis using ys(2) by blast
qed


lemma then_maybe_returns: "(\<And>a. r = Ok a \<Longrightarrow> \<exists>v. k a = Some v) \<Longrightarrow> \<exists>v. then_maybe r k = Some v"
  by (cases r) (auto simp: then_maybe_def)

text \<open>
  The area a zone's fill sweeps, rotated by its angle: none where the planner gives up before, or where
  the insets of the headland passes leave nothing above a square metre.
\<close>

definition fill_geometry :: "'g shapely \<Rightarrow> pyproj \<Rightarrow> floatlib \<Rightarrow> zone_config \<Rightarrow> 'g plan" where
  "fill_geometry S P M zone =
     (let cv = z_coverage zone; width = fmul (cutting_width_in cv) (rnd (254 / 10000)) in
      bindr (geodetic_projector M (z_boundary zone)) (\<lambda>pr.
      bindr (to_planar P pr (z_boundary zone)) (\<lambda>boundary_xy.
      bindr (mapr (\<lambda>e. to_planar P pr (ez_polygon e)) (z_exclusion_zones zone)) (\<lambda>exclusions_xy.
      bindr (innermost S boundary_xy exclusions_xy (line_spacing width (overlap_pct cv)) (headland_passes cv)) (\<lambda>g.
      if sh_is_empty S g \<or> \<not> fgt (sh_area S g) (Fin 1) then Err PlanFailed
      else of_opt PlanFailed (sh_rotate S g (fneg (angle_deg cv)) (fr_minx (frame_of S g), fr_miny (frame_of S g))))))))"

text \<open>
  That area, if there is one, has finite bounds within \<open>10\<^sup>8\<close> metres of the origin of the projection;
  UTM coordinates stay within \<open>10\<^sup>7\<close>.
\<close>

definition fill_in_range :: "'g shapely \<Rightarrow> pyproj \<Rightarrow> floatlib \<Rightarrow> zone_config \<Rightarrow> bool" where
  "fill_in_range S P M zone \<longleftrightarrow>
     (case fill_geometry S P M zone of
        Inl e \<Rightarrow> True
      | Inr rg \<Rightarrow> (case (fr_miny (frame_of S rg), fr_maxy (frame_of S rg)) of
            (Fin a, Fin b) \<Rightarrow> \<bar>a\<bar> \<le> 10 ^ 8 \<and> \<bar>b\<bar> \<le> 10 ^ 8
          | _ \<Rightarrow> False))"

lemma boustrophedon_fill_returns:
  assumes s: "line_spacing width overlap = Fin s" "1 / 10 ^ 4 \<le> s" "s \<le> 10 ^ 4"
    and range: "\<And>rg. sh_rotate S g (fneg angle) (fr_minx (frame_of S g), fr_miny (frame_of S g)) = Some rg \<Longrightarrow>
      \<exists>a b. fr_miny (frame_of S rg) = Fin a \<and> fr_maxy (frame_of S rg) = Fin b \<and> \<bar>a\<bar> \<le> 10 ^ 8 \<and> \<bar>b\<bar> \<le> 10 ^ 8"
  shows "\<exists>v. generate_boustrophedon_fill S M g width overlap angle = Some v"
proof (cases "sh_rotate S g (fneg angle) (fr_minx (frame_of S g), fr_miny (frame_of S g))")
  case (Some rg)
  then obtain a b where "in_range (frame_of S rg) s a b" using range s unfolding in_range_def by blast
  then obtain n where "\<not> line_open (frame_of S rg) (Fin s) n" "\<And>k. k < n \<Longrightarrow> line_open (frame_of S rg) (Fin s) k"
    using sweep_ends by metis
  then show ?thesis
    using sweep_loop_lines s(1) Some unfolding generate_boustrophedon_fill_def by fastforce
qed (simp add: generate_boustrophedon_fill_def)

text \<open>
  C35: For every zone whose cutting width is between a hundredth of an inch and \<open>10\<^sup>5\<close> inches, whose
  overlap is one a zone file may have (0 to 50 percent) and whose fill area, if the planner gets to one,
  has finite bounds within \<open>10\<^sup>8\<close> metres of the projection's origin, the planner returns, with waypoints
  or with a planner error; it never loops, whatever else the geometry library answers.
\<close>

theorem generate_waypoints_returns:
  assumes "fill_in_range S P M zone" "cutting_width_in (z_coverage zone) = Fin w" "1 / 100 \<le> w" "w \<le> 10 ^ 5"
    and "overlap_pct (z_coverage zone) = Fin p" "0 \<le> p" "p \<le> 50"
  shows "\<exists>v. generate_waypoints S P M zone = Some v"
proof -
  let ?w = "fmul (Fin w) (rnd (254 / 10000))" and ?cv = "z_coverage zone"
  obtain s where s: "line_spacing ?w (Fin p) = Fin s" "1 / 10 ^ 4 \<le> s" "s \<le> 10 ^ 4"
    using spacing_range [OF assms(3,4,6,7)] .
  have fill: "\<exists>v. fill_area S M ?cv ?w g = Some v"
    if plan: "geodetic_projector M (z_boundary zone) = Ok pr" "to_planar P pr (z_boundary zone) = Ok bxy"
      "mapr (\<lambda>e. to_planar P pr (ez_polygon e)) (z_exclusion_zones zone) = Ok exs"
      "innermost S bxy exs (line_spacing ?w (Fin p)) (headland_passes ?cv) = Ok g" for pr bxy exs g
  proof (cases "sh_is_empty S g \<or> \<not> fgt (sh_area S g) (Fin 1)")
    case False
    then have "fill_geometry S P M zone = of_opt PlanFailed (sh_rotate S g (fneg (angle_deg ?cv))
        (fr_minx (frame_of S g), fr_miny (frame_of S g)))"
      using plan assms(2,5) by (simp add: fill_geometry_def Let_def)
    then have "\<exists>v. generate_boustrophedon_fill S M g ?w (Fin p) (angle_deg ?cv) = Some v"
      using assms(1) by (intro boustrophedon_fill_returns [OF s])
        (auto simp: fill_in_range_def split: pyfloat.splits)
    then show ?thesis using assms(5) by (simp add: fill_area_def)
  qed (auto simp: fill_area_def)
  have opt: "\<exists>v. (case (if b then then_maybe r k else Some (Ok [])) of None \<Rightarrow> None | Some x \<Rightarrow> Some (h x)) = Some v"
    if "\<And>a. r = Ok a \<Longrightarrow> \<exists>v. k a = Some v" for b h r and k :: "'a \<Rightarrow> point list plan option"
    using then_maybe_returns [of r k] that by auto
  show ?thesis
    unfolding generate_waypoints_def Let_def assms(2,5)
    by (simp del: fle.simps) (intro impI then_maybe_returns opt fill; assumption)
qed


text \<open>
  A positive cutting width does not suffice for the fill to end: on an area twenty metres high at
  a northing of 4000 kilometres, a width of \<open>2\<^sup>-\<^sup>4\<^sup>0\<close> metres passes the guard against widths that
  would loop, and the sweep never ends.
\<close>

lemma boustrophedon_fill_loops:
  "flt (Fin 0) (Fin (1 / 2 ^ 40)) \<and>
   generate_boustrophedon_fill tall_strip M () (Fin (1 / 2 ^ 40)) (Fin 0) (Fin 0) = None"
proof -
  have half: "fquot (Fin (1 / 2 ^ 40)) (Fin 2) = Fin (1 / 2 ^ 41)"
    by (simp add: float_eval)
  have sp: "line_spacing (Fin (1 / 2 ^ 40)) (Fin 0) = Fin (1 / 2 ^ 40)"
    by (simp add: line_spacing_def fsub_def float_eval)
  have st: "fadd (Fin 4000000) (Fin (1 / 2 ^ 41)) = Fin 4000000" "fadd (Fin 4000000) (Fin (1 / 2 ^ 40)) = Fin 4000000"
    "fsub (Fin 4000020) (Fin (1 / 2 ^ 41)) = Fin 4000020"
    by (simp_all add: fsub_def float_eval)
  have f: "frame_of tall_strip () = \<lparr>fr_minx = Fin 0, fr_miny = Fin 4000000, fr_maxx = Fin 20, fr_maxy = Fin 4000020\<rparr>"
    by (simp add: frame_of_def tall_strip_def)
  have "sweep_loop tall_strip () (frame_of tall_strip ()) (Fin (1 / 2 ^ 40)) = None"
    by (rule sweep_diverges [where y = "Fin 4000000"])
      (simp_all only: f sweep_start_def line_open_def sweep_y_def half st sweep.simps frame.simps, simp_all add: tall_strip_def)
  then show ?thesis unfolding generate_boustrophedon_fill_def sp by (simp add: tall_strip_def)
qed


definition flat_math :: floatlib where
  "flat_math = \<lparr>fl_sum = foldl fadd (Fin 0), fl_cos = \<lambda>x. Some (Fin 1), fl_sin = \<lambda>x. Some (Fin 0),
     fl_radians = \<lambda>x. x\<rparr>"

definition flat_proj :: pyproj where
  "flat_proj = \<lparr>pj_to_utm = \<lambda>z n xs ys. Some (xs, ys), pj_to_wgs84 = \<lambda>z n xs ys. Some (xs, ys)\<rparr>"

theorem boustrophedon_fill_lines_witness:
  "\<exists>n ys.
     generate_boustrophedon_fill tall_strip flat_math () (Fin 2) (Fin 50) (Fin 0) = Some (
       bindr (mapr (\<lambda>k. sweep_line tall_strip () (frame_of tall_strip ()) (Fin (ys k)) (even k)) [0..<n]) (\<lambda>lines.
       finish_fill flat_math (Fin 0) (frame_of tall_strip ()) (concat lines)))
     \<and> \<bar>ys 0 - (4000000 + 1 / 2)\<bar> \<le> 1 / 10 ^ 6
     \<and> (\<forall>k. Suc k < n \<longrightarrow> \<bar>ys (Suc k) - ys k - 1\<bar> \<le> 1 / 10 ^ 6)
     \<and> (0 < n \<longrightarrow> 4000020 - ys (n - 1) \<ge> 1 / 2 - 1 / 10 ^ 6 \<and> 4000020 - ys (n - 1) < 3 / 2 * 1 + 2 / 10 ^ 6)
     \<and> (n = 0 \<longrightarrow> 4000020 - 4000000 < (1 + 2 / 10 ^ 6 :: rat))"
  by (rule boustrophedon_fill_lines)
    (simp_all add: tall_strip_def frame_of_def line_spacing_def in_range_def fsub_def float_eval)

text \<open>
  A geometry library of boxes with sides along the axes: exact on the rectangles of a zone without
  exclusions mown along the axes, with no answer outside them, and NaN bounds for an empty area.
\<close>

type_synonym box = "pyfloat \<times> pyfloat \<times> pyfloat \<times> pyfloat"

definition least :: "pyfloat list \<Rightarrow> pyfloat" where
  "least xs = foldr (\<lambda>a b. if flt a b then a else b) xs PInf"

definition greatest :: "pyfloat list \<Rightarrow> pyfloat" where
  "greatest xs = foldr (\<lambda>a b. if flt b a then a else b) xs NInf"

fun box_empty :: "box \<Rightarrow> bool" where
  "box_empty (x0, y0, x1, y1) = (\<not> flt x0 x1 \<or> \<not> flt y0 y1)"

definition boxes :: "box shapely" where
  "boxes = \<lparr>sh_polygon = (\<lambda>r. if length r < 3 then None
       else Some (least (map fst r), least (map snd r), greatest (map fst r), greatest (map snd r))),
     sh_is_valid = (\<lambda>g. True), sh_is_empty = box_empty,
     sh_area = (\<lambda>(x0, y0, x1, y1). if box_empty (x0, y0, x1, y1) then Fin 0 else fmul (fsub x1 x0) (fsub y1 y0)),
     sh_view = (\<lambda>(x0, y0, x1, y1). PolygonView [(x0, y0), (x1, y0), (x1, y1), (x0, y1), (x0, y0)] []),
     sh_buffer = (\<lambda>(x0, y0, x1, y1) d. Some (fsub x0 d, fsub y0 d, fadd x1 d, fadd y1 d)),
     sh_difference = (\<lambda>g h. if box_empty h then Some g else None),
     sh_bounds = (\<lambda>g. if box_empty g then (NaN, NaN, NaN, NaN) else g),
     sh_rotate = (\<lambda>g a p. if a = Fin 0 then Some g else None),
     sh_clip = (\<lambda>(x0, y0, x1, y1) p q. Some (if fle y0 (snd p) \<and> fle (snd p) y1
       then ClipLine (if flt (fst p) (fst q) then [(x0, snd p), (x1, snd p)] else [(x1, snd p), (x0, snd p)])
       else ClipEmpty))\<rparr>"

text \<open>A plane at 100 km to the degree.\<close>

definition plane_proj :: pyproj where
  "plane_proj = \<lparr>pj_to_utm = \<lambda>z n xs ys. Some (map (fmul (Fin 100000)) xs, map (fmul (Fin 100000)) ys),
     pj_to_wgs84 = \<lambda>z n xs ys. Some (map (\<lambda>x. fquot x (Fin 100000)) xs, map (\<lambda>y. fquot y (Fin 100000)) ys)\<rparr>"

definition strip_zone :: zone_config where
  "strip_zone = \<lparr>z_schema = [], z_zone_id = ''ne'', z_name = ''NE'', z_home = \<lparr>ll_lat = Fin 0, ll_lon = Fin 0\<rparr>,
     z_rally_point = \<lparr>rp_lat = Fin 0, rp_lon = Fin 0, rp_description = VNone\<rparr>,
     z_boundary = map (\<lambda>(a, b). \<lparr>ll_lat = Fin (40 + a / 1024), ll_lon = Fin (b / 512 - 100)\<rparr>) [(0, 0), (0, 1), (1, 1), (1, 0)],
     z_description = [], z_exclusion_zones = [], z_coverage = default_coverage,
     z_commands = default_commands, z_slam_mode = default_slam_mode, z_output = default_output\<rparr>"

lemma field_planar:
  "to_planar plane_proj pr (z_boundary strip_zone) = Ok [(Fin (- 10000000), Fin 4000000), (Fin (- (159996875 / 16)), Fin 4000000),
     (Fin (- (159996875 / 16)), Fin (128003125 / 32)), (Fin (- 10000000), Fin (128003125 / 32))]"
  by (simp add: to_planar_def plane_proj_def strip_zone_def float_eval)

lemma field_polygon:
  "sh_polygon boxes [(Fin (- 10000000), Fin 4000000), (Fin (- (159996875 / 16)), Fin 4000000),
     (Fin (- (159996875 / 16)), Fin (128003125 / 32)), (Fin (- 10000000), Fin (128003125 / 32))]
   = Some (Fin (- 10000000), Fin 4000000, Fin (- (159996875 / 16)), Fin (128003125 / 32))"
  by (simp add: boxes_def least_def greatest_def)

lemma field_spacing: "line_spacing (fmul (Fin 54) (rnd (127 / 5000))) (Fin 10) = Fin (5559423524011235 / 4503599627370496)"
  by (simp add: line_spacing_def fsub_def float_eval)

lemma field_inset:
  "inset_loop boxes (Fin (5559423524011235 / 4503599627370496)) 2
     (Fin (- 10000000), Fin 4000000, Fin (- (159996875 / 16)), Fin (128003125 / 32))
   = Ok (Fin (- (2684353897265071 / 268435456)), Fin (2147484973469857 / 536870912),
      Fin (- (2684302793934929 / 268435456)), Fin (2147534751330143 / 536870912))"
  by (simp add: numeral_2_eq_2 boxes_def fsub_def float_eval)

theorem generate_waypoints_returns_witness:
  "\<exists>v. generate_waypoints boxes plane_proj flat_math strip_zone = Some v"
proof (rule generate_waypoints_returns [where w = 54 and p = 10])
  have zone: "z_coverage strip_zone = default_coverage" "z_exclusion_zones strip_zone = []"
    by (simp_all add: strip_zone_def)
  let ?g = "(Fin (- (2684353897265071 / 268435456)), Fin (2147484973469857 / 536870912),
      Fin (- (2684302793934929 / 268435456)), Fin (2147534751330143 / 536870912)) :: box"
  have "\<not> sh_is_empty boxes ?g \<and> fgt (sh_area boxes ?g) (Fin 1)" "sh_rotate boxes ?g (Fin 0) p = Some ?g" for p
    by (simp_all add: boxes_def fsub_def float_eval)
  then have "fill_geometry boxes plane_proj flat_math strip_zone
      = (case geodetic_projector flat_math (z_boundary strip_zone) of Inl e \<Rightarrow> Err e | Inr pr \<Rightarrow> Ok ?g)"
    by (simp add: fill_geometry_def Let_def zone default_coverage_def innermost_def field_planar field_polygon
        field_spacing field_inset split: sum.split)
  moreover have "frame_of boxes ?g = \<lparr>fr_minx = fst ?g, fr_miny = fst (snd ?g),
      fr_maxx = fst (snd (snd ?g)), fr_maxy = snd (snd (snd ?g))\<rparr>"
    by (simp add: frame_of_def boxes_def)
  ultimately show "fill_in_range boxes plane_proj flat_math strip_zone"
    by (simp add: fill_in_range_def split: sum.split)
qed (simp_all add: strip_zone_def default_coverage_def)

end
