(* ===== verification/Ssh.thy ===== *)
theory Ssh
  imports Config
begin

text \<open>
  The SSH transport, \<open>transport/ssh.py\<close>: the argument vectors of \<open>ssh\<close> and \<open>scp\<close>, running a
  command on the Jetson and copying files. The local processes are an argument: what becomes of a
  spawned process (\<open>subprocess.run\<close> or \<open>Popen\<close>) is a function of its arguments, environment and time limit. Numbers in error
  messages are kept as values; log calls are left out.
\<close>

section \<open>Client\<close>

record ssh_result =
  sr_argv :: "string list"
  sr_returncode :: int
  sr_stdout :: string
  sr_stderr :: string

definition sr_ok :: "ssh_result \<Rightarrow> bool" where "sr_ok r \<longleftrightarrow> sr_returncode r = 0"

definition HOST_KEY_POLICIES :: "string list" where
  "HOST_KEY_POLICIES = [''accept-new'', ''yes'', ''no'']"

record jetson_client =
  jc_endpoint :: jetson_endpoint
  jc_correlation_id :: "string option"
  jc_strict_host_keys :: string
  jc_connect_timeout_s :: int
  jc_ssh :: "string option"
  jc_scp :: "string option"

text \<open>\<open>SshError\<close>, one constructor per \<open>raise\<close>, and the exceptions the code lets through.\<close>

datatype ssh_error =
    BadHostKeyPolicy string
  | SshNotFound
  | ScpNotFound
  | SshDisappeared
  | SshTimedOut "string list"
  | StreamTimedOut "string list"
  | RemoteFailed int string
  | PullTimedOut string
  | PullFailed int string
  | PushTimedOut string
  | PushFailed int string
  | BinaryMissing

type_synonym 'a ssh = "(ssh_error, 'a) result"

text \<open>\<open>a or b\<close> where \<open>a\<close> is an optional string: the empty string is false.\<close>

definition str_or :: "string option \<Rightarrow> string option \<Rightarrow> string option" where
  "str_or a b = (case a of None \<Rightarrow> b | Some s \<Rightarrow> if s = [] then b else Some s)"

definition new_client ::
  "(string \<Rightarrow> string option) \<Rightarrow> jetson_endpoint \<Rightarrow> string option \<Rightarrow> string \<Rightarrow> int
     \<Rightarrow> string option \<Rightarrow> string option \<Rightarrow> jetson_client ssh" where
  "new_client which endpoint cid strict timeout ssh_binary scp_binary =
     (if strict \<notin> set HOST_KEY_POLICIES then Err (BadHostKeyPolicy strict)
      else Ok \<lparr>jc_endpoint = endpoint, jc_correlation_id = cid, jc_strict_host_keys = strict,
        jc_connect_timeout_s = timeout, jc_ssh = str_or ssh_binary (which ''ssh''),
        jc_scp = str_or scp_binary (which ''scp'')\<rparr>)"

section \<open>Argument vectors\<close>

definition common_opts :: "jetson_client \<Rightarrow> string list" where
  "common_opts c =
     [''-o'', ''StrictHostKeyChecking='' @ jc_strict_host_keys c,
      ''-o'', ''ConnectTimeout='' @ str_int (jc_connect_timeout_s c),
      ''-o'', ''BatchMode=yes'',
      ''-o'', ''PasswordAuthentication=no'']
   @ (case je_key_path (jc_endpoint c) of None \<Rightarrow> [] | Some k \<Rightarrow> [''-i'', k])"

definition target :: "jetson_client \<Rightarrow> string" where
  "target c = je_user (jc_endpoint c) @ ''@'' @ je_host (jc_endpoint c)"

definition build_ssh_argv :: "jetson_client \<Rightarrow> string list \<Rightarrow> string list ssh" where
  "build_ssh_argv c remote_argv =
     (case jc_ssh c of
        None \<Rightarrow> Err SshNotFound
      | Some ssh \<Rightarrow>
          Ok ([ssh] @ common_opts c @ [''-p'', str_int (je_port (jc_endpoint c))] @ [target c] @ remote_argv))"

definition build_scp_pull_argv :: "jetson_client \<Rightarrow> string \<Rightarrow> string \<Rightarrow> string list ssh" where
  "build_scp_pull_argv c remote_path local_path =
     (case jc_scp c of
        None \<Rightarrow> Err ScpNotFound
      | Some scp \<Rightarrow>
          Ok ([scp] @ common_opts c @ [''-P'', str_int (je_port (jc_endpoint c))]
              @ [target c @ '':'' @ remote_path, local_path]))"

definition build_scp_push_argv :: "jetson_client \<Rightarrow> string \<Rightarrow> string \<Rightarrow> string list ssh" where
  "build_scp_push_argv c local_path remote_path =
     (case jc_scp c of
        None \<Rightarrow> Err ScpNotFound
      | Some scp \<Rightarrow>
          Ok ([scp] @ common_opts c @ [''-P'', str_int (je_port (jc_endpoint c))]
              @ [local_path, target c @ '':'' @ remote_path]))"

section \<open>Running\<close>

type_synonym env = "(string, string) dict"

definition build_env :: "env \<Rightarrow> jetson_client \<Rightarrow> env option \<Rightarrow> env" where
  "build_env environ c extra_env =
     (let env = (case jc_correlation_id c of
            None \<Rightarrow> environ
          | Some cid \<Rightarrow> if cid = [] then environ else dict_set ''MOWER_CORRELATION_ID'' cid environ)
      in case extra_env of None \<Rightarrow> env | Some extra \<Rightarrow> dict_update env extra)"

text \<open>What \<open>subprocess.run\<close> meets: no such binary, the time limit, or an exit with captured output.\<close>

datatype run_outcome =
    RunNoBinary
  | RunTimeout
  | RunExit int "string option" "string option"

type_synonym spawn = "string list \<Rightarrow> env \<Rightarrow> pyfloat option \<Rightarrow> run_outcome"

definition captured :: "string option \<Rightarrow> string" where
  "captured s = (case s of None \<Rightarrow> [] | Some t \<Rightarrow> t)"

definition ssh_run ::
  "spawn \<Rightarrow> env \<Rightarrow> jetson_client \<Rightarrow> string list \<Rightarrow> bool \<Rightarrow> pyfloat option \<Rightarrow> env option \<Rightarrow> ssh_result ssh" where
  "ssh_run spawn environ c remote_argv check timeout extra_env =
     bindr (build_ssh_argv c remote_argv) (\<lambda>argv.
       case spawn argv (build_env environ c extra_env) timeout of
         RunNoBinary \<Rightarrow> Err SshDisappeared
       | RunTimeout \<Rightarrow> Err (SshTimedOut remote_argv)
       | RunExit rc so se \<Rightarrow>
           let r = \<lparr>sr_argv = argv, sr_returncode = rc, sr_stdout = captured so, sr_stderr = captured se\<rparr>
           in if check \<and> \<not> sr_ok r then Err (RemoteFailed rc (py_strip (sr_stderr r))) else Ok r)"

definition scp_pull :: "spawn \<Rightarrow> env \<Rightarrow> jetson_client \<Rightarrow> string \<Rightarrow> string \<Rightarrow> pyfloat option \<Rightarrow> ssh_result ssh" where
  "scp_pull spawn environ c remote_path local_path timeout =
     bindr (build_scp_pull_argv c remote_path local_path) (\<lambda>argv.
       case spawn argv (build_env environ c None) timeout of
         RunNoBinary \<Rightarrow> Err BinaryMissing
       | RunTimeout \<Rightarrow> Err (PullTimedOut remote_path)
       | RunExit rc so se \<Rightarrow>
           let r = \<lparr>sr_argv = argv, sr_returncode = rc, sr_stdout = captured so, sr_stderr = captured se\<rparr>
           in if \<not> sr_ok r then Err (PullFailed rc (py_strip (sr_stderr r))) else Ok r)"

definition scp_push :: "spawn \<Rightarrow> env \<Rightarrow> jetson_client \<Rightarrow> string \<Rightarrow> string \<Rightarrow> pyfloat option \<Rightarrow> ssh_result ssh" where
  "scp_push spawn environ c local_path remote_path timeout =
     bindr (build_scp_push_argv c local_path remote_path) (\<lambda>argv.
       case spawn argv (build_env environ c None) timeout of
         RunNoBinary \<Rightarrow> Err BinaryMissing
       | RunTimeout \<Rightarrow> Err (PushTimedOut local_path)
       | RunExit rc so se \<Rightarrow>
           let r = \<lparr>sr_argv = argv, sr_returncode = rc, sr_stdout = captured so, sr_stderr = captured se\<rparr>
           in if \<not> sr_ok r then Err (PushFailed rc (py_strip (sr_stderr r))) else Ok r)"

text \<open>
  \<open>Popen\<close> with piped output. The child writes \<open>out\<close> and closes its standard output, or never does
  (\<open>None\<close>); then \<open>wait\<close> sees its exit code or runs into the time limit. Both the thread that
  drains standard error and the loop over standard output read to the end.
\<close>

datatype stream_outcome =
    StreamNoBinary
  | StreamOpen
  | StreamClosed string string "int option"

definition stream_lines :: "string \<Rightarrow> string list" where
  "stream_lines s =
     (if s = [] then []
      else let ws = split_char (CHR 0x0A) s in if last ws = [] then butlast ws else ws)"

text \<open>The lines given to \<open>on_line\<close>, and the outcome; \<open>None\<close> where the call does not return.\<close>

definition run_streaming ::
  "(string list \<Rightarrow> env \<Rightarrow> stream_outcome) \<Rightarrow> env \<Rightarrow> jetson_client \<Rightarrow> string list \<Rightarrow> env option
     \<Rightarrow> (string list \<times> ssh_result ssh) option" where
  "run_streaming popen environ c remote_argv extra_env =
     (case build_ssh_argv c remote_argv of
        Inl e \<Rightarrow> Some ([], Err e)
      | Inr argv0 \<Rightarrow>
          let argv = take 1 argv0 @ [''-o'', ''ServerAliveInterval=30''] @ drop 1 argv0
          in case popen argv (build_env environ c extra_env) of
               StreamNoBinary \<Rightarrow> Some ([], Err SshDisappeared)
             | StreamOpen \<Rightarrow> None
             | StreamClosed out err rc \<Rightarrow>
                 let lines = stream_lines out
                 in case rc of
                      None \<Rightarrow> Some (lines, Err (StreamTimedOut remote_argv))
                    | Some n \<Rightarrow> Some (lines, Ok \<lparr>sr_argv = argv, sr_returncode = n,
                        sr_stdout = join_with [CHR 0x0A] lines, sr_stderr = err\<rparr>))"

text \<open>\<open>_redact\<close>; \<open>skip\<close> is the flag of the loop.\<close>

fun redact :: "bool \<Rightarrow> string list \<Rightarrow> string list" where
  "redact skip [] = []"
| "redact skip (a # as) =
     (if skip then ''***'' # redact False as
      else if a \<in> {''--password'', ''-P-PASSWORD''} then a # redact True as
      else a # redact False as)"

section \<open>The shape of a command line\<close>

text \<open>
  Options with a value, as the words of a command line; the ones that leave only key authentication and
  check the host key under an accepted policy, and no others.
\<close>

definition option_words :: "(string \<times> string) list \<Rightarrow> string list" where
  "option_words opts = concat (map (\<lambda>(flag, v). [flag, v]) opts)"

definition key_only :: "(string \<times> string) list \<Rightarrow> bool" where
  "key_only opts \<longleftrightarrow>
     (''-o'', ''BatchMode=yes'') \<in> set opts \<and> (''-o'', ''PasswordAuthentication=no'') \<in> set opts
   \<and> (\<exists>p \<in> set HOST_KEY_POLICIES. \<exists>t. (''-o'', ''StrictHostKeyChecking='' @ p) \<in> set opts
        \<and> (\<forall>(flag, v) \<in> set opts. if flag = ''-o''
             then v \<in> {''BatchMode=yes'', ''PasswordAuthentication=no'', ''StrictHostKeyChecking='' @ p,
                        ''ConnectTimeout='' @ t, ''ServerAliveInterval=30''}
             else flag \<in> {''-i'', ''-p'', ''-P''}))"

definition plain_word :: "string \<Rightarrow> bool" where "plain_word s \<longleftrightarrow> s \<noteq> [] \<and> hd s \<noteq> CHR ''-''"

text \<open>A program, such options, and then the given words, the first of which is no option.\<close>

definition key_only_line :: "string list \<Rightarrow> string list \<Rightarrow> bool" where
  "key_only_line argv operands \<longleftrightarrow>
     (\<exists>program opts. argv = program # option_words opts @ operands \<and> key_only opts)
   \<and> operands \<noteq> [] \<and> plain_word (hd operands)"

text \<open>A machine on which every process with another command line fails to start.\<close>

definition key_only_spawn :: "spawn \<Rightarrow> spawn" where
  "key_only_spawn spawn argv env timeout =
     (if \<exists>operands. key_only_line argv operands then spawn argv env timeout else RunNoBinary)"

definition key_only_popen ::
  "(string list \<Rightarrow> env \<Rightarrow> stream_outcome) \<Rightarrow> string list \<Rightarrow> env \<Rightarrow> stream_outcome" where
  "key_only_popen popen argv env =
     (if \<exists>operands. key_only_line argv operands then popen argv env else StreamNoBinary)"

lemma plain_word_append: "plain_word s \<Longrightarrow> plain_word (s @ t)"
  by (cases s) (auto simp: plain_word_def)

definition client_opts :: "jetson_client \<Rightarrow> (string \<times> string) list" where
  "client_opts c =
     [(''-o'', ''StrictHostKeyChecking='' @ jc_strict_host_keys c),
      (''-o'', ''ConnectTimeout='' @ str_int (jc_connect_timeout_s c)),
      (''-o'', ''BatchMode=yes''), (''-o'', ''PasswordAuthentication=no'')]
   @ (case je_key_path (jc_endpoint c) of None \<Rightarrow> [] | Some k \<Rightarrow> [(''-i'', k)])"

lemma common_opts_words: "common_opts c = option_words (client_opts c)"
  by (simp add: common_opts_def client_opts_def option_words_def split: option.splits)

lemma option_words_append: "option_words (xs @ ys) = option_words xs @ option_words ys"
  by (simp add: option_words_def)

lemma client_opts_key_only:
  assumes "new_client which endpoint cid strict timeout ssh_bin scp_bin = Ok c"
    and "fst ` set opts \<subseteq> {''-p'', ''-P''}" and "set pre \<subseteq> {(''-o'', ''ServerAliveInterval=30'')}"
  shows "key_only (pre @ client_opts c @ opts)"
proof -
  define allowed where "allowed = (\<lambda>(flag, v). if flag = ''-o''
             then v \<in> {''BatchMode=yes'', ''PasswordAuthentication=no'', ''StrictHostKeyChecking='' @ jc_strict_host_keys c,
                        ''ConnectTimeout='' @ str_int (jc_connect_timeout_s c), ''ServerAliveInterval=30''}
             else flag \<in> {''-i'', ''-p'', ''-P''})"
  have "jc_strict_host_keys c \<in> set HOST_KEY_POLICIES"
    using assms(1) by (auto simp: new_client_def split: if_splits)
  moreover have "\<forall>x \<in> set (client_opts c). allowed x"
    by (cases "je_key_path (jc_endpoint c)") (simp_all add: client_opts_def allowed_def)
  moreover have "allowed x" if "x \<in> set opts" for x
  proof -
    from that assms(2) have "fst x = ''-p'' \<or> fst x = ''-P''" by auto
    then show ?thesis by (cases x) (elim disjE; simp add: allowed_def)
  qed
  moreover have "allowed x" if "x \<in> set pre" for x
  proof -
    from that assms(3) have "x = (''-o'', ''ServerAliveInterval=30'')" by blast
    then show ?thesis by (simp add: allowed_def)
  qed
  moreover have "{(''-o'', ''BatchMode=yes''), (''-o'', ''PasswordAuthentication=no''),
      (''-o'', ''StrictHostKeyChecking='' @ jc_strict_host_keys c)} \<subseteq> set (client_opts c)"
    by (simp add: client_opts_def)
  ultimately show ?thesis unfolding key_only_def allowed_def set_append ball_Un by blast
qed

lemma key_only_lineI:
  "key_only opts \<Longrightarrow> operands \<noteq> [] \<Longrightarrow> plain_word (hd operands) \<Longrightarrow>
     argv = program # option_words opts @ operands \<Longrightarrow> key_only_line argv operands"
  unfolding key_only_line_def by blast

text \<open>The buffered output of a streamed command is the child's output less one final line end.\<close>

lemma stream_lines_join:
  "join_with [CHR 0x0A] (stream_lines out) = (if out \<noteq> [] \<and> last out = CHR 0x0A then butlast out else out)"
proof -
  let ?nl = "CHR 0x0A" and ?ws = "split_char (CHR 0x0A) out"
  note j = join_split_char [of ?nl out]
  have last_nl: "out = join_with [?nl] (butlast ?ws) @ [?nl]" if "last ?ws = []" "out \<noteq> []"
  proof -
    have "?ws = butlast ?ws @ [[]]" using that(1) append_butlast_last_id [of ?ws] by simp
    moreover from this have "butlast ?ws \<noteq> []" using j that(2) by (cases "butlast ?ws") auto
    ultimately show ?thesis using j join_with_snoc [of "butlast ?ws" "[?nl]" "[]"] by simp
  qed
  have "last out \<noteq> ?nl" if "last ?ws \<noteq> []" "out \<noteq> []"
  proof -
    have no: "?nl \<notin> set w" if "w \<in> set ?ws" for w
      using that by (induction "?nl" out arbitrary: w rule: split_char.induct) (auto split: if_splits list.splits)
    have "last out = last (last ?ws)"
      using j that(1) append_butlast_last_id [of ?ws] join_with_snoc [of "butlast ?ws" "[?nl]" "last ?ws"]
      by (cases "butlast ?ws = []") (metis append_Nil join_with.simps(2) split_char_nonempty last_appendR append_assoc)+
    then show ?thesis using no [of "last ?ws"] that(1) by (metis last_in_set split_char_nonempty)
  qed
  with last_nl j show ?thesis by (auto simp: stream_lines_def Let_def) (metis butlast_snoc last_snoc)+
qed

text \<open>A checked command and a copy return only when the process exited with zero.\<close>

lemma checked_ok:
  "ssh_run spawn environ c remote_argv True timeout extra = Ok r \<Longrightarrow> sr_ok r"
  "scp_pull spawn environ c rp lp timeout = Ok r \<Longrightarrow> sr_ok r"
  "scp_push spawn environ c lp rp timeout = Ok r \<Longrightarrow> sr_ok r"
proof -
  show "sr_ok r" if "ssh_run spawn environ c remote_argv True timeout extra = Ok r"
    using that by (cases "build_ssh_argv c remote_argv")
      (auto simp: ssh_run_def Let_def split: run_outcome.splits if_splits)
  show "sr_ok r" if "scp_pull spawn environ c rp lp timeout = Ok r"
    using that by (cases "build_scp_pull_argv c rp lp")
      (auto simp: scp_pull_def Let_def split: run_outcome.splits if_splits)
  show "sr_ok r" if "scp_push spawn environ c lp rp timeout = Ok r"
    using that by (cases "build_scp_push_argv c lp rp")
      (auto simp: scp_push_def Let_def split: run_outcome.splits if_splits)
qed

section \<open>Properties\<close>

lemma ssh_line:
  assumes "new_client which ep cid strict t ssh_bin scp_bin = Ok c" and "plain_word (je_user (jc_endpoint c))"
    and "build_ssh_argv c remote = Ok argv"
  shows "key_only_line argv (target c # remote)"
    and "key_only_line (take 1 argv @ [''-o'', ''ServerAliveInterval=30''] @ drop 1 argv) (target c # remote)"
proof -
  let ?port = "[(''-p'', str_int (je_port (jc_endpoint c)))]" and ?alive = "[(''-o'', ''ServerAliveInterval=30'')]"
  from assms(3) obtain ssh where argv: "argv = ssh # option_words (client_opts c @ ?port) @ target c # remote"
    by (auto simp: build_ssh_argv_def common_opts_words option_words_def split: option.splits)
  have plain: "plain_word (target c)" using assms(2) by (simp add: target_def plain_word_append)
  have "key_only ([] @ client_opts c @ ?port)" "key_only (?alive @ client_opts c @ ?port)"
    by (rule client_opts_key_only [OF assms(1)]; simp)+
  note key = this
  show "key_only_line argv (target c # remote)"
    by (rule key_only_lineI [OF key(1)]) (simp_all add: argv plain)
  have "take 1 argv @ [''-o'', ''ServerAliveInterval=30''] @ drop 1 argv
      = ssh # option_words (?alive @ client_opts c @ ?port) @ target c # remote"
    by (simp add: argv option_words_def)
  then show "key_only_line (take 1 argv @ [''-o'', ''ServerAliveInterval=30''] @ drop 1 argv) (target c # remote)"
    by (intro key_only_lineI [OF key(2)]) (simp_all add: plain)
qed

lemma scp_lines:
  assumes "new_client which ep cid strict t ssh_bin scp_bin = Ok c"
  shows "plain_word (je_user (jc_endpoint c)) \<Longrightarrow> build_scp_pull_argv c rp lp = Ok argv \<Longrightarrow>
      key_only_line argv [target c @ '':'' @ rp, lp]"
    and "plain_word lp \<Longrightarrow> build_scp_push_argv c lp rp = Ok argv \<Longrightarrow>
      key_only_line argv [lp, target c @ '':'' @ rp]"
proof -
  let ?port = "[(''-P'', str_int (je_port (jc_endpoint c)))]"
  have "key_only ([] @ client_opts c @ ?port)" by (rule client_opts_key_only [OF assms]; simp)
  then have key: "key_only_line (scp # option_words (client_opts c @ ?port) @ ws) ws"
    if "ws \<noteq> []" "plain_word (hd ws)" for scp ws
    using that by (intro key_only_lineI) simp_all
  show "key_only_line argv [target c @ '':'' @ rp, lp]"
    if "plain_word (je_user (jc_endpoint c))" "build_scp_pull_argv c rp lp = Ok argv"
    using that key [of "[target c @ '':'' @ rp, lp]"]
    by (auto simp: build_scp_pull_argv_def common_opts_words option_words_def target_def plain_word_append
        split: option.splits)
  show "key_only_line argv [lp, target c @ '':'' @ rp]" if "plain_word lp" "build_scp_push_argv c lp rp = Ok argv"
    using that key [of "[lp, target c @ '':'' @ rp]"]
    by (auto simp: build_scp_push_argv_def common_opts_words option_words_def split: option.splits)
qed

text \<open>
  C23: Every command line of a client, \<open>ssh\<close>, streaming \<open>ssh\<close>, \<open>scp\<close> from and \<open>scp\<close> to the Jetson, is the
  program, options that allow key authentication only and check host keys under an accepted policy,
  and then the target and the remote command, or the two paths, word for word, the first of them no
  option; and no operation starts any other process: on a machine where every other command line
  fails to start each does what it did. The user name, and the local path of a copy to the Jetson,
  must be non-empty and not start with a dash.
\<close>

theorem ssh_argv_key_only:
  assumes "new_client which ep cid strict t ssh_bin scp_bin = Ok c" and "plain_word (je_user ep)" and "plain_word lp"
  shows "(\<forall>argv. build_ssh_argv c remote = Ok argv \<longrightarrow> key_only_line argv (target c # remote))
    \<and> (\<forall>argv. build_scp_pull_argv c rp lp = Ok argv \<longrightarrow> key_only_line argv [target c @ '':'' @ rp, lp])
    \<and> (\<forall>argv. build_scp_push_argv c lp rp = Ok argv \<longrightarrow> key_only_line argv [lp, target c @ '':'' @ rp])
    \<and> (\<forall>ls r. run_streaming popen environ c remote extra = Some (ls, Ok r)
          \<longrightarrow> key_only_line (sr_argv r) (target c # remote))
    \<and> ssh_run (key_only_spawn spawn) environ c remote check timeout extra = ssh_run spawn environ c remote check timeout extra
    \<and> scp_pull (key_only_spawn spawn) environ c rp lp timeout = scp_pull spawn environ c rp lp timeout
    \<and> scp_push (key_only_spawn spawn) environ c lp rp timeout = scp_push spawn environ c lp rp timeout
    \<and> run_streaming (key_only_popen popen) environ c remote extra = run_streaming popen environ c remote extra"
proof -
  have user: "plain_word (je_user (jc_endpoint c))"
    using assms(1,2) by (auto simp: new_client_def split: if_splits)
  note ssh = ssh_line [OF assms(1) user, of remote]
  note pull = scp_lines(1) [OF assms(1) user, of rp lp] and push = scp_lines(2) [OF assms(1,3), of rp]
  have line: "key_only_spawn spawn argv env timeout = spawn argv env timeout" if "key_only_line argv ws" for argv ws env
    using that by (auto simp: key_only_spawn_def)
  have run: "ssh_run (key_only_spawn spawn) environ c remote check timeout extra = ssh_run spawn environ c remote check timeout extra"
    using line [OF ssh(1)] by (cases "build_ssh_argv c remote") (simp_all add: ssh_run_def)
  have copies: "scp_pull (key_only_spawn spawn) environ c rp lp timeout = scp_pull spawn environ c rp lp timeout"
    "scp_push (key_only_spawn spawn) environ c lp rp timeout = scp_push spawn environ c lp rp timeout"
    using line [OF pull] line [OF push]
    by (cases "build_scp_pull_argv c rp lp"; cases "build_scp_push_argv c lp rp"; simp add: scp_pull_def scp_push_def)+
  have stream: "run_streaming (key_only_popen popen) environ c remote extra = run_streaming popen environ c remote extra"
    using ssh(2) by (cases "build_ssh_argv c remote") (auto simp: run_streaming_def key_only_popen_def Let_def)
  have "key_only_line (sr_argv r) (target c # remote)"
    if "run_streaming popen environ c remote extra = Some (ls, Ok r)" for ls r
    using that ssh(2) by (auto simp: run_streaming_def Let_def split: sum.splits stream_outcome.splits option.splits)
  with ssh(1) pull push run copies stream show ?thesis by blast
qed

definition sample_endpoint :: jetson_endpoint where
  "sample_endpoint = \<lparr>je_host = ''rover'', je_user = ''mower'', je_port = 22, je_key_path = None\<rparr>"

definition sample_client :: jetson_client where
  "sample_client = \<lparr>jc_endpoint = sample_endpoint, jc_correlation_id = None, jc_strict_host_keys = ''accept-new'',
     jc_connect_timeout_s = 10, jc_ssh = Some ''ssh'', jc_scp = Some ''scp''\<rparr>"

theorem ssh_argv_key_only_witness:
  "key_only_line (projr (build_ssh_argv sample_client [''rm'', ''-r''])) [''mower@rover'', ''rm'', ''-r'']
     \<and> key_only_line (projr (build_scp_push_argv sample_client ''/tmp/f'' ''/etc/f'')) [''/tmp/f'', ''mower@rover:/etc/f'']"
proof -
  have new: "new_client Some sample_endpoint None ''accept-new'' 10 None None = Ok sample_client"
    by (simp add: new_client_def HOST_KEY_POLICIES_def str_or_def sample_client_def)
  have user: "plain_word (je_user sample_endpoint)" "plain_word ''/tmp/f''"
    by (simp_all add: plain_word_def sample_endpoint_def)
  have "build_ssh_argv sample_client [''rm'', ''-r''] = Ok (projr (build_ssh_argv sample_client [''rm'', ''-r'']))"
    "build_scp_push_argv sample_client ''/tmp/f'' ''/etc/f'' = Ok (projr (build_scp_push_argv sample_client ''/tmp/f'' ''/etc/f''))"
    by (simp_all add: build_ssh_argv_def build_scp_push_argv_def sample_client_def)
  moreover have "target sample_client = ''mower@rover''" by (simp add: target_def sample_client_def sample_endpoint_def)
  ultimately show ?thesis
    using ssh_argv_key_only [OF new user, of "[''rm'', ''-r'']" "''/etc/f''" "\<lambda>_ _. StreamOpen" "[]" None "\<lambda>_ _ _. RunTimeout" True None]
    by (metis append_Cons append_Nil)
qed

end
