(* ===== verification/GeoJson.thy ===== *)
theory GeoJson
  imports ZoneConfig
begin

text \<open>
  GeoJSON export, \<open>zone/geojson.py\<close>: a zone, and several zones, as an RFC 7946 feature
  collection. A collection is a value of \<open>PyValue\<close>, with the dictionaries in the order the code
  writes them; log calls are left out.
\<close>

section \<open>Export\<close>

definition position :: "pyfloat \<Rightarrow> pyfloat \<Rightarrow> pyval" where
  "position lon lat = VList [VFloat lon, VFloat lat]"

definition positions :: "latlon list \<Rightarrow> pyval list" where
  "positions ps = map (\<lambda>p. position (ll_lon p) (ll_lat p)) ps"

text \<open>\<open>coords.append(coords[0])\<close>\<close>

definition close_ring :: "pyval list \<Rightarrow> (pyexc, pyval list) result" where
  "close_ring cs = (case cs of [] \<Rightarrow> Err IndexError | c # _ \<Rightarrow> Ok (cs @ [c]))"

definition feature :: "(string \<times> pyval) list \<Rightarrow> string \<Rightarrow> pyval list \<Rightarrow> pyval" where
  "feature props ty coordinates =
     VDict [(''type'', VStr ''Feature''), (''properties'', VDict props),
            (''geometry'', VDict [(''type'', VStr ty), (''coordinates'', VList coordinates)])]"

definition boundary_feature :: "zone_config \<Rightarrow> (pyexc, pyval) result" where
  "boundary_feature zone =
     bindr (close_ring (positions (z_boundary zone))) (\<lambda>ring.
     Ok (feature [(''zone_id'', VStr (z_zone_id zone)), (''feature_type'', VStr ''boundary''),
        (''name'', VStr (z_name zone)), (''description'', VStr (z_description zone))] ''Polygon'' [VList ring]))"

definition exclusion_feature :: "zone_config \<Rightarrow> exclusion_zone \<Rightarrow> (pyexc, pyval) result" where
  "exclusion_feature zone ez =
     bindr (close_ring (positions (ez_polygon ez))) (\<lambda>ring.
     Ok (feature [(''zone_id'', VStr (z_zone_id zone)), (''feature_type'', VStr ''exclusion''),
        (''name'', VStr (ez_name ez)), (''buffer_m'', VFloat (ez_buffer_m ez))] ''Polygon'' [VList ring]))"

definition home_feature :: "zone_config \<Rightarrow> pyval" where
  "home_feature zone =
     feature [(''zone_id'', VStr (z_zone_id zone)), (''feature_type'', VStr ''home'')] ''Point''
       [VFloat (ll_lon (z_home zone)), VFloat (ll_lat (z_home zone))]"

definition rally_feature :: "zone_config \<Rightarrow> pyval" where
  "rally_feature zone =
     feature [(''zone_id'', VStr (z_zone_id zone)), (''feature_type'', VStr ''rally''),
        (''description'', rp_description (z_rally_point zone))] ''Point''
       [VFloat (rp_lon (z_rally_point zone)), VFloat (rp_lat (z_rally_point zone))]"

definition path_features :: "zone_config \<Rightarrow> latlon list \<Rightarrow> pyval list" where
  "path_features zone waypoints =
     (if waypoints = [] then []
      else [feature [(''zone_id'', VStr (z_zone_id zone)), (''feature_type'', VStr ''coverage_path''),
          (''waypoint_count'', VInt (int (length waypoints))), (''pattern'', VStr (cv_pattern (z_coverage zone))),
          (''mow_speed_mps'', VFloat (mow_speed_mps (z_coverage zone)))] ''LineString'' (positions waypoints)])"

definition collection :: "(string \<times> pyval) list \<Rightarrow> pyval list \<Rightarrow> pyval" where
  "collection props features =
     VDict [(''type'', VStr ''FeatureCollection''), (''properties'', VDict props), (''features'', VList features)]"

definition export_zone_geojson :: "zone_config \<Rightarrow> latlon list \<Rightarrow> (pyexc, pyval) result" where
  "export_zone_geojson zone waypoints =
     bindr (boundary_feature zone) (\<lambda>b.
     bindr (mapr (exclusion_feature zone) (z_exclusion_zones zone)) (\<lambda>es.
     Ok (collection
       [(''zone_id'', VStr (z_zone_id zone)), (''zone_name'', VStr (z_name zone)),
        (''description'', VStr (z_description zone))]
       ([b] @ es @ [home_feature zone, rally_feature zone] @ path_features zone waypoints))))"

text \<open>\<open>collection["features"]\<close> and \<open>feature["properties"]["feature_type"]\<close>.\<close>

fun py_item :: "pyval \<Rightarrow> string \<Rightarrow> (pyexc, pyval) result" where
  "py_item (VDict d) k = of_opt KeyError (dict_get d k)"
| "py_item v k = Err TypeError"

fun py_iter :: "pyval \<Rightarrow> (pyexc, pyval list) result" where
  "py_iter (VList vs) = Ok vs"
| "py_iter v = Err TypeError"

definition is_coverage_path :: "pyval \<Rightarrow> (pyexc, bool) result" where
  "is_coverage_path f =
     bindr (py_item f ''properties'') (\<lambda>p.
     bindr (py_item p ''feature_type'') (\<lambda>t. Ok (t = VStr ''coverage_path'')))"

fun keep_features :: "pyval list \<Rightarrow> (pyexc, pyval list) result" where
  "keep_features [] = Ok []"
| "keep_features (f # fs) =
     bindr (is_coverage_path f) (\<lambda>c.
     bindr (keep_features fs) (\<lambda>gs. Ok (if \<not> c then f # gs else gs)))"

fun all_features :: "zone_config list \<Rightarrow> (pyexc, pyval list) result" where
  "all_features [] = Ok []"
| "all_features (zone # zones) =
     bindr (export_zone_geojson zone []) (\<lambda>g.
     bindr (py_item g ''features'') (\<lambda>fv.
     bindr (py_iter fv) (\<lambda>fs.
     bindr (keep_features fs) (\<lambda>gs.
     bindr (all_features zones) (\<lambda>rest. Ok (gs @ rest))))))"

definition export_multi_zone_geojson :: "zone_config list \<Rightarrow> (pyexc, pyval) result" where
  "export_multi_zone_geojson zones =
     bindr (all_features zones) (\<lambda>fs.
     Ok (collection
       [(''zone_count'', VInt (int (length zones))), (''zone_names'', VList (map (VStr \<circ> z_name) zones)),
        (''export_type'', VStr ''multi_zone'')] fs))"

section \<open>RFC 7946\<close>

text \<open>
  A linear ring has four or more positions, the first equal to the last (section 3.1.6); a
  position is a list of two numbers here.
\<close>

fun is_position :: "pyval \<Rightarrow> bool" where
  "is_position (VList [VFloat a, VFloat b]) = True"
| "is_position v = False"

fun linear_ring :: "pyval \<Rightarrow> bool" where
  "linear_ring (VList cs) = (4 \<le> length cs \<and> hd cs = last cs \<and> list_all is_position cs)"
| "linear_ring v = False"

fun geometry_ok :: "pyval \<Rightarrow> bool" where
  "geometry_ok (VDict [(t, VStr ty), (c, VList cs)]) =
     (t = ''type'' \<and> c = ''coordinates'' \<and>
      (ty = ''Polygon'' \<and> list_all linear_ring cs
       \<or> ty = ''Point'' \<and> is_position (VList cs)
       \<or> ty = ''LineString'' \<and> list_all is_position cs))"
| "geometry_ok v = False"

fun feature_ok :: "pyval \<Rightarrow> bool" where
  "feature_ok (VDict [(t, VStr ty), (p, VDict props), (g, geo)]) =
     (t = ''type'' \<and> ty = ''Feature'' \<and> p = ''properties'' \<and> g = ''geometry'' \<and> geometry_ok geo)"
| "feature_ok v = False"

lemma position_ok [simp]: "is_position (position a b)"
  by (simp add: position_def)

lemma positions_ok [simp]: "list_all is_position (positions ps)"
  by (simp add: positions_def list_all_iff)

lemma close_ring_Ok:
  "close_ring (positions ps) = Ok ring \<Longrightarrow> 3 \<le> length ps \<Longrightarrow> linear_ring (VList ring)"
  by (auto simp: close_ring_def positions_def list_all_iff split: list.splits)

lemma close_ring_total: "ps \<noteq> [] \<Longrightarrow> \<exists>ring. close_ring (positions ps) = Ok ring"
  by (cases ps) (simp_all add: close_ring_def positions_def)

lemma feature_ok_feature:
  "feature_ok (feature props ty cs) \<longleftrightarrow>
     (ty = ''Polygon'' \<and> list_all linear_ring cs \<or> ty = ''Point'' \<and> is_position (VList cs)
       \<or> ty = ''LineString'' \<and> list_all is_position cs)"
  by (simp add: feature_def)

lemma boundary_feature_ok:
  "3 \<le> length (z_boundary zone) \<Longrightarrow> \<exists>f. boundary_feature zone = Ok f \<and> feature_ok f
     \<and> is_coverage_path f = Ok False"
  using close_ring_total [of "z_boundary zone"] close_ring_Ok [of "z_boundary zone"]
  by (fastforce simp: boundary_feature_def feature_def is_coverage_path_def dict_get_def)

lemma exclusion_feature_ok:
  "3 \<le> length (ez_polygon ez) \<Longrightarrow> \<exists>f. exclusion_feature zone ez = Ok f \<and> feature_ok f
     \<and> is_coverage_path f = Ok False"
  using close_ring_total [of "ez_polygon ez"] close_ring_Ok [of "ez_polygon ez"]
  by (fastforce simp: exclusion_feature_def feature_def is_coverage_path_def dict_get_def)

lemma exclusion_features_ok:
  "list_all (\<lambda>ez. 3 \<le> length (ez_polygon ez)) ezs \<Longrightarrow>
     \<exists>fs. mapr (exclusion_feature zone) ezs = Ok fs \<and> list_all feature_ok fs
       \<and> list_all (\<lambda>f. is_coverage_path f = Ok False) fs \<and> length fs = length ezs"
proof (induction ezs)
  case (Cons ez ezs)
  then show ?case using exclusion_feature_ok [of ez zone] by auto
qed simp

lemma point_features_ok [simp]:
  "feature_ok (home_feature zone)" "feature_ok (rally_feature zone)"
  "is_coverage_path (home_feature zone) = Ok False" "is_coverage_path (rally_feature zone) = Ok False"
  by (simp_all add: home_feature_def rally_feature_def feature_def is_coverage_path_def dict_get_def)

lemma path_features_ok [simp]: "list_all feature_ok (path_features zone ws)"
  by (simp add: path_features_def feature_ok_feature)

text \<open>The polygons a zone needs for the export: the loader only lets through such zones.\<close>

definition polygons_ok :: "zone_config \<Rightarrow> bool" where
  "polygons_ok z \<longleftrightarrow> 3 \<le> length (z_boundary z) \<and> list_all (\<lambda>ez. 3 \<le> length (ez_polygon ez)) (z_exclusion_zones z)"

lemma polygons_wf_ok: "polygons_wf G z \<Longrightarrow> polygons_ok z"
  by (auto simp: polygons_wf_def polygons_ok_def polygon_wf_def list_all_iff)

lemma export_zone_ok:
  assumes "polygons_ok zone"
  obtains props fs where "export_zone_geojson zone ws = Ok (collection props (fs @ path_features zone ws))"
    and "list_all feature_ok fs" and "list_all (\<lambda>f. is_coverage_path f = Ok False) fs"
    and "length fs = 3 + length (z_exclusion_zones zone)"
proof -
  from assms obtain b es where "boundary_feature zone = Ok b" "feature_ok b" "is_coverage_path b = Ok False"
    "mapr (exclusion_feature zone) (z_exclusion_zones zone) = Ok es" "list_all feature_ok es"
    "list_all (\<lambda>f. is_coverage_path f = Ok False) es" "length es = length (z_exclusion_zones zone)"
    using boundary_feature_ok [of zone] exclusion_features_ok [of "z_exclusion_zones zone" zone]
    unfolding polygons_ok_def by blast
  then show thesis
    by (intro that [of _ "[b] @ es @ [home_feature zone, rally_feature zone]"])
      (simp_all add: export_zone_geojson_def)
qed

lemma keep_features_all: "list_all (\<lambda>f. is_coverage_path f = Ok False) fs \<Longrightarrow> keep_features fs = Ok fs"
  by (induction fs) simp_all

lemma all_features_ok:
  "list_all polygons_ok zones \<Longrightarrow> \<exists>fs. all_features zones = Ok fs \<and> list_all feature_ok fs
     \<and> length fs = (\<Sum>z \<leftarrow> zones. 3 + length (z_exclusion_zones z))"
proof (induction zones)
  case (Cons zone zones)
  then obtain props fs rest where "export_zone_geojson zone [] = Ok (collection props (fs @ path_features zone []))"
    "list_all feature_ok fs" "list_all (\<lambda>f. is_coverage_path f = Ok False) fs"
    "length fs = 3 + length (z_exclusion_zones zone)" "all_features zones = Ok rest" "list_all feature_ok rest"
    "length rest = (\<Sum>z \<leftarrow> zones. 3 + length (z_exclusion_zones z))"
    using export_zone_ok [of zone "[]" thesis] by auto
  then show ?case by (simp add: collection_def dict_get_def path_features_def keep_features_all)
qed simp

lemma export_zone_empty: "z_boundary zone = [] \<Longrightarrow> export_zone_geojson zone ws = Err IndexError"
  by (simp add: export_zone_geojson_def boundary_feature_def close_ring_def positions_def)

section \<open>Properties\<close>

text \<open>
  The map of well-formed zones, as the loader delivers them, is written without an error: it has one feature for the
  boundary, the home and the rally point of every zone and one per exclusion zone, and every
  feature is valid under RFC 7946, with polygons whose rings are closed and have four positions or more.
\<close>

lemma export_multi_rfc7946:
  assumes "list_all (polygons_wf G) zones"
  shows "\<exists>fs. export_multi_zone_geojson zones = Ok (collection
       [(''zone_count'', VInt (int (length zones))), (''zone_names'', VList (map (VStr \<circ> z_name) zones)),
        (''export_type'', VStr ''multi_zone'')] fs)
     \<and> list_all feature_ok fs \<and> length fs = (\<Sum>z \<leftarrow> zones. 3 + length (z_exclusion_zones z))"
proof -
  have "list_all polygons_ok zones" using assms polygons_wf_ok by (auto simp: list_all_iff)
  from all_features_ok [OF this] show ?thesis by (auto simp: export_multi_zone_geojson_def)
qed

end
