(* ===== verification/ZoneCli.thy ===== *)
theory ZoneCli
  imports MissionItems Planner Connection Ssh GeoJson Safety
begin

text \<open>
  The zone and mission commands of the laptop, \<open>cli/zone_laptop.py\<close>, over the components they
  put together: zone files, the planner, mission items, the mission protocol, the link, SSH and the
  confirmation primitive. A command is a program of \<open>Link\<close> whose outputs are its effects: messages
  to the autopilot, remote commands, files and lines on the terminal. The clock's text, the JSON
  encoder, the text of exceptions and the outcome of file writes belong to the environment.
\<close>

section \<open>Effects and environment\<close>

datatype zone_effect =
    Sent mav_out
  | SshRun "string list"
  | WriteFile string string
  | Echo string
  | EchoErr string

type_synonym 'a zone_io = "(zone_effect, mav_msg, 'a) io"

text \<open>What the body of a command raises; every one of these is an \<open>Exception\<close>.\<close>

datatype cli_exc =
    ArmedRefused
  | ZoneUploadError
  | TyperExit int
  | SshFailed ssh_error
  | PlanRaised planner_error
  | ItemRaised pyexc
  | LoadRaised zone_error
  | OsRaised
  | DownloadRaised download_error
  | TyperAbort
  | GeoRaised pyexc

record 'g zone_env =
  ze_shapely :: "'g shapely"
  ze_pyproj :: pyproj
  ze_floatlib :: floatlib
  ze_geometry :: geometry
  ze_repr :: "pyfloat \<Rightarrow> string"
  ze_yaml :: "string \<Rightarrow> pyval option"
  ze_json :: "pyval \<Rightarrow> string"
  ze_which :: "string \<Rightarrow> string option"
  ze_spawn :: spawn
  ze_environ :: env
  ze_attempts :: "nat \<Rightarrow> attempt_env"
  ze_isoformat :: string
  ze_stamp :: string
  ze_writable :: "string \<Rightarrow> bool"
  ze_message :: "cli_exc \<Rightarrow> string"

type_synonym 'a cli = "(cli_exc, 'a) result zone_io"

text \<open>Programs of the protocol client inside a command, and results that may never come.\<close>

definition io_lift :: "('a \<Rightarrow> 'b) \<Rightarrow> ('a, 'm, 'r) io \<Rightarrow> ('b, 'm, 'r) io" where
  "io_lift f m tr = (map f (fst (m tr)), snd (m tr))"

definition io_maybe :: "'a option \<Rightarrow> ('o, 'm, 'a) io" where
  "io_maybe x tr = ([], (case x of None \<Rightarrow> None | Some a \<Rightarrow> Some (a, tr)))"

fun io_each :: "'o list \<Rightarrow> ('o, 'm, unit) io" where
  "io_each [] = io_ret ()"
| "io_each (x # xs) = io_bind (io_emit x) (\<lambda>_. io_each xs)"

definition write_text :: "'g zone_env \<Rightarrow> string \<Rightarrow> string \<Rightarrow> unit cli" where
  "write_text E path t =
     (if ze_writable E path then io_bind (io_emit (WriteFile path t)) (\<lambda>_. io_ret (Ok ()))
      else io_ret (Err OsRaised))"

section \<open>Number formats\<close>

definition ljust :: "nat \<Rightarrow> string \<Rightarrow> string" where
  "ljust n s = s @ replicate (n - length s) (CHR '' '')"

definition rjust :: "nat \<Rightarrow> string \<Rightarrow> string" where
  "rjust n s = replicate (n - length s) (CHR '' '') @ s"

definition nl :: string where "nl = [CHR 0x0A]"
definition tab :: string where "tab = [CHR 0x09]"

section \<open>Helpers\<close>

fun is_heartbeat :: "mav_msg \<Rightarrow> bool" where
  "is_heartbeat (HEARTBEAT b) = True"
| "is_heartbeat m = False"

fun is_current :: "mav_msg \<Rightarrow> bool" where
  "is_current (MISSION_CURRENT s) = True"
| "is_current m = False"

definition MAV_MODE_FLAG_SAFETY_ARMED :: nat where "MAV_MODE_FLAG_SAFETY_ARMED = 128"

unbundle bit_operations_syntax

definition armed_bit :: "nat \<Rightarrow> bool" where
  "armed_bit base_mode \<longleftrightarrow> base_mode AND MAV_MODE_FLAG_SAFETY_ARMED \<noteq> 0"

definition check_not_armed :: "unit cli" where
  "check_not_armed =
     io_bind io_recv (\<lambda>m.
       case recv_match is_heartbeat m of
         Some (HEARTBEAT base_mode) \<Rightarrow> io_ret (if armed_bit base_mode then Err ArmedRefused else Ok ())
       | _ \<Rightarrow> io_ret (Ok ()))"

definition upload_all ::
  "mission_item list \<Rightarrow> mission_item list \<Rightarrow> mission_item list \<Rightarrow> (upload_error, unit) result mission_io" where
  "upload_all mission_items fence_items rally_items =
     io_bindr (upload_mission mission_items 0) (\<lambda>_.
     io_bindr (upload_mission fence_items 1) (\<lambda>_.
     io_bindr (upload_mission rally_items 2) (\<lambda>_.
     io_bind (verify_round_trip mission_items 0) (\<lambda>_.
     io_bind (verify_round_trip fence_items 1) (\<lambda>_.
     io_bind (verify_round_trip rally_items 2) (\<lambda>_. io_ret (Ok ())))))))"

definition clear_all :: "(upload_error, unit) result mission_io" where
  "clear_all = io_bindr (clear_mission 0) (\<lambda>_. io_bindr (clear_mission 1) (\<lambda>_. clear_mission 2))"

definition upload_zone_atomically ::
  "mission_item list \<Rightarrow> mission_item list \<Rightarrow> mission_item list \<Rightarrow> (cli_exc, unit) result mission_io" where
  "upload_zone_atomically mission_items fence_items rally_items =
     io_bind (upload_all mission_items fence_items rally_items) (\<lambda>r.
       case r of
         Inr u \<Rightarrow> io_ret (Ok ())
       | Inl e \<Rightarrow> io_bind clear_all (\<lambda>_. io_ret (Err ZoneUploadError)))"

definition zone_snapshot :: "'g zone_env \<Rightarrow> string \<Rightarrow> nat \<Rightarrow> nat \<Rightarrow> rally_point \<Rightarrow> pyval" where
  "zone_snapshot E zone_id waypoint_count fence_count rally =
     VDict [(''schema'', VStr ''mower-rover.zone-upload.v1''), (''captured_at'', VStr (ze_isoformat E)),
       (''zone_id'', VStr zone_id), (''waypoint_count'', VInt (int waypoint_count)),
       (''fence_vertex_count'', VInt (int fence_count)),
       (''rally_point'', VDict [(''lat'', VFloat (rp_lat rally)), (''lon'', VFloat (rp_lon rally))])]"

definition write_zone_snapshot ::
  "'g zone_env \<Rightarrow> string \<Rightarrow> nat \<Rightarrow> nat \<Rightarrow> rally_point \<Rightarrow> string \<Rightarrow> unit cli" where
  "write_zone_snapshot E zone_id waypoint_count fence_count rally path =
     write_text E path (ze_json E (zone_snapshot E zone_id waypoint_count fence_count rally) @ nl)"

definition get_jetson_endpoint :: jetson_endpoint where
  "get_jetson_endpoint =
     \<lparr>je_host = ''jetson-orin.local'', je_user = ''mower'', je_port = 22, je_key_path = None\<rparr>"

text \<open>\<open>client.run\<close> as an effect: the process is started once its command line is built.\<close>

definition client_run :: "'g zone_env \<Rightarrow> jetson_client \<Rightarrow> string list \<Rightarrow> pyfloat option \<Rightarrow> ssh_result cli" where
  "client_run E c remote_argv timeout =
     io_bind (case build_ssh_argv c remote_argv of Inl e \<Rightarrow> io_ret () | Inr argv \<Rightarrow> io_emit (SshRun argv)) (\<lambda>_.
     io_ret (map_err SshFailed (ssh_run (ze_spawn E) (ze_environ E) c remote_argv False timeout None)))"

definition activate_zone_on_jetson :: "'g zone_env \<Rightarrow> string \<Rightarrow> string \<Rightarrow> bool \<Rightarrow> unit cli" where
  "activate_zone_on_jetson E zone_id correlation_id dry =
     (if dry then io_ret (Ok ())
      else
        io_bindr (io_ret (map_err SshFailed
          (new_client (ze_which E) get_jetson_endpoint (Some correlation_id) ''accept-new'' 10 None None))) (\<lambda>client.
        io_bindr (client_run E client [''mower-jetson'', ''zone'', ''activate'', zone_id] (Some (Fin 30))) (\<lambda>result.
          if \<not> sr_ok result
          then io_bind (io_emit (EchoErr (''Zone activation failed on Jetson: '' @ py_strip (sr_stderr result)))) (\<lambda>_.
               io_ret (Err (TyperExit 1)))
          else io_ret (Ok ()))))"

section \<open>Commands\<close>

definition load_or_exit :: "'g zone_env \<Rightarrow> zone_file \<Rightarrow> zone_config cli" where
  "load_or_exit E f =
     (case load_zone_config (ze_repr E) (ze_geometry E) (ze_yaml E) f of
        Inr zone \<Rightarrow> io_ret (Ok zone)
      | Inl e \<Rightarrow>
          io_bind (io_emit (Echo (''Failed to load zone config: '' @ ze_message E (LoadRaised e)))) (\<lambda>_.
          io_ret (Err (TyperExit 1))))"

definition plan_zone :: "'g zone_env \<Rightarrow> zone_config \<Rightarrow> latlon list cli" where
  "plan_zone E zone =
     io_maybe (map_option (map_err PlanRaised)
       (generate_waypoints (ze_shapely E) (ze_pyproj E) (ze_floatlib E) zone))"

definition zone_items ::
  "zone_config \<Rightarrow> latlon list \<Rightarrow> (cli_exc, mission_item list \<times> mission_item list \<times> mission_item list) result" where
  "zone_items zone waypoints =
     map_err ItemRaised
       (bindr (zone_to_mission zone waypoints) (\<lambda>m.
        bindr (zone_to_fence zone) (\<lambda>f.
        bindr (zone_to_rally zone) (\<lambda>r. Ok (m, f, r)))))"

definition count_line :: "string \<Rightarrow> nat \<Rightarrow> string \<Rightarrow> zone_effect" where
  "count_line before n after = Echo (before @ digits_of_nat n @ after)"

definition select_dry_run :: "'g zone_env \<Rightarrow> zone_config \<Rightarrow> unit cli" where
  "select_dry_run E zone =
     io_bindr (plan_zone E zone) (\<lambda>waypoints.
     io_bindr (io_ret (zone_items zone waypoints)) (\<lambda>(m, f, r).
     io_bind (io_each
       [Echo ''DRY RUN - Zone selection complete (no upload)'',
        count_line ''  Would upload '' (length waypoints) '' waypoints'',
        count_line ''  Would upload '' (length f) '' fence vertices'',
        count_line ''  Would upload '' (length r) '' rally points'']) (\<lambda>_. io_ret (Ok ()))))"

definition snapshot_path :: "'g zone_env \<Rightarrow> zone_config \<Rightarrow> string" where
  "snapshot_path E zone =
     path_join (path_join ''snapshots/missions'' (z_zone_id zone)) (ze_stamp E @ ''.json'')"

definition no_waypoints :: "unit cli" where
  "no_waypoints =
     io_bind (io_emit (Echo ''No waypoints generated - zone may be too small'')) (\<lambda>_. io_ret (Err (TyperExit 1)))"

text \<open>The body of the \<open>with\<close> statement: after the upload, from the upload on, and as a whole.\<close>

definition selected_lines :: "'g zone_env \<Rightarrow> zone_config \<Rightarrow> nat \<Rightarrow> nat \<Rightarrow> zone_effect list" where
  "selected_lines E zone waypoint_count fence_count =
     [Echo (''Zone '' @ [CHR 0x27] @ z_zone_id zone @ [CHR 0x27] @ '' selected successfully''),
      count_line ''  Waypoints: '' waypoint_count [],
      count_line ''  Fence vertices: '' fence_count [],
      Echo (''  Rally point: '' @ fixed 6 (rp_lat (z_rally_point zone)) @ '', '' @ fixed 6 (rp_lon (z_rally_point zone))),
      Echo (''  Snapshot: '' @ snapshot_path E zone)]"

definition record_zone :: "'g zone_env \<Rightarrow> zone_config \<Rightarrow> nat \<Rightarrow> nat \<Rightarrow> unit cli" where
  "record_zone E zone waypoint_count fence_count =
     io_bindr (write_zone_snapshot E (z_zone_id zone) waypoint_count fence_count (z_rally_point zone)
        (snapshot_path E zone)) (\<lambda>_.
     io_bind (io_each (selected_lines E zone waypoint_count fence_count)) (\<lambda>_. io_ret (Ok ())))"

definition install_zone :: "'g zone_env \<Rightarrow> zone_config \<Rightarrow> latlon list \<Rightarrow> unit cli" where
  "install_zone E zone waypoints =
     io_bindr (io_ret (zone_items zone waypoints)) (\<lambda>(m, f, r).
     io_bindr (io_lift Sent (upload_zone_atomically m f r)) (\<lambda>_.
     record_zone E zone (length waypoints) (length f)))"

definition select_live :: "'g zone_env \<Rightarrow> zone_config \<Rightarrow> bool \<Rightarrow> string \<Rightarrow> unit cli" where
  "select_live E zone skip_slam correlation_id =
     io_bindr check_not_armed (\<lambda>_.
     io_bindr (if \<not> skip_slam
        then activate_zone_on_jetson E (z_zone_id zone)
               (if correlation_id = [] then ''zone-select'' else correlation_id) False
        else io_ret (Ok ())) (\<lambda>_.
     io_bindr (plan_zone E zone) (\<lambda>waypoints.
       if waypoints = [] then no_waypoints else install_zone E zone waypoints)))"

text \<open>\<open>with open_link(config) as conn\<close> around a body, as \<open>Connection\<close> describes it.\<close>

definition link_config :: "string \<Rightarrow> connection_config" where
  "link_config endpoint = default_connection\<lparr>cc_endpoint := endpoint\<rparr>"

definition in_link :: "'g zone_env \<Rightarrow> string \<Rightarrow> 'a cli \<Rightarrow> (cli_exc with_error, 'a) result zone_io" where
  "in_link E endpoint body =
     (let cfg = link_config endpoint in
      case snd (seek_link cfg False (ze_attempts E) 1 (nat (retry_attempts cfg))) of
        Inl e \<Rightarrow> io_ret (Err (NoLink e))
      | Inr kn \<Rightarrow>
          io_bind body (\<lambda>r. io_ret (snd (with_link cfg False (ze_attempts E) (\<lambda>_. True) (\<lambda>_. r)))))"

datatype select_error =
    NotConfirmed "cli_exc guard_error"
  | BeforeLink cli_exc
  | InLink "cli_exc with_error"

definition confirm_zone_select ::
  "zone_effect list safety_context \<Rightarrow> console_input \<Rightarrow> (cli_exc guard_error, unit) result" where
  "confirm_zone_select ctx answer = fst (confirmed ctx answer (\<lambda>w. (Ok (), w)) [])"

definition select_zone ::
  "'g zone_env \<Rightarrow> zone_file \<Rightarrow> string \<Rightarrow> bool \<Rightarrow> string \<Rightarrow> zone_effect list safety_context \<Rightarrow> console_input
     \<Rightarrow> (select_error, unit) result zone_io" where
  "select_zone E f endpoint skip_slam correlation_id ctx answer =
     io_bindr (io_ret (map_err NotConfirmed (confirm_zone_select ctx answer))) (\<lambda>_.
     io_bindr (io_bind (load_or_exit E f) (io_ret \<circ> map_err BeforeLink)) (\<lambda>zone.
       if dry_run ctx then io_bind (select_dry_run E zone) (io_ret \<circ> map_err BeforeLink)
       else io_bind (in_link E endpoint (select_live E zone skip_slam correlation_id)) (io_ret \<circ> map_err InLink)))"

text \<open>
  \<open>zone resume\<close>. The prompt is click's \<open>confirm\<close>, an argument: it answers, or raises \<open>Abort\<close>.
\<close>

definition total_waypoints :: "mission_item list \<Rightarrow> nat" where
  "total_waypoints items = length (filter (\<lambda>it. mi_command it = 16) items)"

definition resume_from :: "(string \<Rightarrow> bool option) \<Rightarrow> bool \<Rightarrow> zone_config \<Rightarrow> nat \<Rightarrow> int \<Rightarrow> unit cli" where
  "resume_from ask dry zone n current_seq =
     io_bind (io_each
       [Echo (''Zone: '' @ z_name zone @ '' ('' @ z_zone_id zone @ '')''),
        Echo (''  Current waypoint: '' @ str_int current_seq),
        count_line ''  Total waypoints: '' n [],
        Echo (''  Progress: '' @ str_int current_seq @ ''/'' @ digits_of_nat n)]) (\<lambda>_.
     if dry then io_bind (io_emit (Echo ''DRY RUN - Would resume from current position'')) (\<lambda>_. io_ret (Ok ()))
     else if int n \<le> current_seq
     then io_bind (io_emit (Echo ''Mission complete - nothing to resume'')) (\<lambda>_. io_ret (Ok ()))
     else (case ask (''Resume '' @ z_zone_id zone @ '' from waypoint '' @ str_int (current_seq + 1) @ ''?'') of
         None \<Rightarrow> io_ret (Err TyperAbort)
       | Some False \<Rightarrow> io_bind (io_emit (Echo ''Resume cancelled'')) (\<lambda>_. io_ret (Ok ()))
       | Some True \<Rightarrow>
           io_bind (io_each
             [Sent (MissionSetCurrentSend current_seq),
              Echo (''Mission index set to '' @ str_int current_seq),
              Echo ''  Use RC transmitter to arm and set Auto mode'']) (\<lambda>_. io_ret (Ok ()))))"

definition resume_body :: "(string \<Rightarrow> bool option) \<Rightarrow> bool \<Rightarrow> zone_config \<Rightarrow> unit cli" where
  "resume_body ask dry zone =
     io_bindr (io_bind (io_lift Sent (download_mission 0)) (io_ret \<circ> map_err DownloadRaised)) (\<lambda>items.
     io_bind io_recv (\<lambda>m.
       case recv_match is_current m of
         Some (MISSION_CURRENT current_seq) \<Rightarrow> resume_from ask dry zone (total_waypoints items) current_seq
       | _ \<Rightarrow> io_bind (io_emit (Echo ''Could not read current mission state'')) (\<lambda>_. io_ret (Err (TyperExit 1)))))"

definition resume_zone ::
  "'g zone_env \<Rightarrow> (string \<Rightarrow> bool option) \<Rightarrow> zone_file \<Rightarrow> string \<Rightarrow> bool \<Rightarrow> (select_error, unit) result zone_io" where
  "resume_zone E ask f endpoint dry =
     io_bindr (io_bind (load_or_exit E f) (io_ret \<circ> map_err BeforeLink)) (\<lambda>zone.
     io_bind (in_link E endpoint (resume_body ask dry zone)) (io_ret \<circ> map_err InLink))"

section \<open>Planning and map export\<close>

definition qgc_line :: "nat \<Rightarrow> nat \<Rightarrow> pyfloat \<Rightarrow> pyfloat \<Rightarrow> string" where
  "qgc_line i current lat lon =
     join_with tab ([digits_of_nat i, digits_of_nat current, ''0'', ''16'', ''0'', ''0'', ''0'', ''0'',
       fixed 8 lat, fixed 8 lon, ''0'', ''1'']) @ nl"

definition qgc_text :: "latlon \<Rightarrow> latlon list \<Rightarrow> string" where
  "qgc_text home waypoints =
     ''QGC WPL 110'' @ nl @ qgc_line 0 1 (ll_lat home) (ll_lon home)
   @ concat (map (\<lambda>(i, w). qgc_line i 0 (ll_lat w) (ll_lon w)) (enumerate 1 waypoints))"

definition plan_mission :: "'g zone_env \<Rightarrow> zone_file \<Rightarrow> string \<Rightarrow> unit cli" where
  "plan_mission E f output_dir =
     io_bindr (load_or_exit E f) (\<lambda>zone.
     io_bind (plan_zone E zone) (\<lambda>r.
       case r of
         Inl e \<Rightarrow>
           io_bind (io_emit (Echo (''Waypoint generation failed: '' @ ze_message E e))) (\<lambda>_. io_ret (Err (TyperExit 1)))
       | Inr waypoints \<Rightarrow>
           if waypoints = [] then no_waypoints
           else
             let output_file = path_join output_dir (z_zone_id zone @ ''.waypoints'')
             in io_bindr (write_text E output_file (qgc_text (z_home zone) waypoints)) (\<lambda>_.
                io_bind (io_each
                  [Echo ''Mission planned successfully'',
                   Echo (''  Zone: '' @ z_name zone @ '' ('' @ z_zone_id zone @ '')''),
                   count_line ''  Waypoints: '' (length waypoints) [],
                   Echo (''  Output: '' @ output_file)]) (\<lambda>_. io_ret (Ok ())))))"

text \<open>The zones directory: absent, something else, or the files its glob yields.\<close>

datatype zones_dir = NoZonesDir | NotADirectory | ZonesDir "zone_file list"

fun dir_files :: "zones_dir \<Rightarrow> zone_file list option" where
  "dir_files (ZonesDir fs) = Some fs"
| "dir_files d = None"

definition zone_row :: "zone_config \<Rightarrow> string" where
  "zone_row zone =
     (let n = length (z_boundary zone);
          area_est = ''~'' @ digits_of_nat (n * 100) @ ''m'' @ [CHR 0xB2];
          name = (if length (z_name zone) \<le> 24 then take 24 (z_name zone) else take 21 (z_name zone) @ ''...'')
      in ljust 12 (z_zone_id zone) @ '' | '' @ ljust 24 name @ '' | '' @ rjust 8 (digits_of_nat n) @ '' | ''
         @ rjust 8 area_est)"

definition list_zones :: "'g zone_env \<Rightarrow> string \<Rightarrow> zones_dir \<Rightarrow> unit cli" where
  "list_zones E path d =
     (if d = NoZonesDir
      then io_bind (io_emit (Echo (''Zones directory not found: '' @ path))) (\<lambda>_. io_ret (Err (TyperExit 1)))
      else
        io_bindr (io_ret (map_err LoadRaised (load_all_zones (ze_repr E) (ze_geometry E) (ze_yaml E) (dir_files d)))) (\<lambda>zones.
          if zones = [] then io_bind (io_emit (Echo ''No valid zone files found.'')) (\<lambda>_. io_ret (Ok ()))
          else
            io_bind (io_each
              ([Echo ''Zone ID      | Name                     | Boundary | Area Est.'',
                Echo ''-------------|--------------------------|----------|----------'']
               @ map (Echo \<circ> zone_row) zones
               @ [count_line (nl @ ''Total: '') (length zones) '' zones''])) (\<lambda>_. io_ret (Ok ()))))"

definition exit_with :: "string \<Rightarrow> unit cli" where
  "exit_with msg = io_bind (io_emit (EchoErr msg)) (\<lambda>_. io_ret (Err (TyperExit 1)))"

definition features_of :: "pyval \<Rightarrow> pyval list" where
  "features_of g = (case bindr (py_item g ''features'') py_iter of Inr fs \<Rightarrow> fs | Inl e \<Rightarrow> [])"

definition export_map :: "'g zone_env \<Rightarrow> zones_dir \<Rightarrow> string \<Rightarrow> unit cli" where
  "export_map E d path =
     (case load_all_zones (ze_repr E) (ze_geometry E) (ze_yaml E) (dir_files d) of
        Inl e \<Rightarrow> exit_with (''Error loading zones: '' @ ze_message E (LoadRaised e))
      | Inr zones \<Rightarrow>
          if zones = [] then exit_with ''No zones found in directory''
          else (case export_multi_zone_geojson zones of
              Inl e \<Rightarrow> exit_with (''Error exporting GeoJSON: '' @ ze_message E (GeoRaised e))
            | Inr g \<Rightarrow>
                io_bind (write_text E path (ze_json E g @ nl)) (\<lambda>w.
                  case w of
                    Inl e \<Rightarrow> exit_with (''Error writing file: '' @ ze_message E e)
                  | Inr u \<Rightarrow>
                      io_bind (io_each
                        [Echo (''Map exported to '' @ path),
                         count_line ''  Zones: '' (length zones) [],
                         count_line ''  Features: '' (length (features_of g)) [],
                         Echo (''  Included: '' @ join_with '', '' (map z_name zones))]) (\<lambda>_. io_ret (Ok ())))))"

section \<open>The upload\<close>

text \<open>What a run announced, and what it cleared.\<close>

fun announced :: "mav_out list \<Rightarrow> (nat \<times> int) list" where
  "announced [] = []"
| "announced (MissionCountSend n mt # out) = (n, mt) # announced out"
| "announced (x # out) = announced out"

fun cleared :: "mav_out list \<Rightarrow> int list" where
  "cleared [] = []"
| "cleared (MissionClearAllSend mt # out) = mt # cleared out"
| "cleared (x # out) = cleared out"

lemma announced_append [simp]: "announced (xs @ ys) = announced xs @ announced ys"
  by (induction xs rule: announced.induct) simp_all

lemma cleared_append [simp]: "cleared (xs @ ys) = cleared xs @ cleared ys"
  by (induction xs rule: cleared.induct) simp_all

fun plain_out :: "mav_out \<Rightarrow> bool" where
  "plain_out (MissionCountSend n mt) = False"
| "plain_out (MissionClearAllSend mt) = False"
| "plain_out x = True"

lemma plain_out_silent: "\<forall>x \<in> set out. plain_out x \<Longrightarrow> announced out = [] \<and> cleared out = []"
proof (induction out)
  case (Cons x out)
  then show ?case by (cases x) simp_all
qed simp

lemma upload_pass_out: "x \<in> set (fst (upload_pass items t s p)) \<Longrightarrow> plain_out x"
  by (auto simp: upload_pass_def upload_reply_def split: if_splits option.splits mav_msg.splits)

lemma silent_passes:
  "fst (final_ack_pass t u p) = []" "fst (count_pass mt t u q) = []" "fst (item_pass mt sq t u q) = []"
  "fst (clear_ack_pass mt t u q) = []"
  by (auto simp: final_ack_pass_def count_pass_def item_pass_def clear_ack_pass_def
      split: option.splits mav_msg.splits)

lemma download_items_emits [emits]: "emits_only plain_out (download_items mt sqs)"
  by (induction mt sqs rule: download_items.induct)
    (auto intro!: emits simp: download_item_def silent_passes)

lemma download_mission_emits [emits]: "emits_only plain_out (download_mission mt)"
  unfolding download_mission_def by (intro emits) (simp_all add: silent_passes)

lemma verify_emits [emits]: "emits_only plain_out (verify_round_trip ex mt)"
  unfolding verify_round_trip_def by (intro emits)

lemma emits_plain: "emits_only plain_out m \<Longrightarrow> announced (fst (m tr)) = [] \<and> cleared (fst (m tr)) = []"
  by (intro plain_out_silent) (simp add: emits_only_def)

lemma upload_mission_out:
  assumes "items \<noteq> []"
  shows "announced (fst (upload_mission items mt tr)) = [(length items, mt)]"
    and "cleared (fst (upload_mission items mt tr)) = []"
proof -
  define rest where "rest = io_bind io_clock (\<lambda>start_time.
        io_bind (poll (upload_pending items) (upload_pass items start_time) {}) (\<lambda>res.
          case res of Inr r \<Rightarrow> io_ret r | Inl sent \<Rightarrow> await final_ack_pass))"
  have "emits_only plain_out rest"
    unfolding rest_def by (intro emits) (simp_all add: upload_pass_out silent_passes)
  then show "announced (fst (upload_mission items mt tr)) = [(length items, mt)]"
    and "cleared (fst (upload_mission items mt tr)) = []"
    using assms emits_plain [of rest tr] by (simp_all add: upload_mission_def io_bind_emit rest_def)
qed


lemma upload_mission_acked:
  assumes "items \<noteq> []" and "upload_mission items mt tr = (out, Some (Ok (), tr'))"
  shows "\<exists>pre p. tr = pre @ p # tr' \<and> accepts p"
  using assms(1)
proof (cases rule: upload_mission_cases [where tr = tr and mt = mt])
  case (left p ps h r ps')
  with assms have r: "r = Ok ()" "ps' = tr'" by auto
  from left(2) obtain pre q s' o1 where q: "ps = pre @ q # ps'" "upload_pass items (fst p) s' q = (o1, Leave r)"
    by (blast dest: poll_left_last)
  then have "accepts q" unfolding r
    by (auto simp: upload_pass_def upload_reply_def accepts_def recv_match_Some
        split: if_splits option.splits mav_msg.splits)
  with left(1) q r show ?thesis by (metis append_Cons)
next
  case (all_sent p ps h S ps' o2 res)
  with assms have "await final_ack_pass ps' = (o2, Some (Ok (), tr'))" by auto
  then obtain pre q t u o1 where q: "ps' = pre @ q # tr'" "final_ack_pass t u q = (o1, Leave (Ok ()))"
    by (blast dest: await_left_last)
  then have "accepts q"
    by (auto simp: final_ack_pass_def accepts_def recv_match_Some split: if_splits option.splits mav_msg.splits)
  moreover obtain pre' where "ps = pre' @ ps'" using all_sent(2) by (blast dest: poll_rest)
  ultimately show ?thesis using all_sent(1) q by (metis append_Cons append_assoc)
qed (use assms in auto)

lemma consuming_download_items [consumes]: "consuming (download_items mt sqs)"
  by (induction mt sqs rule: download_items.induct) (auto intro!: consumes simp: download_item_def)







lemma upload_all_Ok:
  assumes "m \<noteq> []" "f \<noteq> []" "r \<noteq> []" and "upload_all m f r tr = (out, Some (Ok u, tr'))"
  shows "announced out = [(length m, 0), (length f, 1), (length r, 2)] \<and> cleared out = []
     \<and> 3 \<le> length (filter accepts tr)"
proof -
  from assms(4) [unfolded upload_all_def] obtain o1 o2 o3 t1 t2 t3 ov where
    u1: "upload_mission m 0 tr = (o1, Some (Ok (), t1))" and
    u2: "upload_mission f 1 t1 = (o2, Some (Ok (), t2))" and
    u3: "upload_mission r 2 t2 = (o3, Some (Ok (), t3))" and
    v: "io_bind (verify_round_trip m 0) (\<lambda>_. io_bind (verify_round_trip f 1) (\<lambda>_.
        io_bind (verify_round_trip r 2) (\<lambda>_. io_ret (Ok ())))) t3 = (ov, Some (Ok u :: (upload_error, unit) result, tr'))" and
    out: "out = o1 @ o2 @ o3 @ ov"
    by (auto elim!: io_bindr_SomeE)
  have "emits_only plain_out (io_bind (verify_round_trip m 0) (\<lambda>_. io_bind (verify_round_trip f 1) (\<lambda>_.
        io_bind (verify_round_trip r 2) (\<lambda>_. io_ret (Ok () :: (upload_error, unit) result)))))"
    by (intro emits)
  from emits_plain [OF this, of t3] have "announced ov = [] \<and> cleared ov = []" using v by simp
  moreover obtain a p b q c s where "tr = a @ p # t1" "accepts p" "t1 = b @ q # t2" "accepts q"
      "t2 = c @ s # t3" "accepts s"
    using upload_mission_acked [OF assms(1) u1] upload_mission_acked [OF assms(2) u2]
      upload_mission_acked [OF assms(3) u3] by blast
  ultimately show ?thesis
    using upload_mission_out [OF assms(1), of 0 tr] upload_mission_out [OF assms(2), of 1 t1]
      upload_mission_out [OF assms(3), of 2 t2] u1 u2 u3 out by simp
qed






text \<open>
  The verdicts of the read-back are dropped: once the three uploads were acknowledged, the upload of the zone
  succeeds whatever \<open>verify_round_trip\<close> found, also when it found all three lists wrong.
\<close>

lemma upload_zone_ignores_verification:
  assumes "upload_mission m 0 tr = (o1, Some (Ok (), t1))"
    and "upload_mission f 1 t1 = (o2, Some (Ok (), t2))"
    and "upload_mission r 2 t2 = (o3, Some (Ok (), t3))"
    and "verify_round_trip m 0 t3 = (o4, Some (ok0, t4))"
    and "verify_round_trip f 1 t4 = (o5, Some (ok1, t5))"
    and "verify_round_trip r 2 t5 = (o6, Some (ok2, t6))"
  shows "upload_zone_atomically m f r tr = (o1 @ o2 @ o3 @ o4 @ o5 @ o6, Some (Ok (), t6))"
  using assms by (simp add: upload_zone_atomically_def upload_all_def io_bindr_def io_bind_Some io_ret_run)

section \<open>Zone selection\<close>

fun physical :: "zone_effect \<Rightarrow> bool" where
  "physical (Echo s) = False"
| "physical (EchoErr s) = False"
| "physical x = True"

definition armed_obs :: "mav_msg obs \<Rightarrow> bool" where
  "armed_obs p \<longleftrightarrow> (\<exists>b. snd p = Some (HEARTBEAT b) \<and> armed_bit b)"

definition activated :: "'g zone_env \<Rightarrow> string \<Rightarrow> string \<Rightarrow> bool" where
  "activated E zone_id cid \<longleftrightarrow>
     (\<exists>c r. new_client (ze_which E) get_jetson_endpoint (Some cid) ''accept-new'' 10 None None = Ok c
        \<and> ssh_run (ze_spawn E) (ze_environ E) c [''mower-jetson'', ''zone'', ''activate'', zone_id] False
            (Some (Fin 30)) None = Ok r \<and> sr_ok r)"

lemma io_each_run: "io_each xs tr = (xs, Some ((), tr))"
  by (induction xs) (simp_all add: io_ret_run io_bind_emit)

lemma fst_io_bindr:
  "fst (io_bindr m f tr) =
     fst (m tr) @ (case snd (m tr) of Some (Inr a, tr') \<Rightarrow> fst (f a tr') | _ \<Rightarrow> [])"
  unfolding io_bindr_def fst_io_bind by (auto simp: io_ret_run split: option.splits sum.splits)

lemma emits_only_each [emits]: "list_all P xs \<Longrightarrow> emits_only P (io_each xs)"
  by (simp add: emits_only_def io_each_run list_all_iff)

lemma emits_only_maybe [emits]: "emits_only P (io_maybe x)"
  by (simp add: emits_only_def io_maybe_def)

lemma check_not_armed_run:
  "check_not_armed [] = ([], None)"
  "check_not_armed (p # ps) = ([], Some (if armed_obs p then Err ArmedRefused else Ok (), ps))"
  by (auto simp: check_not_armed_def io_bind_def io_recv_run armed_obs_def recv_match_def io_ret_run
      split: option.splits mav_msg.splits)

fun ssh_only :: "zone_effect \<Rightarrow> bool" where
  "ssh_only (Sent x) = False"
| "ssh_only (WriteFile p t) = False"
| "ssh_only x = True"

lemma client_run_run:
  "snd (client_run E c argv t tr) =
     Some (map_err SshFailed (ssh_run (ze_spawn E) (ze_environ E) c argv False t None), tr)"
  by (simp add: client_run_def io_bind_def io_ret_run io_emit_run split: sum.splits)

lemma activate_emits [emits]: "emits_only ssh_only (activate_zone_on_jetson E zone_id cid dry)"
  unfolding activate_zone_on_jetson_def client_run_def by (intro emits) simp_all

lemma snd_io_bindr:
  "snd (io_bindr m f tr) =
     (case snd (m tr) of None \<Rightarrow> None | Some (Inl e, tr') \<Rightarrow> Some (Inl e, tr') | Some (Inr a, tr') \<Rightarrow> snd (f a tr'))"
  by (auto simp: io_bindr_def io_bind_def io_ret_run split: prod.splits option.splits sum.splits)

lemma activate_Ok:
  assumes "snd (activate_zone_on_jetson E zone_id cid False tr) = Some (Ok u, tr')"
  shows "activated E zone_id cid \<and> tr' = tr"
proof -
  from assms obtain c where c: "new_client (ze_which E) get_jetson_endpoint (Some cid) ''accept-new'' 10 None None = Ok c"
    by (cases "new_client (ze_which E) get_jetson_endpoint (Some cid) ''accept-new'' 10 None None")
      (auto simp: activate_zone_on_jetson_def snd_io_bindr io_ret_run)
  with assms show ?thesis
    by (auto simp: activate_zone_on_jetson_def activated_def snd_io_bindr client_run_run io_ret_run io_bind_emit
        split: sum.splits if_splits
        elim!: map_err.elims)
qed

lemma io_bindr_outE:
  assumes "x \<in> set (fst (io_bindr m f tr))"
  obtains "x \<in> set (fst (m tr))" | a tr' where "snd (m tr) = Some (Ok a, tr')" "x \<in> set (fst (f a tr'))"
proof (cases "snd (m tr)")
  case (Some rt)
  with assms that show thesis by (cases rt; cases "fst rt") (auto simp: fst_io_bindr)
qed (use assms that in \<open>simp add: fst_io_bindr\<close>)

lemma plan_zone_run:
  "fst (plan_zone E zone tr) = []" "snd (plan_zone E zone tr) = Some (r, tr') \<Longrightarrow> tr' = tr"
  by (auto simp: plan_zone_def io_maybe_def split: option.splits)

lemma zone_items_nonempty:
  "zone_items zone ws = Ok (m, f, r) \<Longrightarrow> z_boundary zone \<noteq> [] \<Longrightarrow> m \<noteq> [] \<and> f \<noteq> [] \<and> r \<noteq> []"
proof -
  assume items: "zone_items zone ws = Ok (m, f, r)" and bd: "z_boundary zone \<noteq> []"
  from items have i: "zone_to_mission zone ws = Ok m" "zone_to_fence zone = Ok f" "zone_to_rally zone = Ok r"
    by (auto simp: zone_items_def result_simps elim!: map_err.elims)
  from i(2) obtain vi rest where "vertex_items MAV_CMD_FENCE_INCLUSION (length (z_boundary zone)) 0 0 (z_boundary zone) = Ok vi"
    "f = vi @ rest" by (auto simp: zone_to_fence_def result_simps)
  with vertex_items_numbered bd have "f \<noteq> []" by fastforce
  with i(1,3) show "m \<noteq> [] \<and> f \<noteq> [] \<and> r \<noteq> []"
    by (auto simp: zone_to_mission_def zone_to_rally_def mission_prologue_def result_simps Let_def)
qed

lemma io_lift_run: "fst (io_lift g m tr) = map g (fst (m tr))" "snd (io_lift g m tr) = snd (m tr)"
  by (simp_all add: io_lift_def)

lemma upload_zone_accepted:
  assumes "m \<noteq> []" "f \<noteq> []" "r \<noteq> []" and "snd (upload_zone_atomically m f r tr) = Some (Ok u, tr')"
  shows "3 \<le> length (filter accepts tr)"
proof -
  from assms(4) obtain out where "upload_zone_atomically m f r tr = (out, Some (Ok u, tr'))"
    by (metis prod.collapse)
  then obtain o1 v t1 where "upload_all m f r tr = (o1, Some (Ok v, t1))"
    unfolding upload_zone_atomically_def
    by (rule io_bind_SomeE) (auto simp: io_ret_run elim!: io_bind_SomeE split: sum.splits)
  with upload_all_Ok [OF assms(1-3)] show ?thesis by blast
qed

text \<open>A file is written only after the three lists were accepted, and no remote command is run.\<close>

lemma install_zone_out:
  assumes "x \<in> set (fst (install_zone E zone ws tr))" and "z_boundary zone \<noteq> []"
  shows "(\<forall>a. x \<noteq> SshRun a) \<and> (\<forall>p t. x = WriteFile p t \<longrightarrow> 3 \<le> length (filter accepts tr))"
proof (cases "zone_items zone ws")
  case (Inl e)
  with assms show ?thesis by (simp add: install_zone_def fst_io_bindr io_ret_run)
next
  case (Inr mfr)
  then obtain m f r where mfr: "zone_items zone ws = Ok (m, f, r)" by (cases mfr) auto
  define tail where "tail = record_zone E zone (length ws) (length f)"
  have "emits_only (\<lambda>x. \<forall>a. x \<noteq> SshRun a) tail"
    unfolding tail_def record_zone_def write_zone_snapshot_def write_text_def
    by (intro emits) (simp_all add: count_line_def selected_lines_def)
  then have no_ssh: "y \<in> set (fst (tail t)) \<Longrightarrow> y \<noteq> SshRun a" for y t a by (auto simp: emits_only_def)
  have "fst (install_zone E zone ws tr) = map Sent (fst (upload_zone_atomically m f r tr)) @
      (case snd (upload_zone_atomically m f r tr) of Some (Inr a, t) \<Rightarrow> fst (tail t) | _ \<Rightarrow> [])"
    using mfr unfolding tail_def by (simp add: install_zone_def fst_io_bindr io_ret_run io_lift_run)
  with assms(1) consider o' where "x = Sent o'"
    | u t where "snd (upload_zone_atomically m f r tr) = Some (Ok u, t)" "x \<in> set (fst (tail t))"
    by (auto split: option.splits sum.splits)
  then show ?thesis
  proof cases
    case 2
    then show ?thesis using no_ssh upload_zone_accepted zone_items_nonempty [OF mfr assms(2)] by blast
  qed simp
qed

lemma select_live_out:
  assumes "x \<in> set (fst (select_live E zone skip cid tr))" and "z_boundary zone \<noteq> []"
  shows "\<exists>p ps. tr = p # ps \<and> \<not> armed_obs p
     \<and> (\<forall>y. x = Sent y \<longrightarrow> skip \<or> activated E (z_zone_id zone) (if cid = [] then ''zone-select'' else cid))
     \<and> (\<forall>q t. x = WriteFile q t \<longrightarrow> 3 \<le> length (filter accepts tr))"
proof -
  let ?cid = "if cid = [] then ''zone-select'' else cid"
  define act where "act = (if \<not> skip then activate_zone_on_jetson E (z_zone_id zone) ?cid False else io_ret (Ok ()))"
  define tail where "tail = io_bindr (plan_zone E zone) (\<lambda>ws. if ws = [] then no_waypoints else install_zone E zone ws)"
  from assms(1) obtain p ps where tr: "tr = p # ps" and p: "\<not> armed_obs p"
    and x: "x \<in> set (fst (io_bindr act (\<lambda>_. tail) ps))"
    by (cases tr) (auto simp: select_live_def fst_io_bindr check_not_armed_run act_def tail_def split: if_splits)
  have "emits_only ssh_only act" unfolding act_def by (intro emits)
  then have a1: "ssh_only y" if "y \<in> set (fst (act ps))" for y using that by (simp add: emits_only_def)
  have a2: "(skip \<or> activated E (z_zone_id zone) ?cid) \<and> t = ps" if "snd (act ps) = Some (Ok u, t)" for u t
    using that activate_Ok [of E "z_zone_id zone" ?cid ps u t] by (cases skip) (simp_all add: act_def io_ret_run)
  have t: "3 \<le> length (filter accepts ps)" if "x \<in> set (fst (tail ps))" "x = WriteFile q s" for q s
  proof -
    from that obtain ws ps' where ws: "snd (plan_zone E zone ps) = Some (Ok ws, ps')"
      "x \<in> set (fst ((if ws = [] then no_waypoints else install_zone E zone ws) ps'))"
      unfolding tail_def by (auto simp: plan_zone_run(1) elim!: io_bindr_outE)
    with plan_zone_run(2) [OF ws(1)] have "x \<in> set (fst (no_waypoints ps)) \<or> x \<in> set (fst (install_zone E zone ws ps))"
      by (auto split: if_splits)
    then show ?thesis using install_zone_out [of x E zone ws ps] assms(2) that(2)
      by (auto simp: no_waypoints_def io_bind_emit io_ret_run)
  qed
  from x consider "ssh_only x" | u where "snd (act ps) = Some (Ok u, ps)" "x \<in> set (fst (tail ps))"
    by (rule io_bindr_outE) (use a1 a2 in blast)+
  then have "(\<forall>y. x = Sent y \<longrightarrow> skip \<or> activated E (z_zone_id zone) ?cid)
      \<and> (\<forall>q t. x = WriteFile q t \<longrightarrow> 3 \<le> length (filter accepts ps))"
    using a2 t by cases auto
  with tr p show ?thesis by (auto simp: le_SucI)
qed

lemma load_or_exit_cases:
  obtains (ok) zone where "load_zone_config (ze_repr E) (ze_geometry E) (ze_yaml E) f = Ok zone"
      "load_or_exit E f = io_ret (Ok zone)"
  | (failed) msg where "load_or_exit E f = io_bind (io_emit (Echo msg)) (\<lambda>_. io_ret (Err (TyperExit 1)))"
  by (cases "load_zone_config (ze_repr E) (ze_geometry E) (ze_yaml E) f") (auto simp: load_or_exit_def)

lemma in_link_out: "set (fst (in_link E ep body tr)) \<subseteq> set (fst (body tr))"
  by (auto simp: in_link_def Let_def fst_io_bind io_ret_run split: sum.splits option.splits)

lemma select_dry_run_out: "x \<in> set (fst (select_dry_run E zone tr)) \<Longrightarrow> \<not> physical x"
  by (auto simp: select_dry_run_def plan_zone_run(1) io_ret_run fst_io_bind io_each_run count_line_def
      elim!: io_bindr_outE split: option.splits simp del: io_each.simps)

lemma select_zone_gates_out:
  assumes "x \<in> set (fst (select_zone E f ep skip cid ctx answer tr))" and "physical x"
  shows "\<not> dry_run ctx \<and> (assume_yes ctx \<or> prompt answer)
     \<and> (\<exists>zone p ps. load_zone_config (ze_repr E) (ze_geometry E) (ze_yaml E) f = Ok zone
          \<and> tr = p # ps \<and> \<not> armed_obs p
          \<and> (\<forall>y. x = Sent y \<longrightarrow> skip \<or> activated E (z_zone_id zone) (if cid = [] then ''zone-select'' else cid))
          \<and> (\<forall>q t. x = WriteFile q t \<longrightarrow> 3 \<le> length (filter accepts tr)))"
proof -
  have auth: "authorised ctx answer" using assms(1)
    by (cases "authorised ctx answer")
      (simp_all add: select_zone_def confirm_zone_select_def fst_io_bindr io_ret_run)
  show ?thesis
  proof (cases rule: load_or_exit_cases [where E = E and f = f])
    case (failed msg)
    then show ?thesis using assms auth
      by (simp add: select_zone_def confirm_zone_select_def call_body_def fst_io_bindr io_ret_run io_bind_emit io_bind_def io_emit_run)
  next
    case (ok zone)
    then have out: "fst (select_zone E f ep skip cid ctx answer tr) =
        fst ((if dry_run ctx then io_bind (select_dry_run E zone) (io_ret \<circ> map_err BeforeLink)
          else io_bind (in_link E ep (select_live E zone skip cid)) (io_ret \<circ> map_err InLink)) tr)"
      using auth by (simp add: select_zone_def confirm_zone_select_def call_body_def fst_io_bindr io_ret_run io_bind_ret)
    have dry: "\<not> dry_run ctx"
    proof
      assume "dry_run ctx"
      with assms(1) out have "x \<in> set (fst (select_dry_run E zone tr))"
        by (auto simp: fst_io_bind io_ret_run split: option.splits)
      with select_dry_run_out assms(2) show False by blast
    qed
    with assms(1) out have "x \<in> set (fst (in_link E ep (select_live E zone skip cid) tr))"
      by (auto simp: fst_io_bind io_ret_run split: option.splits)
    with in_link_out have "x \<in> set (fst (select_live E zone skip cid tr))" by blast
    moreover have "z_boundary zone \<noteq> []"
      using polygons_wf_ok [OF load_zone_config_polygons [OF ok(1)]] by (auto simp: polygons_ok_def)
    ultimately show ?thesis using select_live_out [of x E zone skip cid tr] dry auth ok(1)
      by (auto simp: authorised_def)
  qed
qed

text \<open>
  C7: Whatever physical effect a zone selection has (a message to the autopilot, a remote command, a file), it
  was no dry run, the operator or the option confirmed it, the zone file loaded, and the first
  observation on the link was no heartbeat of an armed autopilot. A message is sent only after the
  zone was activated on the Jetson, unless that was skipped, and a file is written only after three
  accepting acknowledgements.
\<close>

theorem select_zone_gates:
  assumes "x \<in> set (fst (select_zone E f ep skip cid ctx answer tr))" and "physical x"
  shows "\<not> dry_run ctx \<and> (assume_yes ctx \<or> prompt answer)
     \<and> (\<exists>zone p ps. load_zone_config (ze_repr E) (ze_geometry E) (ze_yaml E) f = Ok zone
          \<and> tr = p # ps \<and> \<not> armed_obs p
          \<and> (\<forall>y. x = Sent y \<longrightarrow> skip \<or> activated E (z_zone_id zone) (if cid = [] then ''zone-select'' else cid))
          \<and> (\<forall>q t. x = WriteFile q t \<longrightarrow> 3 \<le> length (filter accepts tr)))"
  using assms by (rule select_zone_gates_out)

definition sample_env :: "unit zone_env" where
  "sample_env = \<lparr>ze_shapely = tall_strip, ze_pyproj = flat_proj, ze_floatlib = flat_math,
     ze_geometry = any_geometry, ze_repr = \<lambda>_. [], ze_yaml = \<lambda>_. Some (VDict sample_doc), ze_json = \<lambda>_. ''{}'',
     ze_which = \<lambda>s. Some s, ze_spawn = \<lambda>argv env t. RunExit 1 None None, ze_environ = [],
     ze_attempts = \<lambda>k. \<lparr>shutdown_before = False, heartbeat_seen = True, shutdown_in_backoff = False\<rparr>,
     ze_isoformat = ''now'', ze_stamp = ''now'', ze_writable = \<lambda>_. True, ze_message = \<lambda>_. []\<rparr>"

definition activate_argv :: "string list" where
  "activate_argv = [''ssh'', ''-o'', ''StrictHostKeyChecking=accept-new'', ''-o'', ''ConnectTimeout=10'',
     ''-o'', ''BatchMode=yes'', ''-o'', ''PasswordAuthentication=no'', ''-p'', ''22'', ''mower@jetson-orin.local'',
     ''mower-jetson'', ''zone'', ''activate'', ''front'']"

lemma sample_activation:
  "activate_zone_on_jetson sample_env ''front'' ''zone-select'' False tr =
     ([SshRun activate_argv, EchoErr ''Zone activation failed on Jetson: ''], Some (Err (TyperExit 1), tr))"
proof -
  have i: "str_int 10 = ''10''" "str_int 22 = ''22''" by code_simp+
  show ?thesis
    by (simp add: activate_zone_on_jetson_def client_run_def new_client_def sample_env_def HOST_KEY_POLICIES_def
        str_or_def get_jetson_endpoint_def build_ssh_argv_def ssh_run_def common_opts_def target_def activate_argv_def
        i sr_ok_def captured_def py_strip_def py_lstrip_def py_rstrip_def io_bindr_def io_bind_ret io_bind_emit io_ret_run io_bind_def io_emit_run)
qed

lemma sample_load: "load_or_exit sample_env (Text []) = io_ret (Ok sample_zone)"
  using sample_zone_loads [of "\<lambda>_. []"] by (simp add: load_or_exit_def sample_env_def)

definition yes_context :: "zone_effect list safety_context" where "yes_context = new_context False True"

theorem select_zone_gates_witness:
  "SshRun activate_argv \<in> set (fst (select_zone sample_env (Text []) [] False [] yes_context Eof [(Fin 0, None)]))
   \<and> \<not> dry_run yes_context \<and> (assume_yes yes_context \<or> prompt Eof)
   \<and> (\<exists>zone p ps. load_zone_config (ze_repr sample_env) (ze_geometry sample_env) (ze_yaml sample_env) (Text []) = Ok zone
        \<and> [(Fin 0, None)] = p # ps \<and> \<not> armed_obs p)"
proof -
  have seek: "\<exists>kn. snd (seek_link (link_config []) False (ze_attempts sample_env) 1 (nat (retry_attempts (link_config [])))) = Inr kn"
    by (simp add: link_config_def default_connection_def sample_env_def numeral_3_eq_3)
  have na: "\<not> armed_obs (Fin 0, None)" by (simp add: armed_obs_def)
  have zid: "z_zone_id sample_zone = ''front''" by (simp add: sample_zone_def)
  have live: "SshRun activate_argv \<in> set (fst (select_live sample_env sample_zone False [] [(Fin 0, None)]))"
    by (simp add: select_live_def fst_io_bindr check_not_armed_run na sample_activation zid)
  from seek have "SshRun activate_argv \<in> set (fst (in_link sample_env [] (select_live sample_env sample_zone False []) [(Fin 0, None)]))"
    using live by (auto simp: in_link_def Let_def fst_io_bind split: sum.splits)
  then have x: "SshRun activate_argv \<in> set (fst (select_zone sample_env (Text []) [] False [] yes_context Eof [(Fin 0, None)]))"
    by (simp add: select_zone_def confirm_zone_select_def call_body_def authorised_def yes_context_def new_context_def sample_load
        fst_io_bindr io_ret_run io_bind_ret fst_io_bind)
  from select_zone_gates [OF x] x show ?thesis by auto
qed

text \<open>The world of the command: the physical effects so far.\<close>

definition select_world ::
  "'g zone_env \<Rightarrow> zone_file \<Rightarrow> string \<Rightarrow> bool \<Rightarrow> string \<Rightarrow> mav_msg trace \<Rightarrow> zone_effect list safety_context
     \<Rightarrow> console_input \<Rightarrow> zone_effect list \<Rightarrow> ((select_error, unit) result \<times> mav_msg trace) option \<times> zone_effect list" where
  "select_world E f ep skip cid tr ctx answer w =
     (let (out, r) = select_zone E f ep skip cid ctx answer tr in (r, w @ filter physical out))"

interpretation select_guard: guarded_command "select_world E f ep skip cid tr"
  for E :: "'g zone_env" and f ep skip cid and tr :: "mav_msg trace"
proof unfold_locales
  fix ctx :: "zone_effect list safety_context" and answer w
  have no: "snd (select_world E f ep skip cid tr ctx answer w) = w"
    if "dry_run ctx \<or> \<not> authorised ctx answer"
    using that select_zone_gates_out [of _ E f ep skip cid ctx answer tr]
    by (auto simp: select_world_def authorised_def Let_def case_prod_unfold filter_empty_conv)
  show "dry_run ctx \<Longrightarrow> snd (select_world E f ep skip cid tr ctx answer w) = w"
    and "\<not> authorised ctx answer \<Longrightarrow> snd (select_world E f ep skip cid tr ctx answer w) = w"
    using no by blast+
qed

section \<open>Resuming\<close>

lemma resume_from_out:
  assumes "Sent x \<in> set (fst (resume_from ask dry zone n sq tr))"
  shows "x = MissionSetCurrentSend sq \<and> \<not> dry \<and> sq < int n \<and> (\<exists>msg. ask msg = Some True)"
  using assms
  by (auto simp: resume_from_def io_bind_def io_each_run io_ret_run io_emit_run count_line_def
      simp del: io_each.simps split: if_splits option.splits bool.splits)

lemma emits_only_recv [emits]: "emits_only P io_recv"
  by (simp add: emits_only_def io_recv_def)

lemma emits_only_lift [emits]: "emits_only (P \<circ> g) m \<Longrightarrow> emits_only P (io_lift g m)"
  by (simp add: emits_only_def io_lift_run)

lemma emits_only_in_link [emits]: "emits_only P body \<Longrightarrow> emits_only P (in_link E ep body)"
  using in_link_out by (fastforce simp: emits_only_def)

lemma emits_only_mono: "emits_only P m \<Longrightarrow> (\<And>x. P x \<Longrightarrow> Q x) \<Longrightarrow> emits_only Q m"
  by (auto simp: emits_only_def)

text \<open>A resume sets the mission index only with the operator's consent and in no dry run.\<close>

fun sets_index :: "zone_effect \<Rightarrow> bool" where
  "sets_index (Sent (MissionSetCurrentSend sq)) = True"
| "sets_index x = False"

fun requests :: "mav_out \<Rightarrow> bool" where
  "requests (MissionSetCurrentSend sq) = False"
| "requests x = True"

lemma download_requests: "emits_only requests (download_mission mt)"
proof -
  have [emits]: "emits_only requests (download_items mt sqs)" for mt sqs
    by (induction mt sqs rule: download_items.induct) (auto intro!: emits simp: download_item_def silent_passes)
  show ?thesis unfolding download_mission_def by (intro emits) (simp_all add: silent_passes)
qed

lemma resume_from_emits:
  "dry \<or> (\<forall>msg. ask msg \<noteq> Some True) \<Longrightarrow> emits_only (\<lambda>x. \<not> sets_index x) (resume_from ask dry zone n sq)"
  unfolding emits_only_def
  by (metis resume_from_out sets_index.elims(2))

lemma resume_zone_consent:
  assumes "dry \<or> (\<forall>msg. ask msg \<noteq> Some True)"
  shows "emits_only (\<lambda>x. \<not> sets_index x) (resume_zone E ask f ep dry)"
proof -
  have "((\<lambda>x. \<not> sets_index x) \<circ> Sent) y" if "requests y" for y using that by (cases y) simp_all
  then have [emits]: "emits_only (\<lambda>x. \<not> sets_index x) (io_lift Sent (download_mission 0))"
    using emits_only_mono [OF download_requests] by (intro emits) blast
  have "emits_only (\<lambda>x. \<not> sets_index x) (resume_body ask dry zone)" for zone
    unfolding resume_body_def comp_def
    by (intro emits) (auto split: option.splits mav_msg.splits intro!: emits resume_from_emits assms)
  then show ?thesis unfolding resume_zone_def load_or_exit_def comp_def by (intro emits) simp_all
qed

lemma zone_to_mission_nav:
  assumes "zone_to_mission zone ws = Ok items"
  shows "total_waypoints items = Suc (length ws)"
    and "length items = (if fence_enable (z_commands zone) then 4 else 3) + length ws"
    and "length items - length ws \<le> s \<Longrightarrow> s < length items \<Longrightarrow> mi_command (items ! s) = MAV_CMD_NAV_WAYPOINT"
proof -
  from assms obtain xy wi where wi: "waypoint_items (length (mission_prologue zone xy)) ws = Ok wi"
    and items: "items = mission_prologue zone xy @ wi"
    by (auto simp: zone_to_mission_def result_simps Let_def)
  note w = waypoint_items_numbered [OF wi]
  have "filter (\<lambda>it. mi_command it = 16) wi = wi"
    using w by (auto simp: list_all_iff MAV_CMD_NAV_WAYPOINT_def)
  with w show "total_waypoints items = Suc (length ws)"
    by (simp add: total_waypoints_def items mission_prologue_def MAV_CMD_NAV_WAYPOINT_def MAV_CMD_DO_CHANGE_SPEED_def
        MAV_CMD_DO_SET_RESUME_REPEAT_DIST_def MAV_CMD_DO_FENCE_ENABLE_def)
  show "length items = (if fence_enable (z_commands zone) then 4 else 3) + length ws"
    using w by (simp add: items mission_prologue_def)
  show "mi_command (items ! s) = MAV_CMD_NAV_WAYPOINT"
    if "length items - length ws \<le> s" "s < length items"
    using that w by (auto simp: items nth_append list_all_length)
qed

text \<open>
  The progress check of \<open>zone resume\<close> compares an index over all items with the number of waypoint
  items. On a mission made by this program, the vehicle at one of the last waypoints (any index
  from the number of planned waypoints plus one on) is told that the mission is complete, and no
  index is sent, although the item at that index is still a waypoint to drive to.
\<close>

lemma resume_stops_early:
  assumes "zone_to_mission zone ws = Ok items" and "4 \<le> length ws"
    and "Suc (length ws) \<le> s" and "s < length items"
  shows "mi_command (items ! s) = MAV_CMD_NAV_WAYPOINT
     \<and> (\<exists>out. resume_from ask False zone (total_waypoints items) (int s) tr = (out, Some (Ok (), tr))
          \<and> Echo ''Mission complete - nothing to resume'' \<in> set out \<and> (\<forall>x. Sent x \<notin> set out))"
proof -
  note nav = zone_to_mission_nav [OF assms(1)]
  have cmd: "mi_command (items ! s) = MAV_CMD_NAV_WAYPOINT"
    using nav(2) assms(2-4) by (intro nav(3)) (auto split: if_splits)
  have "\<exists>out. resume_from ask False zone (total_waypoints items) (int s) tr = (out, Some (Ok (), tr))
      \<and> Echo ''Mission complete - nothing to resume'' \<in> set out"
    using assms(3) by (simp add: resume_from_def nav(1) io_bind_def io_each_run io_emit_run io_ret_run del: io_each.simps)
  then show ?thesis using cmd resume_from_out [of _ ask False zone "total_waypoints items" "int s" tr] assms(3) nav(1) by auto
qed

section \<open>The waypoint file\<close>

text \<open>A reader of the file: the lines after the header, each a list of fields separated by tabs.\<close>

definition qgc_rows :: "string \<Rightarrow> string list list" where
  "qgc_rows s = map (split_char (CHR 0x09)) (tl (butlast (split_char (CHR 0x0A) s)))"

fun read_decimal :: "string \<Rightarrow> rat" where
  "read_decimal s =
     (let neg = (s \<noteq> [] \<and> hd s = CHR ''-''); t = (if neg then tl s else s);
          a = before_char (CHR ''.'') t; b = after_char (CHR ''.'') t;
          v = of_nat (nat_of_digits (a @ b)) / 10 ^ length b
      in if neg then - v else v)"

definition read_row :: "string list \<Rightarrow> nat \<times> nat \<times> rat \<times> rat" where
  "read_row w = (nat_of_digits (w ! 0), nat_of_digits (w ! 1), read_decimal (w ! 8), read_decimal (w ! 9))"

definition quantised :: "rat \<Rightarrow> rat" where
  "quantised x = of_int (rhe (x * 10 ^ 8)) / 10 ^ 8"

lemma digits_of_nat_length: "n < 10 ^ Suc k \<Longrightarrow> length (digits_of_nat n) \<le> Suc k"
proof (induction k arbitrary: n)
  case 0
  then show ?case by (simp add: digits_of_nat.simps [of n])
next
  case (Suc k)
  show ?case
  proof (cases "n < 10")
    case False
    have "n div 10 < 10 ^ Suc k" using Suc(2) by (simp add: div_less_iff_less_mult)
    with False Suc(1) show ?thesis by (simp add: digits_of_nat.simps [of n])
  qed (simp add: digits_of_nat.simps [of n])
qed

lemma nat_of_digits_append: "nat_of_digits (a @ b) = nat_of_digits a * 10 ^ length b + nat_of_digits b"
proof (induction b rule: rev_induct)
  case Nil
  then show ?case by (simp add: nat_of_digits_def)
next
  case (snoc c b)
  have "nat_of_digits (a @ b @ [c]) = 10 * nat_of_digits (a @ b) + digit_val c"
    using nat_of_digits_snoc [of "a @ b" c] by simp
  then show ?case using snoc by (simp add: nat_of_digits_snoc algebra_simps)
qed

lemma nat_of_digits_zeros: "nat_of_digits (replicate n (CHR ''0'')) = 0"
  by (induction n) (simp_all add: nat_of_digits_def digit_val_def foldl_conv_fold flip: replicate_append_same)

lemma zfill_digits:
  "n < 10 ^ Suc k \<Longrightarrow> length (zfill (Suc k) (digits_of_nat n)) = Suc k \<and> nat_of_digits (zfill (Suc k) (digits_of_nat n)) = n"
  using digits_of_nat_length [of n k] by (simp add: zfill_def nat_of_digits_append nat_of_digits_zeros)

lemma digits_plain: "c \<in> set (digits_of_nat n) \<Longrightarrow> c \<noteq> CHR ''.'' \<and> c \<noteq> CHR ''-'' \<and> c \<noteq> CHR 0x09 \<and> c \<noteq> CHR 0x0A"
  using digits_of_nat_isdigit [of c n] by (auto simp: py_isdigit_def)

lemma zfill_set: "set (zfill k s) \<subseteq> insert (CHR ''0'') (set s)"
  by (auto simp: zfill_def)

lemma fixed_plain: "c \<in> set (fixed 8 v) \<Longrightarrow> c \<noteq> CHR 0x09 \<and> c \<noteq> CHR 0x0A"
  by (cases v) (auto simp: Let_def dest!: subsetD [OF zfill_set] digits_plain split: if_splits)

lemma read_fixed: "read_decimal (fixed 8 (Fin x)) = quantised x"
proof -
  define n where "n = nat (rhe (\<bar>x\<bar> * 10 ^ 8))"
  have "0 \<le> rhe (\<bar>x\<bar> * 10 ^ 8)" using rhe_mono [of 0 "\<bar>x\<bar> * 10 ^ 8"] rhe_of_int [of 0] by simp
  then have n: "of_nat n = (of_int (rhe (\<bar>x\<bar> * 10 ^ 8)) :: rat)" by (simp add: n_def)
  let ?a = "digits_of_nat (n div 10 ^ 8)" and ?b = "zfill 8 (digits_of_nat (n mod 10 ^ 8))"
  have z: "length ?b = 8" "nat_of_digits ?b = n mod 10 ^ 8" using zfill_digits [of "n mod 10 ^ 8" 7] by simp_all
  have a: "CHR ''.'' \<notin> set ?a" "?a \<noteq> []" "hd ?a \<noteq> CHR ''-''"
    using digits_plain hd_in_set [OF digits_of_nat_nonempty] by (auto, metis)
  then have split: "before_char (CHR ''.'') (?a @ ''.'' @ ?b) = ?a" "after_char (CHR ''.'') (?a @ ''.'' @ ?b) = ?b"
    by (auto simp: before_char_def after_char_def takeWhile_append dropWhile_append)
  have shape: "fixed 8 (Fin x) = (if x < 0 then ''-'' else []) @ ?a @ ''.'' @ ?b" by (simp add: n_def Let_def)
  have v: "nat_of_digits (?a @ ?b) = n" using z by (simp add: nat_of_digits_append)
  have "read_decimal (fixed 8 (Fin x)) = (if x < 0 then - of_nat n / 10 ^ 8 else of_nat n / 10 ^ 8)"
    unfolding shape using split a v z(1) by (simp add: Let_def)
  also have "\<dots> = quantised x"
    using rhe_minus [of "x * 10 ^ 8"] by (simp add: n quantised_def)
  finally show ?thesis .
qed

lemma quantised_near: "\<bar>quantised x - x\<bar> \<le> 1 / (2 * 10 ^ 8)"
proof -
  have "quantised x - x = (of_int (rhe (x * 10 ^ 8)) - x * 10 ^ 8) / 10 ^ 8" by (simp add: quantised_def field_simps)
  then have "\<bar>quantised x - x\<bar> = \<bar>of_int (rhe (x * 10 ^ 8)) - x * 10 ^ 8\<bar> / 10 ^ 8" by (simp only: abs_divide) simp
  then show ?thesis using rhe_error [of "x * 10 ^ 8"] by simp
qed

definition qgc_fields :: "nat \<Rightarrow> nat \<Rightarrow> pyfloat \<Rightarrow> pyfloat \<Rightarrow> string list" where
  "qgc_fields i current lat lon =
     [digits_of_nat i, digits_of_nat current, ''0'', ''16'', ''0'', ''0'', ''0'', ''0'', fixed 8 lat, fixed 8 lon, ''0'', ''1'']"

lemma qgc_fields_plain: "w \<in> set (qgc_fields i cu lat lon) \<Longrightarrow> CHR 0x09 \<notin> set w \<and> CHR 0x0A \<notin> set w"
  by (auto simp: qgc_fields_def dest: fixed_plain digits_plain)

lemma qgc_line_join: "qgc_line i cu lat lon = join_with tab (qgc_fields i cu lat lon) @ [CHR 0x0A]"
  by (simp only: qgc_line_def qgc_fields_def nl_def)

definition qgc_all :: "latlon \<Rightarrow> latlon list \<Rightarrow> string list list" where
  "qgc_all home ws = qgc_fields 0 1 (ll_lat home) (ll_lon home)
     # map (\<lambda>(i, w). qgc_fields i 0 (ll_lat w) (ll_lon w)) (enumerate 1 ws)"

lemma qgc_rows_text: "qgc_rows (qgc_text home ws) = qgc_all home ws"
proof -
  let ?lines = "map (join_with tab) (qgc_all home ws)"
  have ne: "fs \<noteq> []" and pl: "\<forall>w \<in> set fs. CHR 0x09 \<notin> set w \<and> CHR 0x0A \<notin> set w" if "fs \<in> set (qgc_all home ws)" for fs
    using that qgc_fields_plain by (auto simp: qgc_all_def qgc_fields_def)
  have "qgc_text home ws = concat (map (\<lambda>w. w @ [CHR 0x0A]) (''QGC WPL 110'' # ?lines))"
    by (simp add: qgc_text_def qgc_line_join qgc_all_def nl_def comp_def case_prod_unfold)
  moreover have "\<forall>w \<in> set (''QGC WPL 110'' # ?lines). CHR 0x0A \<notin> set w"
    using pl set_join_with [of tab] by (fastforce simp: tab_def)
  ultimately have "split_char (CHR 0x0A) (qgc_text home ws) = (''QGC WPL 110'' # ?lines) @ [[]]"
    by (simp only: split_lines)
  then show ?thesis using ne pl split_join [of _ "CHR 0x09"] by (simp add: qgc_rows_def tab_def comp_def map_idI)
qed

text \<open>
  The file a planned mission is written to reads back as the home position, marked current, and the waypoints
  numbered from one; every coordinate is the planned one to eight decimals, off by at most half a
  unit of the last.
\<close>

lemma waypoint_file_round_trip:
  assumes "ll_lat home = Fin la" "ll_lon home = Fin lo"
    and "ws = map (\<lambda>(a, b). \<lparr>ll_lat = Fin a, ll_lon = Fin b\<rparr>) xys"
  shows "map read_row (qgc_rows (qgc_text home ws)) =
      (0, 1, quantised la, quantised lo)
        # map (\<lambda>(i, a, b). (i, 0, quantised a, quantised b)) (enumerate 1 xys)
    \<and> (\<forall>x. \<bar>quantised x - x\<bar> \<le> 1 / (2 * 10 ^ 8))"
proof -
  have row: "read_row (qgc_fields i cu (Fin a) (Fin b)) = (i, cu, quantised a, quantised b)" for i cu a b
    by (simp add: read_row_def qgc_fields_def read_fixed del: fixed.simps read_decimal.simps)
  have "enumerate n ws = map (\<lambda>(i, a, b). (i, \<lparr>ll_lat = Fin a, ll_lon = Fin b\<rparr>)) (enumerate n xys)" for n
    unfolding assms(3) by (induction xys arbitrary: n) auto
  then show ?thesis using quantised_near
    by (simp add: qgc_rows_text qgc_all_def assms(1,2) row comp_def case_prod_unfold del: fixed.simps)
qed

end
