(* ===== verification/Service.thy ===== *)
theory Service
  imports Config Safety
begin

text \<open>
  The systemd units: \<open>service/unit.py\<close> (the unit texts and the health, VSLAM and bridge services),
  \<open>pixhawk/unit.py\<close> (the boot-time sync) and \<open>kiosk/units.py\<close> (the display services). The
  world of an action is the host: the unit files and the \<open>systemctl\<close> calls made so far; what a
  \<open>systemctl\<close> call or a file operation meets belongs to the environment. Unit texts are built line
  by line; log calls are left out.
\<close>

section \<open>Unit texts\<close>

definition ln :: "string \<Rightarrow> string" where "ln s = s @ [CHR 0x0A]"
definition sq :: string where "sq = [CHR 0x27]"
definition dq :: string where "dq = [CHR 0x22]"

definition UNIT_NAME :: string where "UNIT_NAME = ''mower-health''"
definition VSLAM_UNIT_NAME :: string where "VSLAM_UNIT_NAME = ''mower-vslam''"
definition VSLAM_BRIDGE_UNIT_NAME :: string where "VSLAM_BRIDGE_UNIT_NAME = ''mower-vslam-bridge''"
definition WESTON_UNIT_NAME :: string where "WESTON_UNIT_NAME = ''mower-weston''"
definition KIOSK_UNIT_NAME :: string where "KIOSK_UNIT_NAME = ''mower-kiosk''"
definition KIOSK_DATA_UNIT_NAME :: string where "KIOSK_DATA_UNIT_NAME = ''mower-kiosk-data''"
definition KIOSK_RENDERER_UNIT_NAME :: string where "KIOSK_RENDERER_UNIT_NAME = ''mower-kiosk-renderer''"
definition MAVPROXY_UNIT_NAME :: string where "MAVPROXY_UNIT_NAME = ''mower-mavproxy''"
definition PIXHAWK_SYNC_UNIT_NAME :: string where "PIXHAWK_SYNC_UNIT_NAME = ''mower-pixhawk-sync''"

text \<open>The keyword arguments of \<open>generate_service_unit\<close> and their defaults.\<close>

record unit_spec =
  us_description :: string
  us_exec_start :: string
  us_user :: string
  us_home_dir :: string
  us_user_level :: bool
  us_after :: string
  us_requires :: "string option"
  us_binds_to :: "string option"
  us_watchdog_sec :: int
  us_timeout_start_sec :: "int option"
  us_runtime_directory :: "string option"
  us_service_type :: string
  us_extra_environment :: "(string, string) dict option"
  us_restart_sec :: int
  us_exec_start_pre :: "string list option"
  us_start_limit_interval_sec :: int
  us_start_limit_burst :: int

definition service_defaults :: "string \<Rightarrow> string \<Rightarrow> string \<Rightarrow> string \<Rightarrow> unit_spec" where
  "service_defaults description exec_start user home_dir =
     \<lparr>us_description = description, us_exec_start = exec_start, us_user = user, us_home_dir = home_dir,
      us_user_level = True, us_after = ''network.target'', us_requires = None, us_binds_to = None,
      us_watchdog_sec = 30, us_timeout_start_sec = None, us_runtime_directory = None,
      us_service_type = ''notify'', us_extra_environment = None, us_restart_sec = 5,
      us_exec_start_pre = None, us_start_limit_interval_sec = 300, us_start_limit_burst = 5\<rparr>"

text \<open>\<open>f"{key}={value}\n" if value else ""\<close>\<close>

definition opt_line :: "string \<Rightarrow> string option \<Rightarrow> string" where
  "opt_line key v = (case v of None \<Rightarrow> [] | Some s \<Rightarrow> if s = [] then [] else ln (key @ ''='' @ s))"

definition timeout_line :: "int option \<Rightarrow> string" where
  "timeout_line v = (case v of None \<Rightarrow> [] | Some n \<Rightarrow> if n = 0 then [] else ln (''TimeoutStartSec='' @ str_int n))"

definition env_lines :: "(string, string) dict option \<Rightarrow> string" where
  "env_lines e = (case e of None \<Rightarrow> [] | Some d \<Rightarrow> concat (map (\<lambda>(k, v). ln (''Environment='' @ k @ ''='' @ v)) d))"

definition pre_lines :: "string list option \<Rightarrow> string" where
  "pre_lines p = (case p of None \<Rightarrow> [] | Some cs \<Rightarrow> concat (map (\<lambda>c. ln (''ExecStartPre='' @ c)) cs))"

definition generate_service_unit :: "unit_spec \<Rightarrow> string" where
  "generate_service_unit u =
     ln ''[Unit]''
   @ ln (''Description='' @ us_description u)
   @ ln (''After='' @ us_after u)
   @ ln (''StartLimitIntervalSec='' @ str_int (us_start_limit_interval_sec u))
   @ ln (''StartLimitBurst='' @ str_int (us_start_limit_burst u))
   @ opt_line ''BindsTo'' (us_binds_to u) @ opt_line ''Requires'' (us_requires u) @ ln []
   @ ln ''[Service]''
   @ ln (''Type='' @ us_service_type u)
   @ pre_lines (us_exec_start_pre u) @ ln (''ExecStart='' @ us_exec_start u)
   @ ln ''Environment=MOWER_CORRELATION_ID=daemon''
   @ env_lines (us_extra_environment u)
   @ (if us_user_level u then [] else ln (''User='' @ us_user u))
   @ ln (''WorkingDirectory='' @ us_home_dir u)
   @ ln (''WatchdogSec='' @ str_int (us_watchdog_sec u))
   @ timeout_line (us_timeout_start_sec u) @ opt_line ''RuntimeDirectory'' (us_runtime_directory u)
   @ ln ''Restart=on-failure''
   @ ln (''RestartSec='' @ str_int (us_restart_sec u))
   @ ln []
   @ ln ''[Install]''
   @ ln (if us_user_level u then ''WantedBy=default.target'' else ''WantedBy=multi-user.target'')"

definition generate_unit_file :: "string \<Rightarrow> string \<Rightarrow> string \<Rightarrow> int \<Rightarrow> bool \<Rightarrow> string" where
  "generate_unit_file mower_jetson_path user home_dir interval user_level =
     generate_service_unit
       ((service_defaults ''Mower Rover health monitor daemon''
          (mower_jetson_path @ '' service run --health-interval '' @ str_int interval) user home_dir)
        \<lparr>us_user_level := user_level\<rparr>)"

definition generate_vslam_unit_file :: "string \<Rightarrow> string \<Rightarrow> string \<Rightarrow> string \<Rightarrow> bool \<Rightarrow> string" where
  "generate_vslam_unit_file user home_dir config_path node_binary user_level =
     generate_service_unit
       ((service_defaults ''Mower Rover VSLAM (RTAB-Map) daemon''
          (node_binary @ '' --config '' @ config_path) user home_dir)
        \<lparr>us_user_level := user_level, us_after := ''network.target mower-health.service'',
         us_timeout_start_sec := Some 300, us_runtime_directory := Some ''mower''\<rparr>)"

definition generate_vslam_bridge_unit_file :: "string \<Rightarrow> string \<Rightarrow> string \<Rightarrow> bool \<Rightarrow> string" where
  "generate_vslam_bridge_unit_file mower_jetson_path user home_dir user_level =
     generate_service_unit
       ((service_defaults ''Mower Rover VSLAM MAVLink bridge daemon''
          (mower_jetson_path @ '' vslam bridge-run'') user home_dir)
        \<lparr>us_user_level := user_level,
         us_after := ''network.target '' @ VSLAM_UNIT_NAME @ ''.service '' @ MAVPROXY_UNIT_NAME @ ''.service ''
           @ PIXHAWK_SYNC_UNIT_NAME @ ''.service'',
         us_requires := Some (MAVPROXY_UNIT_NAME @ ''.service '' @ VSLAM_UNIT_NAME @ ''.service''),
         us_timeout_start_sec := Some 120, us_start_limit_interval_sec := 900\<rparr>)"

definition WESTON_EXEC_START :: string where
  "WESTON_EXEC_START =
     ''/usr/bin/weston --shell=desktop-shell.so --drm-device=card0 --renderer=pixman --idle-time=0'' @
     '' --log=/var/log/mower-jetson/weston.log --continue-without-input''"

text \<open>\<open>ExecStartPre\<close> that polls \<open>n\<close> times for a condition.\<close>

definition wait_cmd :: "string \<Rightarrow> string \<Rightarrow> string \<Rightarrow> string \<Rightarrow> string" where
  "wait_cmd n cond pause complaint =
     ''/bin/sh -c '' @ sq @ ''for i in $(seq 1 '' @ n @ ''); do [ '' @ cond @ '' ] && exit 0; sleep '' @ pause
     @ ''; done; echo '' @ dq @ complaint @ dq @ ''; exit 1'' @ sq"

definition generate_weston_unit_file :: "string \<Rightarrow> string \<Rightarrow> string" where
  "generate_weston_unit_file user home_dir =
     ln ''[Unit]''
   @ ln ''Description=Weston kiosk compositor for mower display''
   @ ln ''After=seatd.service systemd-modules-load.service''
   @ ln ''Requires=seatd.service''
   @ ln ''StartLimitIntervalSec=120''
   @ ln ''StartLimitBurst=30''
   @ ln []
   @ ln ''[Service]''
   @ ln ''Type=simple''
   @ ln ''ExecStartPre=/bin/mkdir -p /var/log/mower-jetson''
   @ ln (''ExecStartPre='' @ wait_cmd ''10'' ''-S /run/seatd.sock'' ''0.5'' ''seatd not ready'')
   @ ln (''ExecStartPre='' @ wait_cmd ''30'' ''-e /dev/dri/card0'' ''1'' ''DRM device not found'')
   @ ln (''ExecStart='' @ WESTON_EXEC_START)
   @ ln ''Environment=XDG_RUNTIME_DIR=/run/user/1000''
   @ ln (''User='' @ user)
   @ ln (''WorkingDirectory='' @ home_dir)
   @ ln ''Restart=always''
   @ ln ''RestartSec=2''
   @ ln []
   @ ln ''[Install]''
   @ ln ''WantedBy=multi-user.target''"

definition generate_mavproxy_unit_file :: "string \<Rightarrow> string list \<Rightarrow> string \<Rightarrow> string \<Rightarrow> string" where
  "generate_mavproxy_unit_file master outputs user home_dir =
     (let out_args = join_with '' '' (map (\<lambda>o'. ''--out='' @ o') outputs);
          mavproxy_bin = home_dir @ ''/.local/share/uv/tools/mower-rover/bin/mavproxy.py'';
          exec_start = mavproxy_bin @ '' --master='' @ master @ '' '' @ out_args @ '' --non-interactive''
      in ln ''[Unit]''
       @ ln ''Description=MAVProxy telemetry forwarder for mower''
       @ ln ''After=network.target dev-pixhawk.device''
       @ ln ''BindsTo=dev-pixhawk.device''
       @ ln ''StartLimitIntervalSec=300''
       @ ln ''StartLimitBurst=5''
       @ ln []
       @ ln ''[Service]''
       @ ln ''Type=simple''
       @ ln (''ExecStart='' @ exec_start)
       @ ln ''Environment=MOWER_CORRELATION_ID=daemon''
       @ ln (''User='' @ user)
       @ ln (''WorkingDirectory='' @ home_dir)
       @ ln ''Restart=always''
       @ ln ''RestartSec=5''
       @ ln []
       @ ln ''[Install]''
       @ ln ''WantedBy=multi-user.target'')"

definition wayland_env :: "(string, string) dict" where
  "wayland_env = [(''XDG_RUNTIME_DIR'', ''/run/user/1000''), (''WAYLAND_DISPLAY'', ''wayland-0'')]"

definition generate_kiosk_unit_file :: "string \<Rightarrow> string \<Rightarrow> string \<Rightarrow> string" where
  "generate_kiosk_unit_file mower_jetson_path user home_dir =
     generate_service_unit
       ((service_defaults ''Mower Rover kiosk operational display'' (mower_jetson_path @ '' kiosk run'') user home_dir)
        \<lparr>us_user_level := False,
         us_after := WESTON_UNIT_NAME @ ''.service mower-health.service '' @ MAVPROXY_UNIT_NAME @ ''.service'',
         us_binds_to := Some (WESTON_UNIT_NAME @ ''.service''),
         us_extra_environment := Some (wayland_env @ [(''GSK_RENDERER'', ''cairo'')])\<rparr>)"

definition generate_kiosk_data_unit_file :: "string \<Rightarrow> string \<Rightarrow> string \<Rightarrow> string" where
  "generate_kiosk_data_unit_file mower_jetson_path user home_dir =
     generate_service_unit
       ((service_defaults ''Mower Kiosk Data Service'' (mower_jetson_path @ '' kiosk run'') user home_dir)
        \<lparr>us_user_level := False,
         us_after := WESTON_UNIT_NAME @ ''.service '' @ MAVPROXY_UNIT_NAME @ ''.service'',
         us_requires := Some (WESTON_UNIT_NAME @ ''.service''), us_runtime_directory := Some ''mower''\<rparr>)"

definition generate_kiosk_renderer_unit_file :: "string \<Rightarrow> string \<Rightarrow> string" where
  "generate_kiosk_renderer_unit_file user home_dir =
     generate_service_unit
       ((service_defaults ''Mower Kiosk LVGL Renderer'' ''/usr/local/bin/mower-kiosk-renderer'' user home_dir)
        \<lparr>us_user_level := False,
         us_after := WESTON_UNIT_NAME @ ''.service '' @ KIOSK_DATA_UNIT_NAME @ ''.service'',
         us_binds_to := Some (WESTON_UNIT_NAME @ ''.service''), us_extra_environment := Some wayland_env,
         us_restart_sec := 2,
         us_exec_start_pre := Some [wait_cmd ''30'' ''-e /run/user/1000/wayland-0'' ''0.5'' ''Wayland socket not found''],
         us_start_limit_burst := 15\<rparr>)"

definition generate_pixhawk_sync_unit_file :: "string \<Rightarrow> string \<Rightarrow> string \<Rightarrow> bool \<Rightarrow> string" where
  "generate_pixhawk_sync_unit_file mower_jetson_path user home_dir user_level =
     ln ''[Unit]''
   @ ln ''Description=Mower Rover Pixhawk config sync (params + Lua)''
   @ ln ''After=network.target mower-mavproxy.service''
   @ ln ''Requires=mower-mavproxy.service''
   @ ln []
   @ ln ''[Service]''
   @ ln ''Type=oneshot''
   @ ln (''ExecStart='' @ mower_jetson_path @ '' pixhawk sync --port udp:127.0.0.1:14552'')
   @ ln ''Environment=MOWER_CORRELATION_ID=pixhawk-sync''
   @ (if user_level then [] else ln (''User='' @ user))
   @ ln (''WorkingDirectory='' @ home_dir)
   @ ln ''TimeoutStartSec=120''
   @ ln ''RemainAfterExit=yes''
   @ ln ''Restart=on-failure''
   @ ln ''RestartSec=30''
   @ ln []
   @ ln ''[Install]''
   @ ln (if user_level then ''WantedBy=default.target'' else ''WantedBy=multi-user.target'')"

section \<open>The host\<close>

record host =
  ho_files :: "string \<rightharpoonup> string"
  ho_calls :: "string list list"

datatype svc_exc = CalledProcess | NotFound | OsFailure | NoSuchUser | BadConfig config_error

datatype sc_outcome = ScOk | ScFailed | ScMissing

record svc_env =
  sv_home :: string
  sv_getuser :: "string option"
  sv_which :: "string \<Rightarrow> string option"
  sv_config :: "jetson_config cfg"
  sv_systemctl :: "host \<Rightarrow> string list \<Rightarrow> sc_outcome"
  sv_write :: "string \<Rightarrow> write_outcome"
  sv_unlinkable :: "string \<Rightarrow> bool"

type_synonym 'a svc = "(host, svc_exc, 'a) action"

definition unit_dir :: "svc_env \<Rightarrow> bool \<Rightarrow> string" where
  "unit_dir E user_level =
     (if user_level then path_join (sv_home E) ''.config/systemd/user'' else ''/etc/systemd/system'')"

definition unit_path :: "svc_env \<Rightarrow> bool \<Rightarrow> string \<Rightarrow> string" where
  "unit_path E user_level name = unit_dir E user_level @ ''/'' @ name @ ''.service''"

definition run_systemctl :: "svc_env \<Rightarrow> string list \<Rightarrow> unit svc" where
  "run_systemctl E cmd h =
     (case sv_systemctl E h cmd of ScOk \<Rightarrow> Ok () | ScFailed \<Rightarrow> Err CalledProcess | ScMissing \<Rightarrow> Err NotFound,
      h\<lparr>ho_calls := ho_calls h @ [cmd]\<rparr>)"

definition systemctl :: "svc_env \<Rightarrow> string list \<Rightarrow> bool \<Rightarrow> unit svc" where
  "systemctl E args user_level = run_systemctl E (''systemctl'' # (if user_level then [''--user''] else []) @ args)"

definition write_unit :: "svc_env \<Rightarrow> string \<Rightarrow> string \<Rightarrow> unit svc" where
  "write_unit E path content h =
     (if sv_write E path = Written then Ok () else Err OsFailure,
      h\<lparr>ho_files := (ho_files h)(path := file_after (sv_write E path) content (ho_files h path))\<rparr>)"

text \<open>\<open>if target.exists(): target.unlink()\<close>\<close>

definition unlink_unit :: "svc_env \<Rightarrow> string \<Rightarrow> unit svc" where
  "unlink_unit E path h =
     (if ho_files h path = None then (Ok (), h)
      else if sv_unlinkable E path then (Ok (), h\<lparr>ho_files := (ho_files h)(path := None)\<rparr>) else (Err OsFailure, h))"

text \<open>\<open>try: m except <caught>: pass\<close>\<close>

definition suppress :: "(svc_exc \<Rightarrow> bool) \<Rightarrow> unit svc \<Rightarrow> unit svc" where
  "suppress caught m h = (case m h of (Inl e, h') \<Rightarrow> (if caught e then Ok () else Err e, h') | r \<Rightarrow> r)"

fun act_seq :: "unit svc list \<Rightarrow> unit svc" where
  "act_seq [] = act_ret ()"
| "act_seq (m # ms) = act_bind m (\<lambda>_. act_seq ms)"

section \<open>Services\<close>

definition svc_user :: "svc_env \<Rightarrow> string option \<Rightarrow> string svc" where
  "svc_user E target_user =
     (case target_user of
        Some u \<Rightarrow> if u = [] then (case sv_getuser E of None \<Rightarrow> act_raise NoSuchUser | Some v \<Rightarrow> act_ret v) else act_ret u
      | None \<Rightarrow> (case sv_getuser E of None \<Rightarrow> act_raise NoSuchUser | Some v \<Rightarrow> act_ret v))"

definition svc_home :: "svc_env \<Rightarrow> string option \<Rightarrow> string" where
  "svc_home E target_home =
     (case target_home of None \<Rightarrow> sv_home E | Some s \<Rightarrow> if s = [] then sv_home E else s)"

definition mower_jetson :: "svc_env \<Rightarrow> string option \<Rightarrow> string" where
  "mower_jetson E target_home =
     (case target_home of
        Some s \<Rightarrow> rstrip_char (CHR ''/'') s @ ''/.local/bin/mower-jetson''
      | None \<Rightarrow>
          (case sv_which E ''mower-jetson'' of
             Some p \<Rightarrow> if p = [] then path_join (sv_home E) ''.local/bin/mower-jetson'' else p
           | None \<Rightarrow> path_join (sv_home E) ''.local/bin/mower-jetson''))"

definition install_unit :: "svc_env \<Rightarrow> bool \<Rightarrow> string \<Rightarrow> string \<Rightarrow> unit svc" where
  "install_unit E user_level name content =
     act_seq [write_unit E (unit_path E user_level name) content,
              systemctl E [''daemon-reload''] user_level,
              systemctl E [''enable'', name @ ''.service''] user_level]"

definition remove_unit :: "(svc_exc \<Rightarrow> bool) \<Rightarrow> svc_env \<Rightarrow> bool \<Rightarrow> string \<Rightarrow> unit svc" where
  "remove_unit caught E user_level name =
     act_seq [suppress caught (systemctl E [''stop'', name @ ''.service''] user_level),
              suppress caught (systemctl E [''disable'', name @ ''.service''] user_level),
              unlink_unit E (unit_path E user_level name),
              systemctl E [''daemon-reload''] user_level]"

text \<open>A decorated command whose body returns at once in a dry run.\<close>

definition dry_guard :: "unit svc \<Rightarrow> host safety_context \<Rightarrow> console_input \<Rightarrow> (host, svc_exc guard_error, unit) action" where
  "dry_guard body ctx answer = confirmed ctx answer (if dry_run ctx then act_ret () else body)"

definition health_install :: "svc_env \<Rightarrow> bool \<Rightarrow> string option \<Rightarrow> string option \<Rightarrow> unit svc" where
  "health_install E user_level target_user target_home =
     act_bind (svc_user E target_user) (\<lambda>user.
     case sv_config E of
       Inl e \<Rightarrow> act_raise (BadConfig e)
     | Inr cfg \<Rightarrow>
         install_unit E user_level UNIT_NAME
           (generate_unit_file (mower_jetson E target_home) user (svc_home E target_home)
              (health_interval_s cfg) user_level))"

definition install_service where
  "install_service E user_level target_user target_home =
     dry_guard (health_install E user_level target_user target_home)"

definition uninstall_service where
  "uninstall_service E user_level = dry_guard (remove_unit (\<lambda>e. e = CalledProcess) E user_level UNIT_NAME)"

definition vslam_install :: "svc_env \<Rightarrow> bool \<Rightarrow> string option \<Rightarrow> string option \<Rightarrow> unit svc" where
  "vslam_install E user_level target_user target_home =
     act_bind (svc_user E target_user) (\<lambda>user.
     install_unit E user_level VSLAM_UNIT_NAME
       (generate_vslam_unit_file user (svc_home E target_home) ''/etc/mower/vslam.yaml''
          ''/usr/local/bin/rtabmap_slam_node'' user_level))"

definition install_vslam_service where
  "install_vslam_service E user_level target_user target_home =
     dry_guard (vslam_install E user_level target_user target_home)"

definition uninstall_vslam_service where
  "uninstall_vslam_service E user_level =
     dry_guard (remove_unit (\<lambda>e. e = CalledProcess) E user_level VSLAM_UNIT_NAME)"

definition bridge_install :: "svc_env \<Rightarrow> bool \<Rightarrow> string option \<Rightarrow> string option \<Rightarrow> unit svc" where
  "bridge_install E user_level target_user target_home =
     act_bind (svc_user E target_user) (\<lambda>user.
     install_unit E user_level VSLAM_BRIDGE_UNIT_NAME
       (generate_vslam_bridge_unit_file (mower_jetson E target_home) user (svc_home E target_home) user_level))"

definition install_vslam_bridge_service where
  "install_vslam_bridge_service E user_level target_user target_home =
     dry_guard (bridge_install E user_level target_user target_home)"

definition uninstall_vslam_bridge_service where
  "uninstall_vslam_bridge_service E user_level =
     dry_guard (remove_unit (\<lambda>e. e = CalledProcess) E user_level VSLAM_BRIDGE_UNIT_NAME)"

definition pixhawk_sync_install :: "svc_env \<Rightarrow> bool \<Rightarrow> string option \<Rightarrow> string option \<Rightarrow> unit svc" where
  "pixhawk_sync_install E user_level target_user target_home =
     act_bind (svc_user E target_user) (\<lambda>user.
     install_unit E user_level PIXHAWK_SYNC_UNIT_NAME
       (generate_pixhawk_sync_unit_file (mower_jetson E target_home) user (svc_home E target_home) user_level))"

definition install_pixhawk_sync_service where
  "install_pixhawk_sync_service E user_level target_user target_home =
     dry_guard (pixhawk_sync_install E user_level target_user target_home)"

definition uninstall_pixhawk_sync_service where
  "uninstall_pixhawk_sync_service E user_level =
     dry_guard (remove_unit (\<lambda>e. True) E user_level PIXHAWK_SYNC_UNIT_NAME)"

text \<open>The migration helper: every failure is swallowed; it tells whether a file was deleted.\<close>

definition cleanup_user_unit :: "svc_env \<Rightarrow> string \<Rightarrow> bool svc" where
  "cleanup_user_unit E name h =
     (let quiet = suppress (\<lambda>e. True);
          h1 = snd (quiet (systemctl E [''stop'', name @ ''.service''] True) h);
          h2 = snd (quiet (systemctl E [''disable'', name @ ''.service''] True) h1);
          path = unit_path E True name;
          deleted = (ho_files h2 path \<noteq> None \<and> sv_unlinkable E path);
          h3 = snd (quiet (unlink_unit E path) h2);
          h4 = snd (quiet (systemctl E [''daemon-reload''] True) h3)
      in (Ok deleted, h4))"

section \<open>Kiosk units\<close>

definition KIOSK_UNITS :: "string list" where
  "KIOSK_UNITS = [WESTON_UNIT_NAME, MAVPROXY_UNIT_NAME, KIOSK_UNIT_NAME]"

text \<open>\<open>_confirm_or_abort\<close>, the decorator's rule written out, and \<open>systemctl\<close> at system level.\<close>

definition confirm_or_abort :: "host safety_context \<Rightarrow> console_input \<Rightarrow> (host, svc_exc guard_error, unit) action" where
  "confirm_or_abort ctx answer h =
     (if dry_run ctx \<or> assume_yes ctx then (Ok (), h)
      else if prompt answer then (Ok (), h) else (Err ConfirmationAborted, h))"

definition kiosk_texts :: "svc_env \<Rightarrow> jetson_config \<Rightarrow> string option \<Rightarrow> string option \<Rightarrow> (string, string) dict" where
  "kiosk_texts E cfg target_user target_home =
     (let user = (case target_user of None \<Rightarrow> ''vincent'' | Some u \<Rightarrow> if u = [] then ''vincent'' else u);
          home = (case target_home of None \<Rightarrow> ''/home/vincent'' | Some s \<Rightarrow> if s = [] then ''/home/vincent'' else s);
          kiosk = jc_kiosk cfg
      in [(WESTON_UNIT_NAME, generate_weston_unit_file user home),
          (MAVPROXY_UNIT_NAME, generate_mavproxy_unit_file (mavproxy_master kiosk) (mavproxy_outputs kiosk) user home),
          (KIOSK_UNIT_NAME, generate_kiosk_unit_file (mower_jetson E target_home) user home)])"

definition kiosk_install :: "svc_env \<Rightarrow> jetson_config \<Rightarrow> string option \<Rightarrow> string option \<Rightarrow> unit svc" where
  "kiosk_install E cfg target_user target_home =
     act_seq (map (\<lambda>(name, content). write_unit E (unit_path E False name) content)
                (kiosk_texts E cfg target_user target_home)
            @ [systemctl E [''daemon-reload''] False]
            @ map (\<lambda>name. systemctl E [''enable'', name @ ''.service''] False) KIOSK_UNITS)"

definition install_kiosk_units ::
  "svc_env \<Rightarrow> jetson_config \<Rightarrow> string option \<Rightarrow> string option \<Rightarrow> host safety_context \<Rightarrow> console_input
     \<Rightarrow> (host, svc_exc guard_error, unit) action" where
  "install_kiosk_units E cfg target_user target_home ctx answer =
     act_bind (confirm_or_abort ctx answer) (\<lambda>_.
     if dry_run ctx then act_ret () else call_body (kiosk_install E cfg target_user target_home))"

definition kiosk_remove :: "svc_env \<Rightarrow> unit svc" where
  "kiosk_remove E =
     act_seq (concat (map (\<lambda>name. map (\<lambda>a. suppress (\<lambda>e. e = CalledProcess) (systemctl E [a, name @ ''.service''] False))
                [''stop'', ''disable'']) (rev KIOSK_UNITS))
            @ map (\<lambda>name. unlink_unit E (unit_path E False name)) KIOSK_UNITS
            @ [systemctl E [''daemon-reload''] False])"

definition uninstall_kiosk_units ::
  "svc_env \<Rightarrow> host safety_context \<Rightarrow> console_input \<Rightarrow> (host, svc_exc guard_error, unit) action" where
  "uninstall_kiosk_units E ctx answer =
     act_bind (confirm_or_abort ctx answer) (\<lambda>_.
     if dry_run ctx then act_ret () else call_body (kiosk_remove E))"

section \<open>What the commands keep\<close>

interpretation service_guard: guarded_command "dry_guard body" for body :: "unit svc"
  by unfold_locales (auto simp: dry_guard_def act_simps authorised_def)

interpretation kiosk_install_guard: guarded_command "install_kiosk_units E cfg target_user target_home"
  for E cfg target_user target_home
  by unfold_locales (auto simp: install_kiosk_units_def confirm_or_abort_def act_simps authorised_def)

interpretation kiosk_remove_guard: guarded_command "uninstall_kiosk_units E" for E
  by unfold_locales (auto simp: uninstall_kiosk_units_def confirm_or_abort_def act_simps authorised_def)

text \<open>
  The contract of a service with one unit file: its installer and its uninstaller touch no other
  file, the one leaves the file in place and the other removes it.
\<close>

locale managed_unit =
  fixes install uninstall :: "unit svc" and path :: string
  assumes install_frame: "install h = (r, h') \<Longrightarrow> p \<noteq> path \<Longrightarrow> ho_files h' p = ho_files h p"
    and install_done: "install h = (Ok (), h') \<Longrightarrow> ho_files h' path \<noteq> None"
    and uninstall_frame: "uninstall h = (r, h') \<Longrightarrow> p \<noteq> path \<Longrightarrow> ho_files h' p = ho_files h p"
    and uninstall_done: "uninstall h = (Ok (), h') \<Longrightarrow> ho_files h' path = None"
begin

lemma install_uninstall:
  assumes "install h = (r, h1)" and "uninstall h1 = (Ok (), h2)" and "ho_files h path = None"
  shows "ho_files h2 = ho_files h"
proof
  fix p show "ho_files h2 p = ho_files h p"
    using assms install_frame [OF assms(1), of p] uninstall_frame [OF assms(2), of p] uninstall_done [OF assms(2)]
    by (cases "p = path") simp_all
qed

lemma session_frame:
  "p \<noteq> path \<Longrightarrow> ho_files (fold (\<lambda>b h. snd ((if b then install else uninstall) h)) bs h) p = ho_files h p"
proof (induction bs arbitrary: h)
  case (Cons b bs)
  have "ho_files (snd ((if b then install else uninstall) h)) p = ho_files h p"
    using install_frame [of h _ _ p] uninstall_frame [of h _ _ p] Cons(2)
    by (cases "install h"; cases "uninstall h") auto
  with Cons show ?case by simp
qed simp

end

lemma systemctl_files [simp]: "ho_files (snd (systemctl E args lvl h)) = ho_files h"
  by (simp add: systemctl_def run_systemctl_def)

lemma suppress_files: "ho_files (snd (m h)) = f \<Longrightarrow> ho_files (snd (suppress c m h)) = f"
  by (auto simp: suppress_def split: prod.splits sum.splits)

lemma act_bind_snd:
  "snd (act_bind m k h) = (case fst (m h) of Inl e \<Rightarrow> snd (m h) | Inr a \<Rightarrow> snd (k a (snd (m h))))"
  by (auto simp: act_simps split: prod.splits sum.splits)

lemma act_bind_Ok:
  "fst (act_bind m k h) = Ok b \<longleftrightarrow> (\<exists>a. fst (m h) = Ok a \<and> fst (k a (snd (m h))) = Ok b)"
  by (auto simp: act_simps split: prod.splits sum.splits)

lemma svc_user_snd [simp]: "snd (svc_user E u h) = h"
  by (auto simp: svc_user_def act_simps split: option.splits)

lemma install_unit_files:
  "ho_files (snd (install_unit E lvl name content h)) =
     (ho_files h)(unit_path E lvl name :=
        file_after (sv_write E (unit_path E lvl name)) content (ho_files h (unit_path E lvl name)))"
  "fst (install_unit E lvl name content h) = Ok () \<Longrightarrow> sv_write E (unit_path E lvl name) = Written"
  by (auto simp: install_unit_def act_bind_snd act_bind_Ok write_unit_def act_run(1) split: sum.splits if_splits)

lemma remove_unit_files:
  "p \<noteq> unit_path E lvl name \<Longrightarrow> ho_files (snd (remove_unit c E lvl name h)) p = ho_files h p"
  "fst (remove_unit c E lvl name h) = Ok () \<Longrightarrow> ho_files (snd (remove_unit c E lvl name h)) (unit_path E lvl name) = None"
proof -
  let ?stop = "suppress c (systemctl E [''stop'', name @ ''.service''] lvl)"
  let ?dis = "suppress c (systemctl E [''disable'', name @ ''.service''] lvl)"
  have f: "ho_files (snd (?stop h)) = ho_files h" "ho_files (snd (?dis h)) = ho_files h" for h
    by (rule suppress_files, simp)+
  have u: "ho_files (snd (unlink_unit E path h)) = (if sv_unlinkable E path then (ho_files h)(path := None) else ho_files h)" for path h
    by (auto simp: unlink_unit_def fun_upd_idem)
  have v: "fst (unlink_unit E path h) = Ok () \<Longrightarrow> ho_files (snd (unlink_unit E path h)) path = None" for path h
    by (auto simp: unlink_unit_def split: if_splits)
  show "ho_files (snd (remove_unit c E lvl name h)) p = ho_files h p" if "p \<noteq> unit_path E lvl name"
    using that by (simp add: remove_unit_def act_bind_snd act_run(1) f u split: sum.splits)
  show "ho_files (snd (remove_unit c E lvl name h)) (unit_path E lvl name) = None"
    if "fst (remove_unit c E lvl name h) = Ok ()"
    using that v by (auto simp: remove_unit_def act_bind_snd act_bind_Ok act_run(1) f)
qed

lemma managed_unitI:
  assumes "\<And>h. install h = act_bind (svc_user E u) (\<lambda>user. k user) h"
    and "\<And>user. (\<exists>e. k user = act_raise e) \<or> (\<exists>content. k user = install_unit E lvl name content)"
  shows "managed_unit install (remove_unit c E lvl name) (unit_path E lvl name)"
proof
  fix h r h' p
  show "ho_files h' p = ho_files h p" if "install h = (r, h')" "p \<noteq> unit_path E lvl name"
  proof (cases "fst (svc_user E u h)")
    case (Inr user)
    with that assms(1) have "h' = snd (k user h)" using act_bind_snd [of "svc_user E u" k h] by simp
    then show ?thesis using assms(2) [of user] that(2) by (auto simp: install_unit_files act_run(2))
  next
    case (Inl e)
    with that assms(1) show ?thesis using act_bind_snd [of "svc_user E u" k h] by simp
  qed
  show "ho_files h' (unit_path E lvl name) \<noteq> None" if "install h = (Ok (), h')"
  proof -
    from that assms(1) obtain user where "fst (k user h) = Ok ()" "h' = snd (k user h)"
      using act_bind_Ok [of "svc_user E u" k h "()"] act_bind_snd [of "svc_user E u" k h] by auto
    then show ?thesis using assms(2) [of user] install_unit_files [of E lvl name _ h] by (auto simp: act_run(2))
  qed
  show "ho_files h' p = ho_files h p" if "remove_unit c E lvl name h = (r, h')" "p \<noteq> unit_path E lvl name"
    using that remove_unit_files(1) [of p E lvl name c h] by simp
  show "ho_files h' (unit_path E lvl name) = None" if "remove_unit c E lvl name h = (Ok (), h')"
    using that remove_unit_files(2) [of c E lvl name h] by simp
qed

interpretation health_unit: managed_unit "health_install E lvl tu th" "remove_unit c E lvl UNIT_NAME"
  "unit_path E lvl UNIT_NAME" for E lvl tu th c
  by (rule managed_unitI [where E = E and u = tu and k = "\<lambda>user. case sv_config E of
       Inl e \<Rightarrow> act_raise (BadConfig e)
     | Inr cfg \<Rightarrow>
         install_unit E lvl UNIT_NAME
           (generate_unit_file (mower_jetson E th) user (svc_home E th) (health_interval_s cfg) lvl)"])
    (auto simp: health_install_def split: sum.splits)

interpretation vslam_unit: managed_unit "vslam_install E lvl tu th" "remove_unit c E lvl VSLAM_UNIT_NAME"
  "unit_path E lvl VSLAM_UNIT_NAME" for E lvl tu th c
  unfolding vslam_install_def [abs_def] by (rule managed_unitI [where E = E and u = tu]) (rule refl, blast)

interpretation bridge_unit: managed_unit "bridge_install E lvl tu th" "remove_unit c E lvl VSLAM_BRIDGE_UNIT_NAME"
  "unit_path E lvl VSLAM_BRIDGE_UNIT_NAME" for E lvl tu th c
  unfolding bridge_install_def [abs_def] by (rule managed_unitI [where E = E and u = tu]) (rule refl, blast)

interpretation sync_unit: managed_unit "pixhawk_sync_install E lvl tu th" "remove_unit c E lvl PIXHAWK_SYNC_UNIT_NAME"
  "unit_path E lvl PIXHAWK_SYNC_UNIT_NAME" for E lvl tu th c
  unfolding pixhawk_sync_install_def [abs_def] by (rule managed_unitI [where E = E and u = tu]) (rule refl, blast)

lemma dry_guard_Ok:
  assumes "dry_guard body ctx answer h = (Ok (), h')" and "\<not> dry_run ctx"
  shows "body h = (Ok (), h')"
  using assms by (cases "authorised ctx answer"; cases "body h"; cases "fst (body h)")
    (auto simp: dry_guard_def call_body_def)

section \<open>Reading a unit\<close>

text \<open>The directives of a unit text with their sections, as systemd reads plain lines.\<close>

fun read_directives :: "string \<Rightarrow> string list \<Rightarrow> (string \<times> string \<times> string) list" where
  "read_directives sec [] = []"
| "read_directives sec (l # ls) =
     (if l = [] then read_directives sec ls
      else if hd l = CHR ''['' then read_directives (butlast (tl l)) ls
      else (sec, before_char (CHR ''='') l, after_char (CHR ''='') l) # read_directives sec ls)"

definition read_unit :: "string \<Rightarrow> (string \<times> string \<times> string) list" where
  "read_unit s = read_directives [] (split_char (CHR 0x0A) s)"

fun opt_list :: "string option \<Rightarrow> string list" where
  "opt_list None = []"
| "opt_list (Some s) = (if s = [] then [] else [s])"

definition opt_timeout :: "int option \<Rightarrow> string option" where
  "opt_timeout t = (case t of None \<Rightarrow> None | Some n \<Rightarrow> if n = 0 then None else Some (str_int n))"

definition env_of :: "(string, string) dict option \<Rightarrow> string list" where
  "env_of e = (case e of None \<Rightarrow> [] | Some d \<Rightarrow> map (\<lambda>(k, v). k @ ''='' @ v) d)"

definition unit_part :: "unit_spec \<Rightarrow> (string \<times> string) list" where
  "unit_part u = [(''Description'', us_description u), (''After'', us_after u),
      (''StartLimitIntervalSec'', str_int (us_start_limit_interval_sec u)),
      (''StartLimitBurst'', str_int (us_start_limit_burst u))]
    @ map (Pair ''BindsTo'') (opt_list (us_binds_to u)) @ map (Pair ''Requires'') (opt_list (us_requires u))"

definition service_part :: "unit_spec \<Rightarrow> (string \<times> string) list" where
  "service_part u = [(''Type'', us_service_type u)]
    @ map (Pair ''ExecStartPre'') (case us_exec_start_pre u of None \<Rightarrow> [] | Some cs \<Rightarrow> cs)
    @ [(''ExecStart'', us_exec_start u), (''Environment'', ''MOWER_CORRELATION_ID=daemon'')]
    @ map (Pair ''Environment'') (env_of (us_extra_environment u))
    @ (if us_user_level u then [] else [(''User'', us_user u)])
    @ [(''WorkingDirectory'', us_home_dir u), (''WatchdogSec'', str_int (us_watchdog_sec u))]
    @ map (Pair ''TimeoutStartSec'') (opt_list (opt_timeout (us_timeout_start_sec u)))
    @ map (Pair ''RuntimeDirectory'') (opt_list (us_runtime_directory u))
    @ [(''Restart'', ''on-failure''), (''RestartSec'', str_int (us_restart_sec u))]"

definition install_part :: "unit_spec \<Rightarrow> (string \<times> string) list" where
  "install_part u = [(''WantedBy'', if us_user_level u then ''default.target'' else ''multi-user.target'')]"

definition directive :: "string \<times> string \<Rightarrow> string" where
  "directive kv = fst kv @ ''='' @ snd kv"

definition unit_lines :: "unit_spec \<Rightarrow> string list" where
  "unit_lines u = [''[Unit]''] @ map directive (unit_part u) @ [[], ''[Service]''] @ map directive (service_part u)
     @ [[], ''[Install]''] @ map directive (install_part u)"

text \<open>No value runs over a line end.\<close>

definition one_line :: "(string \<times> string) list \<Rightarrow> bool" where
  "one_line kvs \<longleftrightarrow> (\<forall>(k, v) \<in> set kvs. CHR 0x0A \<notin> set v)"

lemma opt_line_conv: "opt_line k v = concat (map (\<lambda>l. l @ [CHR 0x0A]) (map directive (map (Pair k) (opt_list v))))"
  by (cases v) (simp_all add: opt_line_def ln_def directive_def)

lemma timeout_line_conv:
  "timeout_line t = concat (map (\<lambda>l. l @ [CHR 0x0A]) (map directive (map (Pair ''TimeoutStartSec'') (opt_list (opt_timeout t)))))"
  by (cases t) (auto simp: timeout_line_def opt_timeout_def ln_def directive_def str_int_def)

lemma env_lines_conv:
  "env_lines e = concat (map (\<lambda>l. l @ [CHR 0x0A]) (map directive (map (Pair ''Environment'') (env_of e))))"
  by (cases e) (simp_all add: env_lines_def env_of_def ln_def directive_def comp_def case_prod_unfold)

lemma pre_lines_conv:
  "pre_lines p = concat (map (\<lambda>l. l @ [CHR 0x0A])
     (map directive (map (Pair ''ExecStartPre'') (case p of None \<Rightarrow> [] | Some cs \<Rightarrow> cs))))"
  by (cases p) (simp_all add: pre_lines_def ln_def directive_def comp_def)

lemma service_unit_lines: "generate_service_unit u = concat (map (\<lambda>l. l @ [CHR 0x0A]) (unit_lines u))"
  unfolding generate_service_unit_def unit_lines_def unit_part_def service_part_def install_part_def
    opt_line_conv timeout_line_conv env_lines_conv pre_lines_conv
  by (simp add: ln_def directive_def)

definition word_key :: "string \<times> string \<Rightarrow> bool" where
  "word_key kv \<longleftrightarrow> fst kv \<noteq> [] \<and> hd (fst kv) \<noteq> CHR ''['' \<and> CHR ''='' \<notin> set (fst kv) \<and> CHR 0x0A \<notin> set (fst kv)"

lemma read_directives_words:
  "list_all word_key kvs \<Longrightarrow>
     read_directives sec (map directive kvs @ ls) = map (Pair sec) kvs @ read_directives sec ls"
proof (induction kvs)
  case (Cons kv kvs)
  obtain k v where kv: "kv = (k, v)" by fastforce
  have "before_char (CHR ''='') (k @ CHR ''='' # v) = k" "after_char (CHR ''='') (k @ CHR ''='' # v) = v"
    if "CHR ''='' \<notin> set k"
    using that by (auto simp: before_char_def after_char_def takeWhile_append dropWhile_append)
  with Cons show ?case by (simp add: kv word_key_def directive_def hd_append)
qed simp

lemma parts_words: "list_all word_key (unit_part u)" "list_all word_key (service_part u)" "list_all word_key (install_part u)"
  by (auto simp: unit_part_def service_part_def install_part_def word_key_def list_all_iff)

text \<open>
  The text of a service unit reads back as the directives it was asked for: each value of the specification
  under its key and in its section, once, and nothing else, as long as no value contains a line end.
  A system unit runs as the given user, a user unit names none.
\<close>

lemma service_unit_reads_back:
  assumes "one_line (unit_part u @ service_part u)"
  shows "read_unit (generate_service_unit u) =
     map (Pair ''Unit'') (unit_part u) @ map (Pair ''Service'') (service_part u) @ map (Pair ''Install'') (install_part u)"
proof -
  have "CHR 0x0A \<notin> set (directive kv)" if "kv \<in> set (unit_part u @ service_part u @ install_part u)" for kv
  proof -
    from that parts_words have "word_key kv" by (auto simp: list_all_iff)
    moreover have "CHR 0x0A \<notin> set (snd kv)" using that assms unfolding one_line_def case_prod_unfold
      by (auto simp: install_part_def split: if_splits)
    ultimately show ?thesis by (simp add: word_key_def directive_def)
  qed
  then have "\<forall>l \<in> set (unit_lines u). CHR 0x0A \<notin> set l" by (auto simp: unit_lines_def)
  then have "split_char (CHR 0x0A) (generate_service_unit u) = unit_lines u @ [[]]"
    unfolding service_unit_lines by (rule split_lines)
  then show ?thesis
    using parts_words by (simp add: read_unit_def unit_lines_def read_directives_words)
qed

section \<open>Installing and removing\<close>

text \<open>
  C36: For the health, VSLAM, bridge and sync services, when the unit was not there before: after an
  installation that returned, an uninstallation that returns leaves the unit files of the host exactly
  as they were. (Over an existing unit it does not: the installation overwrites the file and the
  uninstallation deletes it.)
\<close>

theorem uninstall_restores:
  assumes "(ins, unins, name) \<in>
      {(install_service E lvl tu th, uninstall_service E lvl, UNIT_NAME),
       (install_vslam_service E lvl tu th, uninstall_vslam_service E lvl, VSLAM_UNIT_NAME),
       (install_vslam_bridge_service E lvl tu th, uninstall_vslam_bridge_service E lvl, VSLAM_BRIDGE_UNIT_NAME),
       (install_pixhawk_sync_service E lvl tu th, uninstall_pixhawk_sync_service E lvl, PIXHAWK_SYNC_UNIT_NAME)}"
    and "ins ctx answer h = (Ok (), h1)" and "unins ctx' answer' h1 = (Ok (), h2)"
    and "\<not> dry_run ctx" and "\<not> dry_run ctx'" and "ho_files h (unit_path E lvl name) = None"
  shows "ho_files h1 (unit_path E lvl name) \<noteq> None \<and> ho_files h2 = ho_files h"
  using assms
  by (auto simp: install_service_def uninstall_service_def install_vslam_service_def uninstall_vslam_service_def
      install_vslam_bridge_service_def uninstall_vslam_bridge_service_def install_pixhawk_sync_service_def
      uninstall_pixhawk_sync_service_def
      dest!: dry_guard_Ok
      dest: health_unit.install_uninstall vslam_unit.install_uninstall bridge_unit.install_uninstall
        sync_unit.install_uninstall health_unit.install_done vslam_unit.install_done bridge_unit.install_done
        sync_unit.install_done)

definition quiet_host :: svc_env where
  "quiet_host = \<lparr>sv_home = ''/home/u'', sv_getuser = Some ''u'', sv_which = \<lambda>_. None, sv_config = Ok default_jetson_config,
     sv_systemctl = \<lambda>h c. ScOk, sv_write = \<lambda>_. Written, sv_unlinkable = \<lambda>_. True\<rparr>"

lemma quiet_calls: "systemctl quiet_host args lvl h = (Ok (), snd (systemctl quiet_host args lvl h))"
  "write_unit quiet_host path t h = (Ok (), snd (write_unit quiet_host path t h))"
  "unlink_unit quiet_host path h = (Ok (), snd (unlink_unit quiet_host path h))"
  by (simp_all add: systemctl_def run_systemctl_def write_unit_def unlink_unit_def quiet_host_def)

lemma quiet_units:
  "fst (install_unit quiet_host lvl name t h) = Ok ()" "fst (remove_unit c quiet_host lvl name h) = Ok ()"
proof -
  have c: "fst (systemctl quiet_host args lvl h) = Ok ()" "fst (write_unit quiet_host path t h) = Ok ()"
    "fst (unlink_unit quiet_host path h) = Ok ()" for args lvl h path t
    using quiet_calls(1) [of args lvl h] quiet_calls(2) [of path t h] quiet_calls(3) [of path h] by (metis fst_conv)+
  then have "fst (suppress c (systemctl quiet_host args lvl) h) = Ok ()" for args lvl h
    by (auto simp: suppress_def split: prod.splits sum.splits) (metis Inl_Inr_False c(1) fst_conv)
  with c show "fst (install_unit quiet_host lvl name t h) = Ok ()" "fst (remove_unit c quiet_host lvl name h) = Ok ()"
    unfolding install_unit_def remove_unit_def by (simp_all add: act_bind_Ok act_run(1))
qed

theorem uninstall_restores_witness:
  "\<exists>h1 h2. install_vslam_service quiet_host False None None (new_context False True) Eof \<lparr>ho_files = Map.empty, ho_calls = []\<rparr> = (Ok (), h1)
     \<and> uninstall_vslam_service quiet_host False (new_context False True) Eof h1 = (Ok (), h2)
     \<and> ho_files h1 (unit_path quiet_host False VSLAM_UNIT_NAME) \<noteq> None \<and> ho_files h2 = Map.empty"
proof -
  let ?ctx = "new_context False True :: host safety_context" and ?h = "\<lparr>ho_files = Map.empty, ho_calls = []\<rparr> :: host"
  have "fst (svc_user quiet_host None h) = Ok ''u''" for h by (simp add: svc_user_def quiet_host_def act_run(1))
  then have "fst (vslam_install quiet_host False None None h) = Ok ()" for h
    by (simp add: vslam_install_def act_bind_Ok quiet_units(1))
  then have "fst (install_vslam_service quiet_host False None None ?ctx Eof h) = Ok ()"
    "fst (uninstall_vslam_service quiet_host False ?ctx Eof h) = Ok ()" for h
    using quiet_units(2) by (simp_all add: install_vslam_service_def uninstall_vslam_service_def dry_guard_def authorised_def
        new_context_def call_body_def case_prod_unfold)
  then obtain h1 h2 where 1: "install_vslam_service quiet_host False None None ?ctx Eof ?h = (Ok (), h1)"
    and 2: "uninstall_vslam_service quiet_host False ?ctx Eof h1 = (Ok (), h2)"
    by (metis prod.collapse)
  have "\<not> dry_run ?ctx" by (simp add: new_context_def)
  then have "ho_files h1 (unit_path quiet_host False VSLAM_UNIT_NAME) \<noteq> None \<and> ho_files h2 = ho_files ?h"
    using 1 2
    by (intro uninstall_restores [where ins = "install_vslam_service quiet_host False None None"
        and unins = "uninstall_vslam_service quiet_host False" and ctx = ?ctx and ctx' = ?ctx]) auto
  with 1 2 show ?thesis by auto
qed

end
