(* ===== verification/Health.thy ===== *)
theory Health
  imports PyValue
begin

text \<open>
  The Jetson's health readers, \<open>health/thermal.py\<close>, \<open>health/power.py\<close>, \<open>health/disk.py\<close> and
  \<open>health/wifi.py\<close>, and the daemon that samples them, \<open>service/daemon.py\<close>. A file under the
  system root is absent, unreadable, not UTF-8, or a text; processes and \<open>statvfs\<close> are
  arguments. An exception a reader does not catch is its result.
\<close>

section \<open>Files\<close>

datatype file_view = FAbsent | FError | FBadUtf8 | FText string

section \<open>Thermal zones\<close>

record thermal_zone =
  tz_index :: int
  tz_name :: string
  tz_temp_c :: pyfloat

record thermal_snapshot =
  ts_zones :: "thermal_zone list"
  ts_timestamp :: string

text \<open>A directory the glob found: its name, and its files \<open>temp\<close> and \<open>type\<close>.\<close>

record zone_dir =
  zd_name :: string
  zd_temp :: file_view
  zd_type :: file_view

text \<open>\<open>int(raw) / 1000.0\<close>; \<open>None\<close> where the zone is skipped.\<close>

definition zone_temp :: "file_view \<Rightarrow> (pyexc, pyfloat option) result" where
  "zone_temp f =
     (case f of
        FText t \<Rightarrow>
          (case parse_int (py_strip t) of
             None \<Rightarrow> Ok None
           | Some n \<Rightarrow> bindr (float_of_int n) (\<lambda>x. bindr (fdiv x (Fin 1000)) (\<lambda>y. Ok (Some y))))
      | _ \<Rightarrow> Ok None)"

definition zone_label :: "string \<Rightarrow> file_view \<Rightarrow> (pyexc, string) result" where
  "zone_label dir f =
     (case f of
        FAbsent \<Rightarrow> Ok []
      | FError \<Rightarrow> Ok dir
      | FBadUtf8 \<Rightarrow> Err UnicodeError
      | FText t \<Rightarrow> Ok (if t = [] then dir else py_strip t))"

definition removeprefix :: "string \<Rightarrow> string \<Rightarrow> string" where
  "removeprefix p s = (if is_prefix p s then drop (length p) s else s)"

definition zone_index :: "string \<Rightarrow> int" where
  "zone_index dir = (case parse_int (removeprefix ''thermal_zone'' dir) of None \<Rightarrow> - 1 | Some n \<Rightarrow> n)"

fun read_zones :: "zone_dir list \<Rightarrow> (pyexc, thermal_zone list) result" where
  "read_zones [] = Ok []"
| "read_zones (d # ds) =
     bindr (zone_temp (zd_temp d)) (\<lambda>t.
       case t of
         None \<Rightarrow> read_zones ds
       | Some temp \<Rightarrow>
           bindr (zone_label (zd_name d) (zd_type d)) (\<lambda>name.
           bindr (read_zones ds) (\<lambda>zs.
           Ok (\<lparr>tz_index = zone_index (zd_name d), tz_name = name, tz_temp_c = temp\<rparr> # zs))))"

text \<open>The directories in sorted order.\<close>

definition read_thermal_zones :: "string \<Rightarrow> zone_dir list \<Rightarrow> (pyexc, thermal_snapshot) result" where
  "read_thermal_zones now dirs = bindr (read_zones dirs) (\<lambda>zs. Ok \<lparr>ts_zones = zs, ts_timestamp = now\<rparr>)"

section \<open>Power\<close>

record power_state =
  pw_mode_id :: "int option"
  pw_mode_name :: "string option"
  pw_online_cpus :: "int option"
  pw_gpu_freq_mhz :: "int option"
  pw_fan_profile :: "string option"
  pw_timestamp :: string

datatype proc_outcome = ProcMissing | ProcTimeout | ProcExit int string

definition py_str_isdigit :: "string \<Rightarrow> bool" where
  "py_str_isdigit s \<longleftrightarrow> s \<noteq> [] \<and> list_all py_isdigit s"

definition power_mode_prefix :: string where "power_mode_prefix = ''NV Power Mode:''"

text \<open>\<open>re.match(r"NV Power Mode:\s*(.+)", line)\<close> on a stripped line: some text follows the colon.\<close>

definition match_mode :: "string \<Rightarrow> string option" where
  "match_mode line =
     (if is_prefix power_mode_prefix line \<and> line \<noteq> power_mode_prefix
      then Some (py_strip (drop (length power_mode_prefix) line)) else None)"

fun nvpmodel_lines :: "string list \<Rightarrow> int option \<times> string option \<Rightarrow> int option \<times> string option" where
  "nvpmodel_lines [] st = st"
| "nvpmodel_lines (l # ls) (mode_id, mode_name) =
     (let line = py_strip l;
          name = (case match_mode line of None \<Rightarrow> mode_name | Some m \<Rightarrow> Some m);
          ident = (if py_str_isdigit line then parse_int line else mode_id)
      in nvpmodel_lines ls (ident, name))"

definition read_nvpmodel :: "proc_outcome \<Rightarrow> int option \<times> string option" where
  "read_nvpmodel p =
     (case p of
        ProcExit rc out \<Rightarrow> if rc \<noteq> 0 then (None, None) else nvpmodel_lines (splitlines out) (None, None)
      | _ \<Rightarrow> (None, None))"

definition cpu_part :: "string \<Rightarrow> int" where
  "cpu_part raw =
     (let part = py_strip raw
      in if CHR ''-'' \<in> set part
         then (case (parse_int (before_char (CHR ''-'') part), parse_int (after_char (CHR ''-'') part)) of
                 (Some lo, Some hi) \<Rightarrow> hi - lo + 1
               | _ \<Rightarrow> 0)
         else (case parse_int part of None \<Rightarrow> 0 | Some n \<Rightarrow> 1))"

definition read_online_cpus :: "file_view \<Rightarrow> (pyexc, int option) result" where
  "read_online_cpus f =
     (case f of
        FText t \<Rightarrow>
          (let count = sum_list (map cpu_part (split_char (CHR '','') (py_strip t)))
           in Ok (if 0 < count then Some count else None))
      | FBadUtf8 \<Rightarrow> Err UnicodeError
      | _ \<Rightarrow> Ok None)"

text \<open>The candidate files in turn; unreadable and malformed ones are passed over.\<close>

fun read_gpu_freq :: "file_view list \<Rightarrow> int option" where
  "read_gpu_freq [] = None"
| "read_gpu_freq (f # fs) =
     (case f of
        FText t \<Rightarrow> (case parse_int (py_strip t) of Some hz \<Rightarrow> Some (hz div 1000000) | None \<Rightarrow> read_gpu_freq fs)
      | _ \<Rightarrow> read_gpu_freq fs)"

definition read_fan_profile :: "file_view \<Rightarrow> (pyexc, string option) result" where
  "read_fan_profile f =
     (case f of
        FText t \<Rightarrow> Ok (if py_strip t = [] then None else Some (py_strip t))
      | FBadUtf8 \<Rightarrow> Err UnicodeError
      | _ \<Rightarrow> Ok None)"

definition read_power_state ::
  "string \<Rightarrow> proc_outcome \<Rightarrow> file_view \<Rightarrow> file_view list \<Rightarrow> file_view \<Rightarrow> (pyexc, power_state) result" where
  "read_power_state now nvpmodel cpus gpus fan =
     (let (mode_id, mode_name) = read_nvpmodel nvpmodel in
      bindr (read_online_cpus cpus) (\<lambda>online.
      bindr (read_fan_profile fan) (\<lambda>profile.
      Ok \<lparr>pw_mode_id = mode_id, pw_mode_name = mode_name, pw_online_cpus = online,
          pw_gpu_freq_mhz = read_gpu_freq gpus, pw_fan_profile = profile, pw_timestamp = now\<rparr>)))"

section \<open>Disks\<close>

record disk_usage =
  du_mount_point :: string
  du_device :: string
  du_total_gb :: pyfloat
  du_used_gb :: pyfloat
  du_free_gb :: pyfloat
  du_is_nvme :: bool

definition interesting_mounts :: "string list" where "interesting_mounts = [''/'', ''/home'', ''/data'']"

definition mount_entry :: "string \<Rightarrow> (string \<times> string) list" where
  "mount_entry line =
     (case split_ws line of
        device # mount # rest \<Rightarrow> if mount \<in> set interesting_mounts then [(device, mount)] else []
      | _ \<Rightarrow> [])"

definition parse_proc_mounts :: "file_view \<Rightarrow> (pyexc, (string \<times> string) list) result" where
  "parse_proc_mounts f =
     (case f of
        FText t \<Rightarrow> Ok (concat (map mount_entry (splitlines t)))
      | FBadUtf8 \<Rightarrow> Err UnicodeError
      | _ \<Rightarrow> Ok [])"

text \<open>\<open>n / (1024**3)\<close> of integers, correctly rounded; block size, blocks and available blocks from \<open>statvfs\<close>.\<close>

definition gib :: "int \<Rightarrow> (pyexc, pyfloat) result" where
  "gib n = (case rnd (of_int n / 1073741824) of Fin x \<Rightarrow> Ok (Fin x) | _ \<Rightarrow> Err OverflowError)"

type_synonym statvfs = "string \<Rightarrow> (int \<times> int \<times> int) option"

definition disk_stats :: "statvfs \<Rightarrow> string \<Rightarrow> (pyexc, (pyfloat \<times> pyfloat \<times> pyfloat) option) result" where
  "disk_stats statvfs mount =
     (case statvfs mount of
        None \<Rightarrow> Ok None
      | Some (frsize, blocks, bavail) \<Rightarrow>
          bindr (gib (frsize * blocks)) (\<lambda>total_gb.
          bindr (gib (frsize * bavail)) (\<lambda>free_gb.
          Ok (Some (fround 2 total_gb, fround 2 (fsub total_gb free_gb), fround 2 free_gb)))))"

definition disk_entry :: "statvfs \<Rightarrow> string \<times> string \<Rightarrow> (pyexc, disk_usage) result" where
  "disk_entry statvfs dm =
     bindr (disk_stats statvfs (snd dm)) (\<lambda>st.
     let (a, b, c) = (case st of None \<Rightarrow> (Fin 0, Fin 0, Fin 0) | Some abc \<Rightarrow> abc)
     in Ok \<lparr>du_mount_point = snd dm, du_device = fst dm, du_total_gb = a, du_used_gb = b, du_free_gb = c,
            du_is_nvme = str_contains ''nvme'' (py_lower (fst dm))\<rparr>)"

definition read_disk_usage :: "statvfs \<Rightarrow> file_view \<Rightarrow> (pyexc, disk_usage list) result" where
  "read_disk_usage statvfs mounts = bindr (parse_proc_mounts mounts) (mapr (disk_entry statvfs))"

section \<open>Wi-Fi\<close>

record wifi_status =
  wf_interface :: string
  wf_link_quality :: pyfloat
  wf_signal_dbm :: pyfloat
  wf_noise_dbm :: pyfloat

definition dotted_float :: "string \<Rightarrow> pyfloat option" where
  "dotted_float s = parse_float (rstrip_char (CHR ''.'') s)"

definition wifi_line :: "string \<Rightarrow> wifi_status option" where
  "wifi_line raw =
     (let parts = split_ws (py_strip raw)
      in if length parts < 4 then None
         else (case (dotted_float (parts ! 2), dotted_float (parts ! 3),
                     if 4 < length parts then dotted_float (parts ! 4) else Some (Fin 0)) of
                 (Some q, Some s, Some n) \<Rightarrow>
                   Some \<lparr>wf_interface = rstrip_char (CHR '':'') (parts ! 0), wf_link_quality = q,
                         wf_signal_dbm = s, wf_noise_dbm = n\<rparr>
               | _ \<Rightarrow> None))"

fun first_some :: "'a option list \<Rightarrow> 'a option" where
  "first_some [] = None"
| "first_some (Some a # xs) = Some a"
| "first_some (None # xs) = first_some xs"

definition read_wifi_status :: "file_view \<Rightarrow> (pyexc, wifi_status option) result" where
  "read_wifi_status f =
     (case f of
        FText t \<Rightarrow> Ok (first_some (map wifi_line (drop 2 (splitlines t))))
      | FBadUtf8 \<Rightarrow> Err UnicodeError
      | _ \<Rightarrow> Ok None)"

section \<open>The daemon\<close>

text \<open>A pass of the loop: the clock and what the three readers return.\<close>

record daemon_tick =
  dt_now :: pyfloat
  dt_thermal :: "(pyexc, thermal_snapshot) result"
  dt_power :: "(pyexc, power_state) result"
  dt_disk :: "(pyexc, disk_usage list) result"

datatype daemon_event =
    Ready
  | WatchdogPing pyfloat
  | HealthLogged nat "string option" nat
  | HealthFailed pyexc
  | Synced

definition health_event :: "daemon_tick \<Rightarrow> daemon_event" where
  "health_event t =
     (case bindr (dt_thermal t) (\<lambda>th. bindr (dt_power t) (\<lambda>pw. bindr (dt_disk t) (\<lambda>ds.
        Ok (HealthLogged (length (ts_zones th)) (pw_mode_name pw) (length ds))))) of
        Inl e \<Rightarrow> HealthFailed e
      | Inr ev \<Rightarrow> ev)"

definition daemon_pass ::
  "bool \<Rightarrow> int \<Rightarrow> daemon_tick \<Rightarrow> pyfloat \<times> pyfloat \<Rightarrow> daemon_event list \<times> (pyfloat \<times> pyfloat)" where
  "daemon_pass has_sync interval t st =
     (let (last_health, last_watchdog) = st; now = dt_now t;
          ping = fge (fsub now last_watchdog) (Fin 15);
          sample = fge (fsub now last_health) (fint interval)
      in ((if ping then [WatchdogPing now] else [])
          @ (if sample then [health_event t] @ (if has_sync then [Synced] else []) else []),
          (if sample then now else last_health, if ping then now else last_watchdog)))"

fun daemon_loop :: "bool \<Rightarrow> int \<Rightarrow> daemon_tick list \<Rightarrow> pyfloat \<times> pyfloat \<Rightarrow> daemon_event list" where
  "daemon_loop has_sync interval [] st = []"
| "daemon_loop has_sync interval (t # ts) st =
     (let (ev, st') = daemon_pass has_sync interval t st in ev @ daemon_loop has_sync interval ts st')"

text \<open>The passes until shutdown is requested.\<close>

definition run_daemon :: "bool \<Rightarrow> int \<Rightarrow> daemon_tick list \<Rightarrow> daemon_event list" where
  "run_daemon has_sync interval ts =
     Ready # daemon_loop has_sync interval ts (fneg (rnd (of_int (interval + 1))), Fin (- 16))"

section \<open>What the readers deliver\<close>

text \<open>A missing, unreadable or malformed temperature never stops the snapshot; an undecodable label does.\<close>

lemma read_zones_total:
  "list_all (\<lambda>d. zd_type d \<noteq> FBadUtf8 \<and> (\<exists>t. zone_temp (zd_temp d) = Ok t)) ds \<Longrightarrow>
     \<exists>zs. read_zones ds = Ok zs \<and> length zs \<le> length ds"
proof (induction ds)
  case (Cons d ds)
  then obtain zs t where "read_zones ds = Ok zs" "length zs \<le> length ds" "zone_temp (zd_temp d) = Ok t" by auto
  moreover obtain name where "zone_label (zd_name d) (zd_type d) = Ok name"
    using Cons by (cases "zd_type d") (auto simp: zone_label_def)
  ultimately show ?case by (cases t) auto
qed simp

lemma read_zones_bad_label:
  assumes "zone_temp (zd_temp d) = Ok (Some x)" and "zd_type d = FBadUtf8"
    and "list_all (\<lambda>d. zd_type d \<noteq> FBadUtf8 \<and> (\<exists>t. zone_temp (zd_temp d) = Ok t)) ds"
  shows "read_zones (ds @ d # ds') = Err UnicodeError"
  using assms(3)
proof (induction ds)
  case (Cons e ds)
  then obtain t where t: "zone_temp (zd_temp e) = Ok t" by auto
  moreover obtain name where "zone_label (zd_name e) (zd_type e) = Ok name"
    using Cons by (cases "zd_type e") (auto simp: zone_label_def)
  ultimately show ?case using Cons by (cases t) auto
qed (use assms in \<open>simp add: zone_label_def\<close>)

text \<open>The kernel's format of a CPU list: single numbers and ranges.\<close>

definition cpu_text :: "nat \<times> nat \<Rightarrow> string" where
  "cpu_text r = (if fst r = snd r then digits_of_nat (fst r) else digits_of_nat (fst r) @ ''-'' @ digits_of_nat (snd r))"

definition cpulist :: "(nat \<times> nat) list \<Rightarrow> string" where
  "cpulist rs = join_with '','' (map cpu_text rs)"

lemma parse_int_digits: "parse_int (digits_of_nat n) = Some (int n)"
  using parse_int_str_int [of "int n"] by (simp add: str_int_def)

lemma digits_not: "py_isdigit c \<Longrightarrow> c \<noteq> CHR ''-'' \<and> c \<noteq> CHR '','' \<and> \<not> py_isspace c"
  using py_isdigit_not_space [of c] by (auto simp: py_isdigit_def)

lemma cpu_text_chars: "c \<in> set (cpu_text r) \<Longrightarrow> py_isdigit c \<or> c = CHR ''-''"
  using digits_of_nat_isdigit by (auto simp: cpu_text_def split: if_splits)

lemma cpu_text_plain: "c \<in> set (cpu_text r) \<Longrightarrow> c \<noteq> CHR '','' \<and> \<not> py_isspace c"
  using cpu_text_chars [of c r] digits_not [of c] by (auto simp: py_isspace_def)

lemma cpu_part_text: "fst r \<le> snd r \<Longrightarrow> cpu_part (cpu_text r) = int (snd r) - int (fst r) + 1"
proof -
  assume le: "fst r \<le> snd r"
  have strip: "py_strip (cpu_text r) = cpu_text r" by (intro py_strip_id) (use cpu_text_plain in blast)
  have no: "CHR ''-'' \<notin> set (digits_of_nat n)" for n using digits_of_nat_isdigit digits_not by blast
  then have "before_char (CHR ''-'') (digits_of_nat a @ CHR ''-'' # t) = digits_of_nat a"
    "after_char (CHR ''-'') (digits_of_nat a @ CHR ''-'' # t) = t" for a t
    by (auto simp: before_char_def after_char_def takeWhile_append dropWhile_append)
  with strip no show ?thesis
    by (auto simp: cpu_part_def cpu_text_def Let_def parse_int_digits split: if_splits)
qed

section \<open>Properties\<close>

text \<open>
  The number of online processors is read correctly from the kernel's list: for any non-empty list of single
  numbers and ranges, as the kernel prints it, the reader returns the sum of their sizes.
\<close>

lemma online_cpus_count:
  assumes "rs \<noteq> []" and "\<forall>r \<in> set rs. fst r \<le> snd r"
  shows "read_online_cpus (FText (cpulist rs @ [CHR 0x0A])) = Ok (Some (\<Sum>r \<leftarrow> rs. int (snd r) - int (fst r) + 1))"
proof -
  have sep: "\<not> py_isspace (CHR '','')" "py_isspace (CHR 0x0A)" by (simp_all add: py_isspace_def)
  have "\<forall>c \<in> set (cpulist rs). \<not> py_isspace c"
    using set_join_with [of "'',''" "map cpu_text rs"] cpu_text_plain sep(1)
    by (fastforce simp: cpulist_def)
  then have "py_strip (cpulist rs) = cpulist rs" by (rule py_strip_id)
  moreover have "py_strip (s @ [CHR 0x0A]) = py_strip s" if "\<forall>c \<in> set s. \<not> py_isspace c" for s
    using that sep(2) by (cases s) (auto simp: py_strip_def py_lstrip_def py_rstrip_def dropWhile_append)
  ultimately have strip: "py_strip (cpulist rs @ [CHR 0x0A]) = cpulist rs"
    using \<open>\<forall>c \<in> set (cpulist rs). \<not> py_isspace c\<close> by simp
  have "split_char (CHR '','') (cpulist rs) = map cpu_text rs"
    unfolding cpulist_def using assms(1) cpu_text_plain by (intro split_join) auto
  moreover have "sum_list (map (cpu_part \<circ> cpu_text) rs) = (\<Sum>r \<leftarrow> rs. int (snd r) - int (fst r) + 1)"
    using assms(2) cpu_part_text by (intro arg_cong [where f = sum_list]) simp
  moreover have "0 < (\<Sum>r \<leftarrow> rs. int (snd r) - int (fst r) + 1)"
    using assms
  proof (induction rs rule: list_nonempty_induct)
    case (cons r rs)
    then have "0 \<le> int (snd r) - int (fst r)" by simp
    with cons show ?case by simp
  qed simp
  ultimately show ?thesis by (simp add: read_online_cpus_def strip Let_def)
qed

text \<open>Whole seconds are compared exactly: a difference that reads as less than fifteen is less than fifteen.\<close>

lemma not_fge_15: "\<not> fge (fsub (Fin x) (Fin w)) (Fin 15) \<Longrightarrow> x - w < 15"
proof (rule ccontr)
  assume no: "\<not> fge (fsub (Fin x) (Fin w)) (Fin 15)" and "\<not> x - w < 15"
  then have "of_int 15 \<le> fl (x - w)" by (intro fl_ge_int) simp_all
  then show False using no rnd_cases [of "x - w"] by (auto simp: fsub_def rnd_def Let_def split: if_splits)
qed

fun pinged :: "daemon_event list \<Rightarrow> rat \<Rightarrow> bool" where
  "pinged ev y = (WatchdogPing (Fin y) \<in> set ev)"

lemma daemon_pings:
  "sorted (w # map x [0..<length ts]) \<Longrightarrow> (\<And>j. j < length ts \<Longrightarrow> dt_now (ts ! j) = Fin (x j)) \<Longrightarrow> i < length ts \<Longrightarrow>
     (\<exists>y. pinged (daemon_loop s n (take (Suc i) ts) (lh, Fin w)) y \<and> y \<le> x i \<and> x i - y < 15) \<or> x i - w < 15"
proof (induction ts arbitrary: w lh i x)
  case (Cons t ts)
  have now: "dt_now t = Fin (x 0)" using Cons(3) [of 0] by simp
  have xs: "map x [0..<length (t # ts)] = x 0 # map (\<lambda>j. x (Suc j)) [0..<length ts]"
    by (simp add: upt_conv_Cons map_Suc_upt [symmetric] del: upt_Suc)
  have srt: "sorted (x 0 # map (\<lambda>j. x (Suc j)) [0..<length ts])" and w: "w \<le> x 0" and
    all: "\<And>j. j < length ts \<Longrightarrow> w \<le> x (Suc j)" "\<And>j. j < length ts \<Longrightarrow> x 0 \<le> x (Suc j)"
    using Cons(2) unfolding xs by auto
  have nxt: "dt_now (ts ! j) = Fin (x (Suc j))" if "j < length ts" for j using Cons(3) [of "Suc j"] that by simp
  obtain ev lh' lw where pass: "daemon_pass s n t (lh, Fin w) = (ev, (lh', lw))" by (metis prod.collapse)
  show ?case
  proof (cases "fge (fsub (Fin (x 0)) (Fin w)) (Fin 15)")
    case True
    then have lw: "lw = Fin (x 0)" and ping: "pinged ev (x 0)"
      using pass by (auto simp: daemon_pass_def Let_def now split: if_splits)
    show ?thesis
    proof (cases i)
      case 0
      then show ?thesis using ping pass by (intro disjI1 exI [of _ "x 0"]) auto
    next
      case (Suc k)
      then have "(\<exists>y. pinged (daemon_loop s n (take (Suc k) ts) (lh', Fin (x 0))) y \<and> y \<le> x i \<and> x i - y < 15) \<or> x i - x 0 < 15"
        using Cons(1) [OF srt nxt, of k lh'] Cons(4) unfolding Suc by simp
      then show ?thesis using ping pass lw all(2) [of k] Cons(4) by (auto simp: Suc)
    qed
  next
    case False
    then have lw: "lw = Fin w" using pass by (auto simp: daemon_pass_def Let_def now split: if_splits)
    show ?thesis
    proof (cases i)
      case 0
      then show ?thesis using not_fge_15 [OF False] by simp
    next
      case (Suc k)
      have "sorted (w # map (\<lambda>j. x (Suc j)) [0..<length ts])" using srt all by simp
      then have "(\<exists>y. pinged (daemon_loop s n (take (Suc k) ts) (lh', Fin w)) y \<and> y \<le> x i \<and> x i - y < 15) \<or> x i - w < 15"
        using Cons(1) [of w "\<lambda>j. x (Suc j)", OF _ nxt, of k lh'] Cons(4) unfolding Suc by simp
      then show ?thesis using pass lw by (auto simp: Suc)
    qed
  qed
qed simp

text \<open>
  C37: The daemon keeps the watchdog fed: at every pass of its loop, whatever the health readers do, the last ping it has sent
  is less than fifteen seconds old, so pings are at most fifteen seconds and one pass apart.
\<close>

theorem daemon_watchdog_fresh:
  assumes "sorted (map x [0..<length ts])" and "\<forall>j < length ts. dt_now (ts ! j) = Fin (x j) \<and> 0 \<le> x j"
    and "i < length ts"
  shows "\<exists>y. WatchdogPing (Fin y) \<in> set (run_daemon s n (take (Suc i) ts)) \<and> y \<le> x i \<and> x i - y < 15"
proof -
  have "sorted (- 16 # map x [0..<length ts])" using assms(1,2) by (auto intro: order_trans [of _ 0])
  from daemon_pings [OF this, of i s n "fneg (rnd (of_int (n + 1)))"] assms
  have "(\<exists>y. pinged (daemon_loop s n (take (Suc i) ts) (fneg (rnd (of_int (n + 1))), Fin (- 16))) y \<and> y \<le> x i \<and> x i - y < 15)"
    by force
  then show ?thesis by (auto simp: run_daemon_def)
qed

definition idle_tick :: "pyfloat \<Rightarrow> daemon_tick" where
  "idle_tick t = \<lparr>dt_now = t, dt_thermal = Err UnicodeError, dt_power = Err UnicodeError, dt_disk = Err UnicodeError\<rparr>"

theorem daemon_watchdog_fresh_witness:
  "\<exists>y. WatchdogPing (Fin y) \<in> set (run_daemon False 60 (take 2 [idle_tick (Fin 0), idle_tick (Fin 20)])) \<and> y \<le> 20 \<and> 20 - y < 15"
  using daemon_watchdog_fresh [of "\<lambda>j. if j = 0 then 0 else 20" "[idle_tick (Fin 0), idle_tick (Fin 20)]" 1 False 60]
  by (simp add: idle_tick_def less_Suc_eq numeral_2_eq_2)

end
