(* ===== verification/Kiosk.thy ===== *)
theory Kiosk
  imports Bridge Health Config
begin

text \<open>
  The kiosk data server: the state its threads share (\<open>kiosk/state.py\<close>), the MAVLink reader
  (\<open>kiosk/telemetry.py\<close>), and the server with its slow poller and watchdog (\<open>kiosk/app.py\<close>). Every
  method of the shared state holds the lock for its whole body, so it is one operation, and a run of
  the threads is an interleaving of their operations. Wall clocks, file contents, processes and
  the socket's behaviour are arguments.
\<close>

section \<open>Shared state\<close>

text \<open>The attributes of \<open>MavTelemetry\<close> in the order of the dataclass, with their defaults.\<close>

type_synonym fields = "(string, pyval) dict"

definition mav_telemetry :: fields where
  "mav_telemetry =
     [(''armed'', VBool False), (''mode'', VStr []), (''system_status'', VInt 0),
      (''groundspeed_ms'', VFloat (Fin 0)), (''heading_deg'', VInt 0), (''throttle_pct'', VInt 0),
      (''gps1_fix'', VInt 0), (''gps1_sats'', VInt 0), (''gps1_hdop'', VFloat (rnd (9999 / 100))),
      (''gps2_fix'', VInt 0), (''gps2_sats'', VInt 0), (''gps2_hdop'', VFloat (rnd (9999 / 100))),
      (''rtk1_baseline_mm'', VInt 0), (''rtk1_iar'', VInt 0),
      (''rtk2_baseline_mm'', VInt 0), (''rtk2_iar'', VInt 0), (''last_statustext'', VStr []),
      (''last_heartbeat_epoch'', VFloat (Fin 0)), (''last_gps_epoch'', VFloat (Fin 0))]"

record shared_state =
  ks_mav :: fields
  ks_wifi_interface :: string
  ks_wifi_signal_dbm :: pyfloat
  ks_wifi_link_quality :: pyfloat
  ks_vslam :: fields
  ks_health :: fields
  ks_storage :: fields
  ks_services :: "(string, string) dict"
  ks_last_update :: string

definition new_shared_state :: shared_state where
  "new_shared_state = \<lparr>ks_mav = mav_telemetry, ks_wifi_interface = [], ks_wifi_signal_dbm = Fin 0,
     ks_wifi_link_quality = Fin 0, ks_vslam = [], ks_health = [], ks_storage = [], ks_services = [],
     ks_last_update = []\<rparr>"

text \<open>\<open>hasattr(self._mav, key)\<close>, then \<open>setattr\<close>: an unknown name is passed over.\<close>

fun set_known :: "fields \<Rightarrow> fields \<Rightarrow> fields" where
  "set_known mav [] = mav"
| "set_known mav ((k, v) # kwargs) =
     set_known (if dict_has mav k then dict_set k v mav else mav) kwargs"

definition update_mav :: "string \<Rightarrow> fields \<Rightarrow> shared_state \<Rightarrow> shared_state" where
  "update_mav now kwargs s = s\<lparr>ks_mav := set_known (ks_mav s) kwargs, ks_last_update := now\<rparr>"

definition update_wifi :: "string \<Rightarrow> string \<Rightarrow> pyfloat \<Rightarrow> pyfloat \<Rightarrow> shared_state \<Rightarrow> shared_state" where
  "update_wifi now iface dbm quality s =
     s\<lparr>ks_wifi_interface := iface, ks_wifi_signal_dbm := dbm, ks_wifi_link_quality := quality,
       ks_last_update := now\<rparr>"

definition update_vslam :: "string \<Rightarrow> fields \<Rightarrow> shared_state \<Rightarrow> shared_state" where
  "update_vslam now kwargs s = s\<lparr>ks_vslam := dict_update (ks_vslam s) kwargs, ks_last_update := now\<rparr>"

definition update_health :: "string \<Rightarrow> fields \<Rightarrow> shared_state \<Rightarrow> shared_state" where
  "update_health now kwargs s = s\<lparr>ks_health := dict_update (ks_health s) kwargs, ks_last_update := now\<rparr>"

definition update_storage :: "string \<Rightarrow> fields \<Rightarrow> shared_state \<Rightarrow> shared_state" where
  "update_storage now kwargs s = s\<lparr>ks_storage := dict_update (ks_storage s) kwargs, ks_last_update := now\<rparr>"

definition update_services :: "string \<Rightarrow> (string, string) dict \<Rightarrow> shared_state \<Rightarrow> shared_state" where
  "update_services now services s =
     s\<lparr>ks_services := dict_update (ks_services s) services, ks_last_update := now\<rparr>"

definition snapshot :: "shared_state \<Rightarrow> (string \<times> pyval) list" where
  "snapshot s =
     [(''mav'', VDict (ks_mav s)),
      (''wifi_interface'', VStr (ks_wifi_interface s)),
      (''wifi_signal_dbm'', VFloat (ks_wifi_signal_dbm s)),
      (''wifi_link_quality'', VFloat (ks_wifi_link_quality s)),
      (''vslam'', VDict (ks_vslam s)),
      (''health'', VDict (ks_health s)),
      (''storage'', VDict (ks_storage s)),
      (''services'', VDict (map (\<lambda>(k, v). (k, VStr v)) (ks_services s))),
      (''last_update'', VStr (ks_last_update s))]"

text \<open>An update with the time it is made, as one step of a thread.\<close>

datatype state_op =
    UpdateMav fields
  | UpdateVslam fields
  | UpdateWifi string pyfloat pyfloat
  | UpdateHealth fields
  | UpdateStorage fields
  | UpdateServices "(string, string) dict"

fun apply_op :: "string \<times> state_op \<Rightarrow> shared_state \<Rightarrow> shared_state" where
  "apply_op (now, UpdateMav kwargs) = update_mav now kwargs"
| "apply_op (now, UpdateVslam kwargs) = update_vslam now kwargs"
| "apply_op (now, UpdateWifi iface dbm quality) = update_wifi now iface dbm quality"
| "apply_op (now, UpdateHealth kwargs) = update_health now kwargs"
| "apply_op (now, UpdateStorage kwargs) = update_storage now kwargs"
| "apply_op (now, UpdateServices services) = update_services now services"

section \<open>The MAVLink reader\<close>

text \<open>
  Received messages with the fields the handlers read; \<open>None\<close> where the message object has no such
  attribute and \<open>getattr\<close> gives its default.
\<close>

datatype kiosk_msg =
    KHeartbeat "int option" "int option" "int option"
  | KVfrHud "pyfloat option" "int option" "int option"
  | KGpsRaw bool "int option" "int option" "int option"
  | KGpsRtk bool "int option" "int option"
  | KNamedValueFloat string pyfloat
  | KStatustext "string option"
  | KOther

definition getattr :: "'a option \<Rightarrow> 'a \<Rightarrow> 'a" where
  "getattr a d = (case a of None \<Rightarrow> d | Some x \<Rightarrow> x)"

definition ROVER_MODES :: "(int, string) dict" where
  "ROVER_MODES =
     [(0, ''MANUAL''), (1, ''ACRO''), (3, ''STEERING''), (4, ''HOLD''), (5, ''LOITER''), (6, ''FOLLOW''),
      (7, ''SIMPLE''), (10, ''AUTO''), (11, ''RTL''), (12, ''SMART_RTL''), (15, ''GUIDED'')]"

definition handle_heartbeat :: "pyfloat \<Rightarrow> int option \<Rightarrow> int option \<Rightarrow> int option \<Rightarrow> state_op" where
  "handle_heartbeat time base_mode custom_mode system_status =
     (let armed = and (getattr base_mode 0) 128 \<noteq> 0;
          mode = getattr custom_mode 0;
          mode_name = dict_get_or ROVER_MODES mode (''MODE_'' @ str_int mode)
      in UpdateMav [(''armed'', VBool armed), (''mode'', VStr mode_name),
           (''system_status'', VInt (getattr system_status 0)), (''last_heartbeat_epoch'', VFloat time)])"

definition handle_vfr_hud :: "pyfloat option \<Rightarrow> int option \<Rightarrow> int option \<Rightarrow> state_op" where
  "handle_vfr_hud groundspeed heading throttle =
     UpdateMav [(''groundspeed_ms'', VFloat (getattr groundspeed (Fin 0))),
       (''heading_deg'', VInt (getattr heading 0)), (''throttle_pct'', VInt (getattr throttle 0))]"

definition gps_hdop :: "int option \<Rightarrow> (pyexc, pyfloat) result" where
  "gps_hdop eph =
     (case eph of
        Some e \<Rightarrow> if e \<noteq> 65535 then bindr (float_of_int e) (\<lambda>x. fdiv x (Fin 100)) else Ok (rnd (9999 / 100))
      | None \<Rightarrow> Ok (rnd (9999 / 100)))"

definition handle_gps_raw ::
  "pyfloat \<Rightarrow> bool \<Rightarrow> int option \<Rightarrow> int option \<Rightarrow> int option \<Rightarrow> (pyexc, state_op) result" where
  "handle_gps_raw time is_gps1 fix_type sats eph =
     bindr (gps_hdop eph) (\<lambda>hdop.
       let fix_v = VInt (getattr fix_type 0); sats_v = VInt (getattr sats 0)
       in Ok (if is_gps1
              then UpdateMav [(''gps1_fix'', fix_v), (''gps1_sats'', sats_v), (''gps1_hdop'', VFloat hdop),
                     (''last_gps_epoch'', VFloat time)]
              else UpdateMav [(''gps2_fix'', fix_v), (''gps2_sats'', sats_v), (''gps2_hdop'', VFloat hdop),
                     (''last_gps_epoch'', VFloat time)]))"

definition handle_gps_rtk :: "bool \<Rightarrow> int option \<Rightarrow> int option \<Rightarrow> state_op" where
  "handle_gps_rtk is_rtk1 baseline iar =
     (let b = VInt (getattr baseline 0); i = VInt (getattr iar 0)
      in if is_rtk1 then UpdateMav [(''rtk1_baseline_mm'', b), (''rtk1_iar'', i)]
         else UpdateMav [(''rtk2_baseline_mm'', b), (''rtk2_iar'', i)])"

definition VSLAM_METRIC_NAMES :: "(string, string) dict" where
  "VSLAM_METRIC_NAMES = [(''VSLAM_HZ'', ''rate_hz''), (''VSLAM_CONF'', ''confidence''),
     (''VSLAM_AGE'', ''age_ms''), (''VSLAM_COV'', ''covariance_norm'')]"

text \<open>A name of bytes and a name of text lose their trailing NULs alike.\<close>

definition handle_named_value_float :: "string \<Rightarrow> pyfloat \<Rightarrow> state_op list" where
  "handle_named_value_float name v =
     (case dict_get VSLAM_METRIC_NAMES (rstrip_char (CHR 0x00) name) of
        None \<Rightarrow> []
      | Some key \<Rightarrow> [UpdateVslam [(key, VFloat v)]])"

definition handle_statustext :: "string option \<Rightarrow> state_op list" where
  "handle_statustext text_field =
     (let t = getattr text_field [] in if t \<noteq> [] then [UpdateMav [(''last_statustext'', VStr t)]] else [])"

fun handle_message :: "pyfloat \<Rightarrow> kiosk_msg \<Rightarrow> (pyexc, state_op list) result" where
  "handle_message time (KHeartbeat bm cm ss) = Ok [handle_heartbeat time bm cm ss]"
| "handle_message time (KVfrHud gs hg th) = Ok [handle_vfr_hud gs hg th]"
| "handle_message time (KGpsRaw one fx sv eph) = bindr (handle_gps_raw time one fx sv eph) (\<lambda>c. Ok [c])"
| "handle_message time (KGpsRtk one b i) = Ok [handle_gps_rtk one b i]"
| "handle_message time (KNamedValueFloat name v) = Ok (handle_named_value_float name v)"
| "handle_message time (KStatustext t) = Ok (handle_statustext t)"
| "handle_message time KOther = Ok []"

text \<open>
  A reception before shutdown: the wall clock, its ISO form, and a message unless half a second
  passed without one. The updates the loop makes, and the exception that ends the thread.
\<close>

type_synonym kiosk_rx = "pyfloat \<times> string \<times> kiosk_msg option"

fun receive_loop :: "kiosk_rx list \<Rightarrow> (string \<times> state_op) list \<times> pyexc option" where
  "receive_loop [] = ([], None)"
| "receive_loop ((time, stamp, None) # rxs) = receive_loop rxs"
| "receive_loop ((time, stamp, Some m) # rxs) =
     (case handle_message time m of
        Inl e \<Rightarrow> ([], Some e)
      | Inr ops \<Rightarrow> (case receive_loop rxs of (rest, e) \<Rightarrow> (map (Pair stamp) ops @ rest, e)))"

text \<open>The waits for a first heartbeat before shutdown, \<open>True\<close> for one that sees it.\<close>

fun mavlink_reader_loop :: "bool list \<Rightarrow> kiosk_rx list \<Rightarrow> (string \<times> state_op) list \<times> pyexc option" where
  "mavlink_reader_loop [] rxs = ([], None)"
| "mavlink_reader_loop (True # hbs) rxs = receive_loop rxs"
| "mavlink_reader_loop (False # hbs) rxs = mavlink_reader_loop hbs rxs"

section \<open>The slow poller\<close>

definition unit_display_key :: "string \<Rightarrow> string" where
  "unit_display_key unit =
     (let name = (if is_prefix ''mower-'' unit then drop (length ''mower-'') unit else unit);
          name = (if is_suffix ''.service'' name then take (length name - length ''.service'') name else name)
      in replace_char (CHR ''-'') (CHR ''_'') name)"

text \<open>\<open>systemctl is-active\<close>: its output, or \<open>None\<close> where it cannot be run or takes too long.\<close>

type_synonym is_active = "string \<Rightarrow> string option"

definition service_state :: "is_active \<Rightarrow> string \<Rightarrow> string" where
  "service_state active unit =
     (case active unit of
        None \<Rightarrow> ''unknown''
      | Some out \<Rightarrow> if py_strip out = [] then ''unknown'' else py_strip out)"

fun check_units :: "is_active \<Rightarrow> string list \<Rightarrow> (string, string) dict \<Rightarrow> (string, string) dict" where
  "check_units active [] result = result"
| "check_units active (unit # units) result =
     check_units active units (dict_set (unit_display_key unit) (service_state active unit) result)"

definition check_services :: "is_active \<Rightarrow> string list option \<Rightarrow> (string, string) dict" where
  "check_services active units =
     check_units active (case units of None \<Rightarrow> service_check_units default_kiosk | Some us \<Rightarrow> us) []"

text \<open>The hottest zone with a name; zones below zero leave the initial \<open>0.0\<close>.\<close>

fun hottest :: "string \<Rightarrow> pyfloat \<Rightarrow> thermal_zone list \<Rightarrow> pyfloat" where
  "hottest name t [] = t"
| "hottest name t (z # zs) =
     hottest name (if str_contains name (py_lower (tz_name z)) \<and> flt t (tz_temp_c z) then tz_temp_c z else t) zs"

definition used_pct :: "disk_usage \<Rightarrow> (pyexc, pyfloat) result" where
  "used_pct d = bindr (fdiv (du_used_gb d) (du_total_gb d)) (\<lambda>q. Ok (fmul q (Fin 100)))"

text \<open>\<open>nvme_pct\<close>, \<open>nvme_free_gb\<close> and \<open>root_pct\<close>.\<close>

fun scan_disks :: "pyfloat \<times> string \<times> pyfloat \<Rightarrow> disk_usage list \<Rightarrow> (pyexc, pyfloat \<times> string \<times> pyfloat) result" where
  "scan_disks acc [] = Ok acc"
| "scan_disks (nvme_pct, nvme_free, root_pct) (d # ds) =
     bindr (if du_is_nvme d \<and> flt (Fin 0) (du_total_gb d) then used_pct d else Ok nvme_pct) (\<lambda>n.
     bindr (if du_mount_point d = ''/'' \<and> flt (Fin 0) (du_total_gb d) then used_pct d else Ok root_pct) (\<lambda>r.
     scan_disks (n, if du_is_nvme d then fixed 1 (du_free_gb d) @ '' GB'' else nvme_free, r) ds))"

text \<open>What a cycle reads: the results of the four readers, \<open>systemctl\<close>, and the time of each update.\<close>

record poll_env =
  pe_thermal :: "(pyexc, thermal_snapshot) result"
  pe_power :: "(pyexc, power_state) result"
  pe_disks :: "(pyexc, disk_usage list) result"
  pe_wifi :: "(pyexc, wifi_status option) result"
  pe_active :: is_active
  pe_now :: "nat \<Rightarrow> string"

definition str_or_dashes :: "string option \<Rightarrow> string" where
  "str_or_dashes s = (case s of None \<Rightarrow> ''--'' | Some t \<Rightarrow> if t = [] then ''--'' else t)"

definition poll_updates ::
  "poll_env \<Rightarrow> string list option \<Rightarrow> thermal_snapshot \<Rightarrow> power_state \<Rightarrow> pyfloat \<times> string \<times> pyfloat
     \<Rightarrow> (string \<times> state_op) list" where
  "poll_updates E units thermal pw disk =
     (case disk of (nvme_pct, nvme_free, root_pct) \<Rightarrow>
       [(pe_now E 1, UpdateHealth
          [(''cpu_temp_c'', VFloat (fround 1 (hottest ''cpu'' (Fin 0) (ts_zones thermal)))),
           (''gpu_temp_c'', VFloat (fround 1 (hottest ''gpu'' (Fin 0) (ts_zones thermal)))),
           (''power_mode'', VStr (str_or_dashes (pw_mode_name pw))),
           (''fan_status'', VStr (str_or_dashes (pw_fan_profile pw)))]),
        (pe_now E 2, UpdateStorage
          [(''nvme_pct'', VFloat (fround 1 nvme_pct)), (''nvme_free_gb'', VStr nvme_free),
           (''root_pct'', VFloat (fround 1 root_pct))]),
        (pe_now E 3, UpdateServices (check_services (pe_active E) units))])"

text \<open>The updates of a cycle and the exception that ends it, which the thread logs.\<close>

definition poll_health :: "poll_env \<Rightarrow> string list option \<Rightarrow> (string \<times> state_op) list \<times> pyexc option" where
  "poll_health E units =
     (case bindr (pe_thermal E) (\<lambda>thermal. bindr (pe_power E) (\<lambda>pw. bindr (pe_disks E) (\<lambda>disks.
            bindr (scan_disks (Fin 0, ''--'', Fin 0) disks) (\<lambda>disk.
            bindr (pe_wifi E) (\<lambda>wifi. Ok (thermal, pw, disk, wifi)))))) of
        Inl e \<Rightarrow> ([], Some e)
      | Inr (thermal, pw, disk, wifi) \<Rightarrow>
          ((case wifi of
              None \<Rightarrow> []
            | Some w \<Rightarrow> [(pe_now E 0, UpdateWifi (wf_interface w) (wf_signal_dbm w) (wf_link_quality w))])
           @ poll_updates E units thermal pw disk, None))"

text \<open>The cycles before shutdown: one that fails does not end the thread.\<close>

definition slow_poller :: "string list option \<Rightarrow> poll_env list \<Rightarrow> (string \<times> state_op) list" where
  "slow_poller units cycles = concat (map (\<lambda>E. fst (poll_health E units)) cycles)"

section \<open>The server\<close>

definition should_notify_watchdog :: "pyfloat \<Rightarrow> pyfloat \<Rightarrow> pyfloat \<Rightarrow> bool" where
  "should_notify_watchdog last_hb now staleness_s =
     (if feq last_hb (Fin 0) then True else flt (fsub now last_hb) staleness_s)"

text \<open>\<open>json.dumps\<close> with separators \<open>(",", ":")\<close> and ASCII output; the text of a float is an argument.\<close>

definition json_escape :: "char \<Rightarrow> string" where
  "json_escape c =
     (if c = CHR 0x22 then [CHR 0x5C, CHR 0x22]
      else if c = CHR 0x5C then [CHR 0x5C, CHR 0x5C]
      else if c = CHR 0x0A then [CHR 0x5C, CHR ''n'']
      else if c = CHR 0x0D then [CHR 0x5C, CHR ''r'']
      else if c = CHR 0x09 then [CHR 0x5C, CHR ''t'']
      else if c = CHR 0x08 then [CHR 0x5C, CHR ''b'']
      else if c = CHR 0x0C then [CHR 0x5C, CHR ''f'']
      else if CHR 0x20 \<le> c \<and> c \<le> CHR 0x7E then [c]
      else [CHR 0x5C, CHR ''u'', CHR ''0'', CHR ''0'', hex_digit (of_char c div 16), hex_digit (of_char c mod 16)])"

definition json_string :: "string \<Rightarrow> string" where
  "json_string s = [CHR 0x22] @ concat (map json_escape s) @ [CHR 0x22]"

fun json_dumps :: "(pyfloat \<Rightarrow> string) \<Rightarrow> pyval \<Rightarrow> string" where
  "json_dumps fr VNone = ''null''"
| "json_dumps fr (VBool b) = (if b then ''true'' else ''false'')"
| "json_dumps fr (VInt n) = str_int n"
| "json_dumps fr (VFloat x) = fr x"
| "json_dumps fr (VStr s) = json_string s"
| "json_dumps fr (VList xs) = ''['' @ join_with '','' (map (json_dumps fr) xs) @ '']''"
| "json_dumps fr (VDict d) =
     ''{'' @ join_with '','' (map (\<lambda>(k, v). json_string k @ '':'' @ json_dumps fr v) d) @ ''}''"

text \<open>The length as \<open>struct.pack("<I", ...)\<close>, which refuses one that does not fit, then the payload.\<close>

definition encode_ascii :: "string \<Rightarrow> byte list" where
  "encode_ascii s = map (\<lambda>c. word_of_nat (of_char c)) s"

definition kiosk_frame :: "string \<Rightarrow> byte list option" where
  "kiosk_frame payload =
     (if length payload < 2 ^ 32 then Some (le_bytes 4 (length payload) @ encode_ascii payload) else None)"

datatype accept_outcome = AcceptOk | AcceptTimeout | AcceptError

text \<open>
  A pass of the loop before shutdown: the updates the other threads make before its snapshot, the
  wall clock, and what the socket does.
\<close>

record kiosk_pass =
  kp_ops :: "(string \<times> state_op) list"
  kp_now :: pyfloat
  kp_accept :: accept_outcome
  kp_send_ok :: bool

datatype kiosk_event =
    NotifyReady
  | NotifyWatchdog
  | WatchdogSuppressed
  | WatchdogResumed
  | ClientConnected
  | ClientLost
  | Frame "byte list"
  | NotifyStopping
  | ClientClosed
  | SocketClosed

datatype kiosk_end = KioskExited | KioskOSError | KioskStructError | KioskUnbound

record kiosk_vars =
  kv_state :: shared_state
  kv_client :: bool
  kv_suppressed :: bool

definition last_heartbeat_epoch :: "shared_state \<Rightarrow> pyfloat" where
  "last_heartbeat_epoch s =
     (case dict_get (ks_mav s) ''last_heartbeat_epoch'' of Some (VFloat x) \<Rightarrow> x | _ \<Rightarrow> Fin 0)"

definition watchdog_pass :: "pyfloat \<Rightarrow> pyfloat \<Rightarrow> kiosk_vars \<Rightarrow> kiosk_event list \<times> kiosk_vars" where
  "watchdog_pass staleness_s now v =
     (if should_notify_watchdog (last_heartbeat_epoch (kv_state v)) now staleness_s
      then ((if kv_suppressed v then [WatchdogResumed] else []) @ [NotifyWatchdog], v\<lparr>kv_suppressed := False\<rparr>)
      else ((if kv_suppressed v then [] else [WatchdogSuppressed]), v\<lparr>kv_suppressed := True\<rparr>))"

text \<open>Accepting a client and sending it a frame: the events, the variables, and an exception.\<close>

definition push_pass ::
  "(pyfloat \<Rightarrow> string) \<Rightarrow> kiosk_pass \<Rightarrow> kiosk_vars \<Rightarrow> kiosk_event list \<times> kiosk_vars \<times> kiosk_end option" where
  "push_pass fr p v =
     (if \<not> kv_client v \<and> kp_accept p = AcceptTimeout then ([], v, None)
      else if \<not> kv_client v \<and> kp_accept p = AcceptError then ([], v, Some KioskOSError)
      else
        let connected = (if kv_client v then [] else [ClientConnected]);
            v = v\<lparr>kv_client := True\<rparr>
        in case kiosk_frame (json_dumps fr (VDict (snapshot (kv_state v)))) of
             None \<Rightarrow> (connected, v, Some KioskStructError)
           | Some bs \<Rightarrow>
               if kp_send_ok p then (connected @ [Frame bs], v, None)
               else (connected @ [ClientLost], v\<lparr>kv_client := False\<rparr>, None))"

definition kiosk_step ::
  "(pyfloat \<Rightarrow> string) \<Rightarrow> pyfloat \<Rightarrow> kiosk_vars \<Rightarrow> kiosk_pass \<Rightarrow> kiosk_event list \<times> kiosk_vars \<times> kiosk_end option" where
  "kiosk_step fr staleness_s v p =
     (case watchdog_pass staleness_s (kp_now p) (v\<lparr>kv_state := fold apply_op (kp_ops p) (kv_state v)\<rparr>) of
        (evs, v') \<Rightarrow> (case push_pass fr p v' of (evs', v'', e) \<Rightarrow> (evs @ evs', v'', e)))"

fun kiosk_loop ::
  "(pyfloat \<Rightarrow> string) \<Rightarrow> pyfloat \<Rightarrow> kiosk_vars \<Rightarrow> kiosk_pass list \<Rightarrow> kiosk_event list \<times> kiosk_vars \<times> kiosk_end" where
  "kiosk_loop fr staleness_s v [] = ([], v, KioskExited)"
| "kiosk_loop fr staleness_s v (p # ps) =
     (case kiosk_step fr staleness_s v p of
        (evs, v', Some e) \<Rightarrow> (evs, v', e)
      | (evs, v', None) \<Rightarrow> (case kiosk_loop fr staleness_s v' ps of (evs', r) \<Rightarrow> (evs @ evs', r)))"

text \<open>
  The server from the threads' start on. Where \<open>bind\<close> or \<open>listen\<close> raises, the name \<open>client\<close> that the
  \<open>finally\<close> clause reads has not been assigned.
\<close>

definition run_kiosk ::
  "(pyfloat \<Rightarrow> string) \<Rightarrow> pyfloat \<Rightarrow> bool \<Rightarrow> shared_state \<Rightarrow> kiosk_pass list \<Rightarrow> kiosk_event list \<times> kiosk_end" where
  "run_kiosk fr staleness_s bind_ok s ps =
     (if \<not> bind_ok then ([NotifyStopping], KioskUnbound)
      else case kiosk_loop fr staleness_s \<lparr>kv_state = s, kv_client = False, kv_suppressed = False\<rparr> ps of
             (evs, v, e) \<Rightarrow>
               ([NotifyReady] @ evs @ [NotifyStopping] @ (if kv_client v then [ClientClosed] else []) @ [SocketClosed], e))"

section \<open>Concurrent writers\<close>

text \<open>
  Two threads that share a state and write disjoint parts of it: the contract under which every
  interleaving of their steps shows, in each part, a prefix of one thread's work.
\<close>

locale disjoint_writers =
  fixes step :: "'op \<Rightarrow> 's \<Rightarrow> 's" and mine :: "'op \<Rightarrow> bool" and view1 :: "'s \<Rightarrow> 'a" and view2 :: "'s \<Rightarrow> 'b"
  assumes other1: "\<not> mine c \<Longrightarrow> view1 (step c s) = view1 s"
    and other2: "mine c \<Longrightarrow> view2 (step c s) = view2 s"
    and local1: "view1 s = view1 t \<Longrightarrow> view1 (step c s) = view1 (step c t)"
    and local2: "view2 s = view2 t \<Longrightarrow> view2 (step c s) = view2 (step c t)"
begin

lemma fold_local1: "view1 s = view1 t \<Longrightarrow> view1 (fold step cs s) = view1 (fold step cs t)"
proof (induction cs arbitrary: s t)
  case (Cons c cs)
  show ?case using Cons.IH [OF local1 [OF Cons.prems]] by simp
qed simp

lemma fold_local2: "view2 s = view2 t \<Longrightarrow> view2 (fold step cs s) = view2 (fold step cs t)"
proof (induction cs arbitrary: s t)
  case (Cons c cs)
  show ?case using Cons.IH [OF local2 [OF Cons.prems]] by simp
qed simp

lemma interleaving:
  "zs \<in> shuffles xs ys \<Longrightarrow> list_all mine xs \<Longrightarrow> list_all (\<lambda>c. \<not> mine c) ys \<Longrightarrow>
     view1 (fold step zs s) = view1 (fold step xs s) \<and> view2 (fold step zs s) = view2 (fold step ys s)"
proof (induction zs arbitrary: xs ys s)
  case Nil
  then show ?case by simp
next
  case (Cons z zs)
  from Cons.prems(1) consider xs' where "xs = z # xs'" "zs \<in> shuffles xs' ys"
    | ys' where "ys = z # ys'" "zs \<in> shuffles xs ys'"
    by (auto simp: Cons_in_shuffles_iff neq_Nil_conv)
  then show ?case
  proof cases
    case 1
    with Cons.prems have "view2 (fold step ys (step z s)) = view2 (fold step ys s)"
      by (intro fold_local2 other2) simp
    with Cons.IH [OF 1(2), of "step z s"] 1 Cons.prems show ?thesis by simp
  next
    case 2
    with Cons.prems have "view1 (fold step xs (step z s)) = view1 (fold step xs s)"
      by (intro fold_local1 other1) simp
    with Cons.IH [OF 2(2), of "step z s"] 2 Cons.prems show ?thesis by simp
  qed
qed

end

lemma take_shuffles:
  "zs \<in> shuffles xs ys \<Longrightarrow> \<exists>i j. i + j = min n (length zs) \<and> take n zs \<in> shuffles (take i xs) (take j ys)"
proof (induction zs arbitrary: xs ys n)
  case Nil
  then show ?case by (auto intro!: exI [of _ 0])
next
  case (Cons z zs)
  show ?case
  proof (cases n)
    case 0
    then show ?thesis by (auto intro!: exI [of _ 0])
  next
    case (Suc m)
    from Cons.prems consider xs' where "xs = z # xs'" "zs \<in> shuffles xs' ys"
      | ys' where "ys = z # ys'" "zs \<in> shuffles xs ys'"
      by (auto simp: Cons_in_shuffles_iff neq_Nil_conv)
    then show ?thesis
    proof cases
      case 1
      from Cons.IH [OF 1(2), of m] obtain i j where "i + j = min m (length zs)"
        "take m zs \<in> shuffles (take i xs') (take j ys)" by blast
      with 1 Suc show ?thesis
        by (intro exI [of _ "Suc i"] exI [of _ j]) (simp add: Cons_in_shuffles_leftI)
    next
      case 2
      from Cons.IH [OF 2(2), of m] obtain i j where "i + j = min m (length zs)"
        "take m zs \<in> shuffles (take i xs) (take j ys')" by blast
      with 2 Suc show ?thesis
        by (intro exI [of _ i] exI [of _ "Suc j"]) (simp add: Cons_in_shuffles_rightI)
    qed
  qed
qed

fun by_reader :: "state_op \<Rightarrow> bool" where
  "by_reader (UpdateMav kwargs) = True"
| "by_reader (UpdateVslam kwargs) = True"
| "by_reader c = False"

text \<open>The panels of the display that the reader feeds, and those that the poller feeds.\<close>

definition reader_panels :: "(string \<times> pyval) list \<Rightarrow> pyval option list" where
  "reader_panels snap = map (dict_get snap) [''mav'', ''vslam'']"

definition poller_panels :: "(string \<times> pyval) list \<Rightarrow> pyval option list" where
  "poller_panels snap = map (dict_get snap)
     [''wifi_interface'', ''wifi_signal_dbm'', ''wifi_link_quality'', ''health'', ''storage'', ''services'']"

lemmas state_op_defs = update_mav_def update_wifi_def update_vslam_def update_health_def
  update_storage_def update_services_def

lemma reader_panels_snapshot: "reader_panels (snapshot s) = [Some (VDict (ks_mav s)), Some (VDict (ks_vslam s))]"
  by (simp add: reader_panels_def snapshot_def dict_get_def)

lemma poller_panels_snapshot:
  "poller_panels (snapshot s) =
     [Some (VStr (ks_wifi_interface s)), Some (VFloat (ks_wifi_signal_dbm s)),
      Some (VFloat (ks_wifi_link_quality s)), Some (VDict (ks_health s)), Some (VDict (ks_storage s)),
      Some (VDict (map (\<lambda>(k, v). (k, VStr v)) (ks_services s)))]"
  by (simp add: poller_panels_def snapshot_def dict_get_def)

lemma services_inj: "map (\<lambda>(k, v). (k, VStr v)) d = map (\<lambda>(k, v). (k, VStr v)) e \<longleftrightarrow> d = e"
  by (auto intro!: injI dest: map_inj_on [rotated] simp: inj_def inj_on_def)

interpretation kiosk_writers: disjoint_writers apply_op "\<lambda>c. by_reader (snd c)"
  "\<lambda>s. reader_panels (snapshot s)" "\<lambda>s. poller_panels (snapshot s)"
proof unfold_locales
  fix c :: "string \<times> state_op" and s t
  obtain now u where c: "c = (now, u)" by (cases c)
  show "\<not> by_reader (snd c) \<Longrightarrow> reader_panels (snapshot (apply_op c s)) = reader_panels (snapshot s)"
    by (cases u) (simp_all add: c reader_panels_snapshot state_op_defs)
  show "by_reader (snd c) \<Longrightarrow> poller_panels (snapshot (apply_op c s)) = poller_panels (snapshot s)"
    by (cases u) (simp_all add: c poller_panels_snapshot state_op_defs)
  show "reader_panels (snapshot s) = reader_panels (snapshot t) \<Longrightarrow>
      reader_panels (snapshot (apply_op c s)) = reader_panels (snapshot (apply_op c t))"
    by (cases u) (simp_all add: c reader_panels_snapshot state_op_defs)
  show "poller_panels (snapshot s) = poller_panels (snapshot t) \<Longrightarrow>
      poller_panels (snapshot (apply_op c s)) = poller_panels (snapshot (apply_op c t))"
    by (cases u) (simp_all add: c poller_panels_snapshot state_op_defs services_inj)
qed

lemma handle_message_by_reader: "handle_message time m = Ok ops \<Longrightarrow> list_all by_reader ops"
  by (cases m) (auto simp: result_simps handle_heartbeat_def handle_vfr_hud_def handle_gps_raw_def
    handle_gps_rtk_def handle_named_value_float_def handle_statustext_def Let_def split: option.splits if_splits)

lemma receive_loop_by_reader: "list_all (\<lambda>c. by_reader (snd c)) (fst (receive_loop rxs))"
  by (induction rxs rule: receive_loop.induct)
    (fastforce simp: list_all_iff split: prod.splits sum.splits dest: handle_message_by_reader)+

lemma reader_by_reader: "list_all (\<lambda>c. by_reader (snd c)) (fst (mavlink_reader_loop hbs rxs))"
  by (induction hbs rxs rule: mavlink_reader_loop.induct) (simp_all add: receive_loop_by_reader)

lemma poller_by_poller: "list_all (\<lambda>c. \<not> by_reader (snd c)) (slow_poller units cycles)"
  by (auto simp: slow_poller_def list_all_iff poll_health_def poll_updates_def split: sum.splits prod.splits option.splits)

lemma set_known_keys: "map fst (set_known d kwargs) = map fst d"
proof (induction d kwargs rule: set_known.induct)
  case (2 mav k v kwargs)
  have "map fst (dict_set k v mav) = map fst mav" if "dict_has mav k"
    using that by (induction mav) (auto simp: dict_has_def dict_keys_def)
  with 2 show ?case by simp
qed simp

lemma mav_keys: "map fst (ks_mav (fold apply_op ops s)) = map fst (ks_mav s)"
proof (induction ops arbitrary: s)
  case (Cons c ops)
  obtain now u where "c = (now, u)" by (cases c)
  with Cons show ?case by (cases u) (simp_all add: state_op_defs set_known_keys)
qed simp

lemma last_update: "ks_last_update (fold apply_op ops s) = (if ops = [] then ks_last_update s else fst (last ops))"
proof (induction ops arbitrary: s)
  case (Cons c ops)
  obtain now u where "c = (now, u)" by (cases c)
  with Cons show ?case by (cases u) (simp_all add: state_op_defs)
qed simp

text \<open>
  C38: However the threads interleave, a snapshot taken after any number of their updates shows, in
  the MAVLink and VSLAM panels, exactly what the reader's first \<open>i\<close> updates make of them, and in all
  other panels what the poller's first \<open>j\<close> updates make of them, where \<open>i + j\<close> is the number of
  updates made; its time stamp is that of the last update, and its telemetry has the attributes of
  the dataclass, no more and no fewer.
\<close>
theorem kiosk_snapshots_consistent:
  assumes "zs \<in> shuffles (fst (mavlink_reader_loop hbs rxs)) (slow_poller units cycles)" and "n \<le> length zs"
  shows "\<exists>i j. i + j = n \<and>
    reader_panels (snapshot (fold apply_op (take n zs) s)) =
      reader_panels (snapshot (fold apply_op (take i (fst (mavlink_reader_loop hbs rxs))) s)) \<and>
    poller_panels (snapshot (fold apply_op (take n zs) s)) =
      poller_panels (snapshot (fold apply_op (take j (slow_poller units cycles)) s)) \<and>
    ks_last_update (fold apply_op (take n zs) s) = (if n = 0 then ks_last_update s else fst (zs ! (n - 1))) \<and>
    map fst (ks_mav (fold apply_op (take n zs) s)) = map fst (ks_mav s)"
proof -
  obtain i j where "i + j = n" and sh:
    "take n zs \<in> shuffles (take i (fst (mavlink_reader_loop hbs rxs))) (take j (slow_poller units cycles))"
    using take_shuffles [OF assms(1), of n] assms(2) by (auto simp: min_absorb1)
  moreover have "list_all (\<lambda>c. by_reader (snd c)) (take i (fst (mavlink_reader_loop hbs rxs)))"
    "list_all (\<lambda>c. \<not> by_reader (snd c)) (take j (slow_poller units cycles))"
    using reader_by_reader [of hbs rxs] poller_by_poller [of units cycles]
    by (auto simp: list_all_iff dest: in_set_takeD)
  from kiosk_writers.interleaving [OF sh this, of s] show ?thesis
    using \<open>i + j = n\<close> assms(2)
    by (intro exI [of _ i] exI [of _ j]) (auto simp: mav_keys last_update last_conv_nth take_eq_Nil)
qed

section \<open>The watchdog\<close>

text \<open>The heartbeat times that updates carry, oldest first.\<close>

definition beats_of :: "state_op \<Rightarrow> pyval list" where
  "beats_of u =
     (case u of UpdateMav kwargs \<Rightarrow> map snd (filter (\<lambda>(k, v). k = ''last_heartbeat_epoch'') kwargs) | _ \<Rightarrow> [])"

definition beats :: "(string \<times> state_op) list \<Rightarrow> pyval list" where
  "beats ops = concat (map (beats_of \<circ> snd) ops)"

lemma beats_simps [simp]:
  "beats [] = []" "beats (c # ops) = beats_of (snd c) @ beats ops" "beats (ops @ ops') = beats ops @ beats ops'"
  by (simp_all add: beats_def)

text \<open>
  Whether the last heartbeat of \<open>hs\<close>, if there was one, is younger than the limit.
\<close>

definition fresh_by :: "pyfloat \<Rightarrow> pyval list \<Rightarrow> pyfloat \<Rightarrow> bool" where
  "fresh_by staleness_s hs now \<longleftrightarrow>
     hs = [] \<or> (case last hs of VFloat h \<Rightarrow> flt (fsub now h) staleness_s | _ \<Rightarrow> False)"

definition fresh_at :: "pyfloat \<Rightarrow> kiosk_pass list \<Rightarrow> nat \<Rightarrow> bool" where
  "fresh_at staleness_s ps i =
     fresh_by staleness_s (beats (concat (map kp_ops (take (Suc i) ps)))) (kp_now (ps ! i))"

text \<open>What the watchdog is to do in a pass, given whether the heartbeat is fresh, and was before.\<close>

definition watchdog_duty :: "bool \<Rightarrow> bool \<Rightarrow> kiosk_event list" where
  "watchdog_duty before fresh =
     (if fresh then (if before then [] else [WatchdogResumed]) @ [NotifyWatchdog]
      else if before then [WatchdogSuppressed] else [])"

fun is_watchdog :: "kiosk_event \<Rightarrow> bool" where
  "is_watchdog NotifyWatchdog = True"
| "is_watchdog WatchdogSuppressed = True"
| "is_watchdog WatchdogResumed = True"
| "is_watchdog e = False"

lemma set_known_beats:
  "dict_has d k \<Longrightarrow> dict_get (set_known d kwargs) k =
     (let vs = map snd (filter (\<lambda>(k', v). k' = k) kwargs) in if vs = [] then dict_get d k else Some (last vs))"
proof (induction d kwargs rule: set_known.induct)
  case (2 d k' v kwargs)
  have "dict_has (if dict_has d k' then dict_set k' v d else d) k"
    using 2(2) set_known_keys [of d "[(k', v)]"] by (auto simp: dict_has_def dict_keys_def)
  from 2(1) [OF this] 2(2) show ?case by (auto simp: Let_def dict_get_set)
qed simp

lemma set_known_has: "dict_has (set_known d kwargs) k = dict_has d k"
  using set_known_keys [of d kwargs] unfolding dict_has_iff by (metis list.set_map)

text \<open>The invariant of the run: what the server's check reads of the shared state is the last heartbeat.\<close>

definition beat_known :: "pyval list \<Rightarrow> shared_state \<Rightarrow> bool" where
  "beat_known hs s \<longleftrightarrow> dict_has (ks_mav s) ''last_heartbeat_epoch''
     \<and> dict_get (ks_mav s) ''last_heartbeat_epoch'' = Some (if hs = [] then VFloat (Fin 0) else last hs)"

lemma beat_known_new: "beat_known [] new_shared_state"
  by (simp add: beat_known_def new_shared_state_def mav_telemetry_def dict_has_def dict_keys_def dict_get_def)

lemma beat_known_op: "beat_known hs s \<Longrightarrow> beat_known (hs @ beats_of u) (apply_op (now, u) s)"
proof (cases u)
  case (UpdateMav kwargs)
  assume s: "beat_known hs s"
  then have "dict_has (set_known (ks_mav s) kwargs) ''last_heartbeat_epoch''"
    by (simp add: beat_known_def set_known_has)
  with s set_known_beats [of "ks_mav s" "''last_heartbeat_epoch''" kwargs] UpdateMav show ?thesis
    by (auto simp: beat_known_def beats_of_def update_mav_def Let_def last_append split: if_splits)
qed (simp_all add: beat_known_def beats_of_def state_op_defs)

lemma beat_known_fold: "beat_known hs s \<Longrightarrow> beat_known (hs @ beats ops) (fold apply_op ops s)"
proof (induction ops arbitrary: hs s)
  case (Cons c ops)
  obtain now u where "c = (now, u)" by (cases c)
  with Cons.IH [OF beat_known_op [OF Cons.prems, of u now]] show ?case by simp
qed simp

text \<open>A time of a heartbeat that the server can tell from the initial \<open>0.0\<close>.\<close>

definition proper_beat :: "pyval \<Rightarrow> bool" where
  "proper_beat v = (case v of VFloat h \<Rightarrow> \<not> feq h (Fin 0) | _ \<Rightarrow> False)"

lemma notify_fresh:
  assumes "beat_known hs s" and "\<forall>h \<in> set hs. proper_beat h"
  shows "should_notify_watchdog (last_heartbeat_epoch s) now staleness_s = fresh_by staleness_s hs now"
proof (cases "hs = []")
  case True
  then show ?thesis using assms(1)
    by (simp add: beat_known_def last_heartbeat_epoch_def should_notify_watchdog_def fresh_by_def feq_def)
next
  case False
  then have "proper_beat (last hs)" using assms(2) by simp
  with False assms(1) show ?thesis
    by (auto simp: beat_known_def last_heartbeat_epoch_def should_notify_watchdog_def fresh_by_def proper_beat_def
      split: pyval.splits)
qed

lemma push_pass_vars: "push_pass fr p v = (evs, v', e) \<Longrightarrow>
   kv_state v' = kv_state v \<and> kv_suppressed v' = kv_suppressed v \<and> filter is_watchdog evs = []"
  by (auto simp: push_pass_def Let_def split: if_splits option.splits)

lemma kiosk_step_duty:
  assumes "beat_known hs (kv_state v)" and "\<forall>h \<in> set (hs @ beats (kp_ops p)). proper_beat h"
    and "kiosk_step fr staleness_s v p = (evs, v', e)"
  defines "fresh \<equiv> fresh_by staleness_s (hs @ beats (kp_ops p)) (kp_now p)"
  shows "filter is_watchdog evs = watchdog_duty (\<not> kv_suppressed v) fresh"
    and "beat_known (hs @ beats (kp_ops p)) (kv_state v')" and "kv_suppressed v' = (\<not> fresh)"
proof -
  let ?v = "v\<lparr>kv_state := fold apply_op (kp_ops p) (kv_state v)\<rparr>"
  have known: "beat_known (hs @ beats (kp_ops p)) (kv_state ?v)" using beat_known_fold [OF assms(1)] by simp
  note note_1 = notify_fresh [OF known assms(2), of "kp_now p" staleness_s]
  obtain es1 v1 where w: "watchdog_pass staleness_s (kp_now p) ?v = (es1, v1)" by fastforce
  with assms(3) obtain es where es: "evs = es1 @ es" "push_pass fr p v1 = (es, v', e)"
    by (auto simp: kiosk_step_def split: prod.splits)
  have "filter is_watchdog es1 = watchdog_duty (\<not> kv_suppressed v) fresh" "kv_state v1 = kv_state ?v"
    "kv_suppressed v1 = (\<not> fresh)"
    using w note_1 by (auto simp: watchdog_pass_def watchdog_duty_def fresh_def split: if_splits)
  with known push_pass_vars [OF es(2)] es(1)
  show "filter is_watchdog evs = watchdog_duty (\<not> kv_suppressed v) fresh"
    "beat_known (hs @ beats (kp_ops p)) (kv_state v')" "kv_suppressed v' = (\<not> fresh)" by simp_all
qed

text \<open>The watchdog's part of the events of some passes, given the heartbeats before them.\<close>

fun duties :: "pyfloat \<Rightarrow> pyval list \<Rightarrow> bool \<Rightarrow> kiosk_pass list \<Rightarrow> kiosk_event list" where
  "duties staleness_s hs before [] = []"
| "duties staleness_s hs before (p # ps) =
     (let hs' = hs @ beats (kp_ops p); fresh = fresh_by staleness_s hs' (kp_now p)
      in watchdog_duty before fresh @ duties staleness_s hs' fresh ps)"

lemma kiosk_loop_duties:
  "\<lbrakk>beat_known hs (kv_state v); \<forall>h \<in> set (hs @ beats (concat (map kp_ops ps))). proper_beat h;
    kiosk_loop fr staleness_s v ps = (evs, v', e)\<rbrakk> \<Longrightarrow>
   \<exists>k \<le> length ps. (e = KioskExited \<longrightarrow> k = length ps) \<and> (ps \<noteq> [] \<longrightarrow> 0 < k)
     \<and> filter is_watchdog evs = duties staleness_s hs (\<not> kv_suppressed v) (take k ps)"
proof (induction ps arbitrary: hs v evs)
  case (Cons p ps)
  obtain es w r where st: "kiosk_step fr staleness_s v p = (es, w, r)" by (metis prod_cases3)
  note step = kiosk_step_duty [OF Cons.prems(1) _ st]
  have ok: "\<forall>h \<in> set (hs @ beats (kp_ops p)). proper_beat h" using Cons.prems(2) by auto
  show ?case
  proof (cases r)
    case None
    obtain es' where l: "kiosk_loop fr staleness_s w ps = (es', v', e)" and evs: "evs = es @ es'"
      using Cons.prems(3) st None by (auto split: prod.splits)
    from Cons.IH [OF step(2) [OF ok] _ l] Cons.prems(2) obtain k where "k \<le> length ps"
      "e = KioskExited \<longrightarrow> k = length ps"
      "filter is_watchdog es' = duties staleness_s (hs @ beats (kp_ops p)) (\<not> kv_suppressed w) (take k ps)"
      by auto
    with step [OF ok] evs show ?thesis by (intro exI [of _ "Suc k"]) (simp add: Let_def)
  next
    case (Some z)
    then have "evs = es" "e = z" using Cons.prems(3) st by auto
    moreover have "z \<noteq> KioskExited" using st Some
      by (auto simp: kiosk_step_def push_pass_def Let_def split: prod.splits if_splits option.splits)
    ultimately show ?thesis using step [OF ok] by (intro exI [of _ 1]) (simp add: Let_def)
  qed
qed auto

lemma duties_snoc:
  "duties staleness_s hs before (ps @ [p]) = duties staleness_s hs before ps
     @ watchdog_duty (if ps = [] then before
         else fresh_by staleness_s (hs @ beats (concat (map kp_ops ps))) (kp_now (last ps)))
       (fresh_by staleness_s (hs @ beats (concat (map kp_ops (ps @ [p])))) (kp_now p))"
  by (induction ps arbitrary: hs before) (simp_all add: Let_def)

lemma duties_positions:
  "k \<le> length ps \<Longrightarrow> duties staleness_s [] True (take k ps)
     = concat (map (\<lambda>i. watchdog_duty (i = 0 \<or> fresh_at staleness_s ps (i - 1)) (fresh_at staleness_s ps i)) [0..<k])"
proof (induction k)
  case (Suc k)
  then have "take (Suc k) ps = take k ps @ [ps ! k]" by (simp add: take_Suc_conv_app_nth)
  moreover have "last (take k ps) = ps ! (k - 1)" if "k \<noteq> 0"
    using that Suc.prems by (subst last_conv_nth) (auto simp: min_def)
  ultimately show ?case using Suc duties_snoc [of staleness_s "[]" True "take k ps" "ps ! k"]
    by (cases k) (auto simp: fresh_at_def)
qed simp

text \<open>The heartbeat times of the updates the threads make.\<close>

lemma handle_message_beats:
  "handle_message time m = Ok ops \<Longrightarrow> u \<in> set ops \<Longrightarrow> set (beats_of u) \<subseteq> {VFloat time}"
  by (cases m) (auto simp: result_simps beats_of_def handle_heartbeat_def handle_vfr_hud_def handle_gps_raw_def
    handle_gps_rtk_def handle_named_value_float_def handle_statustext_def Let_def split: option.splits if_splits)

lemma receive_loop_beats:
  "c \<in> set (fst (receive_loop rxs)) \<Longrightarrow> set (beats_of (snd c)) \<subseteq> (\<lambda>(time, _). VFloat time) ` set rxs"
proof (induction rxs rule: receive_loop.induct)
  case (3 time stamp m rxs)
  show ?case
  proof (cases "handle_message time m")
    case (Inl e)
    then show ?thesis using 3(2) by simp
  next
    case (Inr ops)
    then have "c \<in> Pair stamp ` set ops \<or> c \<in> set (fst (receive_loop rxs))"
      using 3(2) by (auto split: prod.splits)
    then show ?thesis
    proof
      assume "c \<in> Pair stamp ` set ops"
      then have "set (beats_of (snd c)) \<subseteq> {VFloat time}"
        using handle_message_beats [OF Inr] by fastforce
      then show ?thesis by auto
    next
      assume "c \<in> set (fst (receive_loop rxs))"
      then have "set (beats_of (snd c)) \<subseteq> (\<lambda>(time, _). VFloat time) ` set rxs"
        using 3(1) Inr by blast
      then show ?thesis by auto
    qed
  qed
qed auto

lemma reader_loop_beats:
  "c \<in> set (fst (mavlink_reader_loop hbs rxs)) \<Longrightarrow> set (beats_of (snd c)) \<subseteq> (\<lambda>(time, _). VFloat time) ` set rxs"
  by (induction hbs rxs rule: mavlink_reader_loop.induct) (auto dest: receive_loop_beats)

lemma poller_beats: "c \<in> set (slow_poller units cycles) \<Longrightarrow> beats_of (snd c) = []"
  using poller_by_poller [of units cycles] by (cases "snd c") (auto simp: beats_of_def list_all_iff)

lemma threads_beats:
  assumes "zs \<in> shuffles (fst (mavlink_reader_loop hbs rxs)) (slow_poller units cycles)"
    and "\<forall>(time, m) \<in> set rxs. \<not> feq time (Fin 0)"
  shows "\<forall>h \<in> set (beats (take n zs)). proper_beat h"
proof
  fix h assume "h \<in> set (beats (take n zs))"
  then obtain c where c: "c \<in> set zs" "h \<in> set (beats_of (snd c))"
    by (auto simp: beats_def dest: in_set_takeD)
  then have "c \<in> set (fst (mavlink_reader_loop hbs rxs))"
    using set_shuffles [OF assms(1)] poller_beats [of c units cycles] by auto
  with reader_loop_beats [of c hbs rxs] c(2) obtain time m where "(time, m) \<in> set rxs" "h = VFloat time"
    by auto
  with assms(2) show "proper_beat h" by (auto simp: proper_beat_def)
qed

text \<open>An age of at least the limit, in exact seconds, is never fresh.\<close>

lemma stale_not_fresh:
  assumes "hs \<noteq> []" and "last hs = VFloat (Fin h)" and "of_int n \<le> x - h" and "0 \<le> n \<and> n < 2 ^ 53"
  shows "\<not> fresh_by (fint n) hs (Fin x)"
proof -
  have "of_int n \<le> fl (x - h)" using assms by (intro fl_ge_int) simp_all
  moreover have "(0 :: rat) \<le> of_int n" using assms(4) by simp
  ultimately show ?thesis using assms(1,2) rnd_cases [of "x - h"]
    by (auto simp: fresh_by_def fint_def fsub_def rnd_def Let_def split: if_splits)
qed

text \<open>
  C39: The watchdog over a whole run, from a new shared state, whatever the reader and the poller put
  into it between the passes, in any interleaving, whatever the clock shows and whatever the display
  client does. Call a pass fresh when no heartbeat was received before its snapshot or the last one is
  younger, in the floating-point difference of the clocks, than the limit. Every fresh pass sends
  exactly one notification and no other pass sends any; the first stale pass after a fresh one reports
  the suppression, the first fresh one after a stale one the resumption, and no other pass reports
  anything. All passes count unless an exception ends the run, and then those up to it. The heartbeat
  times must differ from \<open>0.0\<close>, which stands for no heartbeat.
\<close>
theorem kiosk_watchdog_duty:
  assumes "zs \<in> shuffles (fst (mavlink_reader_loop hbs rxs)) (slow_poller units cycles)"
    and "concat (map kp_ops ps) = take n zs" and "\<forall>(time, m) \<in> set rxs. \<not> feq time (Fin 0)"
    and "run_kiosk fr staleness_s True new_shared_state ps = (evs, e)"
  shows "\<exists>k \<le> length ps. (e = KioskExited \<longrightarrow> k = length ps) \<and> (ps \<noteq> [] \<longrightarrow> 0 < k) \<and>
    filter is_watchdog evs =
      concat (map (\<lambda>i. watchdog_duty (i = 0 \<or> fresh_at staleness_s ps (i - 1)) (fresh_at staleness_s ps i)) [0..<k])"
proof -
  let ?v = "\<lparr>kv_state = new_shared_state, kv_client = False, kv_suppressed = False\<rparr>"
  obtain es v where l: "kiosk_loop fr staleness_s ?v ps = (es, v, e)" and "filter is_watchdog evs = filter is_watchdog es"
    using assms(4) by (auto simp: run_kiosk_def split: prod.splits)
  moreover from kiosk_loop_duties [OF _ _ l, of "[]"] threads_beats [OF assms(1,3), of n] assms(2)
  obtain k where "k \<le> length ps" "e = KioskExited \<longrightarrow> k = length ps" "ps \<noteq> [] \<longrightarrow> 0 < k"
    "filter is_watchdog es = duties staleness_s [] True (take k ps)" by (auto simp: beat_known_new)
  ultimately show ?thesis using duties_positions [of k ps staleness_s] by auto
qed

text \<open>A run with a heartbeat at 1000, silence from then on, and a second heartbeat at 1063.\<close>

definition beat_at :: "rat \<Rightarrow> kiosk_rx" where
  "beat_at x = (Fin x, ''t'', Some (KHeartbeat (Some 209) (Some 10) (Some 4)))"

definition watch_pass :: "(string \<times> state_op) list \<Rightarrow> rat \<Rightarrow> kiosk_pass" where
  "watch_pass ops x = \<lparr>kp_ops = ops, kp_now = Fin x, kp_accept = AcceptTimeout, kp_send_ok = True\<rparr>"

definition watch_run :: "kiosk_pass list" where
  "watch_run = [watch_pass [] 999, watch_pass (fst (receive_loop [beat_at 1000])) 1001, watch_pass [] 1060,
     watch_pass [] 1061, watch_pass (fst (receive_loop [beat_at 1063])) 1064]"

lemma watch_run_ends: "snd (run_kiosk fr staleness_s True new_shared_state watch_run) = KioskExited"
  by (simp add: watch_run_def watch_pass_def run_kiosk_def kiosk_step_def push_pass_def watchdog_pass_def
    split: prod.splits)

theorem kiosk_watchdog_duty_witness:
  "filter is_watchdog (fst (run_kiosk (\<lambda>_. ''0'') (fint 60) True new_shared_state watch_run))
     = [NotifyWatchdog, NotifyWatchdog, WatchdogSuppressed, WatchdogResumed, NotifyWatchdog]"
proof -
  let ?rxs = "[beat_at 1000, beat_at 1063]"
  have ops: "concat (map kp_ops watch_run) = fst (mavlink_reader_loop [True] ?rxs)"
    by (simp add: watch_run_def watch_pass_def beat_at_def)
  have "\<exists>k \<le> length watch_run. (KioskExited = KioskExited \<longrightarrow> k = length watch_run) \<and> (watch_run \<noteq> [] \<longrightarrow> 0 < k) \<and>
    filter is_watchdog (fst (run_kiosk (\<lambda>_. ''0'') (fint 60) True new_shared_state watch_run)) =
      concat (map (\<lambda>i. watchdog_duty (i = 0 \<or> fresh_at (fint 60) watch_run (i - 1)) (fresh_at (fint 60) watch_run i)) [0..<k])"
  proof (rule kiosk_watchdog_duty)
    show "concat (map kp_ops watch_run) \<in> shuffles (fst (mavlink_reader_loop [True] ?rxs)) (slow_poller None [])"
      by (simp add: ops slow_poller_def)
    show "concat (map kp_ops watch_run) = take (length (concat (map kp_ops watch_run))) (concat (map kp_ops watch_run))"
      by simp
    show "\<forall>(time, m) \<in> set ?rxs. \<not> feq time (Fin 0)" by (simp add: beat_at_def feq_def)
    show "run_kiosk (\<lambda>_. ''0'') (fint 60) True new_shared_state watch_run
       = (fst (run_kiosk (\<lambda>_. ''0'') (fint 60) True new_shared_state watch_run), KioskExited)"
      using watch_run_ends by (metis prod.collapse)
  qed
  moreover have "map (fresh_at (fint 60) watch_run) [0..<5] = [True, True, False, False, True]"
    by (simp add: watch_run_def watch_pass_def fresh_at_def fresh_by_def beats_of_def beat_at_def handle_heartbeat_def
        getattr_def ROVER_MODES_def dict_get_or_def dict_get_def Let_def fint_def float_eval upt_rec numeral_eq_Suc)
  ultimately show ?thesis
    by (auto simp: watchdog_duty_def watch_run_def upt_rec numeral_eq_Suc)
qed

section \<open>The bridge's metrics on the display\<close>

fun kiosk_receives :: "bridge_out \<Rightarrow> kiosk_msg" where
  "kiosk_receives (NamedValueFloat name boot v) =
     (case wire_float v of Some x \<Rightarrow> KNamedValueFloat name x | None \<Rightarrow> KOther)"
| "kiosk_receives x = KOther"

text \<open>
  After the reader has handled the four metrics of a health report of the bridge, received at
  any times, the VSLAM panel shows the bridge's rate, age and covariance norm rounded to binary32, its
  confidence exactly, and the other panels are as before.
\<close>
lemma kiosk_shows_bridge_health:
  assumes "length ts = 4" and "0 \<le> bh_confidence h" and "bh_confidence h < 256"
    and "wire_float (pose_rate_hz h) = Some hz" and "wire_float (pose_age_ms h) = Some age"
    and "wire_float (covariance_norm h) = Some cov"
  shows "let s' = fold apply_op
     (fst (receive_loop (map2 (\<lambda>(time, stamp) x. (time, stamp, Some (kiosk_receives x))) ts (send_health_metrics h clk)))) s
   in dict_get (ks_vslam s') ''rate_hz'' = Some (VFloat hz) \<and>
    dict_get (ks_vslam s') ''confidence'' = Some (VFloat (Fin (of_int (bh_confidence h)))) \<and>
    dict_get (ks_vslam s') ''age_ms'' = Some (VFloat age) \<and>
    dict_get (ks_vslam s') ''covariance_norm'' = Some (VFloat cov) \<and>
    ks_mav s' = ks_mav s \<and> poller_panels (snapshot s') = poller_panels (snapshot s)"
proof -
  obtain a b c d where ts: "ts = [a, b, c, d]" using assms(1) by (auto simp: numeral_eq_Suc length_Suc_conv)
  show ?thesis
    unfolding ts Let_def
    by (simp add: assms(4-6) wire_confidence [OF assms(2,3)] send_health_metrics_def send_named_value_float_def handle_named_value_float_def padded_names
        VSLAM_METRIC_NAMES_def dict_get_def state_op_defs poller_panels_snapshot case_prod_unfold)
qed

definition quiet_cycle :: poll_env where
  "quiet_cycle = \<lparr>pe_thermal = Ok \<lparr>ts_zones = [], ts_timestamp = []\<rparr>, pe_power = read_power_state [] ProcMissing FAbsent [] FAbsent,
     pe_disks = Ok [], pe_wifi = Ok (Some \<lparr>wf_interface = ''wlan0'', wf_link_quality = Fin 60, wf_signal_dbm = Fin (- 50), wf_noise_dbm = Fin 0\<rparr>),
     pe_active = (\<lambda>_. None), pe_now = (\<lambda>_. ''t2'')\<rparr>"

definition demo_reader :: "(string \<times> state_op) list" where
  "demo_reader = fst (mavlink_reader_loop [False, True] [(Fin 5, ''t1'', Some (KHeartbeat (Some 209) (Some 10) (Some 4)))])"

definition demo_run :: "(string \<times> state_op) list" where
  "demo_run = (let ps = slow_poller (Some [''mower-health.service'']) [quiet_cycle] in take 1 ps @ demo_reader @ drop 1 ps)"

lemma demo_run_shuffle: "demo_run \<in> shuffles demo_reader (slow_poller (Some [''mower-health.service'']) [quiet_cycle]) \<and> length demo_run = 5"
  by (simp add: demo_run_def demo_reader_def slow_poller_def poll_health_def poll_updates_def quiet_cycle_def
      read_power_state_def read_nvpmodel_def read_online_cpus_def read_fan_profile_def Let_def Cons_in_shuffles_iff)

theorem kiosk_snapshots_consistent_witness:
  "\<exists>i j. i + j = 3 \<and>
    reader_panels (snapshot (fold apply_op (take 3 demo_run) new_shared_state)) =
      reader_panels (snapshot (fold apply_op (take i demo_reader) new_shared_state)) \<and>
    poller_panels (snapshot (fold apply_op (take 3 demo_run) new_shared_state)) =
      poller_panels (snapshot (fold apply_op (take j (slow_poller (Some [''mower-health.service'']) [quiet_cycle])) new_shared_state))"
  using kiosk_snapshots_consistent [of demo_run "[False, True]" "[(Fin 5, ''t1'', Some (KHeartbeat (Some 209) (Some 10) (Some 4)))]"
      "Some [''mower-health.service'']" "[quiet_cycle]" 3 new_shared_state] demo_run_shuffle
  unfolding demo_reader_def by simp blast

end
