(* ===== verification/Remote.thy ===== *)
theory Remote
  imports Ssh Safety "HOL-Library.While_Combinator"
begin

text \<open>
  Sessions of the laptop with the Jetson, as the provisioning commands hold them. The world is the
  clock (in microseconds), the operator's input, the operations performed so far, and a state of any
  type that stands for everything else: the machines, their files and the network. What an operation
  meets there is an argument; the clock, that of \<open>time.monotonic\<close>, never runs backwards. The wall clock of
  \<open>time.time\<close> is another argument, and may. Commands run through the client of
  \<open>Ssh\<close>. Threads are programs cut at their operations, and a schedule interleaves them.
\<close>

section \<open>World\<close>

datatype laptop_op =
    Ran "string list"
  | Streamed "string list"
  | Pushed string string
  | Pulled string string
  | LocalRun "string list"
  | LocalWrite string string
  | LocalMkdir string
  | LocalUnlink string
  | LocalRmdir string
  | LocalRmtree string

record 'r world =
  w_now :: nat
  w_input :: "console_input list"
  w_log :: "laptop_op list"
  w_rest :: 'r

text \<open>
  The environment. A process takes some time and meets some outcome; a sleep takes at least its
  length; a change of a local file succeeds or raises \<open>OSError\<close>. The wall clock is any function of the
  world (in microseconds).
\<close>

record 'r laptop =
  la_client :: jetson_client
  la_environ :: env
  la_spawn :: "string list \<Rightarrow> env \<Rightarrow> pyfloat option \<Rightarrow> 'r \<Rightarrow> run_outcome \<times> nat \<times> 'r"
  la_popen :: "string list \<Rightarrow> env \<Rightarrow> 'r \<Rightarrow> stream_outcome \<times> nat \<times> 'r"
  la_sleep :: "nat \<Rightarrow> 'r \<Rightarrow> nat \<times> 'r"
  la_wall :: "nat \<Rightarrow> 'r \<Rightarrow> int"
  la_file :: "laptop_op \<Rightarrow> 'r \<Rightarrow> bool \<times> 'r"
  la_exists :: "string \<Rightarrow> 'r \<Rightarrow> bool"
  la_is_dir :: "string \<Rightarrow> 'r \<Rightarrow> bool"
  la_glob :: "string \<Rightarrow> string \<Rightarrow> 'r \<Rightarrow> string list"
  la_tmpdir :: "'r \<Rightarrow> string"
  la_today :: "'r \<Rightarrow> string"
  la_home :: string
  la_vslam_defaults :: string
  la_loads :: "string \<Rightarrow> pyval option"
  la_yaml_load :: "string \<Rightarrow> pyval option"
  la_yaml_dump :: "pyval \<Rightarrow> string"

text \<open>
  Exceptions that leave a step: \<open>SshError\<close>, \<open>typer.Exit\<close>, a missing local binary, an \<open>OSError\<close> of a
  local file, another built-in exception, one of the table renderer, an uncaught \<open>TimeoutExpired\<close>, a failed
  assertion; and \<open>Hangs\<close> for a call that does not return.
\<close>

datatype step_exc =
    SshFail ssh_error
  | Exit int
  | NoBinary
  | OsFailed
  | Raised pyexc
  | NotRenderable
  | ProcessTimeout
  | AssertFailed
  | Hangs

type_synonym ('r, 'a) step = "('r world, step_exc, 'a) action"

fun ssh_exc :: "ssh_error \<Rightarrow> step_exc" where
  "ssh_exc BinaryMissing = NoBinary"
| "ssh_exc e = SshFail e"

section \<open>Operations\<close>

definition advance :: "laptop_op list \<Rightarrow> nat \<Rightarrow> 'r \<Rightarrow> 'r world \<Rightarrow> 'r world" where
  "advance ops d r w = w\<lparr>w_now := w_now w + d, w_log := w_log w @ ops, w_rest := r\<rparr>"

definition client_run :: "'r laptop \<Rightarrow> string list \<Rightarrow> nat \<Rightarrow> ('r, ssh_result) step" where
  "client_run L argv timeout w =
     (case build_ssh_argv (la_client L) argv of
        Inl e \<Rightarrow> (Err (ssh_exc e), w)
      | Inr full \<Rightarrow>
          (case la_spawn L full (build_env (la_environ L) (la_client L) None) (Some (fint (int timeout))) (w_rest w) of
             (out, d, r) \<Rightarrow>
               (map_err ssh_exc
                  (ssh_run (\<lambda>_ _ _. out) (la_environ L) (la_client L) argv False (Some (fint (int timeout))) None),
                advance [Ran argv] d r w)))"

definition client_push :: "'r laptop \<Rightarrow> string \<Rightarrow> string \<Rightarrow> ('r, ssh_result) step" where
  "client_push L local_path remote_path w =
     (case build_scp_push_argv (la_client L) local_path remote_path of
        Inl e \<Rightarrow> (Err (ssh_exc e), w)
      | Inr full \<Rightarrow>
          (case la_spawn L full (build_env (la_environ L) (la_client L) None) (Some (fint 600)) (w_rest w) of
             (out, d, r) \<Rightarrow>
               (map_err ssh_exc
                  (scp_push (\<lambda>_ _ _. out) (la_environ L) (la_client L) local_path remote_path (Some (fint 600))),
                advance [Pushed local_path remote_path] d r w)))"

definition client_pull :: "'r laptop \<Rightarrow> string \<Rightarrow> string \<Rightarrow> ('r, ssh_result) step" where
  "client_pull L remote_path local_path w =
     (case build_scp_pull_argv (la_client L) remote_path local_path of
        Inl e \<Rightarrow> (Err (ssh_exc e), w)
      | Inr full \<Rightarrow>
          (case la_spawn L full (build_env (la_environ L) (la_client L) None) (Some (fint 600)) (w_rest w) of
             (out, d, r) \<Rightarrow>
               (map_err ssh_exc
                  (scp_pull (\<lambda>_ _ _. out) (la_environ L) (la_client L) remote_path local_path (Some (fint 600))),
                advance [Pulled remote_path local_path] d r w)))"

definition client_stream :: "'r laptop \<Rightarrow> string list \<Rightarrow> ('r, ssh_result) step" where
  "client_stream L argv w =
     (case build_ssh_argv (la_client L) argv of
        Inl e \<Rightarrow> (Err (ssh_exc e), w)
      | Inr full \<Rightarrow>
          (case la_popen L (take 1 full @ [''-o'', ''ServerAliveInterval=30''] @ drop 1 full)
                  (build_env (la_environ L) (la_client L) None) (w_rest w) of
             (out, d, r) \<Rightarrow>
               ((case run_streaming (\<lambda>_ _. out) (la_environ L) (la_client L) argv None of
                   None \<Rightarrow> Err Hangs
                 | Some (lines, res) \<Rightarrow> map_err ssh_exc res),
                advance [Streamed argv] d r w)))"

text \<open>\<open>subprocess.run\<close> of a local program.\<close>

definition local_run :: "'r laptop \<Rightarrow> string list \<Rightarrow> nat \<Rightarrow> ('r, run_outcome) step" where
  "local_run L argv timeout w =
     (case la_spawn L argv (la_environ L) (Some (fint (int timeout))) (w_rest w) of
        (out, d, r) \<Rightarrow> (Ok out, advance [LocalRun argv] d r w))"

definition file_op :: "'r laptop \<Rightarrow> laptop_op \<Rightarrow> ('r, unit) step" where
  "file_op L c w =
     (case la_file L c (w_rest w) of
        (ok, r) \<Rightarrow> (if ok then Ok () else Err OsFailed, advance [c] 0 r w))"

definition sleep_s :: "'r laptop \<Rightarrow> nat \<Rightarrow> ('r, unit) step" where
  "sleep_s L n w = (case la_sleep L n (w_rest w) of (extra, r) \<Rightarrow> (Ok (), advance [] (n * 1000000 + extra) r w))"

definition look :: "('r \<Rightarrow> 'a) \<Rightarrow> ('r, 'a) step" where
  "look f w = (Ok (f (w_rest w)), w)"

definition read_line :: "('r, console_input) step" where
  "read_line w =
     (case w_input w of
        [] \<Rightarrow> (Ok Eof, w)
      | l # ls \<Rightarrow> (Ok l, w\<lparr>w_input := ls\<rparr>))"

section \<open>Handling exceptions\<close>

text \<open>\<open>except SshError\<close>; \<open>contextlib.suppress(SshError)\<close>; \<open>finally\<close>, which a hanging call does not reach.\<close>

definition catch_ssh :: "('r, 'a) step \<Rightarrow> (ssh_error \<Rightarrow> ('r, 'a) step) \<Rightarrow> ('r, 'a) step" where
  "catch_ssh m h w = (case m w of (Inl (SshFail e), w') \<Rightarrow> h e w' | r \<Rightarrow> r)"

definition suppress_ssh :: "('r, 'a) step \<Rightarrow> ('r, unit) step" where
  "suppress_ssh m = catch_ssh (act_bind m (\<lambda>_. act_ret ())) (\<lambda>_. act_ret ())"

definition act_then :: "('w, 'e, 'a) action \<Rightarrow> ('w, 'e, 'b) action \<Rightarrow> ('w, 'e, 'b) action" where
  "act_then m k = act_bind m (\<lambda>_. k)"

definition act_when :: "bool \<Rightarrow> ('w, 'e, unit) action \<Rightarrow> ('w, 'e, unit) action" where
  "act_when b m = (if b then m else act_ret ())"

fun act_all :: "('w, 'e, unit) action list \<Rightarrow> ('w, 'e, unit) action" where
  "act_all [] = act_ret ()"
| "act_all (m # ms) = act_then m (act_all ms)"

definition act_finally :: "('r, 'a) step \<Rightarrow> ('r, unit) step \<Rightarrow> ('r, 'a) step" where
  "act_finally m f w =
     (case m w of
        (Inl Hangs, w') \<Rightarrow> (Err Hangs, w')
      | (r, w') \<Rightarrow> (case f w' of (Inl e, w'') \<Rightarrow> (Err e, w'') | (Inr _, w'') \<Rightarrow> (r, w'')))"

definition of_result :: "(pyexc, 'a) result \<Rightarrow> ('r, 'a) step" where
  "of_result x = (case x of Inl e \<Rightarrow> act_raise (Raised e) | Inr a \<Rightarrow> act_ret a)"

text \<open>\<open>try: ... except SshError: raise typer.Exit(code)\<close>, and the same for an exit status.\<close>

definition or_exit :: "int \<Rightarrow> ('r, 'a) step \<Rightarrow> ('r, 'a) step" where
  "or_exit code m = catch_ssh m (\<lambda>_. act_raise (Exit code))"

definition run_ok :: "'r laptop \<Rightarrow> string list \<Rightarrow> nat \<Rightarrow> ('r, ssh_result) step" where
  "run_ok L argv timeout =
     act_bind (or_exit 3 (client_run L argv timeout)) (\<lambda>r. if sr_ok r then act_ret r else act_raise (Exit 3))"

text \<open>A Boolean check that answers \<open>False\<close> on \<open>SshError\<close>.\<close>

definition ssh_true :: "('r, bool) step \<Rightarrow> ('r, bool) step" where
  "ssh_true m = catch_ssh m (\<lambda>_. act_ret False)"

section \<open>Loops with a deadline\<close>

text \<open>
  \<open>while time.monotonic() < deadline\<close>: a pass returns the variables and whether it left the loop. A
  pass that goes round again without the clock having moved is taken for a hang; every pass below
  sleeps first (locale \<open>timed_pass\<close>), so that case does not arise.
\<close>

function timed_loop :: "nat \<Rightarrow> ('s \<Rightarrow> ('r, 's \<times> bool) step) \<Rightarrow> 's \<Rightarrow> ('r, 's) step" where
  "timed_loop deadline pass s w =
     (if w_now w < deadline
      then case pass s w of
             (Inl e, w') \<Rightarrow> (Err e, w')
           | (Inr (s', left), w') \<Rightarrow>
               if left then (Ok s', w')
               else if w_now w < w_now w' then timed_loop deadline pass s' w'
               else (Err Hangs, w')
      else (Ok s, w))"
  by pat_completeness auto
termination
  by (relation "measure (\<lambda>(deadline, pass, s, w). deadline - w_now w)") auto

declare timed_loop.simps [simp del]

text \<open>
  \<open>while time.time() < deadline\<close>: the same loop over the wall clock, which need not reach the deadline. A
  turn is a pass or the end; the loop that takes no last turn is a call that does not return.
\<close>

definition wall_time :: "'r laptop \<Rightarrow> 'r world \<Rightarrow> int" where
  "wall_time L w = la_wall L (w_now w) (w_rest w)"

definition wall_turn :: "'r laptop \<Rightarrow> int \<Rightarrow> ('s \<Rightarrow> ('r, 's \<times> bool) step)
    \<Rightarrow> 's \<times> 'r world + (step_exc, 's) result \<times> 'r world \<Rightarrow> 's \<times> 'r world + (step_exc, 's) result \<times> 'r world" where
  "wall_turn L deadline pass x =
     (case x of
        Inr y \<Rightarrow> Inr y
      | Inl (s, w) \<Rightarrow>
          if wall_time L w < deadline
          then case pass s w of
                 (Inl e, w') \<Rightarrow> Inr (Err e, w')
               | (Inr (s', left), w') \<Rightarrow> if left then Inr (Ok s', w') else Inl (s', w')
          else Inr (Ok s, w))"

definition wall_run :: "'r laptop \<Rightarrow> int \<Rightarrow> ('s \<Rightarrow> ('r, 's \<times> bool) step) \<Rightarrow> 's \<Rightarrow> 'r world
    \<Rightarrow> ((step_exc, 's) result \<times> 'r world) option" where
  "wall_run L deadline pass s w =
     (case while_option isl (wall_turn L deadline pass) (Inl (s, w)) of Some (Inr y) \<Rightarrow> Some y | _ \<Rightarrow> None)"

definition wall_loop :: "'r laptop \<Rightarrow> int \<Rightarrow> ('s \<Rightarrow> ('r, 's \<times> bool) step) \<Rightarrow> 's \<Rightarrow> ('r, 's) step" where
  "wall_loop L deadline pass s w =
     (case wall_run L deadline pass s w of Some y \<Rightarrow> y | None \<Rightarrow> (Err Hangs, w))"

lemma wall_run_unfold:
  "wall_run L D pass s w =
     (if wall_time L w < D
      then case pass s w of
             (Inl e, w') \<Rightarrow> Some (Err e, w')
           | (Inr (s', left), w') \<Rightarrow> if left then Some (Ok s', w') else wall_run L D pass s' w'
      else Some (Ok s, w))"
  unfolding wall_run_def
  by (subst while_option_unfold, simp add: wall_turn_def split: prod.splits sum.splits)
    (auto simp: while_option_unfold [where s = "Inr _"])

text \<open>The wall clock keeps up with the other one: it is not set back.\<close>

definition wall_steady :: "'r laptop \<Rightarrow> bool" where
  "wall_steady L \<longleftrightarrow> (\<forall>t d r r'. la_wall L t r + int d \<le> la_wall L (t + d) r')"

lemma wall_steadyD: "wall_steady L \<Longrightarrow> w_now w + d \<le> w_now w' \<Longrightarrow> wall_time L w + int d \<le> wall_time L w'"
  unfolding wall_steady_def wall_time_def
  by (drule spec [of _ "w_now w"], drule spec [of _ "w_now w' - w_now w"], drule spec [of _ "w_rest w"],
      drule spec [of _ "w_rest w'"]) simp

section \<open>Threads\<close>

datatype ('w, 'e, 'a) prog =
    Finished "('e, 'a) result"
  | Doing "'w \<Rightarrow> ('w, 'e, 'a) prog \<times> 'w"

primrec run_prog :: "('w, 'e, 'a) prog \<Rightarrow> ('w, 'e, 'a) action" where
  "run_prog (Finished r) = (\<lambda>w. (r, w))"
| "run_prog (Doing f) = (\<lambda>w. case map_prod run_prog id (f w) of (m, w') \<Rightarrow> m w')"

definition op_prog :: "('w, 'e, 'a) action \<Rightarrow> ('w, 'e, 'a) prog" where
  "op_prog m = Doing (\<lambda>w. case m w of (r, w') \<Rightarrow> (Finished r, w'))"

text \<open>What comes after a program, whether it returns or raises.\<close>

primrec prog_then :: "('w, 'e, 'a) prog \<Rightarrow> (('e, 'a) result \<Rightarrow> ('w, 'e, 'b) prog) \<Rightarrow> ('w, 'e, 'b) prog" where
  "prog_then (Finished r) k = k r"
| "prog_then (Doing f) k = Doing (\<lambda>w. map_prod (\<lambda>p. prog_then p k) id (f w))"

definition prog_bind :: "('w, 'e, 'a) prog \<Rightarrow> ('a \<Rightarrow> ('w, 'e, 'b) prog) \<Rightarrow> ('w, 'e, 'b) prog" where
  "prog_bind p k = prog_then p (\<lambda>r. case r of Inl e \<Rightarrow> Finished (Err e) | Inr a \<Rightarrow> k a)"

definition prog_finally :: "('w, step_exc, 'a) prog \<Rightarrow> ('w, step_exc, unit) prog \<Rightarrow> ('w, step_exc, 'a) prog" where
  "prog_finally p q =
     prog_then p (\<lambda>r. if r = Err Hangs then Finished r
       else prog_then q (\<lambda>u. case u of Inl e \<Rightarrow> Finished (Err e) | Inr _ \<Rightarrow> Finished r))"

text \<open>
  Threads under a schedule: an entry lets the thread of that number among those still running do its
  next operation. When the schedule ends, the rest run one after the other. The results come in the
  order in which the threads finish.
\<close>

fun run_rest :: "(string \<times> ('w, 'e, 'a) prog) list \<Rightarrow> 'w \<Rightarrow> (string \<times> ('e, 'a) result) list \<times> 'w" where
  "run_rest [] w = ([], w)"
| "run_rest ((name, p) # ps) w =
     (case run_prog p w of (r, w') \<Rightarrow> (case run_rest ps w' of (rs, w'') \<Rightarrow> ((name, r) # rs, w'')))"

fun run_threads ::
  "nat list \<Rightarrow> (string \<times> ('w, 'e, 'a) prog) list \<Rightarrow> 'w \<Rightarrow> (string \<times> ('e, 'a) result) list \<times> 'w" where
  "run_threads [] ps w = run_rest ps w"
| "run_threads (i # sched) ps w =
     (if i < length ps
      then case ps ! i of
             (name, Finished r) \<Rightarrow>
               (case run_threads sched (take i ps @ drop (Suc i) ps) w of (rs, w') \<Rightarrow> ((name, r) # rs, w'))
           | (name, Doing f) \<Rightarrow> (case f w of (p, w') \<Rightarrow> run_threads sched (ps[i := (name, p)]) w')
      else run_threads sched ps w)"

section \<open>Rules\<close>

text \<open>
  What an action does to the world, as a relation between the world before and after it. A relation
  that is reflexive and transitive passes from the operations to the programs built of them.
\<close>

definition moves :: "('w \<Rightarrow> 'w \<Rightarrow> bool) \<Rightarrow> ('w, 'e, 'a) action \<Rightarrow> bool" where
  "moves R m \<longleftrightarrow> (\<forall>w. R w (snd (m w)))"

lemma movesD: "moves R m \<Longrightarrow> m w = (r, w') \<Longrightarrow> R w w'"
  by (auto simp: moves_def dest: spec [of _ w])

locale world_relation =
  fixes R :: "'r world \<Rightarrow> 'r world \<Rightarrow> bool"
  assumes refl: "R w w" and trans: "R u v \<Longrightarrow> R v w \<Longrightarrow> R u w"
begin

lemma moves_ret: "moves R (act_ret a)"
  by (simp add: moves_def act_simps refl)

lemma moves_raise: "moves R (act_raise e)"
  by (simp add: moves_def act_simps refl)

lemma moves_look: "moves R (look f)"
  by (simp add: moves_def look_def refl)

lemma moves_of_result: "moves R (of_result x)"
  by (simp add: of_result_def moves_ret moves_raise split: sum.splits)

lemma moves_bind: "moves R m \<Longrightarrow> (\<And>a. moves R (k a)) \<Longrightarrow> moves R (act_bind m k)"
  by (auto simp: moves_def act_simps split: prod.splits sum.splits intro: trans) (metis snd_conv trans)+

lemma moves_then: "moves R m \<Longrightarrow> moves R k \<Longrightarrow> moves R (act_then m k)"
  by (simp add: act_then_def moves_bind)

lemma moves_catch: "moves R m \<Longrightarrow> (\<And>e. moves R (h e)) \<Longrightarrow> moves R (catch_ssh m h)"
  by (auto simp: moves_def catch_ssh_def split: prod.splits sum.splits step_exc.splits) (metis snd_conv trans)+

lemma moves_suppress: "moves R m \<Longrightarrow> moves R (suppress_ssh m)"
  by (simp add: suppress_ssh_def moves_catch moves_bind moves_ret)

lemma moves_ssh_true: "moves R m \<Longrightarrow> moves R (ssh_true m)"
  by (simp add: ssh_true_def moves_catch moves_ret)

lemma moves_or_exit: "moves R m \<Longrightarrow> moves R (or_exit n m)"
  by (simp add: or_exit_def moves_catch moves_raise)

lemma moves_run_ok: "moves R (client_run L argv timeout) \<Longrightarrow> moves R (run_ok L argv timeout)"
  by (simp add: run_ok_def moves_bind moves_or_exit moves_ret moves_raise)

lemma moves_all: "(\<And>m. m \<in> set ms \<Longrightarrow> moves R m) \<Longrightarrow> moves R (act_all ms)"
  by (induction ms) (simp_all add: moves_ret moves_then)

lemma timed_loop_moves:
  "(\<And>s w r w'. pass s w = (r, w') \<Longrightarrow> R w w') \<Longrightarrow> R w (snd (timed_loop D pass s w))"
proof (induction "D - w_now w" arbitrary: s w rule: less_induct)
  case less
  obtain r w' where p: "pass s w = (r, w')" by (cases "pass s w")
  have step: "R w w'" by (rule less.prems [OF p])
  have more: "R w (snd (timed_loop D pass s' w'))" if "w_now w < w_now w'" "w_now w < D" for s'
    by (rule trans [OF step less.hyps]) (use that less.prems in auto)
  show ?case by (subst timed_loop.simps) (auto simp: p refl step more split: sum.splits)
qed

lemma moves_timed_loop: "(\<And>s. moves R (pass s)) \<Longrightarrow> moves R (timed_loop D pass s)"
  by (simp add: moves_def) (metis snd_conv timed_loop_moves)

lemma wall_loop_moves:
  assumes "\<And>s w r w'. pass s w = (r, w') \<Longrightarrow> R w w'"
  shows "R w (snd (wall_loop L D pass s w))"
proof -
  have "case x of Inl (t, v) \<Rightarrow> R w v | Inr (t, v) \<Rightarrow> R w v"
    if "while_option isl (wall_turn L D pass) (Inl (s, w)) = Some x" for x
  proof (rule while_option_rule [OF _ that])
    show "case wall_turn L D pass y of Inl (t, v) \<Rightarrow> R w v | Inr (t, v) \<Rightarrow> R w v"
      if "case y of Inl (t, v) \<Rightarrow> R w v | Inr (t, v) \<Rightarrow> R w v" "isl y" for y
      using that assms
      by (cases y) (auto simp: wall_turn_def split: prod.splits sum.splits intro: trans)
  qed (simp add: refl)
  then show ?thesis
    by (auto simp: wall_loop_def wall_run_def refl split: option.splits sum.splits prod.splits)
qed

lemma moves_wall_loop: "(\<And>s. moves R (pass s)) \<Longrightarrow> moves R (wall_loop L D pass s)"
  by (simp add: moves_def) (metis snd_conv wall_loop_moves)

lemmas moves_rules = moves_wall_loop moves_ret moves_raise moves_look moves_of_result moves_bind moves_then moves_catch
  moves_suppress moves_ssh_true moves_or_exit moves_run_ok moves_all moves_timed_loop

end

text \<open>The log only grows, by operations of a kind; the clock does not run backwards.\<close>

definition grows :: "(laptop_op \<Rightarrow> bool) \<Rightarrow> 'r world \<Rightarrow> 'r world \<Rightarrow> bool" where
  "grows P w w' \<longleftrightarrow> (\<exists>ops. w_log w' = w_log w @ ops \<and> list_all P ops)"

definition later :: "'r world \<Rightarrow> 'r world \<Rightarrow> bool" where
  "later w w' \<longleftrightarrow> w_now w \<le> w_now w'"

interpretation log: world_relation "grows P" for P
proof
  fix u v w :: "'a world"
  show "grows P w w" by (simp add: grows_def)
  show "grows P u v \<Longrightarrow> grows P v w \<Longrightarrow> grows P u w"
    unfolding grows_def by (metis append.assoc list_all_append)
qed

interpretation clock: world_relation later
  by unfold_locales (simp_all add: later_def)

lemma advance_simps [simp]:
  "w_log (advance ops d r w) = w_log w @ ops" "w_now (advance ops d r w) = w_now w + d"
  "w_input (advance ops d r w) = w_input w" "w_rest (advance ops d r w) = r"
  by (simp_all add: advance_def)

lemma client_run_log: "P (Ran argv) \<Longrightarrow> moves (grows P) (client_run L argv timeout)"
  by (auto simp: moves_def client_run_def grows_def split: sum.splits prod.splits)

lemma client_run_clock: "moves later (client_run L argv timeout)"
  by (auto simp: moves_def client_run_def later_def split: sum.splits prod.splits)

lemma sleep_log: "moves (grows P) (sleep_s L n)"
  by (auto simp: moves_def sleep_s_def grows_def split: prod.splits)

lemma sleep_clock: "sleep_s L n w = (r, w') \<Longrightarrow> r = Ok () \<and> w_now w + n * 1000000 \<le> w_now w' \<and> w_log w' = w_log w"
  by (auto simp: sleep_s_def split: prod.splits)

lemma local_run_log: "P (LocalRun argv) \<Longrightarrow> moves (grows P) (local_run L argv timeout)"
  by (auto simp: moves_def local_run_def grows_def split: prod.splits)

text \<open>The exceptions of a remote command are those of the transport.\<close>

lemma client_run_raises: "client_run L argv timeout w = (Inl e, w') \<Longrightarrow> \<exists>x. e = SshFail x"
  by (auto simp: client_run_def ssh_run_def build_ssh_argv_def result_simps Let_def
      split: sum.splits prod.splits option.splits run_outcome.splits if_splits)

definition calm :: "('r, 'a) step \<Rightarrow> bool" where
  "calm m \<longleftrightarrow> (\<forall>w. \<exists>a. fst (m w) = Ok a)"

definition ssh_only :: "('r, 'a) step \<Rightarrow> bool" where
  "ssh_only m \<longleftrightarrow> (\<forall>w e. fst (m w) = Err e \<longrightarrow> (\<exists>x. e = SshFail x))"

lemma ssh_only_run: "ssh_only (client_run L argv timeout)"
  unfolding ssh_only_def using client_run_raises by (metis prod.collapse)

lemma calm_ret: "calm (act_ret a)"
  by (simp add: calm_def act_simps)

lemma calm_ssh_only: "calm m \<Longrightarrow> ssh_only m"
  by (metis Inl_Inr_False calm_def ssh_only_def)

lemma ssh_only_bind: "ssh_only m \<Longrightarrow> (\<And>a. ssh_only (k a)) \<Longrightarrow> ssh_only (act_bind m k)"
  by (auto simp: ssh_only_def act_simps split: prod.splits sum.splits) (metis fst_conv)+

lemma calm_bind: "calm m \<Longrightarrow> (\<And>a. calm (k a)) \<Longrightarrow> calm (act_bind m k)"
  unfolding calm_def by (simp add: act_simps split: prod.splits sum.splits) (metis fst_conv Inl_Inr_False)

lemma calm_catch: "ssh_only m \<Longrightarrow> (\<And>e. calm (h e)) \<Longrightarrow> calm (catch_ssh m h)"
  unfolding calm_def ssh_only_def catch_ssh_def
  by (simp split: prod.splits sum.splits step_exc.splits) (metis fst_conv step_exc.distinct)

lemma calm_rules:
  "calm k \<Longrightarrow> calm m \<Longrightarrow> calm (act_then m k)"
  "ssh_only m \<Longrightarrow> calm (suppress_ssh m)"
  "ssh_only n \<Longrightarrow> calm (ssh_true n)"
  by (simp_all add: act_then_def suppress_ssh_def ssh_true_def calm_bind calm_catch calm_ret ssh_only_bind calm_ssh_only)

section \<open>Deadlines\<close>

text \<open>
  A pass that goes round again has let at least \<open>d\<close> microseconds go by and does at most \<open>k\<close>
  operations: the loop is the \<open>while\<close> loop of the source, ends, and does a bounded number of
  operations.
\<close>

locale timed_pass =
  fixes pass :: "'s \<Rightarrow> ('r, 's \<times> bool) step" and d k :: nat
  assumes positive: "0 < d"
    and progress: "pass s w = (Inr (s', False), w') \<Longrightarrow> w_now w + d \<le> w_now w'"
    and returns: "pass s w = (Inl e, w') \<Longrightarrow> e \<noteq> Hangs"
    and few: "length (w_log (snd (pass s w))) \<le> length (w_log w) + k"
begin

lemma loop_is_while:
  "timed_loop D pass s w =
     (if w_now w < D
      then case pass s w of
             (Inl e, w') \<Rightarrow> (Err e, w')
           | (Inr (s', left), w') \<Rightarrow> if left then (Ok s', w') else timed_loop D pass s' w'
      else (Ok s, w))"
  using positive by (subst timed_loop.simps) (auto split: prod.splits sum.splits dest!: progress)

lemma loop_bounded:
  "w_now w + n * d \<ge> D \<Longrightarrow> length (w_log (snd (timed_loop D pass s w))) \<le> length (w_log w) + n * k"
proof (induction n arbitrary: s w)
  case 0
  then show ?case by (subst loop_is_while) simp
next
  case (Suc n)
  obtain r w' where p: "pass s w = (r, w')" by (cases "pass s w")
  have f: "length (w_log w') \<le> length (w_log w) + k" using few [of s w] p by simp
  show ?case
  proof (cases "\<exists>s'. r = Inr (s', False)")
    case True
    then obtain s' where r: "r = Inr (s', False)" by blast
    have "D \<le> w_now w' + n * d" using progress [OF p [unfolded r]] Suc.prems by simp
    from Suc.IH [OF this, of s'] show ?thesis using f by (subst loop_is_while) (simp add: p r)
  next
    case False
    then show ?thesis using f
      by (subst loop_is_while) (auto simp: p trans_le_add1 split: sum.splits)
  qed
qed

text \<open>The same over a steady wall clock.\<close>

lemma wall_run_bounded:
  assumes "wall_steady L"
  shows "D \<le> wall_time L w + int (n * d) \<Longrightarrow>
     \<exists>r w'. wall_run L D pass s w = Some (r, w') \<and> r \<noteq> Err Hangs \<and> length (w_log w') \<le> length (w_log w) + n * k"
proof (induction n arbitrary: s w)
  case 0
  then show ?case by (subst wall_run_unfold) simp
next
  case (Suc n)
  obtain r w' where p: "pass s w = (r, w')" by (cases "pass s w")
  have f: "length (w_log w') \<le> length (w_log w) + k" using few [of s w] p by simp
  show ?case
  proof (cases "\<exists>s'. r = Inr (s', False)")
    case True
    then obtain s' where r: "r = Inr (s', False)" by blast
    have "wall_time L w + int d \<le> wall_time L w'" using wall_steadyD [OF assms progress [OF p [unfolded r]]] .
    then have "D \<le> wall_time L w' + int (n * d)" using Suc.prems by (simp add: algebra_simps)
    from Suc.IH [OF this, of s'] show ?thesis using f by (subst wall_run_unfold) (auto simp: p r)
  next
    case False
    then show ?thesis using f returns [of s w _ w'] p
      by (subst wall_run_unfold) (auto simp: trans_le_add1 split: sum.splits)
  qed
qed

lemma loop_invariant:
  assumes "\<And>s w s' l w'. I s \<Longrightarrow> pass s w = (Inr (s', l), w') \<Longrightarrow> I s'"
  shows "I s \<Longrightarrow> timed_loop D pass s w = (Inr t, w') \<Longrightarrow> I t"
proof (induction "D - w_now w" arbitrary: s w rule: less_induct)
  case less
  obtain r v where p: "pass s w = (r, v)" by (cases "pass s w")
  show ?case
  proof (cases "w_now w < D \<and> (\<exists>s'. r = Inr (s', False))")
    case True
    then obtain s' where r: "r = Inr (s', False)" and "w_now w < D" by blast
    moreover have "w_now w < w_now v" using progress [OF p [unfolded r]] positive by simp
    moreover have "timed_loop D pass s' v = (Inr t, w')"
      using less.prems(2) \<open>w_now w < D\<close> by (subst (asm) loop_is_while) (simp add: p r)
    ultimately show ?thesis using less.hyps [of v s'] assms [OF less.prems(1) p [unfolded r]] by simp
  next
    case False
    moreover have "(if w_now w < D then case pass s w of (Inl e, w') \<Rightarrow> (Err e, w')
        | (Inr (s', left), w') \<Rightarrow> if left then (Ok s', w') else timed_loop D pass s' w' else (Ok s, w)) = (Inr t, w')"
      using less.prems(2) by (simp only: loop_is_while [symmetric])
    ultimately show ?thesis using less.prems(1) p
      by (auto split: if_splits sum.splits dest: assms)
  qed
qed

lemma loop_returns: "fst (timed_loop D pass s w) \<noteq> Err Hangs"
proof (induction "D - w_now w" arbitrary: s w rule: less_induct)
  case less
  show ?case
    using less positive by (subst loop_is_while) (auto split: prod.splits sum.splits dest: returns progress)
qed

end

section \<open>Counting operations\<close>

definition same_log :: "'r world \<Rightarrow> 'r world \<Rightarrow> bool" where
  "same_log w w' \<longleftrightarrow> w_log w' = w_log w"

interpretation quiet: world_relation same_log
  by unfold_locales (simp_all add: same_log_def)

definition costs :: "nat \<Rightarrow> ('r, 'a) step \<Rightarrow> bool" where
  "costs n m \<longleftrightarrow> (\<forall>w. length (w_log (snd (m w))) \<le> length (w_log w) + n)"

lemma costs_quiet: "moves same_log m \<Longrightarrow> costs 0 m"
  by (simp add: costs_def moves_def same_log_def)

lemma costs_run: "costs 1 (client_run L argv timeout)"
  by (auto simp: costs_def client_run_def split: sum.splits prod.splits)

lemma costs_sleep: "costs 0 (sleep_s L n)"
  by (auto simp: costs_def sleep_s_def split: prod.splits)

lemma costs_bind:
  assumes "costs a m" and "\<And>x. costs b (k x)"
  shows "costs (a + b) (act_bind m k)"
  unfolding costs_def
proof (rule allI)
  fix w
  obtain r w' where m: "m w = (r, w')" by (cases "m w")
  show "length (w_log (snd (act_bind m k w))) \<le> length (w_log w) + (a + b)"
  proof (cases r)
    case (Inl e)
    then show ?thesis using assms(1) [unfolded costs_def, rule_format, of w] by (simp add: act_simps m)
  next
    case (Inr x)
    then show ?thesis using assms(1) [unfolded costs_def, rule_format, of w]
        assms(2) [of x, unfolded costs_def, rule_format, of w'] by (simp add: act_simps m)
  qed
qed

lemma costs_then: "costs a m \<Longrightarrow> costs b k \<Longrightarrow> costs (a + b) (act_then m k)"
  by (simp add: act_then_def costs_bind)

lemma costs_catch:
  assumes "costs a m" and "\<And>e. moves same_log (h e)"
  shows "costs a (catch_ssh m h)"
  unfolding costs_def
proof (rule allI)
  fix w
  obtain r w' where m: "m w = (r, w')" by (cases "m w")
  have "w_log (snd (h e w')) = w_log w'" for e using assms(2) by (simp add: moves_def same_log_def)
  then show "length (w_log (snd (catch_ssh m h w))) \<le> length (w_log w) + a"
    using assms(1) [unfolded costs_def, rule_format, of w]
    by (simp add: catch_ssh_def m split: sum.splits step_exc.splits)
qed

lemma costs_mono: "costs a m \<Longrightarrow> a \<le> b \<Longrightarrow> costs b m"
  unfolding costs_def by (meson add_le_mono le_refl le_trans)

text \<open>Actions that come back, with a result or an exception.\<close>

definition halts :: "('r, 'a) step \<Rightarrow> bool" where
  "halts m \<longleftrightarrow> (\<forall>w. fst (m w) \<noteq> Err Hangs)"

lemma halts_run: "halts (client_run L argv timeout)"
proof -
  have "fst (client_run L argv timeout w) \<noteq> Err Hangs" for w
    using client_run_raises [of L argv timeout w Hangs] by (cases "client_run L argv timeout w") auto
  then show ?thesis by (simp add: halts_def)
qed

lemma halts_basic: "halts (act_ret a)" "e \<noteq> Hangs \<Longrightarrow> halts (act_raise e)" "halts (of_result x)" "halts (sleep_s L n)"
  by (auto simp: halts_def act_simps of_result_def sleep_s_def split: sum.splits prod.splits)

lemma halts_bind: "halts m \<Longrightarrow> (\<And>x. halts (k x)) \<Longrightarrow> halts (act_bind m k)"
  unfolding halts_def by (simp add: act_simps split: prod.splits sum.splits) (metis fst_conv)

lemma halts_then: "halts m \<Longrightarrow> halts k \<Longrightarrow> halts (act_then m k)"
  by (simp add: act_then_def halts_bind)

lemma halts_catch: "halts m \<Longrightarrow> (\<And>e. halts (h e)) \<Longrightarrow> halts (catch_ssh m h)"
  unfolding halts_def catch_ssh_def by (simp split: prod.splits sum.splits step_exc.splits) (metis fst_conv)

lemma halts_suppress: "halts m \<Longrightarrow> halts (suppress_ssh m)"
  by (simp add: suppress_ssh_def halts_catch halts_bind halts_basic)

lemma halts_or_exit: "halts m \<Longrightarrow> halts (or_exit n m)"
  by (simp add: or_exit_def halts_catch halts_basic)

lemma halts_all: "(\<And>m. m \<in> set ms \<Longrightarrow> halts m) \<Longrightarrow> halts (act_all ms)"
  by (induction ms) (simp_all add: halts_basic halts_then)

lemmas halts_rules = halts_run halts_basic halts_bind halts_then halts_catch halts_suppress halts_or_exit halts_all

end
