(* ===== verification/Provision.thy ===== *)
theory Provision
  imports Remote Service
begin

text \<open>
  The steps of \<open>mower jetson bringup\<close>, \<open>cli/bringup.py\<close>: for each step the check that decides
  whether it can be skipped and the function that carries it out, as programs over a session with
  the Jetson. Console output is left out. Paths on the laptop are POSIX paths.
\<close>

section \<open>Context\<close>

record bringup_context =
  bc_project_root :: string
  bc_dry_run :: bool
  bc_yes :: bool
  bc_parallel_builds :: bool

definition bsl :: string where "bsl = [CHR 0x5C]"

definition user_of :: "'r laptop \<Rightarrow> string" where "user_of L = je_user (jc_endpoint (la_client L))"
definition host_of :: "'r laptop \<Rightarrow> string" where "host_of L = je_host (jc_endpoint (la_client L))"
definition home_of :: "'r laptop \<Rightarrow> string" where "home_of L = ''/home/'' @ user_of L"

definition confirm_or_skip :: "bringup_context \<Rightarrow> ('r, bool) step" where
  "confirm_or_skip B = (if bc_yes B then act_ret True else act_bind read_line (\<lambda>l. act_ret (prompt l)))"

text \<open>A step that asks first.\<close>

definition confirmed_step :: "bringup_context \<Rightarrow> ('r, unit) step \<Rightarrow> ('r, unit) step" where
  "confirmed_step B m = act_bind (confirm_or_skip B) (\<lambda>yes. if yes then m else act_ret ())"

text \<open>\<open>result.ok\<close> of a command, \<open>False\<close> on \<open>SshError\<close>.\<close>

definition run_succeeds :: "'r laptop \<Rightarrow> string list \<Rightarrow> nat \<Rightarrow> ('r, bool) step" where
  "run_succeeds L argv timeout = ssh_true (act_bind (client_run L argv timeout) (\<lambda>r. act_ret (sr_ok r)))"

text \<open>Several commands under one \<open>try\<close>: all are run, and all have to succeed.\<close>

fun run_each :: "'r laptop \<Rightarrow> (string list \<times> nat) list \<Rightarrow> ('r, bool) step" where
  "run_each L [] = act_ret True"
| "run_each L ((argv, timeout) # rest) =
     act_bind (client_run L argv timeout) (\<lambda>r. act_bind (run_each L rest) (\<lambda>b. act_ret (sr_ok r \<and> b)))"

section \<open>clear-host-key, check-ssh, enable-linger\<close>

definition stale_key_text :: "string \<Rightarrow> bool" where
  "stale_key_text s \<longleftrightarrow> str_contains ''remote host identification has changed'' (py_lower s)
     \<or> str_contains ''host key verification failed'' (py_lower s)"

text \<open>Of the messages of \<open>SshError\<close>, only the command and the path of \<open>ssh\<close> could hold these words.\<close>

definition stale_key_error :: "'r laptop \<Rightarrow> ssh_error \<Rightarrow> bool" where
  "stale_key_error L e =
     (case e of
        SshTimedOut argv \<Rightarrow> stale_key_text (join_with '' '' argv)
      | SshDisappeared \<Rightarrow> stale_key_text (case jc_ssh (la_client L) of None \<Rightarrow> [] | Some p \<Rightarrow> p)
      | _ \<Rightarrow> False)"

definition clear_host_key_needed :: "'r laptop \<Rightarrow> ('r, bool) step" where
  "clear_host_key_needed L =
     catch_ssh
       (act_bind (client_run L [''echo'', ''ok''] 30) (\<lambda>r. act_ret (sr_ok r \<or> \<not> stale_key_text (sr_stderr r))))
       (\<lambda>e. act_ret (\<not> stale_key_error L e))"

definition run_clear_host_key :: "'r laptop \<Rightarrow> ('r, unit) step" where
  "run_clear_host_key L =
     act_bind (local_run L [''ssh-keygen'', ''-R'', host_of L] 30) (\<lambda>out.
       case out of RunExit rc so se \<Rightarrow> if rc = 0 then act_ret () else act_raise (Exit 3) | _ \<Rightarrow> act_raise (Exit 3))"

definition check_ssh_ok :: "'r laptop \<Rightarrow> ('r, bool) step" where
  "check_ssh_ok L =
     ssh_true (act_bind (client_run L [''echo'', ''ok''] 30)
       (\<lambda>r. act_ret (sr_ok r \<and> str_contains ''ok'' (sr_stdout r))))"

definition run_check_ssh :: "'r laptop \<Rightarrow> ('r, unit) step" where
  "run_check_ssh L = act_raise (Exit 3)"

definition linger_enabled :: "'r laptop \<Rightarrow> ('r, bool) step" where
  "linger_enabled L =
     ssh_true (act_bind (client_run L [''loginctl'', ''show-user'', user_of L, ''-p'', ''Linger'', ''--value''] 15)
       (\<lambda>r. act_ret (sr_ok r \<and> py_lower (py_strip (sr_stdout r)) = ''yes'')))"

definition run_enable_linger :: "'r laptop \<Rightarrow> ('r, unit) step" where
  "run_enable_linger L =
     act_then (run_ok L [''sudo'', ''loginctl'', ''enable-linger'', user_of L] 30) (act_ret ())"

section \<open>harden-os, reboot-and-wait\<close>

definition harden_done :: "'r laptop \<Rightarrow> ('r, bool) step" where
  "harden_done L =
     ssh_true (act_bind (client_run L [''test'', ''-f'', ''/etc/ssh/sshd_config.d/90-mower-hardening.conf''] 10) (\<lambda>r1.
       act_bind (client_run L [''systemctl'', ''get-default''] 10)
         (\<lambda>r2. act_ret (sr_ok r1 \<and> py_strip (sr_stdout r2) = ''multi-user.target''))))"

text \<open>A local file that has to exist, pushed to the Jetson.\<close>

definition push_existing :: "'r laptop \<Rightarrow> string \<Rightarrow> string \<Rightarrow> ('r, unit) step" where
  "push_existing L local_path remote_path =
     act_bind (look (la_exists L local_path)) (\<lambda>there.
       if there then act_then (or_exit 3 (client_push L local_path remote_path)) (act_ret ())
       else act_raise (Exit 3))"

definition run_harden :: "'r laptop \<Rightarrow> bringup_context \<Rightarrow> ('r, unit) step" where
  "run_harden L B =
     confirmed_step B
       (act_then (push_existing L (path_join (bc_project_root B) ''scripts/jetson-harden.sh'') ''~/jetson-harden.sh'')
       (act_then (run_ok L [''sudo'', ''bash'', ''~/jetson-harden.sh'', ''--os-only''] 300)
          (suppress_ssh (client_run L [''rm'', ''-f'', ''~/jetson-harden.sh''] 10))))"

definition autosuspend_arg :: string where "autosuspend_arg = ''usbcore.autosuspend=-1''"

definition reboot_check :: "'r laptop \<Rightarrow> ('r, bool) step" where
  "reboot_check L =
     ssh_true (act_bind (client_run L [''cat'', ''/proc/cmdline''] 30)
       (\<lambda>r. act_ret (sr_ok r \<and> str_contains autosuspend_arg (sr_stdout r))))"

text \<open>The loop that waits for the Jetson: \<open>connected\<close> and whether the pass left the loop.\<close>

definition await_pass :: "'r laptop \<Rightarrow> bool \<Rightarrow> ('r, bool \<times> bool) step" where
  "await_pass L up =
     act_then (sleep_s L 10)
       (catch_ssh (act_bind (client_run L [''echo'', ''ok''] 15)
            (\<lambda>r. act_ret (if sr_ok r then (True, True) else (up, False))))
          (\<lambda>_. act_ret (up, False)))"

definition seconds :: "nat \<Rightarrow> nat" where "seconds n = n * 1000000"

definition await_jetson :: "'r laptop \<Rightarrow> ('r, unit) step" where
  "await_jetson L =
     (\<lambda>w. act_bind (timed_loop (w_now w + seconds 180) (await_pass L) False)
            (\<lambda>up. if up then act_ret () else act_raise (Exit 3)) w)"

definition reboot_and_await :: "'r laptop \<Rightarrow> ('r, unit) step" where
  "reboot_and_await L = act_then (suppress_ssh (client_run L [''sudo'', ''reboot''] 10)) (await_jetson L)"

definition run_reboot_and_wait :: "'r laptop \<Rightarrow> ('r, unit) step" where
  "run_reboot_and_wait L =
     act_then (reboot_and_await L)
       (act_bind (or_exit 3 (client_run L [''cat'', ''/proc/cmdline''] 15))
          (\<lambda>r. if str_contains autosuspend_arg (sr_stdout r) then act_ret () else act_raise (Exit 3)))"

section \<open>Version markers and the binary archive\<close>

definition RTABMAP_VERSION :: string where "RTABMAP_VERSION = ''0.21.6-rolling''"
definition DEPTHAI_VERSION :: string where "DEPTHAI_VERSION = ''v3.5.0''"
definition SLAM_NODE_VERSION :: string where "SLAM_NODE_VERSION = ''1.0.0''"
definition KIOSK_RENDERER_VERSION :: string where "KIOSK_RENDERER_VERSION = ''1.0.0''"
definition VERSION_MARKER_DIR :: string where "VERSION_MARKER_DIR = ''/usr/local/share/mower-build''"

definition backup_dir :: "'r laptop \<Rightarrow> string" where
  "backup_dir L = path_join (la_home L) ''.local/share/mower/backups''"

definition read_version_marker :: "'r laptop \<Rightarrow> string \<Rightarrow> ('r, pyval option) step" where
  "read_version_marker L component =
     catch_ssh
       (act_bind (client_run L [''cat'', VERSION_MARKER_DIR @ ''/'' @ component @ ''.json''] 15) (\<lambda>r.
          act_ret (if sr_ok r \<and> py_strip (sr_stdout r) \<noteq> [] then la_loads L (sr_stdout r) else None)))
       (\<lambda>_. act_ret None)"

text \<open>\<open>marker is not None and marker.get("version") == version\<close>; the JSON value \<open>null\<close> is \<open>None\<close>.\<close>

definition marker_matches :: "pyval option \<Rightarrow> string \<Rightarrow> (pyexc, bool) result" where
  "marker_matches marker version =
     (case marker of
        None \<Rightarrow> Ok False
      | Some VNone \<Rightarrow> Ok False
      | Some (VDict d) \<Rightarrow> Ok (dict_get d ''version'' = Some (VStr version))
      | Some _ \<Rightarrow> Err AttributeError)"

fun all_match :: "(pyval option \<times> string) list \<Rightarrow> (pyexc, bool) result" where
  "all_match [] = Ok True"
| "all_match ((m, v) # rest) = bindr (marker_matches m v) (\<lambda>b. if b then all_match rest else Ok False)"

definition restore_binaries_check :: "'r laptop \<Rightarrow> ('r, bool) step" where
  "restore_binaries_check L =
     act_bind (read_version_marker L ''rtabmap'') (\<lambda>rtabmap.
     act_bind (read_version_marker L ''depthai'') (\<lambda>depthai.
     act_bind (read_version_marker L ''slam_node'') (\<lambda>slam.
     of_result (all_match [(rtabmap, RTABMAP_VERSION), (depthai, DEPTHAI_VERSION), (slam, SLAM_NODE_VERSION)]))))"

definition restore_archive :: "'r laptop \<Rightarrow> string \<Rightarrow> ('r, unit) step" where
  "restore_archive L name =
     act_then (or_exit 3 (client_push L (path_join (backup_dir L) name) (''~/'' @ name)))
     (act_then (run_ok L [''sudo tar -xzf ~/'' @ name @ '' -C / && sudo ldconfig''] 300)
        (suppress_ssh (client_run L [''rm -f ~/'' @ name] 10)))"

definition run_restore_binaries :: "'r laptop \<Rightarrow> ('r, unit) step" where
  "run_restore_binaries L =
     act_bind (look (la_is_dir L (backup_dir L))) (\<lambda>there.
       if \<not> there then act_ret ()
       else act_bind (look (la_glob L (backup_dir L) ''mower-binaries-*.tar.gz'')) (\<lambda>names.
         case rev (sort names) of [] \<Rightarrow> act_ret () | name # _ \<Rightarrow> restore_archive L name))"

section \<open>Builds\<close>

definition BUILD_APT_PACKAGES :: "string list" where
  "BUILD_APT_PACKAGES =
     [''cmake'', ''build-essential'', ''git'', ''ccache'', ''jq'', ''libopencv-dev'', ''libsqlite3-dev'',
      ''libpcl-dev'', ''libboost-all-dev'', ''libeigen3-dev'', ''libsuitesparse-dev'', ''libusb-1.0-0-dev'',
      ''libsystemd-dev'', ''libyaml-cpp-dev'', ''sqlite3'', ''libgirepository1.0-dev'', ''libcairo2-dev'',
      ''gir1.2-gtk-4.0'', ''libwayland-dev'', ''libxkbcommon-dev'']"

definition build_deps_check :: "'r laptop \<Rightarrow> ('r, bool) step" where
  "build_deps_check L = run_succeeds L ([''dpkg'', ''-s''] @ BUILD_APT_PACKAGES) 15"

definition run_install_build_deps :: "'r laptop \<Rightarrow> ('r, unit) step" where
  "run_install_build_deps L =
     act_then (run_ok L [''sudo'', ''bash'', ''-c'',
         ''apt-get update -qq && apt-get install -y --no-install-recommends '' @ join_with '' '' BUILD_APT_PACKAGES] 300)
       (suppress_ssh (client_run L [''sudo'', ''bash'', ''-c'',
         ''mkdir -p /var/lib/mower/ccache && CCACHE_DIR=/var/lib/mower/ccache ccache -M 5G''] 15))"

text \<open>
  \<open>_push_and_run_build\<close> as a program of operations, because two builds may run in threads. The
  script's temporary file is removed whether the push succeeds or not, and the remote copy whether
  the build succeeds or not.
\<close>

definition push_script :: "'r laptop \<Rightarrow> string \<Rightarrow> string \<Rightarrow> ('r world, step_exc, unit) prog" where
  "push_script L name content =
     prog_bind (op_prog (look (la_tmpdir L))) (\<lambda>tmp.
       let local_tmp = tmp @ ''/'' @ name
       in prog_finally
            (prog_bind (op_prog (file_op L (LocalWrite local_tmp content))) (\<lambda>_.
             prog_bind (op_prog (client_push L local_tmp (''/tmp/'' @ name))) (\<lambda>_. Finished (Ok ()))))
            (prog_bind (op_prog (file_op L (LocalUnlink local_tmp))) (\<lambda>_. op_prog (file_op L (LocalRmdir tmp)))))"

definition build_verdict :: "(step_exc, ssh_result) result \<Rightarrow> (step_exc, unit) result" where
  "build_verdict r = bindr r (\<lambda>res. if sr_ok res then Ok () else Err (Exit 3))"

definition push_and_run_build :: "'r laptop \<Rightarrow> string \<Rightarrow> string \<Rightarrow> ('r world, step_exc, unit) prog" where
  "push_and_run_build L name content =
     prog_bind (push_script L name content) (\<lambda>_.
       prog_then
         (prog_finally (op_prog (or_exit 3 (client_stream L [''sudo'', ''bash'', ''/tmp/'' @ name])))
            (op_prog (suppress_ssh (client_run L [''rm'', ''-f'', ''/tmp/'' @ name] 10))))
         (\<lambda>r. Finished (build_verdict r)))"

definition marker_cmd :: "string \<Rightarrow> string \<Rightarrow> string" where
  "marker_cmd component version =
     ''printf '' @ sq @ ''{'' @ dq @ ''component'' @ dq @ '':'' @ dq @ component @ dq @ '','' @ dq @ ''version'' @ dq @ '':''
     @ dq @ version @ dq @ '','' @ dq @ ''built'' @ dq @ '':'' @ dq @ ''%s'' @ dq @ ''}'' @ bsl @ ''n'' @ sq @ ''     ''
     @ dq @ ''$(date -u +%Y-%m-%dT%H:%M:%SZ)'' @ dq @ ''     | tee '' @ VERSION_MARKER_DIR @ ''/'' @ component @ ''.json''"

definition version_check :: "'r laptop \<Rightarrow> string \<Rightarrow> string \<Rightarrow> ('r, bool) step" where
  "version_check L component version =
     act_bind (read_version_marker L component) (\<lambda>m. of_result (marker_matches m version))"

definition build_rtabmap_check :: "'r laptop \<Rightarrow> ('r, bool) step" where
  "build_rtabmap_check L = version_check L ''rtabmap'' RTABMAP_VERSION"

definition rtabmap_script :: "string \<Rightarrow> string \<Rightarrow> string" where
  "rtabmap_script tag jobs =
     ln ''#!/usr/bin/env bash''
   @ ln ''set -euo pipefail''
   @ ln []
   @ ln ''export CCACHE_DIR=/var/lib/mower/ccache''
   @ ln []
   @ ln ''if [ -d /opt/rtabmap-src/.git ]; then''
   @ ln (''    cd /opt/rtabmap-src && git checkout '' @ tag @ '' 2>/dev/null || true'')
   @ ln ''else''
   @ ln ''    rm -rf /opt/rtabmap-src''
   @ ln (''    git clone --depth 1 --branch '' @ tag @ ''         https://github.com/introlab/rtabmap.git /opt/rtabmap-src'')
   @ ln ''fi''
   @ ln []
   @ ln ''mkdir -p /opt/rtabmap-src/build''
   @ ln ''cd /opt/rtabmap-src/build''
   @ ln []
   @ ln ''cmake ..     -DCMAKE_BUILD_TYPE=Release     -DCMAKE_INSTALL_PREFIX=/usr/local     -DCMAKE_CXX_COMPILER_LAUNCHER=ccache     -DCMAKE_C_COMPILER_LAUNCHER=ccache     -DCMAKE_CUDA_COMPILER_LAUNCHER=ccache     -DWITH_CUDA=ON -DWITH_QT=OFF -DWITH_PYTHON=OFF -DBUILD_EXAMPLES=OFF''
   @ ln []
   @ ln (''make -j'' @ jobs)
   @ ln ''make install''
   @ ln ''ldconfig''
   @ ln []
   @ ln (''mkdir -p '' @ VERSION_MARKER_DIR)
   @ ln (marker_cmd ''rtabmap'' tag)"

definition build_rtabmap :: "'r laptop \<Rightarrow> string \<Rightarrow> ('r world, step_exc, unit) prog" where
  "build_rtabmap L jobs = push_and_run_build L ''mower-build-rtabmap.sh'' (rtabmap_script RTABMAP_VERSION jobs)"

definition run_build_rtabmap :: "'r laptop \<Rightarrow> string \<Rightarrow> ('r, unit) step" where
  "run_build_rtabmap L jobs = run_prog (build_rtabmap L jobs)"

definition build_depthai_check :: "'r laptop \<Rightarrow> ('r, bool) step" where
  "build_depthai_check L = version_check L ''depthai'' DEPTHAI_VERSION"

definition depthai_script :: "string \<Rightarrow> string \<Rightarrow> string" where
  "depthai_script tag jobs =
     ln ''#!/usr/bin/env bash''
   @ ln ''set -euo pipefail''
   @ ln []
   @ ln ''export CCACHE_DIR=/var/lib/mower/ccache''
   @ ln []
   @ ln ''if [ -d /opt/depthai-core-src/.git ]; then''
   @ ln (''    echo '' @ dq @ ''Re-using existing source'' @ dq)
   @ ln ''else''
   @ ln ''    rm -rf /opt/depthai-core-src''
   @ ln (''    git clone --depth 1 --branch '' @ tag @ '' --recursive         https://github.com/luxonis/depthai-core.git /opt/depthai-core-src'')
   @ ln ''fi''
   @ ln []
   @ ln ''mkdir -p /opt/depthai-core-src/build''
   @ ln ''cd /opt/depthai-core-src/build''
   @ ln []
   @ ln ''cmake ..     -DCMAKE_BUILD_TYPE=Release     -DCMAKE_INSTALL_PREFIX=/usr/local     -DCMAKE_CXX_COMPILER_LAUNCHER=ccache     -DCMAKE_C_COMPILER_LAUNCHER=ccache     -DBUILD_SHARED_LIBS=ON''
   @ ln []
   @ ln (''make -j'' @ jobs)
   @ ln ''make install''
   @ ln ''ldconfig''
   @ ln []
   @ ln (''mkdir -p '' @ VERSION_MARKER_DIR)
   @ ln (marker_cmd ''depthai'' tag)"

definition build_depthai :: "'r laptop \<Rightarrow> string \<Rightarrow> ('r world, step_exc, unit) prog" where
  "build_depthai L jobs = push_and_run_build L ''mower-build-depthai.sh'' (depthai_script DEPTHAI_VERSION jobs)"

definition run_build_depthai :: "'r laptop \<Rightarrow> string \<Rightarrow> ('r, unit) step" where
  "run_build_depthai L jobs = run_prog (build_depthai L jobs)"

definition build_slam_node_check :: "'r laptop \<Rightarrow> ('r, bool) step" where
  "build_slam_node_check L =
     act_bind (run_succeeds L [''test'', ''-f'', ''/usr/local/bin/rtabmap_slam_node''] 10) (\<lambda>there.
       if there then version_check L ''slam_node'' SLAM_NODE_VERSION else act_ret False)"

text \<open>
  \<open>str(Path(remote).parent)\<close>, and the files of a source tree in the order in which \<open>rglob\<close> finds
  them: the directory on the Jetson is made as far as possible, the copy has to succeed.
\<close>

definition parent_path :: "string \<Rightarrow> string" where
  "parent_path p = join_with ''/'' (butlast (split_char (CHR ''/'') p))"

definition push_tree_file :: "'r laptop \<Rightarrow> string \<Rightarrow> string \<Rightarrow> string \<Rightarrow> ('r, unit) step" where
  "push_tree_file L contrib remote_dir rel =
     (let remote = remote_dir @ ''/'' @ rel
      in act_then (suppress_ssh (client_run L [''mkdir -p '' @ parent_path remote] 10))
           (act_then (or_exit 3 (client_push L (path_join contrib rel) remote)) (act_ret ())))"

definition push_tree :: "'r laptop \<Rightarrow> string \<Rightarrow> string \<Rightarrow> ('r, unit) step" where
  "push_tree L contrib remote_dir =
     act_bind (look (la_glob L contrib ''**'')) (\<lambda>rels. act_all (map (push_tree_file L contrib remote_dir) rels))"

definition slam_node_script :: string where
  "slam_node_script =
     ln ''#!/usr/bin/env bash''
   @ ln ''set -euo pipefail''
   @ ln []
   @ ln ''mkdir -p /tmp/rtabmap_slam_node/build''
   @ ln ''cd /tmp/rtabmap_slam_node/build''
   @ ln []
   @ ln ''cmake .. -DCMAKE_BUILD_TYPE=Release     -DCMAKE_INSTALL_PREFIX=/usr/local     -DCMAKE_PREFIX_PATH=/usr/local/lib/rtabmap-0.21''
   @ ln ''make -j$(nproc)''
   @ ln ''make install''
   @ ln []
   @ ln (''mkdir -p '' @ VERSION_MARKER_DIR)
   @ ln (marker_cmd ''slam_node'' SLAM_NODE_VERSION)"

definition run_build_slam_node :: "'r laptop \<Rightarrow> bringup_context \<Rightarrow> ('r, unit) step" where
  "run_build_slam_node L B =
     (let contrib = path_join (bc_project_root B) ''contrib/rtabmap_slam_node'' in
      act_bind (look (la_is_dir L contrib)) (\<lambda>there.
        if \<not> there then act_raise (Exit 3)
        else act_then (suppress_ssh (client_run L [''mkdir'', ''-p'', ''/tmp/rtabmap_slam_node''] 10))
            (act_then (push_tree L contrib ''/tmp/rtabmap_slam_node'')
            (act_then (run_prog (push_and_run_build L ''mower-build-slam-node.sh'' slam_node_script))
               (suppress_ssh (client_run L [''rm'', ''-rf'', ''/tmp/rtabmap_slam_node''] 10))))))"

definition build_kiosk_renderer_check :: "'r laptop \<Rightarrow> ('r, bool) step" where
  "build_kiosk_renderer_check L = run_succeeds L [''test'', ''-f'', ''/usr/local/bin/mower-kiosk-renderer''] 10"

definition kiosk_renderer_script :: string where
  "kiosk_renderer_script =
     ln ''#!/usr/bin/env bash''
   @ ln ''set -euo pipefail''
   @ ln []
   @ ln ''cd /tmp/lvgl_kiosk''
   @ ln ''cmake -B build -DCMAKE_BUILD_TYPE=Release -DCMAKE_INSTALL_PREFIX=/usr/local''
   @ ln ''cmake --build build -j$(nproc)''
   @ ln ''sudo cmake --install build''
   @ ln []
   @ ln (''mkdir -p '' @ VERSION_MARKER_DIR)
   @ ln (marker_cmd ''kiosk_renderer'' KIOSK_RENDERER_VERSION)"

definition run_build_kiosk_renderer :: "'r laptop \<Rightarrow> bringup_context \<Rightarrow> ('r, unit) step" where
  "run_build_kiosk_renderer L B =
     (let contrib = path_join (bc_project_root B) ''contrib/lvgl_kiosk'' in
      act_bind (look (la_is_dir L contrib)) (\<lambda>there.
        if \<not> there then act_raise (Exit 3)
        else act_then (suppress_ssh (client_run L [''rm'', ''-rf'', ''/tmp/lvgl_kiosk''] 10))
            (act_then (suppress_ssh (client_run L [''mkdir'', ''-p'', ''/tmp/lvgl_kiosk''] 10))
            (act_then (push_tree L contrib ''/tmp/lvgl_kiosk'')
            (act_then (run_prog (push_and_run_build L ''mower-build-kiosk-renderer.sh'' kiosk_renderer_script))
               (suppress_ssh (client_run L [''rm'', ''-rf'', ''/tmp/lvgl_kiosk''] 10)))))))"

definition archive_name :: "string \<Rightarrow> string" where
  "archive_name today = ''mower-binaries-'' @ today @ ''.tar.gz''"

definition archive_binaries_check :: "'r laptop \<Rightarrow> ('r, bool) step" where
  "archive_binaries_check L =
     look (\<lambda>r. la_exists L (path_join (backup_dir L) (archive_name (la_today L r))) r)"

definition tar_cmd :: "string \<Rightarrow> string" where
  "tar_cmd remote_archive =
     ''tar -czf '' @ remote_archive
     @ '' /usr/local/lib/librtabmap*'' @ '' /usr/local/lib/libdepthai*'' @ '' /usr/local/bin/rtabmap*''
     @ '' /usr/local/bin/rtabmap_slam_node'' @ '' /usr/local/bin/mower-kiosk-renderer''
     @ '' '' @ VERSION_MARKER_DIR @ ''/'' @ '' 2>/dev/null || true''"

text \<open>A failure is reported and ends the step without an exception.\<close>

definition pull_archive :: "'r laptop \<Rightarrow> string \<Rightarrow> ('r, unit) step" where
  "pull_archive L name =
     act_then (file_op L (LocalMkdir (backup_dir L)))
       (catch_ssh (act_then (client_pull L (''/tmp/'' @ name) (path_join (backup_dir L) name))
            (suppress_ssh (client_run L [''rm -f /tmp/'' @ name] 10)))
          (\<lambda>_. act_ret ()))"

definition run_archive_binaries :: "'r laptop \<Rightarrow> ('r, unit) step" where
  "run_archive_binaries L =
     act_bind (look (\<lambda>r. archive_name (la_today L r))) (\<lambda>name.
     act_bind (catch_ssh (act_bind (client_run L [tar_cmd (''/tmp/'' @ name)] 120) (\<lambda>r. act_ret (sr_ok r)))
         (\<lambda>_. act_ret False)) (\<lambda>ok.
     if ok then pull_archive L name else act_ret ()))"

end
