(* ===== verification/Deploy.thy ===== *)
theory Deploy
  imports Provision
begin

text \<open>
  The steps of \<open>cli/bringup.py\<close> that install the program and its services on the Jetson and verify
  them: uv, the CLI wheel, the remote probes, the configuration, the map databases, the systemd units
  and the final reboot.
\<close>

section \<open>install-uv, install-cli\<close>

definition uv_installed :: "'r laptop \<Rightarrow> ('r, bool) step" where
  "uv_installed L = run_succeeds L [''~/.local/bin/uv'', ''--version''] 15"

definition run_install_uv :: "'r laptop \<Rightarrow> ('r, unit) step" where
  "run_install_uv L =
     act_bind (run_succeeds L [''which'', ''curl''] 10) (\<lambda>has_curl.
     act_then (run_ok L [if has_curl then ''curl -LsSf https://astral.sh/uv/install.sh | sh''
                         else ''wget -qO- https://astral.sh/uv/install.sh | sh''] 120)
     (act_then (run_ok L [''~/.local/bin/uv'', ''python'', ''install'', ''3.11''] 300) (act_ret ())))"

definition cli_installed :: "'r laptop \<Rightarrow> ('r, bool) step" where
  "cli_installed L = run_succeeds L [''~/.local/bin/mower-jetson'', ''--version''] 15"

text \<open>The wheel is built in a temporary directory that lives until the push is over.\<close>

definition build_wheel :: "'r laptop \<Rightarrow> string \<Rightarrow> ('r, string) step" where
  "build_wheel L tmp =
     act_bind (local_run L [''uv'', ''build'', ''--wheel'', ''--out-dir'', tmp] 120) (\<lambda>out.
       case out of
         RunExit rc so se \<Rightarrow>
           if rc \<noteq> 0 then act_raise (Exit 3)
           else act_bind (look (la_glob L tmp ''*.whl'')) (\<lambda>whls.
             case whls of [] \<Rightarrow> act_raise (Exit 3) | whl # _ \<Rightarrow> act_ret whl)
       | _ \<Rightarrow> act_raise (Exit 3))"

definition push_wheel :: "'r laptop \<Rightarrow> ('r, string) step" where
  "push_wheel L =
     act_bind (look (la_tmpdir L)) (\<lambda>tmp.
       act_finally
         (act_bind (build_wheel L tmp) (\<lambda>whl.
            act_then (or_exit 3 (client_push L (path_join tmp whl) (''~/'' @ whl))) (act_ret whl)))
         (file_op L (LocalRmtree tmp)))"

definition run_install_cli :: "'r laptop \<Rightarrow> ('r, unit) step" where
  "run_install_cli L =
     act_bind (push_wheel L) (\<lambda>whl.
     act_then (run_ok L [''~/.local/bin/uv tool install --python 3.11 --force'' @ '' ~/'' @ whl @ ''[jetson]''] 300)
       (suppress_ssh (client_run L [''rm'', ''-f'', ''~/'' @ whl] 10)))"

section \<open>Remote probes\<close>

definition DEFERRED_CHECKS :: "string list" where
  "DEFERRED_CHECKS =
     [''health_service'', ''vslam_process'', ''vslam_bridge'', ''vslam_socket_active'', ''vslam_pose_rate'',
      ''vslam_params'', ''oakd_vslam_config'', ''vslam_confidence'', ''oakd'', ''usbcore_quirks'',
      ''waveshare_hub'', ''oakd_udev_rule'', ''oakd_usb_autosuspend'', ''oakd_usbfs_memory'',
      ''kiosk_weston_active'', ''kiosk_data_active'', ''kiosk_renderer_active'', ''kiosk_active'', ''mavproxy_active'']"

definition HW_DEPENDENT :: "string list" where
  "HW_DEPENDENT =
     [''health_service'', ''vslam_process'', ''vslam_bridge'', ''vslam_socket_active'', ''vslam_pose_rate'',
      ''vslam_params'', ''oakd_vslam_config'', ''vslam_confidence'', ''oakd'', ''waveshare_hub'']"

text \<open>\<open>for c in checks\<close> and \<open>c.get(key, default)\<close> on what \<open>json.loads\<close> returned.\<close>

fun iter_py :: "pyval \<Rightarrow> (pyexc, pyval list) result" where
  "iter_py (VList xs) = Ok xs"
| "iter_py (VDict d) = Ok (map (\<lambda>kv. VStr (fst kv)) d)"
| "iter_py (VStr s) = Ok (map (\<lambda>c. VStr [c]) s)"
| "iter_py v = Err TypeError"

fun py_get :: "pyval \<Rightarrow> string \<Rightarrow> pyval \<Rightarrow> (pyexc, pyval) result" where
  "py_get (VDict d) k dflt = Ok (dict_get_or d k dflt)"
| "py_get v k dflt = Err AttributeError"

fun hashable :: "pyval \<Rightarrow> bool" where
  "hashable (VList xs) = False"
| "hashable (VDict d) = False"
| "hashable v = True"

fun cell_ok :: "pyval \<Rightarrow> bool" where
  "cell_ok (VStr s) = True"
| "cell_ok VNone = True"
| "cell_ok v = False"

text \<open>A row of the table: the status is looked up in a dictionary of symbols, the cells are text.\<close>

definition probe_row :: "pyval \<Rightarrow> ('r, unit) step" where
  "probe_row c =
     act_bind (of_result (py_get c ''status'' (VStr ''?''))) (\<lambda>status.
     if \<not> hashable status then act_raise (Raised TypeError)
     else act_bind (of_result (py_get c ''name'' (VStr ''?''))) (\<lambda>name.
       act_bind (of_result (py_get c ''severity'' (VStr ''?''))) (\<lambda>severity.
       act_bind (of_result (py_get c ''detail'' (VStr []))) (\<lambda>detail.
       if cell_ok name \<and> cell_ok severity \<and> cell_ok detail then act_ret () else act_raise NotRenderable))))"

definition critical_fail :: "pyval \<Rightarrow> (pyexc, pyval list) result" where
  "critical_fail c =
     bindr (py_get c ''status'' VNone) (\<lambda>status.
       if status = VStr ''fail''
       then bindr (py_get c ''severity'' VNone) (\<lambda>severity.
         if severity = VStr ''critical'' then bindr (py_get c ''name'' (VStr ''?'')) (\<lambda>n. Ok [n]) else Ok [])
       else Ok [])"

definition critical_fails :: "pyval list \<Rightarrow> (pyexc, pyval list) result" where
  "critical_fails cs = bindr (mapr critical_fail cs) (\<lambda>fs. Ok (concat fs))"

text \<open>\<open>[f for f in fails if f not in names]\<close>; \<open>', '.join(fails)\<close> for the error message.\<close>

definition not_among :: "string list \<Rightarrow> pyval list \<Rightarrow> (pyexc, pyval list) result" where
  "not_among names fails =
     (if list_all hashable fails then Ok (filter (\<lambda>f. f \<notin> VStr ` set names) fails) else Err TypeError)"

definition exit_listing :: "pyval list \<Rightarrow> ('r, unit) step" where
  "exit_listing fails =
     (if fails = [] then act_ret ()
      else if list_all (\<lambda>f. as_str f \<noteq> None) fails then act_raise (Exit 1)
      else act_raise (Raised TypeError))"

definition probe_cmd :: "string list" where
  "probe_cmd = [''~/.local/bin/mower-jetson'', ''probe'', ''--json'']"

definition run_verify :: "'r laptop \<Rightarrow> ('r, unit) step" where
  "run_verify L =
     act_bind (or_exit 3 (client_run L probe_cmd 30)) (\<lambda>r.
     if \<not> sr_ok r \<and> py_strip (sr_stdout r) = [] then act_raise (Exit 3)
     else case la_loads L (sr_stdout r) of
            None \<Rightarrow> act_raise (Exit 3)
          | Some v \<Rightarrow>
              act_bind (of_result (iter_py v)) (\<lambda>checks.
              act_then (act_all (map probe_row checks))
              (act_bind (of_result (critical_fails checks)) (\<lambda>fails.
               act_bind (of_result (not_among DEFERRED_CHECKS fails)) exit_listing))))"

section \<open>service, pixhawk-udev\<close>

definition is_active_cmd :: "string \<Rightarrow> string list \<times> nat" where
  "is_active_cmd unit = ([''systemctl'', ''is-active'', unit], 10)"

definition is_enabled_cmd :: "string \<Rightarrow> string list \<times> nat" where
  "is_enabled_cmd unit = ([''systemctl'', ''is-enabled'', unit], 10)"

definition service_active :: "'r laptop \<Rightarrow> ('r, bool) step" where
  "service_active L =
     ssh_true (run_each L [is_active_cmd ''mower-health.service'', is_enabled_cmd ''mower-health.service''])"

definition target_args :: "'r laptop \<Rightarrow> string" where
  "target_args L = '' --target-user '' @ user_of L @ '' --target-home '' @ home_of L"

definition run_service :: "'r laptop \<Rightarrow> bringup_context \<Rightarrow> ('r, unit) step" where
  "run_service L B =
     confirmed_step B
       (act_then (suppress_ssh (client_run L
          [''~/.local/bin/mower-jetson service cleanup-user-units --unit '' @ UNIT_NAME] 30))
       (act_then (run_ok L [''sudo ~/.local/bin/mower-jetson service install --yes'' @ target_args L] 60)
       (act_then (run_ok L [''sudo systemctl start mower-health.service''] 120) (act_ret ()))))"

definition pixhawk_udev_done :: "'r laptop \<Rightarrow> ('r, bool) step" where
  "pixhawk_udev_done L =
     ssh_true (run_each L [([''test'', ''-f'', ''/etc/udev/rules.d/90-pixhawk-usb.rules''], 10),
       ([''test'', ''-d'', ''/var/lib/mower''], 10), ([''test'', ''-d'', ''/etc/mower''], 10)])"

definition run_pixhawk_udev :: "'r laptop \<Rightarrow> bringup_context \<Rightarrow> ('r, unit) step" where
  "run_pixhawk_udev L B =
     (let u = user_of L in
      confirmed_step B
        (act_then (push_existing L (path_join (bc_project_root B) ''scripts/90-pixhawk-usb.rules'') ''~/90-pixhawk-usb.rules'')
        (act_then (run_ok L [''sudo cp ~/90-pixhawk-usb.rules /etc/udev/rules.d/''] 30)
        (act_then (run_ok L [''sudo udevadm control --reload-rules && sudo udevadm trigger''] 30)
        (act_then (run_ok L [''sudo mkdir -p /var/lib/mower /etc/mower /run/mower''
             @ '' && sudo chown '' @ u @ '':'' @ u @ '' /var/lib/mower /etc/mower /run/mower''] 30)
           (suppress_ssh (client_run L [''rm'', ''-f'', ''~/90-pixhawk-usb.rules''] 10)))))))"

section \<open>vslam-config, vslam-db-check\<close>

definition DEFAULT_DB :: string where "DEFAULT_DB = ''/var/lib/mower/rtabmap.db''"

definition resolve_active_db_path :: "'r laptop \<Rightarrow> ('r, string) step" where
  "resolve_active_db_path L =
     catch_ssh
       (act_bind (client_run L [''python3'', ''-c'',
            ''import yaml; c=yaml.safe_load(open('' @ sq @ ''/etc/mower/vslam.yaml'' @ sq @ ''));''
            @ ''print(c.get('' @ sq @ ''vslam'' @ sq @ '',{}).get('' @ sq @ ''database_path'' @ sq @ '','' @ sq
            @ DEFAULT_DB @ sq @ ''))''] 15)
          (\<lambda>r. act_ret (if sr_ok r then py_strip (sr_stdout r) else DEFAULT_DB)))
       (\<lambda>_. act_ret DEFAULT_DB)"

definition vslam_config_exists :: "'r laptop \<Rightarrow> ('r, bool) step" where
  "vslam_config_exists L = run_succeeds L [''test'', ''-f'', ''/etc/mower/vslam.yaml''] 10"

text \<open>The packaged defaults are a file of the installed package, \<open>config/data/vslam_defaults.yaml\<close>.\<close>

definition run_vslam_config :: "'r laptop \<Rightarrow> ('r, unit) step" where
  "run_vslam_config L =
     act_then (or_exit 3 (client_push L (la_vslam_defaults L) ''~/vslam.yaml''))
     (act_then (run_ok L [''sudo cp ~/vslam.yaml /etc/mower/vslam.yaml''] 30)
     (act_then (suppress_ssh (client_run L [''rm'', ''-f'', ''~/vslam.yaml''] 10))
     (act_bind (resolve_active_db_path L) (\<lambda>current_db.
        if current_db = DEFAULT_DB
        then act_then (suppress_ssh (client_run L [''sudo'', ''mkdir'', ''-p'', ''/var/lib/mower/zones/_test''] 10))
               (suppress_ssh (client_run L [''sudo'', ''sed'', ''-i'',
                  ''s|database_path: '' @ DEFAULT_DB @ ''|'' @ ''database_path: '' @ ''/var/lib/mower/zones/_test'' @ ''/rtabmap.db|'',
                  ''/etc/mower/vslam.yaml''] 10))
        else act_ret ()))))"

definition RTABMAP_DB_MAX_BYTES :: int where "RTABMAP_DB_MAX_BYTES = 10 * 1024 * 1024 * 1024"

definition quarantine_cmd :: "string \<Rightarrow> string list" where
  "quarantine_cmd db_path = [''bash'', ''-c'', ''mv '' @ db_path @ '' '' @ db_path @ ''.corrupt-$(date -u +%Y%m%dT%H%M%SZ)'']"

definition quarantine_db :: "'r laptop \<Rightarrow> string \<Rightarrow> ('r, unit) step" where
  "quarantine_db L db_path = suppress_ssh (client_run L (quarantine_cmd db_path) 15)"

text \<open>The size check and the integrity check; \<open>None\<close> where the database is to be quarantined.\<close>

definition size_plausible :: "string \<Rightarrow> bool" where
  "size_plausible out =
     (case parse_int (py_strip out) of None \<Rightarrow> False | Some n \<Rightarrow> n \<noteq> 0 \<and> n \<le> RTABMAP_DB_MAX_BYTES)"

definition check_single_db :: "'r laptop \<Rightarrow> string \<Rightarrow> ('r, unit) step" where
  "check_single_db L db_path =
     act_bind (run_succeeds L [''test'', ''-f'', db_path] 15) (\<lambda>there.
     if \<not> there then act_ret ()
     else act_bind (ssh_true (act_bind (client_run L [''stat'', ''-c'', ''%s'', db_path] 15)
            (\<lambda>r. act_ret (sr_ok r \<and> size_plausible (sr_stdout r))))) (\<lambda>plausible.
       if \<not> plausible then quarantine_db L db_path
       else act_bind (ssh_true (act_bind (client_run L [''sqlite3'', db_path, ''PRAGMA integrity_check;''] 60)
              (\<lambda>r. act_ret (py_strip (sr_stdout r) = ''ok'')))) (\<lambda>intact.
         if intact then act_ret () else quarantine_db L db_path)))"

fun check_zone_dbs :: "'r laptop \<Rightarrow> string list \<Rightarrow> string list \<Rightarrow> ('r, unit) step" where
  "check_zone_dbs L checked [] = act_ret ()"
| "check_zone_dbs L checked (line # lines) =
     (let db = py_strip line
      in if db \<noteq> [] \<and> db \<notin> set checked
         then act_then (check_single_db L db) (check_zone_dbs L (db # checked) lines)
         else check_zone_dbs L checked lines)"

definition run_db_check :: "'r laptop \<Rightarrow> ('r, unit) step" where
  "run_db_check L =
     act_bind (resolve_active_db_path L) (\<lambda>db_path.
     act_then (check_single_db L db_path)
       (catch_ssh
          (act_bind (client_run L [''find'', ''/var/lib/mower/zones'', ''-name'', ''rtabmap.db'', ''-type'', ''f''] 15)
             (\<lambda>r. if sr_ok r then check_zone_dbs L [db_path] (splitlines (py_strip (sr_stdout r))) else act_ret ()))
          (\<lambda>_. act_ret ())))"

section \<open>vslam-services, pixhawk-sync\<close>

definition vslam_services_active :: "'r laptop \<Rightarrow> ('r, bool) step" where
  "vslam_services_active L =
     ssh_true (run_each L [is_active_cmd ''mower-vslam.service'', is_enabled_cmd ''mower-vslam.service'',
       is_active_cmd ''mower-vslam-bridge.service'', is_enabled_cmd ''mower-vslam-bridge.service''])"

definition unit_states :: "string \<Rightarrow> string list" where
  "unit_states out = map py_strip (splitlines (py_strip out))"

text \<open>A pass of the loop that waits for both services; the diagnosis after a failure may raise itself.\<close>

definition vslam_pass :: "'r laptop \<Rightarrow> bool \<Rightarrow> ('r, bool \<times> bool) step" where
  "vslam_pass L started =
     act_then (sleep_s L 5)
       (act_bind (catch_ssh
            (act_bind (client_run L [''systemctl is-active mower-vslam.service mower-vslam-bridge.service''] 10)
               (\<lambda>r. act_ret (Some (unit_states (sr_stdout r)))))
            (\<lambda>_. act_ret None)) (\<lambda>st.
          case st of
            None \<Rightarrow> act_ret (started, False)
          | Some statuses \<Rightarrow>
              if list_all (\<lambda>s. s = ''active'') statuses then act_ret (True, True)
              else if list_ex (\<lambda>s. s = ''failed'') statuses
              then act_then (client_run L [''sudo systemctl status mower-vslam-bridge.service --no-pager -l''] 10)
                     (act_raise (Exit 3))
              else act_ret (started, False)))"

definition await_vslam :: "'r laptop \<Rightarrow> ('r, unit) step" where
  "await_vslam L =
     (\<lambda>w. act_bind (wall_loop L (wall_time L w + int (seconds 120)) (vslam_pass L) False)
            (\<lambda>started. if started then act_ret () else act_raise (Exit 3)) w)"

definition run_vslam_services :: "'r laptop \<Rightarrow> bringup_context \<Rightarrow> ('r, unit) step" where
  "run_vslam_services L B =
     confirmed_step B
       (act_then (suppress_ssh (client_run L [''~/.local/bin/mower-jetson service cleanup-user-units''
            @ '' --unit '' @ VSLAM_UNIT_NAME @ '' --unit '' @ VSLAM_BRIDGE_UNIT_NAME] 30))
       (act_then (run_ok L [''sudo ~/.local/bin/mower-jetson vslam install --yes'' @ target_args L] 120)
       (act_then (run_ok L [''sudo ~/.local/bin/mower-jetson vslam bridge-install --yes'' @ target_args L] 120)
       (act_then (suppress_ssh (client_run L
            [''sudo systemctl reset-failed mower-vslam.service mower-vslam-bridge.service''] 10))
       (act_then (or_exit 3 (client_run L
            [''sudo systemctl start --no-block mower-vslam.service mower-vslam-bridge.service''] 15))
          (await_vslam L))))))"

definition pixhawk_sync_done :: "'r laptop \<Rightarrow> ('r, bool) step" where
  "pixhawk_sync_done L = run_succeeds L [''systemctl'', ''is-enabled'', ''mower-pixhawk-sync.service''] 10"

definition run_pixhawk_sync :: "'r laptop \<Rightarrow> bringup_context \<Rightarrow> ('r, unit) step" where
  "run_pixhawk_sync L B =
     confirmed_step B
       (act_then (run_ok L [''sudo ~/.local/bin/mower-jetson pixhawk sync-install --yes'' @ '' --system'' @ target_args L] 60)
          (suppress_ssh (client_run L [''~/.local/bin/mower-jetson'', ''pixhawk'', ''sync'', ''--json''] 120)))"

section \<open>install-mavproxy\<close>

definition mavproxy_active :: "'r laptop \<Rightarrow> ('r, bool) step" where
  "mavproxy_active L =
     ssh_true (run_each L [is_active_cmd (MAVPROXY_UNIT_NAME @ ''.service''), is_enabled_cmd (MAVPROXY_UNIT_NAME @ ''.service'')])"

text \<open>A file written through a quoted here-document.\<close>

definition heredoc :: "string \<Rightarrow> string \<Rightarrow> string \<Rightarrow> string" where
  "heredoc path tag content =
     ''sudo bash -c '' @ sq @ ''cat > '' @ path @ sq @ '' << '' @ sq @ tag @ sq @ [CHR 0x0A] @ content @ [CHR 0x0A] @ tag"

definition unit_file :: "string \<Rightarrow> string" where
  "unit_file name = ''/etc/systemd/system/'' @ name @ ''.service''"

text \<open>The exit status of the command that writes the file is not looked at.\<close>

definition deploy_unit :: "'r laptop \<Rightarrow> string \<Rightarrow> string \<Rightarrow> ('r, unit) step" where
  "deploy_unit L name content =
     act_then (or_exit 3 (client_run L [heredoc (unit_file name) ''UNITEOF'' content] 30)) (act_ret ())"

definition mavproxy_version_cmd :: "string list" where
  "mavproxy_version_cmd = [''~/.local/share/uv/tools/mower-rover/bin/mavproxy.py --version'']"

text \<open>A command of which only \<open>SshError\<close> is noticed.\<close>

definition run_reached :: "'r laptop \<Rightarrow> string list \<Rightarrow> nat \<Rightarrow> ('r, bool) step" where
  "run_reached L argv timeout = ssh_true (act_then (client_run L argv timeout) (act_ret True))"

definition install_mavproxy_pip :: "'r laptop \<Rightarrow> ('r, unit) step" where
  "install_mavproxy_pip L =
     act_then (run_ok L [''~/.local/bin/uv pip install --python''
         @ '' ~/.local/share/uv/tools/mower-rover/bin/python'' @ '' MAVProxy future setuptools''] 300)
     (act_then (suppress_ssh (client_run L [''mkdir -p ~/.mavproxy''] 10))
     (act_then (run_ok L mavproxy_version_cmd 15) (act_ret ())))"

definition mavproxy_unit :: "'r laptop \<Rightarrow> string" where
  "mavproxy_unit L =
     generate_mavproxy_unit_file ''/dev/pixhawk''
       [''udp:127.0.0.1:14550'', ''udp:127.0.0.1:14551'', ''udp:127.0.0.1:14552''] (user_of L) (home_of L)"

text \<open>
  \<open>config_data.setdefault("bridge", {})["serial_device"] = ...\<close>; \<open>None\<close> where the document is not a
  mapping with entries and nothing is rewritten.
\<close>

definition rewrite_bridge :: "pyval \<Rightarrow> (pyexc, pyval option) result" where
  "rewrite_bridge v =
     (case v of
        VDict raw \<Rightarrow>
          if raw = [] then Ok None
          else (case dict_get_or raw ''bridge'' (VDict []) of
                  VDict b \<Rightarrow> Ok (Some (VDict (dict_set ''bridge''
                               (VDict (dict_set ''serial_device'' (VStr ''udp:127.0.0.1:14550'') b)) raw)))
                | _ \<Rightarrow> Err TypeError)
      | _ \<Rightarrow> Ok None)"

text \<open>Rewriting the bridge's configuration: \<open>False\<close> where the step ends there without an exception.\<close>

definition rewrite_config :: "'r laptop \<Rightarrow> ('r, bool) step" where
  "rewrite_config L =
     act_bind (catch_ssh (act_bind (client_run L [''cat'', ''/etc/mower/vslam.yaml''] 15) (\<lambda>r. act_ret (Some r)))
       (\<lambda>_. act_ret None)) (\<lambda>res.
     case res of
       None \<Rightarrow> act_ret False
     | Some r \<Rightarrow>
         if \<not> (sr_ok r \<and> py_strip (sr_stdout r) \<noteq> []) then act_ret True
         else (case la_yaml_load L (sr_stdout r) of
                 None \<Rightarrow> act_ret False
               | Some v \<Rightarrow>
                   act_bind (of_result (rewrite_bridge v)) (\<lambda>new.
                   case new of
                     None \<Rightarrow> act_ret True
                   | Some doc \<Rightarrow> run_reached L [heredoc ''/etc/mower/vslam.yaml'' ''YAMLEOF'' (la_yaml_dump L doc)] 30)))"

definition install_mavproxy :: "'r laptop \<Rightarrow> ('r, unit) step" where
  "install_mavproxy L =
     act_bind (run_succeeds L mavproxy_version_cmd 15) (\<lambda>installed.
     act_then (if installed then act_ret () else install_mavproxy_pip L)
     (act_then (deploy_unit L MAVPROXY_UNIT_NAME (mavproxy_unit L))
     (act_then (run_ok L [''sudo systemctl daemon-reload'' @ '' && sudo systemctl enable --now ''
          @ MAVPROXY_UNIT_NAME @ ''.service''] 30)
     (act_bind (rewrite_config L) (\<lambda>going.
      if \<not> going then act_ret ()
      else act_then (suppress_ssh (client_run L [''sudo systemctl restart '' @ VSLAM_BRIDGE_UNIT_NAME @ ''.service''] 30))
          (act_then (sleep_s L 3)
             (suppress_ssh (client_run L [''systemctl is-active '' @ MAVPROXY_UNIT_NAME @ ''.service''] 10))))))))"

definition run_install_mavproxy :: "'r laptop \<Rightarrow> bringup_context \<Rightarrow> ('r, unit) step" where
  "run_install_mavproxy L B = confirmed_step B (install_mavproxy L)"

section \<open>kiosk-services, kiosk-probe\<close>

definition kiosk_unit_names :: "string list" where
  "kiosk_unit_names = [WESTON_UNIT_NAME, KIOSK_DATA_UNIT_NAME, KIOSK_RENDERER_UNIT_NAME]"

definition kiosk_services_active :: "'r laptop \<Rightarrow> ('r, bool) step" where
  "kiosk_services_active L = ssh_true (run_each L (map (\<lambda>u. is_active_cmd (u @ ''.service'')) kiosk_unit_names))"

definition kiosk_cleanup :: "'r laptop \<Rightarrow> ('r, unit) step" where
  "kiosk_cleanup L =
     act_all
       [suppress_ssh (client_run L [''sudo systemctl stop '' @ KIOSK_UNIT_NAME @ ''.service 2>/dev/null || true''] 15),
        suppress_ssh (client_run L [''sudo systemctl disable '' @ KIOSK_UNIT_NAME @ ''.service 2>/dev/null || true''] 15),
        suppress_ssh (client_run L [''sudo rm -f '' @ unit_file KIOSK_UNIT_NAME] 10),
        suppress_ssh (client_run L [''~/.local/bin/mower-jetson service cleanup-user-units''
          @ '' --unit '' @ WESTON_UNIT_NAME @ '' --unit '' @ KIOSK_UNIT_NAME
          @ '' --unit '' @ KIOSK_DATA_UNIT_NAME @ '' --unit '' @ KIOSK_RENDERER_UNIT_NAME] 30)]"

definition kiosk_units :: "'r laptop \<Rightarrow> (string \<times> string) list" where
  "kiosk_units L =
     [(WESTON_UNIT_NAME, generate_weston_unit_file (user_of L) (home_of L)),
      (KIOSK_DATA_UNIT_NAME,
         generate_kiosk_data_unit_file (home_of L @ ''/.local/bin/mower-jetson'') (user_of L) (home_of L)),
      (KIOSK_RENDERER_UNIT_NAME, generate_kiosk_renderer_unit_file (user_of L) (home_of L))]"

definition dot_services :: string where
  "dot_services = concat (map (\<lambda>u. '' '' @ u @ ''.service'') kiosk_unit_names)"

definition install_kiosk :: "'r laptop \<Rightarrow> ('r, unit) step" where
  "install_kiosk L =
     act_then (kiosk_cleanup L)
     (act_then (act_all (map (\<lambda>(name, content). deploy_unit L name content) (kiosk_units L)))
     (act_then (or_exit 3 (client_run L [''sudo systemctl daemon-reload'' @ '' && sudo systemctl enable'' @ dot_services] 30))
     (act_then (suppress_ssh (client_run L [''sudo systemctl start'' @ dot_services] 60))
     (act_then (sleep_s L 2) (act_then (kiosk_services_active L) (act_ret ()))))))"

definition run_kiosk_services :: "'r laptop \<Rightarrow> bringup_context \<Rightarrow> ('r, unit) step" where
  "run_kiosk_services L B = confirmed_step B (install_kiosk L)"

definition run_kiosk_probe :: "'r laptop \<Rightarrow> ('r, unit) step" where
  "run_kiosk_probe L =
     act_all (map (\<lambda>u. act_then (run_succeeds L [''systemctl'', ''is-active'', u @ ''.service''] 10) (act_ret ()))
       (kiosk_unit_names @ [MAVPROXY_UNIT_NAME]))"

section \<open>final-verify\<close>

text \<open>
  A pass of the probe loop over \<open>checks\<close> (\<open>None\<close> at first) and \<open>critical_fails\<close>. The pass that finds
  no failure outside the hardware-dependent checks leaves the loop; any other sleeps.
\<close>

definition probe_again :: "'r laptop \<Rightarrow> 's \<Rightarrow> ('r, 's \<times> bool) step" where
  "probe_again L s = act_then (sleep_s L 10) (act_ret (s, False))"

definition probe_pass ::
  "'r laptop \<Rightarrow> pyval option \<times> pyval list \<Rightarrow> ('r, (pyval option \<times> pyval list) \<times> bool) step" where
  "probe_pass L s =
     act_bind (catch_ssh (act_bind (client_run L probe_cmd 30) (\<lambda>r. act_ret (Some r))) (\<lambda>_. act_ret None)) (\<lambda>res.
     case res of
       None \<Rightarrow> probe_again L s
     | Some r \<Rightarrow>
         if \<not> sr_ok r \<and> py_strip (sr_stdout r) = [] then probe_again L s
         else (case la_loads L (sr_stdout r) of
                 None \<Rightarrow> probe_again L s
               | Some v \<Rightarrow>
                   act_bind (of_result (bindr (iter_py v) critical_fails)) (\<lambda>fails.
                   act_bind (of_result (not_among HW_DEPENDENT fails)) (\<lambda>infra.
                   if infra = [] then act_ret ((Some v, fails), True) else probe_again L (Some v, fails)))))"

text \<open>\<open>checks is None\<close> also holds when the probe printed \<open>null\<close>, which the loop cannot have iterated over.\<close>

definition final_report :: "pyval option \<times> pyval list \<Rightarrow> ('r, unit) step" where
  "final_report s =
     (case fst s of
        None \<Rightarrow> act_raise (Exit 3)
      | Some v \<Rightarrow>
          act_bind (of_result (iter_py v)) (\<lambda>checks.
          act_then (act_all (map probe_row checks))
            (act_bind (of_result (not_among HW_DEPENDENT (snd s))) exit_listing)))"

definition run_final_verify :: "'r laptop \<Rightarrow> ('r, unit) step" where
  "run_final_verify L =
     act_then (reboot_and_await L)
     (act_then (sleep_s L 30)
        (\<lambda>w. act_bind (timed_loop (w_now w + seconds 120) (probe_pass L) (None, [])) final_report w))"

section \<open>The waits\<close>

lemma length_advance: "length (w_log (advance ops d r w)) = length (w_log w) + length ops"
  by simp

lemma client_run_one: "client_run L argv timeout w = (r, w') \<Longrightarrow>
    w_now w \<le> w_now w' \<and> (w_log w' = w_log w \<or> w_log w' = w_log w @ [Ran argv])"
  by (auto simp: client_run_def split: sum.splits prod.splits)

lemma run_cases:
  obtains x w' where "client_run L argv timeout w = (Inl (SshFail x), w')"
  | r w' where "client_run L argv timeout w = (Inr r, w')"
  by (cases "client_run L argv timeout w", cases "fst (client_run L argv timeout w)") (auto dest: client_run_raises)

lemma await_pass_run:
  assumes "await_pass L s w = (r, w')"
  shows "w_now w + seconds 10 \<le> w_now w' \<and> length (w_log w') \<le> length (w_log w) + 1 \<and> (\<forall>e. r \<noteq> Inl e)"
proof -
  obtain u where u: "sleep_s L 10 w = (Ok (), u)" "w_now w + seconds 10 \<le> w_now u" "w_log u = w_log w"
    using sleep_clock [of L 10 w] by (cases "sleep_s L 10 w") (auto simp: seconds_def)
  show ?thesis
    using assms u by (cases rule: run_cases [of L "[''echo'', ''ok'']" 15 u])
      (auto simp: await_pass_def act_then_def act_simps catch_ssh_def dest!: client_run_one split: if_splits)
qed

interpretation jetson_wait: timed_pass "await_pass L" "seconds 10" 1 for L
proof
  fix s w s' w' e
  show "0 < seconds 10" by (simp add: seconds_def)
  show "await_pass L s w = (Inr (s', False), w') \<Longrightarrow> w_now w + seconds 10 \<le> w_now w'"
    and "await_pass L s w = (Inl e, w') \<Longrightarrow> e \<noteq> Hangs"
    by (auto dest: await_pass_run)
  show "length (w_log (snd (await_pass L s w))) \<le> length (w_log w) + 1"
    using await_pass_run [of L s w] by (cases "await_pass L s w") simp
qed

text \<open>A pass of the wait for the services does at most two operations, and its exceptions are those of its commands.\<close>

lemma vslam_pass_run:
  assumes "vslam_pass L s w = (r, w')"
  shows "w_now w + seconds 5 \<le> w_now w' \<and> length (w_log w') \<le> length (w_log w) + 2 \<and> r \<noteq> Inl Hangs"
proof -
  let ?poll = "[''systemctl is-active mower-vslam.service mower-vslam-bridge.service'']"
  let ?diag = "[''sudo systemctl status mower-vslam-bridge.service --no-pager -l'']"
  obtain u where u: "sleep_s L 5 w = (Ok (), u)" "w_now w + seconds 5 \<le> w_now u" "w_log u = w_log w"
    using sleep_clock [of L 5 w] by (cases "sleep_s L 5 w") (auto simp: seconds_def)
  show ?thesis
  proof (cases rule: run_cases [of L ?poll 10 u])
    case (1 x v)
    then show ?thesis using assms u client_run_one [OF 1]
      by (auto simp: vslam_pass_def act_then_def act_simps catch_ssh_def)
  next
    case (2 res v)
    have log: "w_now w + seconds 5 \<le> w_now v" "length (w_log v) \<le> length (w_log w) + 1"
      using client_run_one [OF 2] u by auto
    show ?thesis using assms u 2 log
      by (cases rule: run_cases [of L ?diag 10 v])
        (auto simp: vslam_pass_def act_then_def act_simps catch_ssh_def dest!: client_run_one split: if_splits)
  qed
qed

interpretation vslam_wait: timed_pass "vslam_pass L" "seconds 5" 2 for L
proof
  fix s w s' w' e
  show "0 < seconds 5" by (simp add: seconds_def)
  show "vslam_pass L s w = (Inr (s', False), w') \<Longrightarrow> w_now w + seconds 5 \<le> w_now w'"
    and "vslam_pass L s w = (Inl e, w') \<Longrightarrow> e \<noteq> Hangs"
    by (auto dest: vslam_pass_run)
  show "length (w_log (snd (vslam_pass L s w))) \<le> length (w_log w) + 2"
    using vslam_pass_run [of L s w] by (cases "vslam_pass L s w") simp
qed

lemma probe_again_run:
  "probe_again L s w = (r, w') \<Longrightarrow> r = Inr (s, False) \<and> w_now w + seconds 10 \<le> w_now w' \<and> w_log w' = w_log w"
  using sleep_clock [of L 10 w] by (cases "sleep_s L 10 w") (auto simp: probe_again_def act_then_def act_simps seconds_def)

lemma probe_pass_run:
  assumes "probe_pass L s w = (r, w')"
  shows "(\<forall>s'. r = Inr (s', False) \<longrightarrow> w_now w + seconds 10 \<le> w_now w') \<and> length (w_log w') \<le> length (w_log w) + 1 \<and> r \<noteq> Inl Hangs"
proof (cases rule: run_cases [of L probe_cmd 30 w])
  case (1 x v)
  then show ?thesis using assms client_run_one [OF 1]
    by (auto simp: probe_pass_def act_simps catch_ssh_def dest!: probe_again_run)
next
  case (2 res v)
  have log: "w_now w \<le> w_now v" "length (w_log v) \<le> length (w_log w) + 1"
    using client_run_one [OF 2] by auto
  show ?thesis using assms 2 log
    by (auto simp: probe_pass_def act_simps catch_ssh_def of_result_def dest!: probe_again_run
        split: if_splits option.splits sum.splits)
qed

interpretation probe_wait: timed_pass "probe_pass L" "seconds 10" 1 for L
proof
  fix s w s' w' e
  show "0 < seconds 10" by (simp add: seconds_def)
  show "probe_pass L s w = (Inr (s', False), w') \<Longrightarrow> w_now w + seconds 10 \<le> w_now w'"
    and "probe_pass L s w = (Inl e, w') \<Longrightarrow> e \<noteq> Hangs"
    by (auto dest: probe_pass_run)
  show "length (w_log (snd (probe_pass L s w))) \<le> length (w_log w) + 1"
    using probe_pass_run [of L s w] by (cases "probe_pass L s w") simp
qed

lemma probe_rows_quiet: "moves same_log (act_all (map probe_row cs))"
  by (auto simp: probe_row_def intro!: quiet.moves_rules)

lemma final_report_quiet: "moves same_log (final_report s)"
  by (auto simp: final_report_def exit_listing_def split: option.splits intro!: quiet.moves_rules probe_rows_quiet [unfolded map_eq_conv])

lemma final_report_log [simp]: "w_log (snd (final_report s w)) = w_log w"
  by (rule final_report_quiet [unfolded moves_def same_log_def, rule_format])

lemma suppress_costs: "costs a m \<Longrightarrow> costs a (suppress_ssh m)"
  using costs_bind [of a m 0 "\<lambda>_. act_ret ()"]
  by (simp add: suppress_ssh_def costs_catch costs_quiet quiet.moves_ret)

lemma await_costs: "costs 18 (await_jetson L)"
  unfolding costs_def
proof
  fix w
  have "length (w_log (snd (timed_loop (w_now w + seconds 180) (await_pass L) False w))) \<le> length (w_log w) + 18 * 1"
    by (rule jetson_wait.loop_bounded) (simp add: seconds_def)
  then show "length (w_log (snd (await_jetson L w))) \<le> length (w_log w) + 18"
    by (auto simp: await_jetson_def act_simps split: prod.splits sum.splits)
qed

text \<open>The wait for the services reads the wall clock: it is bounded when that clock is not set back.\<close>

lemma await_vslam_bounded:
  assumes "wall_steady L"
  shows "length (w_log (snd (await_vslam L w))) \<le> length (w_log w) + 48" and "fst (await_vslam L w) \<noteq> Err Hangs"
proof -
  have "wall_time L w + int (seconds 120) \<le> wall_time L w + int (24 * seconds 5)" by (simp add: seconds_def)
  from vslam_wait.wall_run_bounded [OF assms this, of L False] obtain r w' where
    "wall_run L (wall_time L w + int (seconds 120)) (vslam_pass L) False w = Some (r, w')" "r \<noteq> Err Hangs"
    "length (w_log w') \<le> length (w_log w) + 24 * 2" by blast
  then show "length (w_log (snd (await_vslam L w))) \<le> length (w_log w) + 48" "fst (await_vslam L w) \<noteq> Err Hangs"
    by (auto simp: await_vslam_def wall_loop_def act_simps split: sum.splits)
qed

text \<open>
  And otherwise it need not end: while the clock is set back as fast as it runs and the services keep
  starting, the step waits for ever.
\<close>

lemma await_vslam_hangs:
  assumes "\<And>t r. la_wall L t r = 0" and "\<And>s v. \<exists>s' v'. vslam_pass L s v = (Inr (s', False), v')"
  shows "fst (await_vslam L w) = Err Hangs"
proof -
  let ?turn = "wall_turn L (wall_time L w + int (seconds 120)) (vslam_pass L)"
  have "isl x" if "while_option isl ?turn (Inl (False, w)) = Some x" for x
  proof (rule while_option_rule [OF _ that])
    fix y :: "bool \<times> 'a world + (step_exc, bool) result \<times> 'a world"
    assume "isl y"
    then obtain s v where y: "y = Inl (s, v)" by (cases y) auto
    obtain s' v' where "vslam_pass L s v = (Inr (s', False), v')" using assms(2) by blast
    then show "isl (?turn y)" using assms(1) by (simp add: y wall_turn_def wall_time_def seconds_def)
  qed simp
  moreover have "\<not> isl x" if "while_option isl ?turn (Inl (False, w)) = Some x" for x
    using while_option_stop [OF that] .
  ultimately have "while_option isl ?turn (Inl (False, w)) = None" by (metis option.exhaust)
  then show ?thesis by (simp add: await_vslam_def wall_loop_def wall_run_def act_simps)
qed

definition final_probe :: "'r laptop \<Rightarrow> ('r, unit) step" where
  "final_probe L = (\<lambda>w. act_bind (timed_loop (w_now w + seconds 120) (probe_pass L) (None, [])) final_report w)"

lemma final_probe_costs: "costs 12 (final_probe L)"
  unfolding costs_def
proof
  fix w
  have "length (w_log (snd (timed_loop (w_now w + seconds 120) (probe_pass L) (None, []) w))) \<le> length (w_log w) + 12 * 1"
    by (rule probe_wait.loop_bounded) (simp add: seconds_def)
  then show "length (w_log (snd (final_probe L w))) \<le> length (w_log w) + 12"
    by (auto simp: final_probe_def act_simps split: prod.splits sum.splits)
qed

lemma await_halts: "halts (await_jetson L)"
  using jetson_wait.loop_returns [of _ L False]
  by (auto simp: halts_def await_jetson_def act_simps split: prod.splits sum.splits) (metis fst_conv)

lemma final_report_halts: "halts (final_report s)"
  by (auto simp: final_report_def exit_listing_def probe_row_def split: option.splits intro!: halts_rules)

lemma final_probe_halts: "halts (final_probe L)"
  unfolding halts_def
proof
  fix w
  show "fst (final_probe L w) \<noteq> Err Hangs"
    using probe_wait.loop_returns [of "w_now w + seconds 120" L "(None, [])" w] final_report_halts [unfolded halts_def]
    by (auto simp: final_probe_def act_simps split: prod.splits sum.splits)
qed

text \<open>
  C17: The waits of the bringup end, and the numbers of commands they may issue are bounded, whatever
  the commands answer and however long they take: at most twenty commands for the whole reboot step,
  with its polls while the Jetson reboots, and thirty-one for the final reboot with its probes. The wait
  while the VSLAM services start reads the wall clock and not, as the other two, the monotonic one: it
  ends, with at most forty-eight commands, provided the wall clock is not set back meanwhile.
\<close>
theorem bringup_waits_bounded:
  "length (w_log (snd (run_reboot_and_wait L w))) \<le> length (w_log w) + 20 \<and>
   length (w_log (snd (run_final_verify L w))) \<le> length (w_log w) + 31 \<and>
   fst (run_reboot_and_wait L w) \<noteq> Err Hangs \<and> fst (run_final_verify L w) \<noteq> Err Hangs \<and>
   (wall_steady L \<longrightarrow> length (w_log (snd (await_vslam L w))) \<le> length (w_log w) + 48 \<and>
      fst (await_vslam L w) \<noteq> Err Hangs)"
proof -
  have reboot: "costs 1 (suppress_ssh (client_run L [''sudo'', ''reboot''] 10))"
    by (rule suppress_costs [OF costs_run])
  have "costs (1 + 18 + (1 + 0)) (run_reboot_and_wait L)"
    unfolding run_reboot_and_wait_def reboot_and_await_def or_exit_def
    by (intro costs_then costs_bind reboot await_costs costs_catch costs_run costs_quiet)
      (auto intro!: quiet.moves_rules)
  moreover have "costs (1 + 18 + (0 + 12)) (run_final_verify L)"
    unfolding run_final_verify_def reboot_and_await_def final_probe_def [symmetric]
    by (intro costs_then reboot await_costs costs_sleep final_probe_costs)
  moreover have "halts (reboot_and_await L)"
    unfolding reboot_and_await_def by (intro halts_rules await_halts)
  then have "halts (run_reboot_and_wait L)" "halts (run_final_verify L)"
    unfolding run_reboot_and_wait_def run_final_verify_def final_probe_def [symmetric]
    by (auto intro!: halts_rules final_probe_halts)
  ultimately show ?thesis using await_vslam_bounded [of L w]
    unfolding costs_def halts_def by simp
qed

section \<open>Results of the waits\<close>

text \<open>A probe report that the Jetson printed, and the names of its critical failures.\<close>

definition probed :: "'r laptop \<Rightarrow> pyval \<Rightarrow> pyval list \<Rightarrow> bool" where
  "probed L v fails \<longleftrightarrow> (\<exists>u r u'. client_run L probe_cmd 30 u = (Ok r, u') \<and> la_loads L (sr_stdout r) = Some v \<and>
     bindr (iter_py v) critical_fails = Ok fails)"

lemma probe_pass_probed:
  assumes "\<forall>v fails. s = (Some v, fails) \<longrightarrow> probed L v fails" and "probe_pass L s w = (Inr (s', l), w')"
  shows "\<forall>v fails. s' = (Some v, fails) \<longrightarrow> probed L v fails"
proof (cases rule: run_cases [of L probe_cmd 30 w])
  case (1 x u)
  then show ?thesis using assms by (auto simp: probe_pass_def act_simps catch_ssh_def dest!: probe_again_run)
next
  case (2 r u)
  have new: "probed L v fails" if "la_loads L (sr_stdout r) = Some v" "bindr (iter_py v) critical_fails = Ok fails" for v fails
    using 2 that unfolding probed_def by blast
  show ?thesis using assms 2 new
    by (auto simp: probe_pass_def act_simps catch_ssh_def of_result_def dest!: probe_again_run
        split: if_splits option.splits sum.splits)
qed

lemma not_among_empty: "not_among names fails = Ok [] \<Longrightarrow> set fails \<subseteq> VStr ` set names"
  by (auto simp: not_among_def filter_empty_conv split: if_splits)

lemma final_report_Ok:
  "final_report (c, fails) w = (Ok (), w') \<Longrightarrow> \<exists>v. c = Some v \<and> set fails \<subseteq> VStr ` set HW_DEPENDENT"
  by (auto simp: final_report_def act_then_def act_simps of_result_def exit_listing_def
      split: option.splits sum.splits prod.splits if_splits dest: not_among_empty)

text \<open>
  The final verification succeeds only on the strength of a report that the Jetson's own probe
  printed, in which every critical failure is one of the checks that depend on
  hardware being connected.
\<close>
lemma final_verify_sound:
  assumes "run_final_verify L w = (Ok (), w')"
  shows "\<exists>v fails. probed L v fails \<and> set fails \<subseteq> VStr ` set HW_DEPENDENT"
proof -
  obtain u c fails u' where
    l: "timed_loop (w_now u + seconds 120) (probe_pass L) (None, []) u = (Inr (c, fails), u')"
    and r: "final_report (c, fails) u' = (Ok (), w')"
    using assms by (auto simp: run_final_verify_def act_then_def act_simps split: prod.splits sum.splits)
  have "\<forall>v f. (c, fails) = (Some v, f) \<longrightarrow> probed L v f"
    by (rule probe_wait.loop_invariant [OF _ _ l, where I = "\<lambda>s. \<forall>v f. s = (Some v, f) \<longrightarrow> probed L v f"])
      (auto dest: probe_pass_probed)
  with final_report_Ok [OF r] show ?thesis by blast
qed

text \<open>
  While waiting for the VSLAM services, a poll that returns without output counts as success:
  the step then reports both services as active. A lost connection is such a poll, for \<open>ssh\<close> exits with
  status 255 and prints nothing on standard output.
\<close>
lemma vslam_wait_empty_output:
  assumes "client_run L [''systemctl is-active mower-vslam.service mower-vslam-bridge.service''] 10 (snd (sleep_s L 5 w))
      = (Ok r, w')"
    and "py_strip (sr_stdout r) = []"
  shows "await_vslam L w = (Ok (), w')"
proof -
  obtain u where u: "sleep_s L 5 w = (Ok (), u)"
    using sleep_clock [of L 5 w] by (cases "sleep_s L 5 w") auto
  with assms(1) have "client_run L [''systemctl is-active mower-vslam.service mower-vslam-bridge.service''] 10 u = (Ok r, w')"
    by simp
  with u have "vslam_pass L False w = (Inr (True, True), w')"
    using assms(2) by (simp add: vslam_pass_def act_then_def act_simps catch_ssh_def unit_states_def splitlines_def)
  then show ?thesis
    by (simp add: await_vslam_def wall_loop_def wall_run_unfold [of _ _ _ False] act_simps seconds_def)
qed

section \<open>Checking the map databases\<close>

text \<open>The commands that only read, and the one that renames a database.\<close>

fun db_op :: "laptop_op \<Rightarrow> bool" where
  "db_op (Ran argv) = (argv \<noteq> [] \<and> (hd argv \<in> {''python3'', ''test'', ''stat'', ''sqlite3'', ''find''} \<or> (\<exists>p. argv = quarantine_cmd p)))"
| "db_op c = False"

lemma ssh_only_ret: "ssh_only (act_ret a)"
  by (rule calm_ssh_only [OF calm_ret])

lemma quarantine_calm: "calm (quarantine_db L p)"
  unfolding quarantine_db_def by (intro calm_rules ssh_only_run)

lemma run_succeeds_calm: "calm (run_succeeds L argv t)"
  unfolding run_succeeds_def by (intro calm_rules ssh_only_bind ssh_only_run ssh_only_ret calm_ret)

lemma check_single_db_calm: "calm (check_single_db L p)"
  unfolding check_single_db_def
  by (auto intro!: calm_bind calm_rules run_succeeds_calm quarantine_calm calm_ret ssh_only_bind ssh_only_run ssh_only_ret)

lemma check_zone_dbs_calm: "calm (check_zone_dbs L seen lines)"
  by (induction lines arbitrary: seen) (auto simp: calm_ret Let_def intro!: calm_rules check_single_db_calm)

lemma run_db_check_calm: "calm (run_db_check L)"
  unfolding run_db_check_def resolve_active_db_path_def
  by (auto intro!: calm_bind calm_rules calm_catch calm_ret ssh_only_bind ssh_only_run ssh_only_ret
      check_single_db_calm calm_ssh_only [OF check_zone_dbs_calm])

lemma db_op_quarantine: "db_op (Ran (quarantine_cmd p))"
  by (auto simp: quarantine_cmd_def)

lemma check_single_db_log: "moves (grows db_op) (check_single_db L p)"
  unfolding check_single_db_def run_succeeds_def quarantine_db_def
  by (auto intro!: log.moves_rules client_run_log db_op_quarantine)

lemma check_zone_dbs_log: "moves (grows db_op) (check_zone_dbs L seen lines)"
  by (induction lines arbitrary: seen) (auto simp: Let_def intro!: log.moves_rules check_single_db_log)

lemma run_db_check_log: "moves (grows db_op) (run_db_check L)"
  unfolding run_db_check_def resolve_active_db_path_def
  by (auto intro!: log.moves_rules client_run_log check_single_db_log check_zone_dbs_log)

lemma quarantine_cmd_inj [simp]: "quarantine_cmd p = quarantine_cmd q \<longleftrightarrow> p = q"
proof
  assume "quarantine_cmd p = quarantine_cmd q"
  then have e: "p @ '' '' @ p @ ''.corrupt-$(date -u +%Y%m%dT%H%M%SZ)'' = q @ '' '' @ q @ ''.corrupt-$(date -u +%Y%m%dT%H%M%SZ)''"
    by (simp add: quarantine_cmd_def)
  then have "length p = length q" by (auto dest: arg_cong [where f = length])
  with e show "p = q" by simp
qed simp

text \<open>How often a database is renamed.\<close>

definition renames :: "string \<Rightarrow> laptop_op list \<Rightarrow> nat" where
  "renames p ops = count_list ops (Ran (quarantine_cmd p))"

definition renames_at_most :: "nat \<Rightarrow> string \<Rightarrow> ('r, 'a) step \<Rightarrow> bool" where
  "renames_at_most n p m \<longleftrightarrow> (\<forall>w. \<exists>ops. w_log (snd (m w)) = w_log w @ ops \<and> renames p ops \<le> n)"

lemma renames_append [simp]: "renames p (xs @ ys) = renames p xs + renames p ys"
  by (simp add: renames_def)

lemma renames_at_most_bind:
  assumes "renames_at_most a p m" and "\<And>x. renames_at_most b p (k x)"
  shows "renames_at_most (a + b) p (act_bind m k)"
  unfolding renames_at_most_def
proof
  fix w
  obtain r v where m: "m w = (r, v)" by (cases "m w")
  then obtain xs where xs: "w_log v = w_log w @ xs" "renames p xs \<le> a"
    using assms(1) [unfolded renames_at_most_def, rule_format, of w] by auto
  show "\<exists>ops. w_log (snd (act_bind m k w)) = w_log w @ ops \<and> renames p ops \<le> a + b"
  proof (cases r)
    case (Inl e)
    then show ?thesis using xs by (intro exI [of _ xs]) (simp add: act_simps m)
  next
    case (Inr x)
    obtain ys where "w_log (snd (k x v)) = w_log v @ ys" "renames p ys \<le> b"
      using assms(2) [of x, unfolded renames_at_most_def, rule_format, of v] by auto
    then show ?thesis using xs Inr by (intro exI [of _ "xs @ ys"]) (simp add: act_simps m)
  qed
qed

lemma grows_no_renames: "grows (\<lambda>c. c \<noteq> Ran (quarantine_cmd p)) w w' \<Longrightarrow> \<exists>ops. w_log w' = w_log w @ ops \<and> renames p ops = 0"
  by (auto simp: grows_def renames_def count_list_0_iff list_all_iff)

lemma no_renames: "moves (grows (\<lambda>c. c \<noteq> Ran (quarantine_cmd p))) m \<Longrightarrow> renames_at_most n p m"
  unfolding moves_def renames_at_most_def by (metis grows_no_renames le0)

lemma renames_at_most_if: "renames_at_most n p m \<Longrightarrow> renames_at_most n p k \<Longrightarrow> renames_at_most n p (if b then m else k)"
  by simp

lemma renames_at_most_catch:
  assumes "renames_at_most n p m"
  shows "renames_at_most n p (catch_ssh m (\<lambda>_. act_ret a))"
  unfolding renames_at_most_def
proof
  fix w
  show "\<exists>ops. w_log (snd (catch_ssh m (\<lambda>_. act_ret a) w)) = w_log w @ ops \<and> renames p ops \<le> n"
    using assms [unfolded renames_at_most_def, rule_format, of w]
    by (cases "m w") (simp add: catch_ssh_def act_simps split: sum.splits step_exc.splits)
qed

lemma quarantine_renames: "renames_at_most 1 p (quarantine_db L q)"
proof (cases "p = q")
  case True
  show ?thesis unfolding renames_at_most_def
  proof
    fix w
    obtain r v where "client_run L (quarantine_cmd q) 15 w = (r, v)" by (cases "client_run L (quarantine_cmd q) 15 w")
    then show "\<exists>ops. w_log (snd (quarantine_db L q w)) = w_log w @ ops \<and> renames p ops \<le> 1"
      using client_run_one [of L "quarantine_cmd q" 15 w r v]
      by (auto simp: quarantine_db_def suppress_ssh_def catch_ssh_def act_simps renames_def split: sum.splits step_exc.splits)
  qed
next
  case False
  then show ?thesis
    unfolding quarantine_db_def by (intro no_renames log.moves_rules client_run_log) simp
qed

lemma reader_no_rename: "hd argv \<noteq> ''bash'' \<Longrightarrow> Ran argv \<noteq> Ran (quarantine_cmd p)"
  by (auto simp: quarantine_cmd_def)

lemma reader_ne: "hd argv \<noteq> ''bash'' \<Longrightarrow> argv \<noteq> quarantine_cmd p"
  by (auto simp: quarantine_cmd_def)

lemma reader_renames:
  "hd argv \<noteq> ''bash'' \<Longrightarrow> renames_at_most n p (ssh_true (act_bind (client_run L argv t) (\<lambda>r. act_ret (f r))))"
  by (intro no_renames log.moves_rules client_run_log reader_no_rename)

lemma check_single_db_renames: "renames_at_most 1 p (check_single_db L q)"
proof -
  have "renames_at_most (0 + (0 + (0 + 1))) p (check_single_db L q)"
    unfolding check_single_db_def run_succeeds_def
    by (intro renames_at_most_bind renames_at_most_if reader_renames)
      (auto intro!: renames_at_most_if quarantine_renames [unfolded One_nat_def] no_renames [OF log.moves_ret])
  then show ?thesis by simp
qed

lemma check_other_db_renames: "p \<noteq> q \<Longrightarrow> moves (grows (\<lambda>c. c \<noteq> Ran (quarantine_cmd p))) (check_single_db L q)"
  unfolding check_single_db_def run_succeeds_def quarantine_db_def
  by (auto intro!: log.moves_rules client_run_log simp: reader_ne)

text \<open>A database that the checks find to be there, of a plausible size and intact.\<close>

definition healthy_db :: "'r laptop \<Rightarrow> string \<Rightarrow> bool" where
  "healthy_db L p \<longleftrightarrow>
     (\<forall>w. (\<exists>r w'. client_run L [''stat'', ''-c'', ''%s'', p] 15 w = (Ok r, w') \<and> sr_ok r \<and> size_plausible (sr_stdout r)) \<and>
          (\<exists>r w'. client_run L [''sqlite3'', p, ''PRAGMA integrity_check;''] 60 w = (Ok r, w') \<and> py_strip (sr_stdout r) = ''ok''))"

lemma healthy_db_kept:
  assumes "healthy_db L p"
  shows "moves (grows (\<lambda>c. c \<noteq> Ran (quarantine_cmd p))) (check_single_db L p)"
proof -
  let ?R = "grows (\<lambda>c. c \<noteq> Ran (quarantine_cmd p))"
  have run: "?R u v" if "client_run L argv t u = (r, v)" "hd argv \<noteq> ''bash''" for argv t u v r
    by (rule movesD [OF client_run_log that(1)]) (rule reader_no_rename [OF that(2)])
  have "?R w (snd (check_single_db L p w))" for w
  proof -
    obtain there u where t: "run_succeeds L [''test'', ''-f'', p] 15 w = (Ok there, u)"
      using run_succeeds_calm [of L "[''test'', ''-f'', p]" 15] unfolding calm_def by (metis prod.collapse)
    have "moves ?R (run_succeeds L [''test'', ''-f'', p] 15)"
      unfolding run_succeeds_def by (intro log.moves_rules client_run_log reader_no_rename) simp
    then have "?R w u" by (rule movesD) (rule t)
    show ?thesis
    proof (cases there)
      case False
      then show ?thesis using \<open>?R w u\<close> by (simp add: check_single_db_def act_simps t)
    next
      case True
      obtain r1 v where s: "client_run L [''stat'', ''-c'', ''%s'', p] 15 u = (Ok r1, v)" "sr_ok r1" "size_plausible (sr_stdout r1)"
        using assms unfolding healthy_db_def by blast
      obtain r2 x where q: "client_run L [''sqlite3'', p, ''PRAGMA integrity_check;''] 60 v = (Ok r2, x)" "py_strip (sr_stdout r2) = ''ok''"
        using assms unfolding healthy_db_def by blast
      have "?R u v" "?R v x" using run [OF s(1)] run [OF q(1)] by simp_all
      then have "?R w x" using \<open>?R w u\<close> log.trans by blast
      then show ?thesis using True t s q
        by (simp add: check_single_db_def act_simps ssh_true_def catch_ssh_def)
    qed
  qed
  then show ?thesis by (simp add: moves_def)
qed

lemma seen_db_kept:
  "p \<in> set seen \<or> healthy_db L p \<Longrightarrow> moves (grows (\<lambda>c. c \<noteq> Ran (quarantine_cmd p))) (check_zone_dbs L seen lines)"
proof (induction lines arbitrary: seen)
  case (Cons line lines)
  have "moves (grows (\<lambda>c. c \<noteq> Ran (quarantine_cmd p))) (check_single_db L (py_strip line))"
    if "py_strip line \<notin> set seen"
    using Cons.prems that healthy_db_kept check_other_db_renames by metis
  with Cons show ?case by (auto simp: Let_def intro!: log.moves_rules)
qed (simp add: log.moves_ret)

lemma check_zone_dbs_renames: "renames_at_most 1 p (check_zone_dbs L seen lines)"
proof (induction lines arbitrary: seen)
  case (Cons line lines)
  let ?q = "py_strip line"
  show ?case
  proof (cases "?q \<noteq> [] \<and> ?q \<notin> set seen")
    case True
    have "renames_at_most (1 + 0) p (act_then (check_single_db L ?q) (check_zone_dbs L (?q # seen) lines))" if "?q = p"
      unfolding act_then_def using that
      by (intro renames_at_most_bind check_single_db_renames no_renames seen_db_kept) simp
    moreover have "renames_at_most (0 + 1) p (act_then (check_single_db L ?q) (check_zone_dbs L (?q # seen) lines))" if "?q \<noteq> p"
      unfolding act_then_def using that
      by (intro renames_at_most_bind no_renames check_other_db_renames Cons.IH) simp
    ultimately show ?thesis using True by (auto simp: Let_def)
  next
    case False
    then show ?thesis using Cons.IH by (auto simp: Let_def)
  qed
qed (simp add: no_renames log.moves_ret)

text \<open>
  C16: The database check never raises. All it does on the Jetson is read, and rename databases: no
  database more than once in a run, and none that the size and the integrity check find healthy.
\<close>
theorem db_check_quarantine:
  "\<exists>w' ops. run_db_check L w = (Ok (), w') \<and> w_log w' = w_log w @ ops \<and> list_all db_op ops \<and>
     renames p ops \<le> 1 \<and> (healthy_db L p \<longrightarrow> renames p ops = 0)"
proof -
  obtain w' where w': "run_db_check L w = (Ok (), w')"
    using run_db_check_calm [of L] unfolding calm_def by (metis old.unit.exhaust prod.collapse)
  obtain ops where ops: "w_log w' = w_log w @ ops" "list_all db_op ops"
    using movesD [OF run_db_check_log w'] by (auto simp: grows_def)
  have resolve: "moves (grows (\<lambda>c. c \<noteq> Ran (quarantine_cmd p))) (resolve_active_db_path L)"
    unfolding resolve_active_db_path_def by (intro log.moves_rules client_run_log reader_no_rename) simp
  have "renames p ops = 0" if "healthy_db L p"
  proof -
    have "moves (grows (\<lambda>c. c \<noteq> Ran (quarantine_cmd p))) (check_single_db L q)" for q
      using that healthy_db_kept check_other_db_renames by (cases "p = q") blast+
    then have "moves (grows (\<lambda>c. c \<noteq> Ran (quarantine_cmd p))) (run_db_check L)"
      unfolding run_db_check_def using that
      by (auto intro!: log.moves_rules resolve client_run_log seen_db_kept simp: reader_ne)
    from grows_no_renames [OF movesD [OF this w']] ops show ?thesis by auto
  qed
  moreover have "renames_at_most (0 + 1) p (run_db_check L)"
    unfolding run_db_check_def
  proof (rule renames_at_most_bind [OF no_renames [OF resolve]])
    fix q
    let ?rest = "catch_ssh (act_bind (client_run L [''find'', ''/var/lib/mower/zones'', ''-name'', ''rtabmap.db'', ''-type'', ''f''] 15)
         (\<lambda>r. if sr_ok r then check_zone_dbs L [q] (splitlines (py_strip (sr_stdout r))) else act_ret ())) (\<lambda>_. act_ret ())"
    show "renames_at_most 1 p (act_then (check_single_db L q) ?rest)"
    proof (cases "p = q")
      case True
      have "renames_at_most (1 + 0) p (act_then (check_single_db L q) ?rest)"
        unfolding act_then_def using True
        by (intro renames_at_most_bind check_single_db_renames no_renames)
          (auto intro!: log.moves_rules client_run_log seen_db_kept simp: reader_ne)
      then show ?thesis by simp
    next
      case False
      have "renames_at_most (0 + 1) p (act_bind (client_run L [''find'', ''/var/lib/mower/zones'', ''-name'', ''rtabmap.db'', ''-type'', ''f''] 15)
         (\<lambda>r. if sr_ok r then check_zone_dbs L [q] (splitlines (py_strip (sr_stdout r))) else act_ret ()))"
        by (intro renames_at_most_bind renames_at_most_if check_zone_dbs_renames no_renames client_run_log log.moves_ret reader_no_rename) simp
      then have rest: "renames_at_most 1 p ?rest" unfolding add_0 by (rule renames_at_most_catch)
      have "renames_at_most (0 + 1) p (act_then (check_single_db L q) ?rest)"
        unfolding act_then_def
        by (rule renames_at_most_bind [OF no_renames [OF check_other_db_renames [OF False]] rest])
      then show ?thesis by simp
    qed
  qed
  then have "renames p ops \<le> 1"
    unfolding renames_at_most_def using w' ops by (metis add_0 same_append_eq snd_conv)
  ultimately show ?thesis using w' ops by blast
qed

section \<open>A sample session\<close>

text \<open>A Jetson that answers every command: a probe without failures, an intact database, sizes of 42.\<close>

definition demo_reply :: "string list \<Rightarrow> string" where
  "demo_reply argv =
     (if last argv = ''PRAGMA integrity_check;'' then ''ok'' else if last argv = ''--json'' then ''[]''
      else if last argv = ''systemctl is-active mower-vslam.service mower-vslam-bridge.service'' then [] else ''42'')"

definition demo_laptop :: "unit laptop" where
  "demo_laptop = \<lparr>
     la_client = \<lparr>jc_endpoint = \<lparr>je_host = ''jetson'', je_user = ''mower'', je_port = 22, je_key_path = None\<rparr>,
       jc_correlation_id = None, jc_strict_host_keys = ''accept-new'', jc_connect_timeout_s = 10,
       jc_ssh = Some ''ssh'', jc_scp = Some ''scp''\<rparr>,
     la_environ = [], la_spawn = (\<lambda>argv env timeout r. (RunExit 0 (Some (demo_reply argv)) None, 1000, r)),
     la_popen = (\<lambda>argv env r. (StreamClosed [] [] (Some 0), 1000, r)), la_sleep = (\<lambda>n r. (0, r)), la_wall = (\<lambda>t r. int t),
     la_file = (\<lambda>c r. (True, r)), la_exists = (\<lambda>p r. True), la_is_dir = (\<lambda>p r. True), la_glob = (\<lambda>d p r. []),
     la_tmpdir = (\<lambda>r. ''/tmp/x''), la_today = (\<lambda>r. ''2025-01-01''), la_home = ''/home/op'',
     la_vslam_defaults = ''/pkg/vslam_defaults.yaml'', la_loads = (\<lambda>s. if s = ''[]'' then Some (VList []) else None),
     la_yaml_load = (\<lambda>s. None), la_yaml_dump = (\<lambda>v. [])\<rparr>"

definition demo_world :: "unit world" where
  "demo_world = \<lparr>w_now = 0, w_input = [], w_log = [], w_rest = ()\<rparr>"

lemma demo_run:
  "argv \<noteq> [] \<Longrightarrow> \<exists>full. client_run demo_laptop argv timeout w =
     (Ok \<lparr>sr_argv = full, sr_returncode = 0, sr_stdout = demo_reply argv, sr_stderr = []\<rparr>,
      advance [Ran argv] 1000 () w)"
  by (simp add: client_run_def build_ssh_argv_def demo_laptop_def ssh_run_def sr_ok_def captured_def demo_reply_def Let_def)

theorem db_check_quarantine_witness:
  "healthy_db demo_laptop ''/var/lib/mower/rtabmap.db'' \<and>
   (\<exists>w' ops. run_db_check demo_laptop demo_world = (Ok (), w') \<and> w_log w' = w_log demo_world @ ops \<and> list_all db_op ops \<and>
     renames ''/var/lib/mower/rtabmap.db'' ops = 0)"
proof -
  have "healthy_db demo_laptop ''/var/lib/mower/rtabmap.db''"
    unfolding healthy_db_def
  proof (intro allI conjI)
    fix w
    from demo_run [of "[''stat'', ''-c'', ''%s'', ''/var/lib/mower/rtabmap.db'']" 15 w]
    show "\<exists>r w'. client_run demo_laptop [''stat'', ''-c'', ''%s'', ''/var/lib/mower/rtabmap.db''] 15 w = (Ok r, w') \<and> sr_ok r \<and> size_plausible (sr_stdout r)"
    proof -
      have "size_plausible ''42''" by code_simp
      with demo_run [of "[''stat'', ''-c'', ''%s'', ''/var/lib/mower/rtabmap.db'']" 15 w] show ?thesis
        by (auto simp: demo_reply_def sr_ok_def)
    qed
    have "py_strip ''ok'' = ''ok''" by code_simp
    with demo_run [of "[''sqlite3'', ''/var/lib/mower/rtabmap.db'', ''PRAGMA integrity_check;'']" 60 w]
    show "\<exists>r w'. client_run demo_laptop [''sqlite3'', ''/var/lib/mower/rtabmap.db'', ''PRAGMA integrity_check;''] 60 w = (Ok r, w') \<and> py_strip (sr_stdout r) = ''ok''"
      by (auto simp: demo_reply_def)
  qed
  with db_check_quarantine [of demo_laptop demo_world "''/var/lib/mower/rtabmap.db''"] show ?thesis by blast
qed

lemma demo_sleep: "sleep_s demo_laptop n w = (Ok (), advance [] (n * 1000000) () w)"
  by (simp add: sleep_s_def demo_laptop_def)

lemma demo_await: "\<exists>w'. await_jetson demo_laptop w = (Ok (), w')"
proof -
  have "\<exists>w'. await_pass demo_laptop False w = (Ok (True, True), w')"
    using demo_run [of "[''echo'', ''ok'']" 15 "advance [] 10000000 () w"]
    by (auto simp: await_pass_def act_then_def act_simps demo_sleep catch_ssh_def sr_ok_def)
  then show ?thesis
    by (auto simp: await_jetson_def act_simps timed_loop.simps [of _ _ False w] seconds_def)
qed

lemma demo_final_verify: "\<exists>w'. run_final_verify demo_laptop w = (Ok (), w')"
proof -
  obtain full where s: "suppress_ssh (client_run demo_laptop [''sudo'', ''reboot''] 10) w = (Ok (), advance [Ran [''sudo'', ''reboot'']] 1000 () w)"
    using demo_run [of "[''sudo'', ''reboot'']" 10 w] by (auto simp: suppress_ssh_def catch_ssh_def act_simps)
  obtain u where u: "reboot_and_await demo_laptop w = (Ok (), u)"
    using s demo_await by (auto simp: reboot_and_await_def act_then_def act_simps)
  obtain v where v: "sleep_s demo_laptop 30 u = (Ok (), v)" by (simp add: demo_sleep)
  have "\<exists>w'. probe_pass demo_laptop (None, []) v = (Ok ((Some (VList []), []), True), w')"
    using demo_run [of probe_cmd 30 v]
    by (auto simp: probe_pass_def act_simps catch_ssh_def sr_ok_def demo_reply_def probe_cmd_def demo_laptop_def
        of_result_def critical_fails_def not_among_def)
  then show ?thesis
    by (auto simp: run_final_verify_def act_then_def act_simps u v timed_loop.simps [of _ _ "(None, [])" v]
        seconds_def final_report_def of_result_def not_among_def exit_listing_def)
qed

theorem bringup_waits_bounded_witness:
  "length (w_log (snd (await_vslam demo_laptop demo_world))) \<le> length (w_log demo_world) + 48
     \<and> fst (await_vslam demo_laptop demo_world) \<noteq> Err Hangs"
proof -
  have "wall_steady demo_laptop" by (simp add: wall_steady_def demo_laptop_def)
  with bringup_waits_bounded [of demo_laptop demo_world] show ?thesis by blast
qed

end
