(* ===== verification/Bringup.thy ===== *)
theory Bringup
  imports Deploy
begin

text \<open>
  \<open>mower jetson bringup\<close>: the table of the steps and the command's loop over it, \<open>cli/bringup.py\<close>,
  with what the command guarantees. The loop returns, beside its result, what became of each step
  it came to, which the command prints.
\<close>

section \<open>The table\<close>

definition STEP_NAMES :: "string list" where
  "STEP_NAMES =
     [''clear-host-key'', ''check-ssh'', ''enable-linger'', ''harden-os'', ''reboot-and-wait'',
      ''restore-binaries'', ''install-build-deps'', ''build-rtabmap'', ''build-depthai'',
      ''build-slam-node'', ''build-kiosk-renderer'', ''archive-binaries'', ''pixhawk-udev'',
      ''install-uv'', ''install-cli'', ''verify'', ''vslam-config'', ''service'', ''vslam-db-check'',
      ''install-mavproxy'', ''vslam-services'', ''pixhawk-sync'', ''kiosk-services'',
      ''kiosk-probe'', ''final-verify'']"

record 'r bringup_step =
  bs_name :: string
  bs_check :: "('r, bool) step"
  bs_execute :: "('r, unit) step"
  bs_needs_confirm :: bool
  bs_gate :: bool

definition bring_step ::
  "string \<Rightarrow> ('r, bool) step \<Rightarrow> ('r, unit) step \<Rightarrow> bool \<Rightarrow> bool \<Rightarrow> 'r bringup_step" where
  "bring_step name check execute needs_confirm gate =
     \<lparr>bs_name = name, bs_check = check, bs_execute = execute, bs_needs_confirm = needs_confirm, bs_gate = gate\<rparr>"

definition BRINGUP_STEPS :: "'r laptop \<Rightarrow> bringup_context \<Rightarrow> 'r bringup_step list" where
  "BRINGUP_STEPS L B =
     [bring_step ''clear-host-key'' (clear_host_key_needed L) (run_clear_host_key L) False False,
      bring_step ''check-ssh'' (check_ssh_ok L) (run_check_ssh L) False True,
      bring_step ''enable-linger'' (linger_enabled L) (run_enable_linger L) False False,
      bring_step ''harden-os'' (harden_done L) (run_harden L B) True False,
      bring_step ''reboot-and-wait'' (reboot_check L) (run_reboot_and_wait L) False False,
      bring_step ''restore-binaries'' (restore_binaries_check L) (run_restore_binaries L) False False,
      bring_step ''install-build-deps'' (build_deps_check L) (run_install_build_deps L) False False,
      bring_step ''build-rtabmap'' (build_rtabmap_check L) (run_build_rtabmap L ''$(nproc)'') False False,
      bring_step ''build-depthai'' (build_depthai_check L) (run_build_depthai L ''$(nproc)'') False False,
      bring_step ''build-slam-node'' (build_slam_node_check L) (run_build_slam_node L B) False False,
      bring_step ''build-kiosk-renderer'' (build_kiosk_renderer_check L) (run_build_kiosk_renderer L B) False False,
      bring_step ''archive-binaries'' (archive_binaries_check L) (run_archive_binaries L) False False,
      bring_step ''pixhawk-udev'' (pixhawk_udev_done L) (run_pixhawk_udev L B) True False,
      bring_step ''install-uv'' (uv_installed L) (run_install_uv L) False False,
      bring_step ''install-cli'' (cli_installed L) (run_install_cli L) False False,
      bring_step ''verify'' (act_ret False) (run_verify L) False False,
      bring_step ''vslam-config'' (vslam_config_exists L) (run_vslam_config L) False False,
      bring_step ''service'' (act_ret False) (run_service L B) True False,
      bring_step ''vslam-db-check'' (act_ret False) (run_db_check L) False False,
      bring_step ''install-mavproxy'' (act_ret False) (run_install_mavproxy L B) True False,
      bring_step ''vslam-services'' (act_ret False) (run_vslam_services L B) True False,
      bring_step ''pixhawk-sync'' (act_ret False) (run_pixhawk_sync L B) True False,
      bring_step ''kiosk-services'' (act_ret False) (run_kiosk_services L B) True False,
      bring_step ''kiosk-probe'' (act_ret False) (run_kiosk_probe L) False False,
      bring_step ''final-verify'' (act_ret False) (run_final_verify L) False False]"

section \<open>The loop\<close>

record bringup_options =
  bo_step :: "string option"
  bo_from_step :: "string option"
  bo_continue :: bool

datatype fate =
    DryRun
  | BeforeTarget
  | Satisfied
  | Executed
  | FailedWith step_exc
  | BuiltInParallel
  | HandledInParallel

type_synonym failures = "(string \<times> step_exc) list"

fun caught :: "step_exc \<Rightarrow> bool" where
  "caught (Exit n) = True"
| "caught (SshFail e) = True"
| "caught e = False"

text \<open>\<open>except (typer.Exit, SshError)\<close> around a step: go on, or let the exception pass.\<close>

definition attempt :: "bool \<Rightarrow> 'r bringup_step \<Rightarrow> ('r, fate) step" where
  "attempt continue_on_error s w =
     (case bs_execute s w of
        (Inr _, w') \<Rightarrow> (Ok Executed, w')
      | (Inl e, w') \<Rightarrow>
          if caught e \<and> continue_on_error \<and> \<not> bs_gate s then (Ok (FailedWith e), w') else (Err e, w'))"

definition normal_step ::
  "bringup_context \<Rightarrow> bringup_options \<Rightarrow> nat option \<Rightarrow> nat \<Rightarrow> 'r bringup_step \<Rightarrow> ('r, fate \<times> failures) step" where
  "normal_step B opts from_idx i s =
     (if bc_dry_run B then act_ret (DryRun, [])
      else if (case from_idx of None \<Rightarrow> False | Some k \<Rightarrow> i < k) then act_ret (BeforeTarget, [])
      else act_bind (if bo_step opts = None then bs_check s else act_ret False) (\<lambda>satisfied.
        if satisfied then act_ret (Satisfied, [])
        else act_bind (attempt (bo_continue opts) s) (\<lambda>f.
          act_ret (f, case f of FailedWith e \<Rightarrow> [(bs_name s, e)] | _ \<Rightarrow> []))))"

text \<open>The errors that the threads' wrapper records, in the order in which the threads end.\<close>

definition thread_errors :: "(string \<times> (step_exc, unit) result) list \<Rightarrow> failures" where
  "thread_errors rs = concat (map (\<lambda>(name, r). case r of Inl e \<Rightarrow> if caught e then [(name, e)] else [] | _ \<Rightarrow> []) rs)"

definition build_threads ::
  "'r laptop \<Rightarrow> bringup_options \<Rightarrow> nat list \<Rightarrow> bool \<Rightarrow> bool \<Rightarrow> ('r, fate \<times> failures) step" where
  "build_threads L opts sched rtabmap_needs_run depthai_needs_run w =
     (case run_threads sched
             ((if rtabmap_needs_run then [(''build-rtabmap'', build_rtabmap L ''6'')] else [])
              @ (if depthai_needs_run then [(''build-depthai'', build_depthai L ''6'')] else [])) w of
        (rs, w') \<Rightarrow>
          if list_ex (\<lambda>(name, r). r = Err Hangs) rs then (Err Hangs, w')
          else if thread_errors rs \<noteq> [] \<and> \<not> bo_continue opts then (Err (Exit 3), w')
          else (Ok (BuiltInParallel, thread_errors rs), w'))"

definition parallel_step ::
  "'r laptop \<Rightarrow> bringup_context \<Rightarrow> bringup_options \<Rightarrow> nat option \<Rightarrow> nat list \<Rightarrow> nat \<Rightarrow> 'r bringup_step
     \<Rightarrow> ('r, fate \<times> failures) step" where
  "parallel_step L B opts from_idx sched i s =
     act_bind (bs_check s) (\<lambda>rtabmap_done.
     act_bind (build_depthai_check L) (\<lambda>depthai_done.
     if \<not> rtabmap_done \<or> \<not> depthai_done then build_threads L opts sched (\<not> rtabmap_done) (\<not> depthai_done)
     else normal_step B opts from_idx i s))"

definition one_step ::
  "'r laptop \<Rightarrow> bringup_context \<Rightarrow> bringup_options \<Rightarrow> nat option \<Rightarrow> nat list \<Rightarrow> nat \<Rightarrow> 'r bringup_step
     \<Rightarrow> ('r, fate \<times> failures) step" where
  "one_step L B opts from_idx sched i s =
     (if bc_parallel_builds B \<and> \<not> bc_dry_run B \<and> bo_step opts = None \<and> bs_name s = ''build-rtabmap''
      then parallel_step L B opts from_idx sched i s
      else if bc_parallel_builds B \<and> \<not> bc_dry_run B \<and> bo_step opts = None \<and> bs_name s = ''build-depthai''
      then act_ret (HandledInParallel, [])
      else normal_step B opts from_idx i s)"

type_synonym history = "(string \<times> fate) list"

fun bringup_loop ::
  "'r laptop \<Rightarrow> bringup_context \<Rightarrow> bringup_options \<Rightarrow> nat option \<Rightarrow> nat list \<Rightarrow> nat \<Rightarrow> 'r bringup_step list
     \<Rightarrow> 'r world \<Rightarrow> history \<times> (step_exc, failures) result \<times> 'r world" where
  "bringup_loop L B opts from_idx sched i [] w = ([], Ok [], w)"
| "bringup_loop L B opts from_idx sched i (s # ss) w =
     (case one_step L B opts from_idx sched i s w of
        (Inl e, w') \<Rightarrow> ([(bs_name s, FailedWith e)], Err e, w')
      | (Inr (f, errs), w') \<Rightarrow>
          (case bringup_loop L B opts from_idx sched (Suc i) ss w' of
             (h, r, w'') \<Rightarrow> ((bs_name s, f) # h, bindr r (\<lambda>fs. Ok (errs @ fs)), w'')))"

text \<open>\<open>next(i for i, s in enumerate(steps) if s.name == name)\<close>\<close>

fun step_index :: "string \<Rightarrow> 'r bringup_step list \<Rightarrow> nat option" where
  "step_index name [] = None"
| "step_index name (s # ss) = (if bs_name s = name then Some 0 else map_option Suc (step_index name ss))"

text \<open>\<open>_find_project_root\<close>: the directories from the source file's own upwards.\<close>

definition find_project_root :: "(string \<Rightarrow> bool) \<Rightarrow> string list \<Rightarrow> string option" where
  "find_project_root exists_in dirs = (case filter (\<lambda>d. exists_in (d @ ''/pyproject.toml'')) dirs of [] \<Rightarrow> None | d # _ \<Rightarrow> Some d)"

definition bringup_steps_run ::
  "'r laptop \<Rightarrow> bringup_context \<Rightarrow> bringup_options \<Rightarrow> nat list \<Rightarrow> 'r world
     \<Rightarrow> history \<times> (step_exc, unit) result \<times> 'r world" where
  "bringup_steps_run L B opts sched w =
     (let steps = (case bo_step opts of
                     Some name \<Rightarrow> filter (\<lambda>s. bs_name s = name) (BRINGUP_STEPS L B)
                   | None \<Rightarrow> BRINGUP_STEPS L B);
          from_idx = (case bo_from_step opts of None \<Rightarrow> None | Some name \<Rightarrow> step_index name steps)
      in if bo_from_step opts \<noteq> None \<and> from_idx = None then ([], Err (Exit 2), w)
         else case bringup_loop L B opts from_idx sched 0 steps w of
                (h, r, w') \<Rightarrow> (h, bindr r (\<lambda>failures. if failures = [] then Ok () else Err (Exit 1)), w'))"

definition bringup_command ::
  "'r laptop \<Rightarrow> string option \<Rightarrow> bool \<Rightarrow> bool \<Rightarrow> bool \<Rightarrow> bringup_options \<Rightarrow> nat list \<Rightarrow> 'r world
     \<Rightarrow> history \<times> (step_exc, unit) result \<times> 'r world" where
  "bringup_command L project_root dry yes parallel opts sched w =
     (if bo_step opts \<noteq> None \<and> bo_from_step opts \<noteq> None then ([], Err (Exit 2), w)
      else if (case bo_step opts of None \<Rightarrow> False | Some n \<Rightarrow> n \<notin> set STEP_NAMES) then ([], Err (Exit 2), w)
      else if (case bo_from_step opts of None \<Rightarrow> False | Some n \<Rightarrow> n \<notin> set STEP_NAMES) then ([], Err (Exit 2), w)
      else case project_root of
             None \<Rightarrow> ([], Err (Exit 3), w)
           | Some proot \<Rightarrow>
               bringup_steps_run L \<lparr>bc_project_root = proot, bc_dry_run = dry, bc_yes = yes, bc_parallel_builds = parallel\<rparr>
                 opts sched w)"

section \<open>Properties of the table\<close>

lemma step_names: "map bs_name (BRINGUP_STEPS L B) = STEP_NAMES"
  by (simp add: BRINGUP_STEPS_def STEP_NAMES_def bring_step_def)

lemma step_index_Some: "name \<in> bs_name ` set ss \<Longrightarrow> \<exists>i. step_index name ss = Some i"
  by (induction ss) auto

lemma step_names_set: "bs_name ` set (BRINGUP_STEPS L B) = set STEP_NAMES"
  using step_names [of L B] by (metis list.set_map)

section \<open>Consent\<close>

lemma dry_step: "bc_dry_run B \<Longrightarrow> one_step L B opts from_idx sched i s w = (Ok (DryRun, []), w)"
  by (simp add: one_step_def normal_step_def act_simps)

lemma dry_loop: "bc_dry_run B \<Longrightarrow>
    bringup_loop L B opts from_idx sched i ss w = (map (\<lambda>s. (bs_name s, DryRun)) ss, Ok [], w)"
  by (induction ss arbitrary: i w) (simp_all add: dry_step)

lemma declined_step:
  "\<not> bc_yes B \<Longrightarrow> \<not> prompt (case w_input w of [] \<Rightarrow> Eof | l # ls \<Rightarrow> l) \<Longrightarrow>
     confirmed_step B m w = (Ok (), w\<lparr>w_input := tl (w_input w)\<rparr>)"
  by (auto simp: confirmed_step_def confirm_or_skip_def read_line_def act_simps split: list.splits)

lemma confirm_steps:
  "s \<in> set (BRINGUP_STEPS L B) \<Longrightarrow> bs_needs_confirm s \<Longrightarrow> \<exists>m. bs_execute s = confirmed_step B m"
  by (auto simp: BRINGUP_STEPS_def bring_step_def run_harden_def run_pixhawk_udev_def run_service_def
      run_install_mavproxy_def run_vslam_services_def run_pixhawk_sync_def run_kiosk_services_def Let_def)

text \<open>
  C13: A dry run of the bringup changes nothing, whatever its other options and whatever the machines
  would answer: no command, no copy, no prompt. And a step that the table marks as needing
  confirmation does nothing at all when the operator does not answer the prompt with yes.
\<close>
theorem bringup_consent:
  "snd (snd (bringup_command L proot True yes parallel opts sched w)) = w \<and>
   (\<forall>s \<in> set (BRINGUP_STEPS L B). bs_needs_confirm s \<longrightarrow> \<not> bc_yes B \<longrightarrow>
      \<not> prompt (case w_input w of [] \<Rightarrow> Eof | l # ls \<Rightarrow> l) \<longrightarrow>
      bs_execute s w = (Ok (), w\<lparr>w_input := tl (w_input w)\<rparr>))"
proof
  show "snd (snd (bringup_command L proot True yes parallel opts sched w)) = w"
    by (auto simp: bringup_command_def bringup_steps_run_def dry_loop Let_def split: option.splits)
qed (auto dest!: confirm_steps simp: declined_step)

section \<open>The gate\<close>

definition hello_op :: "'r laptop \<Rightarrow> laptop_op \<Rightarrow> bool" where
  "hello_op L c \<longleftrightarrow> c = Ran [''echo'', ''ok''] \<or> c = LocalRun [''ssh-keygen'', ''-R'', host_of L]"

lemma clear_host_key_log:
  "moves (grows (hello_op L)) (clear_host_key_needed L)" "moves (grows (hello_op L)) (run_clear_host_key L)"
  unfolding clear_host_key_needed_def run_clear_host_key_def
  by (auto intro!: log.moves_rules client_run_log local_run_log simp: hello_op_def split: run_outcome.splits)

lemma check_ssh_log: "moves (grows (hello_op L)) (check_ssh_ok L)"
  unfolding check_ssh_ok_def by (intro log.moves_rules client_run_log) (simp add: hello_op_def)

lemma clear_host_key_calm: "calm (clear_host_key_needed L)"
  unfolding clear_host_key_needed_def
  by (intro calm_catch ssh_only_bind ssh_only_run ssh_only_ret calm_ret)

lemma clear_host_key_raises: "run_clear_host_key L w = (Inl e, w') \<Longrightarrow> e = Exit 3"
  by (auto simp: run_clear_host_key_def act_simps local_run_def split: prod.splits run_outcome.splits if_splits)

text \<open>
  C14: When the Jetson cannot be reached, the bringup ends with exit code 3 at its second step at the
  latest, also with \<open>--continue-on-error\<close> and \<open>--parallel-builds\<close>: nothing but the greeting was sent
  to it, and nothing was run on the laptop but the removal of its host key.
\<close>
theorem bringup_gate:
  assumes "\<And>w. fst (check_ssh_ok L w) = Ok False"
  shows "\<exists>h w' ops. bringup_command L (Some proot) False yes parallel \<lparr>bo_step = None, bo_from_step = None, bo_continue = cont\<rparr> sched w
       = (h, Err (Exit 3), w') \<and>
     w_log w' = w_log w @ ops \<and> list_all (hello_op L) ops \<and>
     map fst h \<in> {[''clear-host-key''], [''clear-host-key'', ''check-ssh'']}"
proof -
  define B where "B = \<lparr>bc_project_root = proot, bc_dry_run = False, bc_yes = yes, bc_parallel_builds = parallel\<rparr>"
  define opts where "opts = \<lparr>bo_step = None, bo_from_step = None, bo_continue = cont\<rparr>"
  define tail where "tail = tl (BRINGUP_STEPS L B)"
  have steps: "BRINGUP_STEPS L B =
      bring_step ''clear-host-key'' (clear_host_key_needed L) (run_clear_host_key L) False False # tail"
    by (simp add: tail_def BRINGUP_STEPS_def)
  obtain rest where tl: "tail = bring_step ''check-ssh'' (check_ssh_ok L) (run_check_ssh L) False True # rest"
    unfolding tail_def BRINGUP_STEPS_def by simp
  have gate: "\<exists>h w'. bringup_loop L B opts None sched (Suc 0) tail v = (h, Err (Exit 3), w')
      \<and> map fst h = [''check-ssh''] \<and> grows (hello_op L) v w'" for v
    using assms [of v] movesD [OF check_ssh_log] unfolding tl
    by (cases "check_ssh_ok L v") (auto simp: one_step_def normal_step_def B_def opts_def bring_step_def act_simps
        attempt_def run_check_ssh_def)
  obtain sat u where c: "clear_host_key_needed L w = (Ok sat, u)"
    using clear_host_key_calm [of L] unfolding calm_def by (metis prod.collapse)
  have u: "grows (hello_op L) w u" by (rule movesD [OF clear_host_key_log(1) c])
  obtain r v where x: "run_clear_host_key L u = (r, v)" by (cases "run_clear_host_key L u")
  have v: "grows (hello_op L) u v" by (rule movesD [OF clear_host_key_log(2) x])
  have first: "one_step L B opts None sched 0
      (bring_step ''clear-host-key'' (clear_host_key_needed L) (run_clear_host_key L) False False) w =
      (if sat then (Ok (Satisfied, []), u)
       else case r of
              Inr _ \<Rightarrow> (Ok (Executed, []), v)
            | Inl e \<Rightarrow> if cont then (Ok (FailedWith (Exit 3), [(''clear-host-key'', Exit 3)]), v) else (Err (Exit 3), v))"
    using c x clear_host_key_raises [of L u]
    by (auto simp: one_step_def normal_step_def B_def opts_def bring_step_def act_simps attempt_def split: sum.splits)
  have "\<exists>h w'. bringup_loop L B opts None sched 0 (BRINGUP_STEPS L B) w = (h, Err (Exit 3), w')
      \<and> map fst h \<in> {[''clear-host-key''], [''clear-host-key'', ''check-ssh'']} \<and> grows (hello_op L) w w'"
  proof -
    have wv: "grows (hello_op L) w v" using u v by (rule log.trans)
    obtain h1 w1 where g1: "bringup_loop L B opts None sched (Suc 0) tail u = (h1, Err (Exit 3), w1)" "map fst h1 = [''check-ssh'']"
      "grows (hello_op L) u w1" using gate [of u] by (elim exE conjE)
    obtain h2 w2 where g2: "bringup_loop L B opts None sched (Suc 0) tail v = (h2, Err (Exit 3), w2)" "map fst h2 = [''check-ssh'']"
      "grows (hello_op L) v w2" using gate [of v] by (elim exE conjE)
    have "grows (hello_op L) w w1" "grows (hello_op L) w w2" using g1 g2 u wv log.trans by blast+
    then show ?thesis using wv g1 g2 by (auto simp: steps first split: sum.splits) (simp_all add: bring_step_def)
  qed
  then show ?thesis
    by (auto simp: bringup_command_def bringup_steps_run_def B_def [symmetric] opts_def [symmetric] Let_def grows_def)
      (auto simp: opts_def)
qed

definition unplugged :: "unit laptop" where
  "unplugged = demo_laptop\<lparr>la_client := (la_client demo_laptop)\<lparr>jc_ssh := None\<rparr>\<rparr>"

theorem bringup_gate_witness:
  "(\<forall>w. fst (check_ssh_ok unplugged w) = Ok False) \<and>
   (\<exists>h w' ops. bringup_command unplugged (Some ''/src'') False True True \<lparr>bo_step = None, bo_from_step = None, bo_continue = True\<rparr> [] demo_world
       = (h, Err (Exit 3), w') \<and> w_log w' = w_log demo_world @ ops \<and> list_all (hello_op unplugged) ops \<and>
     map fst h \<in> {[''clear-host-key''], [''clear-host-key'', ''check-ssh'']})"
proof -
  have no: "fst (check_ssh_ok unplugged w) = Ok False" for w
    by (simp add: check_ssh_ok_def ssh_true_def catch_ssh_def act_simps client_run_def build_ssh_argv_def unplugged_def demo_laptop_def)
  show ?thesis using bringup_gate [OF no] no by blast
qed

theorem bringup_consent_witness:
  "snd (snd (bringup_command demo_laptop (Some ''/src'') True True True \<lparr>bo_step = None, bo_from_step = None, bo_continue = True\<rparr> [] demo_world)) = demo_world \<and>
   run_service demo_laptop \<lparr>bc_project_root = ''/src'', bc_dry_run = False, bc_yes = False, bc_parallel_builds = False\<rparr> demo_world
     = (Ok (), demo_world\<lparr>w_input := []\<rparr>)"
proof -
  let ?B = "\<lparr>bc_project_root = ''/src'', bc_dry_run = False, bc_yes = False, bc_parallel_builds = False\<rparr>"
  let ?s = "bring_step ''service'' (act_ret False) (run_service demo_laptop ?B) True False"
  have "?s \<in> set (BRINGUP_STEPS demo_laptop ?B)" by (simp add: BRINGUP_STEPS_def)
  moreover have "bs_needs_confirm ?s" "bs_execute ?s = run_service demo_laptop ?B" by (simp_all add: bring_step_def)
  ultimately show ?thesis
    using bringup_consent [of demo_laptop "Some ''/src''" True True "\<lparr>bo_step = None, bo_from_step = None, bo_continue = True\<rparr>" "[]" demo_world ?B]
    by (auto simp: demo_world_def)
qed

section \<open>Specification\<close>

text \<open>
  What a complete bringup is: one step after the other was found satisfied, or was carried out
  without an exception, each in the world the previous one left.
\<close>

inductive provisioned :: "'r bringup_step list \<Rightarrow> 'r world \<Rightarrow> 'r world \<Rightarrow> bool" where
  provisioned_none: "provisioned [] w w"
| provisioned_satisfied: "bs_check s w = (Ok True, u) \<Longrightarrow> provisioned ss u w' \<Longrightarrow> provisioned (s # ss) w w'"
| provisioned_executed: "bs_check s w = (Ok False, u) \<Longrightarrow> bs_execute s u = (Ok (), v) \<Longrightarrow> provisioned ss v w' \<Longrightarrow>
    provisioned (s # ss) w w'"

inductive_simps provisioned_Nil: "provisioned [] w w'"
inductive_simps provisioned_Cons: "provisioned (s # ss) w w'"

lemma loop_provisioned:
  assumes "\<not> bc_dry_run B" and "\<not> bc_parallel_builds B" and "bo_step opts = None"
  shows "(\<exists>h. bringup_loop L B opts None sched i ss w = (h, Ok [], w')) \<longleftrightarrow> provisioned ss w w'"
proof (induction ss arbitrary: i w)
  case Nil
  show ?case by (auto simp: provisioned_Nil)
next
  case (Cons s ss)
  obtain c u where c: "bs_check s w = (c, u)" by (cases "bs_check s w")
  obtain x v where x: "bs_execute s u = (x, v)" by (cases "bs_execute s u")
  have one: "one_step L B opts None sched i s w =
      (case c of
         Inl e \<Rightarrow> (Err e, u)
       | Inr sat \<Rightarrow>
           if sat then (Ok (Satisfied, []), u)
           else case x of
                  Inr _ \<Rightarrow> (Ok (Executed, []), v)
                | Inl e \<Rightarrow> if caught e \<and> bo_continue opts \<and> \<not> bs_gate s then (Ok (FailedWith e, [(bs_name s, e)]), v) else (Err e, v))"
    using assms c x by (auto simp: one_step_def normal_step_def act_simps attempt_def split: sum.splits)
  have tail: "(\<exists>h. bringup_loop L B opts None sched i (s # ss) w = (h, Ok [], w')) \<longleftrightarrow> errs = [] \<and> provisioned ss t w'"
    if "one_step L B opts None sched i s w = (Inr (f, errs), t)" for t f errs
    using Cons.IH [of "Suc i" t] that
    by (cases "bringup_loop L B opts None sched (Suc i) ss t") (auto simp: result_simps)
  have stop: "(\<nexists>h. bringup_loop L B opts None sched i (s # ss) w = (h, Ok [], w'))"
    if "one_step L B opts None sched i s w = (Inl e, t)" for t e
    using that by simp
  show ?case
  proof (cases c)
    case (Inl e)
    with stop [of e u] one show ?thesis by (simp add: provisioned_Cons c)
  next
    case (Inr sat)
    show ?thesis
    proof (cases sat)
      case True
      with Inr tail [of Satisfied "[]" u] one show ?thesis by (simp add: provisioned_Cons c)
    next
      case False
      show ?thesis
      proof (cases x)
        case (Inl e)
        show ?thesis
        proof (cases "caught e \<and> bo_continue opts \<and> \<not> bs_gate s")
          case True
          with Inr False Inl tail [of "FailedWith e" "[(bs_name s, e)]" v] one show ?thesis by (simp add: provisioned_Cons c x)
        next
          case False
          with Inr \<open>\<not> sat\<close> Inl stop [of e v] one show ?thesis by (auto simp: provisioned_Cons c x)
        qed
      next
        case (Inr y)
        with \<open>c = Inr sat\<close> False tail [of Executed "[]" v] one show ?thesis by (simp add: provisioned_Cons c x)
      qed
    qed
  qed
qed

text \<open>
  C15: A sequential bringup of all steps reports success exactly when, in the order of the table, every
  step was satisfied already or was carried out without an exception, each in the world the previous
  one left, with or without \<open>--continue-on-error\<close>.
\<close>
theorem bringup_refines:
  "(\<exists>h. bringup_command L (Some proot) False yes False \<lparr>bo_step = None, bo_from_step = None, bo_continue = cont\<rparr> sched w = (h, Ok (), w'))
   \<longleftrightarrow> provisioned (BRINGUP_STEPS L \<lparr>bc_project_root = proot, bc_dry_run = False, bc_yes = yes, bc_parallel_builds = False\<rparr>) w w'"
proof -
  let ?B = "\<lparr>bc_project_root = proot, bc_dry_run = False, bc_yes = yes, bc_parallel_builds = False\<rparr>"
  let ?o = "\<lparr>bo_step = None, bo_from_step = None, bo_continue = cont\<rparr>"
  have "(\<exists>h. bringup_command L (Some proot) False yes False ?o sched w = (h, Ok (), w'))
      \<longleftrightarrow> (\<exists>h. bringup_loop L ?B ?o None sched 0 (BRINGUP_STEPS L ?B) w = (h, Ok [], w'))"
    by (cases "bringup_loop L ?B ?o None sched 0 (BRINGUP_STEPS L ?B) w")
      (auto simp: bringup_command_def bringup_steps_run_def Let_def result_simps split: if_splits)
  then show ?thesis using loop_provisioned [of ?B ?o L sched 0 "BRINGUP_STEPS L ?B" w w'] by simp
qed

section \<open>The rewritten bridge configuration\<close>

lemma dict_get_or_set: "dict_get_or (dict_set k v d) k' x = (if k = k' then v else dict_get_or d k' x)"
  by (auto simp: dict_get_or_def dict_get_def)

lemma coerce_bridge_serial:
  "coerce_bridge (VDict b) = Ok c \<Longrightarrow>
     coerce_bridge (VDict (dict_set ''serial_device'' (VStr dev) b)) = Ok (c\<lparr>serial_device := dev\<rparr>)"
  by (auto simp: result_simps str_field_def int_field_def dict_get_or_set)

lemma coerce_bridge_missing: "coerce_bridge VNone = coerce_bridge (VDict [])"
  by (simp add: default_bridge_def str_field_def int_field_def dict_get_or_def dict_get_def)

lemma coerce_section_bridge:
  assumes "coerce_vslam_section d raw = Ok c" and "\<And>b. coerce_bridge raw = Ok b \<Longrightarrow> coerce_bridge raw' = Ok (f b)"
  shows "coerce_vslam_section d raw' = Ok (c\<lparr>vc_bridge := f (vc_bridge c)\<rparr>)"
  using assms unfolding coerce_vslam_section_def by (auto simp: result_simps)

text \<open>
  The MAVProxy step rewrites \<open>/etc/mower/vslam.yaml\<close> so that the VSLAM configuration loaded from the
  new document is the one loaded from the old, with the bridge connected to MAVProxy's first UDP
  output and no other setting changed.
\<close>
lemma mavproxy_rewrites_bridge:
  assumes "coerce_vslam doc = Ok c" and "rewrite_bridge doc = Ok (Some doc')"
  shows "coerce_vslam doc' = Ok (c\<lparr>vc_bridge := (vc_bridge c)\<lparr>serial_device := ''udp:127.0.0.1:14550''\<rparr>\<rparr>)"
proof -
  obtain raw b where doc: "doc = VDict raw" "dict_get_or raw ''bridge'' (VDict []) = VDict b"
    "doc' = VDict (dict_set ''bridge'' (VDict (dict_set ''serial_device'' (VStr ''udp:127.0.0.1:14550'') b)) raw)"
    using assms(2) by (auto simp: rewrite_bridge_def split: pyval.splits if_splits)
  from assms(1) obtain d where d: "dict_get_or raw ''vslam'' (VDict []) = VDict d"
    "coerce_vslam_section d (dict_get_or raw ''bridge'' VNone) = Ok c"
    by (auto simp: doc(1) split: pyval.splits)
  have "coerce_bridge (dict_get_or raw ''bridge'' VNone) = coerce_bridge (VDict b)"
    using doc(2) coerce_bridge_missing
    by (cases "map_of raw ''bridge''") (auto simp: dict_get_or_def dict_get_def simp del: coerce_bridge.simps)
  then have "coerce_vslam_section d (VDict (dict_set ''serial_device'' (VStr ''udp:127.0.0.1:14550'') b)) =
      Ok (c\<lparr>vc_bridge := (vc_bridge c)\<lparr>serial_device := ''udp:127.0.0.1:14550''\<rparr>\<rparr>)"
    using coerce_bridge_serial [of b _ "''udp:127.0.0.1:14550''"] by (intro coerce_section_bridge [OF d(2)]) simp
  then show ?thesis using d(1) by (simp add: doc(3) dict_get_or_set)
qed

end
