(* ===== verification/Checks.thy ===== *)
theory Checks
  imports Probe Health Config PoseIpc MissionItems
begin

text \<open>
  The probe checks, \<open>probe/checks/\<close>, as functions of the system they inspect, and the registry
  that importing the package fills. A system is what the calls of the checks return: the kind of a
  path and the text of a file (asked separately, since a file may change in between), the matches of
  a glob, the outcome of a process. Paths are relative to the system root. Dashes and other signs
  outside ASCII in the details are written in ASCII; the texts of exceptions and of floats in
  exponent notation are arguments.
\<close>

section \<open>The system\<close>

datatype path_kind = NoEntry | RegularFile | OtherEntry

text \<open>A process that ended: its status and its output, \<open>None\<close> if the output does not decode.\<close>

datatype run_outcome = RunMissing | RunTimeout | RunOSError | RunExit int "string option"

datatype sock_outcome = SockMissing | SockTimeout | SockRefused | SockError | SockData "byte list"

datatype lua_resource = LuaFile | LuaNoFile | LuaMissing

datatype check_exc = PyExc pyexc | OSError | YAMLError | UnboundLocalError | ZoneExc zone_error

record system =
  sy_root :: string
  sy_stat :: "string \<Rightarrow> path_kind"
  sy_read :: "string \<Rightarrow> file_view"
  sy_glob :: "string \<Rightarrow> string list"
  sy_run :: "string list \<Rightarrow> run_outcome"
  sy_env :: "string \<Rightarrow> string option"
  sy_uv_pythons :: "string list"
  sy_statvfs :: statvfs
  sy_resolve :: "string \<Rightarrow> string"
  sy_af_unix :: bool
  sy_pose_socket :: sock_outcome
  sy_lua :: lua_resource
  sy_now :: string
  sy_yaml :: "string \<Rightarrow> pyval option"
  sy_json :: "string \<Rightarrow> pyval option"
  sy_str :: "check_exc \<Rightarrow> string"
  sy_fr :: "pyfloat \<Rightarrow> string"
  sy_fmt_e :: "nat \<Rightarrow> pyfloat \<Rightarrow> string"
  sy_geometry :: geometry

type_synonym verdict = "(check_exc, bool \<times> string) result"

abbreviation passes :: "string \<Rightarrow> verdict" where "passes d \<equiv> Ok (True, d)"
abbreviation fails :: "string \<Rightarrow> verdict" where "fails d \<equiv> Ok (False, d)"

definition exists_at :: "system \<Rightarrow> string \<Rightarrow> bool" where
  "exists_at s p \<longleftrightarrow> sy_stat s p \<noteq> NoEntry"

definition is_file_at :: "system \<Rightarrow> string \<Rightarrow> bool" where
  "is_file_at s p \<longleftrightarrow> sy_stat s p = RegularFile"

definition rooted :: "system \<Rightarrow> string \<Rightarrow> string" where
  "rooted s p = path_join (sy_root s) p"

text \<open>\<open>read_text\<close>, and the view the health readers take after \<open>is_file\<close>.\<close>

definition read_text :: "system \<Rightarrow> string \<Rightarrow> (check_exc, string) result" where
  "read_text s p =
     (case sy_read s p of
        FText t \<Rightarrow> Ok t
      | FBadUtf8 \<Rightarrow> Err (PyExc UnicodeError)
      | _ \<Rightarrow> Err OSError)"

definition file_at :: "system \<Rightarrow> string \<Rightarrow> file_view" where
  "file_at s p = (if is_file_at s p then sy_read s p else FAbsent)"

definition py_sorted :: "string list \<Rightarrow> string list" where
  "py_sorted xs = sort xs"

definition basename :: "string \<Rightarrow> string" where
  "basename p = last (split_char CHR ''/'' p)"

text \<open>\<open>subprocess.run(..., text=True)\<close>: \<open>None\<close> where the handler for a missing program or a timeout takes over.\<close>

definition run_text :: "run_outcome \<Rightarrow> (check_exc, (int \<times> string) option) result" where
  "run_text r =
     (case r of
        RunMissing \<Rightarrow> Ok None
      | RunTimeout \<Rightarrow> Ok None
      | RunOSError \<Rightarrow> Err OSError
      | RunExit rc None \<Rightarrow> Err (PyExc UnicodeError)
      | RunExit rc (Some out) \<Rightarrow> Ok (Some (rc, out)))"

section \<open>CUDA\<close>

fun nvcc_result ::
  "system \<Rightarrow> string list \<Rightarrow> (int \<times> string) option \<Rightarrow> (check_exc, (int \<times> string) option) result" where
  "nvcc_result s [] res = Ok res"
| "nvcc_result s (nvcc # cs) res =
     bindr (run_text (sy_run s [nvcc, ''--version''])) (\<lambda>r.
       case r of
         None \<Rightarrow> nvcc_result s cs res
       | Some (rc, out) \<Rightarrow> if rc = 0 then Ok (Some (rc, out)) else nvcc_result s cs (Some (rc, out)))"

fun release_line :: "string list \<Rightarrow> bool \<times> string" where
  "release_line [] = (False, ''CUDA not found'')"
| "release_line (line # ls) =
     (if str_contains ''release'' (py_lower line)
      then if str_contains ''release 12.'' (py_lower line) then (True, py_strip line)
           else (False, ''Expected 12.x, found: '' @ py_strip line)
      else release_line ls)"

definition check_cuda :: "system \<Rightarrow> verdict" where
  "check_cuda s =
     bindr (nvcc_result s [''nvcc'', ''/usr/local/cuda/bin/nvcc''] None) (\<lambda>res.
       case res of
         None \<Rightarrow> fails ''CUDA not found''
       | Some (rc, out) \<Rightarrow> if rc \<noteq> 0 then fails ''CUDA not found'' else Ok (release_line (splitlines out)))"

section \<open>Disk\<close>

definition root_usage :: "system \<Rightarrow> (check_exc, disk_usage option) result" where
  "root_usage s =
     bindr (map_err PyExc (read_disk_usage (sy_statvfs s) (file_at s ''proc/mounts''))) (\<lambda>us.
       Ok (find (\<lambda>u. du_mount_point u = ''/'') us))"

definition check_disk_space :: "system \<Rightarrow> verdict" where
  "check_disk_space s =
     bindr (root_usage s) (\<lambda>r.
       case r of
         None \<Rightarrow> fails ''Root mount point not found in /proc/mounts''
       | Some u \<Rightarrow>
           if fge (du_free_gb u) (Fin 2) then passes (fixed 1 (du_free_gb u) @ '' GB free on /'')
           else fails (''Free space below 2 GB: '' @ fixed 1 (du_free_gb u) @ '' GB''))"

definition check_disk_nvme :: "system \<Rightarrow> verdict" where
  "check_disk_nvme s =
     bindr (root_usage s) (\<lambda>r.
       case r of
         None \<Rightarrow> fails ''Root mount point not found in /proc/mounts''
       | Some u \<Rightarrow>
           if du_is_nvme u then passes (''Root on NVMe: '' @ du_device u)
           else fails ''Root not on NVMe - performance may be reduced'')"

section \<open>JetPack\<close>

definition check_jetpack_version :: "system \<Rightarrow> verdict" where
  "check_jetpack_version s =
     (if \<not> is_file_at s ''etc/nv_tegra_release'' then fails ''Not a Jetson (file missing)''
      else (case read_text s ''etc/nv_tegra_release'' of
          Inl OSError \<Rightarrow> fails ''Not a Jetson (file missing)''
        | Inl e \<Rightarrow> Err e
        | Inr t \<Rightarrow>
            (case splitlines (py_strip t) of
               [] \<Rightarrow> fails ''Not a Jetson (file missing)''
             | first_line # _ \<Rightarrow>
                 if str_contains ''R36'' first_line then passes first_line
                 else fails (''Expected L4T R36.x, found: '' @ first_line))))"

section \<open>Services\<close>

text \<open>The body that the unit checks of \<open>service.py\<close> and \<open>kiosk.py\<close> share.\<close>

definition unit_active :: "system \<Rightarrow> string \<Rightarrow> verdict" where
  "unit_active s svc =
     (case sy_run s [''systemctl'', ''is-active'', svc] of
        RunExit rc out \<Rightarrow> if rc = 0 then passes ''active'' else fails ''not active''
      | RunMissing \<Rightarrow> fails ''systemctl not found (not running on systemd host)''
      | RunTimeout \<Rightarrow> fails ''systemctl timed out''
      | RunOSError \<Rightarrow> Err OSError)"

definition check_weston_active :: "system \<Rightarrow> verdict" where
  "check_weston_active s = unit_active s ''mower-weston.service''"

definition check_kiosk_data_active :: "system \<Rightarrow> verdict" where
  "check_kiosk_data_active s = unit_active s ''mower-kiosk-data.service''"

definition check_kiosk_renderer_active :: "system \<Rightarrow> verdict" where
  "check_kiosk_renderer_active s = unit_active s ''mower-kiosk-renderer.service''"

definition check_kiosk_active :: "system \<Rightarrow> verdict" where
  "check_kiosk_active s = unit_active s ''mower-kiosk-renderer.service''"

definition check_mavproxy_active :: "system \<Rightarrow> verdict" where
  "check_mavproxy_active s = unit_active s ''mower-mavproxy.service''"

definition check_health_service :: "system \<Rightarrow> verdict" where
  "check_health_service s = unit_active s ''mower-health.service''"

definition current_user :: "system \<Rightarrow> string" where
  "current_user s =
     (case sy_env s ''USER'' of
        Some u \<Rightarrow> if u \<noteq> [] then u else (case sy_env s ''USERNAME'' of None \<Rightarrow> [] | Some n \<Rightarrow> n)
      | None \<Rightarrow> (case sy_env s ''USERNAME'' of None \<Rightarrow> [] | Some n \<Rightarrow> n))"

definition check_loginctl_linger :: "system \<Rightarrow> verdict" where
  "check_loginctl_linger s =
     (let user = current_user s
      in if user = [] then fails ''Cannot determine current user''
         else (case sy_run s [''loginctl'', ''show-user'', user, ''-p'', ''Linger'', ''--value''] of
             RunExit rc (Some out) \<Rightarrow>
               let v = py_lower (py_strip out)
               in if v = ''yes'' then passes ''Linger=yes'' else fails (''Linger='' @ (if v = [] then ''no'' else v))
           | RunExit rc None \<Rightarrow> Err (PyExc UnicodeError)
           | RunMissing \<Rightarrow> fails ''loginctl not found (not running on systemd host)''
           | RunTimeout \<Rightarrow> fails ''loginctl timed out''
           | RunOSError \<Rightarrow> Err OSError))"

section \<open>Camera\<close>

definition vslam_service_active :: "system \<Rightarrow> (check_exc, bool) result" where
  "vslam_service_active s =
     (case sy_run s [''systemctl'', ''is-active'', ''mower-vslam.service''] of
        RunExit rc (Some out) \<Rightarrow> Ok (rc = 0)
      | RunExit rc None \<Rightarrow> Err (PyExc UnicodeError)
      | _ \<Rightarrow> Ok False)"

definition usb_vendor_glob :: string where "usb_vendor_glob = ''sys/bus/usb/devices/*/idVendor''"

definition parent_dir :: "string \<Rightarrow> string" where
  "parent_dir p = join_with ''/'' (butlast (split_char CHR ''/'' p))"

text \<open>A sysfs attribute, stripped and in lower case; \<open>None\<close> on an \<open>OSError\<close>.\<close>

definition usb_attr :: "system \<Rightarrow> string \<Rightarrow> (check_exc, string option) result" where
  "usb_attr s p =
     (case read_text s p of
        Inr t \<Rightarrow> Ok (Some (py_lower (py_strip t)))
      | Inl OSError \<Rightarrow> Ok None
      | Inl e \<Rightarrow> Err e)"

definition usb_speed :: "system \<Rightarrow> string \<Rightarrow> int option" where
  "usb_speed s p = (case read_text s p of Inr t \<Rightarrow> parse_int (py_strip t) | Inl e \<Rightarrow> None)"

fun find_oakd :: "system \<Rightarrow> string list \<Rightarrow> (check_exc, string option \<times> int option) result" where
  "find_oakd s [] = Ok (None, None)"
| "find_oakd s (vendor_file # vs) =
     bindr (usb_attr s vendor_file) (\<lambda>vid.
       if vid = Some ''03e7''
       then bindr (usb_attr s (parent_dir vendor_file @ ''/idProduct'')) (\<lambda>pid.
              Ok (pid, usb_speed s (parent_dir vendor_file @ ''/speed'')))
       else find_oakd s vs)"

definition find_oakd_device :: "system \<Rightarrow> (check_exc, string option \<times> int option) result" where
  "find_oakd_device s = find_oakd s (sy_glob s usb_vendor_glob)"

definition oakd_verdict :: "bool \<Rightarrow> string option \<Rightarrow> int option \<Rightarrow> bool \<times> string" where
  "oakd_verdict active pid speed =
     (if pid = Some ''f63b''
      then (let speed_str = (case speed of None \<Rightarrow> [] | Some n \<Rightarrow> '' at USB '' @ str_int n @ '' Mbps'')
            in if active then (True, ''OAK-D booted (PID f63b)'' @ speed_str @ '', service active'')
               else (True, ''OAK-D booted (PID f63b)'' @ speed_str @ '', service inactive''))
      else if pid = Some ''2485''
      then if active
           then (False, ''Crash-loop suspected: OAK-D in bootloader (PID 2485) but mower-vslam.service is active'')
           else (True, ''OAK-D idle in bootloader (PID 2485), service stopped'')
      else if active then (False, ''mower-vslam.service active but no OAK-D camera detected in sysfs'')
      else (True, ''OAK-D not present, service not running''))"

definition check_oakd :: "system \<Rightarrow> verdict" where
  "check_oakd s =
     bindr (vslam_service_active s) (\<lambda>active.
     bindr (find_oakd_device s) (\<lambda>(pid, speed). Ok (oakd_verdict active pid speed)))"

definition vslam_config_path :: string where "vslam_config_path = ''etc/mower/vslam.yaml''"

definition check_oakd_vslam_config :: "system \<Rightarrow> verdict" where
  "check_oakd_vslam_config s =
     (if is_file_at s vslam_config_path then passes (''VSLAM config present: '' @ rooted s vslam_config_path)
      else fails (''VSLAM config missing: '' @ rooted s vslam_config_path))"

section \<open>Power mode and Python\<close>

definition nvpmodel_outcome :: "run_outcome \<Rightarrow> (check_exc, proc_outcome) result" where
  "nvpmodel_outcome r =
     (case r of
        RunMissing \<Rightarrow> Ok ProcMissing
      | RunTimeout \<Rightarrow> Ok ProcTimeout
      | RunOSError \<Rightarrow> Err OSError
      | RunExit rc None \<Rightarrow> Err (PyExc UnicodeError)
      | RunExit rc (Some out) \<Rightarrow> Ok (ProcExit rc out))"

definition system_power :: "system \<Rightarrow> (check_exc, power_state) result" where
  "system_power s =
     bindr (nvpmodel_outcome (sy_run s [''nvpmodel'', ''-q''])) (\<lambda>p.
     map_err PyExc (read_power_state (sy_now s) p (file_at s ''sys/devices/system/cpu/online'')
       [file_at s ''sys/devices/17000000.gpu/devfreq/17000000.gpu/cur_freq'',
        file_at s ''sys/class/devfreq/17000000.gpu/cur_freq'']
       (file_at s ''sys/devices/pwm-fan/cur_pwm_profile'')))"

definition check_power_mode :: "system \<Rightarrow> verdict" where
  "check_power_mode s =
     bindr (system_power s) (\<lambda>st.
       case pw_mode_id st of
         Some n \<Rightarrow> passes (''Power mode: '' @ (case pw_mode_name st of None \<Rightarrow> ''None'' | Some m \<Rightarrow> m)
                            @ '' (id='' @ str_int n @ '')'')
       | None \<Rightarrow> fails ''nvpmodel not found or failed'')"

text \<open>\<open>major >= 3 and minor >= 11\<close>; \<open>ValueError\<close> and \<open>IndexError\<close> count as no.\<close>

definition version_ok :: "string \<Rightarrow> bool" where
  "version_ok ver =
     (let ps = split_char CHR ''.'' ver
      in case ps of
           a # b # _ \<Rightarrow> (case (parse_int a, parse_int b) of
               (Some major, Some minor) \<Rightarrow> 3 \<le> major \<and> 11 \<le> minor
             | _ \<Rightarrow> False)
         | _ \<Rightarrow> False)"

fun try_pythons :: "system \<Rightarrow> string list \<Rightarrow> verdict" where
  "try_pythons s [] = fails ''Python 3.11+ not found; install via uv python install 3.11''"
| "try_pythons s (cmd # cs) =
     bindr (run_text (sy_run s [cmd, ''--version''])) (\<lambda>r.
       case r of
         None \<Rightarrow> try_pythons s cs
       | Some (rc, out) \<Rightarrow>
           if rc \<noteq> 0 then try_pythons s cs
           else (case split_ws (py_strip out) of
               _ # ver # _ \<Rightarrow> if version_ok ver then passes (py_strip out) else try_pythons s cs
             | _ \<Rightarrow> try_pythons s cs))"

definition check_python_ver :: "system \<Rightarrow> verdict" where
  "check_python_ver s = try_pythons s ([''python3.11'', ''python3''] @ sy_uv_pythons s)"

section \<open>SSH hardening\<close>

definition auth_line :: "string option \<Rightarrow> string \<Rightarrow> string option" where
  "auth_line last_value line =
     (let stripped = py_strip line; lower = py_lower stripped
      in if is_prefix ''#'' stripped then last_value
         else if is_prefix ''passwordauthentication'' lower
         then (case split_ws lower of _ # v # _ \<Rightarrow> Some v | _ \<Rightarrow> last_value)
         else last_value)"

fun auth_files :: "system \<Rightarrow> string list \<Rightarrow> string option \<Rightarrow> (check_exc, string option) result" where
  "auth_files s [] last_value = Ok last_value"
| "auth_files s (f # fs) last_value =
     (case read_text s f of
        Inl OSError \<Rightarrow> auth_files s fs last_value
      | Inl e \<Rightarrow> Err e
      | Inr t \<Rightarrow> auth_files s fs (foldl auth_line last_value (splitlines t)))"

definition sshd_files :: "system \<Rightarrow> string list" where
  "sshd_files s =
     (if is_file_at s ''etc/ssh/sshd_config'' then [''etc/ssh/sshd_config''] else [])
     @ py_sorted (sy_glob s ''etc/ssh/sshd_config.d/*.conf'')"

definition password_auth_disabled :: "system \<Rightarrow> (check_exc, bool option) result" where
  "password_auth_disabled s =
     bindr (auth_files s (sshd_files s) None) (\<lambda>v.
       Ok (if v = Some ''no'' then Some True else if v = Some ''yes'' then Some False else None))"

definition check_ssh_hardening :: "system \<Rightarrow> verdict" where
  "check_ssh_hardening s =
     bindr (password_auth_disabled s) (\<lambda>r.
       if r = Some True then passes ''PasswordAuthentication disabled''
       else fails ''PasswordAuthentication still enabled'')"

section \<open>Thermal\<close>

definition zone_dirs :: "system \<Rightarrow> zone_dir list" where
  "zone_dirs s =
     map (\<lambda>d. \<lparr>zd_name = basename d, zd_temp = file_at s (d @ ''/temp''), zd_type = file_at s (d @ ''/type'')\<rparr>)
       (py_sorted (sy_glob s ''sys/class/thermal/thermal_zone*''))"

definition system_zones :: "system \<Rightarrow> (check_exc, thermal_zone list) result" where
  "system_zones s =
     bindr (map_err PyExc (read_thermal_zones (sy_now s) (zone_dirs s))) (\<lambda>snap. Ok (ts_zones snap))"

text \<open>\<open>max(zones, key=...)\<close>: the first of the hottest.\<close>

fun max_zone :: "thermal_zone \<Rightarrow> thermal_zone list \<Rightarrow> thermal_zone" where
  "max_zone z [] = z"
| "max_zone z (y # ys) = max_zone (if fgt (tz_temp_c y) (tz_temp_c z) then y else z) ys"

definition throttle_threshold :: pyfloat where "throttle_threshold = Fin 95"

definition hot_zone_text :: "thermal_zone \<Rightarrow> string" where
  "hot_zone_text z = ''Zone '' @ str_int (tz_index z) @ '' at '' @ fixed 0 (tz_temp_c z) @ '' C (throttle imminent)''"

definition check_thermal :: "system \<Rightarrow> verdict" where
  "check_thermal s =
     bindr (system_zones s) (\<lambda>zones.
       case zones of
         [] \<Rightarrow> passes ''No thermal zones found''
       | z # zs \<Rightarrow>
           let hot_zones = filter (\<lambda>z. fge (tz_temp_c z) throttle_threshold) zones
           in if hot_zones \<noteq> [] then fails (join_with ''; '' (map hot_zone_text hot_zones))
              else (let m = max_zone z zs
                    in passes (''All zones OK (max '' @ fixed 1 (tz_temp_c m) @ '' C on '' @ tz_name m @ '')'')))"

section \<open>USB tuning\<close>

definition usbcore_param :: "string \<Rightarrow> string" where
  "usbcore_param p = ''sys/module/usbcore/parameters/'' @ p"

definition check_usb_autosuspend :: "system \<Rightarrow> verdict" where
  "check_usb_autosuspend s =
     (case read_text s (usbcore_param ''autosuspend'') of
        Inl OSError \<Rightarrow> fails ''Cannot read autosuspend parameter (missing sysfs)''
      | Inl e \<Rightarrow> Err e
      | Inr t \<Rightarrow>
          if py_strip t = ''-1'' then passes ''USB autosuspend disabled (autosuspend=-1)''
          else fails (''USB autosuspend='' @ py_strip t @ '' (expected -1 to prevent OAK-D dropouts)''))"

text \<open>
  A \<open>UnicodeDecodeError\<close> is a \<open>ValueError\<close>: its handler reads \<open>raw\<close>, which is not bound yet.
\<close>

definition check_usbfs_memory :: "system \<Rightarrow> verdict" where
  "check_usbfs_memory s =
     (case read_text s (usbcore_param ''usbfs_memory_mb'') of
        Inl OSError \<Rightarrow> fails ''Cannot read usbfs_memory_mb parameter (missing sysfs)''
      | Inl e \<Rightarrow> Err UnboundLocalError
      | Inr t \<Rightarrow>
          (case parse_int (py_strip t) of
             None \<Rightarrow> fails (''Cannot parse usbfs_memory_mb value: '' @ repr_str (py_strip t))
           | Some n \<Rightarrow>
               if 1000 \<le> n then passes (''usbfs_memory_mb='' @ str_int n @ '' (>= 1000)'')
               else fails (''usbfs_memory_mb='' @ str_int n @ '' (need >= 1000 for OAK-D streaming)'')))"

definition thermal_gate_c :: pyfloat where "thermal_gate_c = Fin 85"

definition check_thermal_gate :: "system \<Rightarrow> verdict" where
  "check_thermal_gate s =
     bindr (system_zones s) (\<lambda>zones.
       case zones of
         [] \<Rightarrow> passes ''No thermal zones found (gate passes)''
       | z # zs \<Rightarrow>
           let m = max_zone z zs
           in if fge (tz_temp_c m) thermal_gate_c
              then fails (''Thermal gate: '' @ tz_name m @ '' at '' @ fixed 0 (tz_temp_c m) @ '' C (>= ''
                            @ fixed 0 thermal_gate_c @ '' C limit)'')
              else passes (''Thermal gate OK (max '' @ fixed 1 (tz_temp_c m) @ '' C on '' @ tz_name m @ '')''))"

definition required_quirks :: "string list" where
  "required_quirks = [''03e7:2485:gk'', ''03e7:f63b:gk'']"

definition check_usbcore_quirks :: "system \<Rightarrow> verdict" where
  "check_usbcore_quirks s =
     (case read_text s (usbcore_param ''quirks'') of
        Inl OSError \<Rightarrow> fails ''Cannot read usbcore quirks parameter (missing sysfs)''
      | Inl e \<Rightarrow> Err e
      | Inr t \<Rightarrow>
          (let missing = filter (\<lambda>q. \<not> str_contains q (py_strip t)) required_quirks
           in if missing = [] then passes ''usbcore.quirks contains both OAK-D NO_LPM entries''
              else fails (''usbcore.quirks missing: '' @ join_with '', '' missing)))"

fun find_hub :: "system \<Rightarrow> string list \<Rightarrow> bool \<times> bool \<Rightarrow> (check_exc, bool \<times> bool) result" where
  "find_hub s [] st = Ok st"
| "find_hub s (vendor_file # vs) (found_usb3, found_usb2) =
     bindr (usb_attr s vendor_file) (\<lambda>vid.
       if vid = Some ''2109''
       then bindr (usb_attr s (parent_dir vendor_file @ ''/idProduct'')) (\<lambda>pid.
              find_hub s vs (found_usb3 \<or> pid = Some ''0817'', found_usb2 \<or> pid = Some ''2817''))
       else find_hub s vs (found_usb3, found_usb2))"

definition check_waveshare_hub :: "system \<Rightarrow> verdict" where
  "check_waveshare_hub s =
     bindr (find_hub s (sy_glob s usb_vendor_glob) (False, False)) (\<lambda>(found_usb3, found_usb2).
       if found_usb3 \<and> found_usb2 then passes ''Waveshare hub detected (USB 3.0 + USB 2.0 controllers)''
       else if found_usb3 then passes ''Waveshare hub partial (USB 3.0 controller only, USB 2.0 missing)''
       else if found_usb2 then fails ''Waveshare hub partial (USB 2.0 controller only, USB 3.0 missing)''
       else fails ''Waveshare USB hub not detected (expected VIA Labs 2109:0817 + 2109:2817)'')"

definition udev_rule_path :: string where "udev_rule_path = ''etc/udev/rules.d/80-oakd-usb.rules''"

definition check_oakd_udev_rule :: "system \<Rightarrow> verdict" where
  "check_oakd_udev_rule s =
     (if \<not> is_file_at s udev_rule_path then fails (''OAK-D udev rule missing: '' @ rooted s udev_rule_path)
      else (case read_text s udev_rule_path of
          Inl OSError \<Rightarrow> fails (''Cannot read OAK-D udev rule: '' @ rooted s udev_rule_path)
        | Inl e \<Rightarrow> Err e
        | Inr t \<Rightarrow>
            if str_contains ''03e7'' t then passes ''OAK-D udev rule present with vendor 03e7''
            else fails ''OAK-D udev rule exists but does not reference vendor 03e7''))"

section \<open>VSLAM\<close>

definition systemctl_is_active :: "system \<Rightarrow> string \<Rightarrow> verdict" where
  "systemctl_is_active s svc =
     (case sy_run s [''systemctl'', ''is-active'', ''--quiet'', svc] of
        RunExit rc out \<Rightarrow> if rc = 0 then passes (svc @ '' is active'') else fails (svc @ '' is not active'')
      | RunMissing \<Rightarrow> fails ''systemctl not found (not running on systemd host)''
      | RunTimeout \<Rightarrow> fails (''systemctl timed out checking '' @ svc)
      | RunOSError \<Rightarrow> Err OSError)"

definition check_pixhawk_symlink :: "system \<Rightarrow> verdict" where
  "check_pixhawk_symlink s =
     (if exists_at s ''dev/pixhawk'' then passes (''/dev/pixhawk -> '' @ sy_resolve s ''dev/pixhawk'')
      else fails ''/dev/pixhawk not found; deploy 90-pixhawk-usb.rules'')"

definition check_vslam_process :: "system \<Rightarrow> verdict" where
  "check_vslam_process s = systemctl_is_active s ''mower-vslam.service''"

definition bridge_service :: string where "bridge_service = ''mower-vslam-bridge.service''"
definition pose_socket_path :: string where "pose_socket_path = ''run/mower/vslam-pose.sock''"

definition check_vslam_bridge :: "system \<Rightarrow> verdict" where
  "check_vslam_bridge s =
     bindr (systemctl_is_active s bridge_service) (\<lambda>(active, detail).
       if \<not> active then fails detail
       else if \<not> exists_at s pose_socket_path
       then fails (bridge_service @ '' active but socket missing: '' @ rooted s pose_socket_path)
       else passes (bridge_service @ '' active, socket present''))"

definition check_vslam_socket_active :: "system \<Rightarrow> verdict" where
  "check_vslam_socket_active s =
     (if \<not> sy_af_unix s then fails ''AF_UNIX not available (not a Unix host)''
      else if \<not> exists_at s pose_socket_path then fails (''Socket not found: '' @ rooted s pose_socket_path)
      else (case sy_pose_socket s of
          SockData bs \<Rightarrow>
            if length bs < POSE_STRUCT_SIZE
            then fails (''Short read: '' @ digits_of_nat (length bs) @ ''/'' @ digits_of_nat POSE_STRUCT_SIZE @ '' bytes'')
            else passes (''pose received, confidence='' @ digits_of_nat (unat (bs ! (POSE_STRUCT_SIZE - 2))))
        | SockMissing \<Rightarrow> fails (''Socket not found: '' @ rooted s pose_socket_path)
        | SockTimeout \<Rightarrow> fails ''Socket read timed out after 10s''
        | SockRefused \<Rightarrow> fails ''Socket connection refused''
        | SockError \<Rightarrow> fails (''Socket error: '' @ sy_str s OSError)))"

text \<open>\<open>yaml.safe_load(path.read_text(...))\<close>.\<close>

definition load_yaml :: "system \<Rightarrow> string \<Rightarrow> (check_exc, pyval) result" where
  "load_yaml s p = bindr (read_text s p) (\<lambda>t. of_opt YAMLError (sy_yaml s t))"

text \<open>\<open>raw["vslam"][key]\<close>: \<open>None\<close> for a \<open>KeyError\<close> or a \<open>TypeError\<close>.\<close>

definition vslam_entry :: "pyval \<Rightarrow> string \<Rightarrow> pyval option" where
  "vslam_entry raw key =
     (case raw of
        VDict d \<Rightarrow> (case dict_get d ''vslam'' of Some (VDict v) \<Rightarrow> dict_get v key | _ \<Rightarrow> None)
      | _ \<Rightarrow> None)"

definition check_vslam_pose_rate :: "system \<Rightarrow> verdict" where
  "check_vslam_pose_rate s =
     (case load_yaml s vslam_config_path of
        Inl e \<Rightarrow> if e = OSError \<or> e = YAMLError then fails (''Cannot read VSLAM config: '' @ sy_str s e) else Err e
      | Inr raw \<Rightarrow>
          (case vslam_entry raw ''pose_output_rate_hz'' of
             None \<Rightarrow> fails ''pose_output_rate_hz not set in VSLAM config''
           | Some v \<Rightarrow>
               (case py_int v of
                  Inl e \<Rightarrow> if e = TypeError \<or> e = ValueError then fails ''pose_output_rate_hz not set in VSLAM config''
                           else Err (PyExc e)
                | Inr rate \<Rightarrow>
                    if 5 \<le> rate then passes (''Pose output rate: '' @ str_int rate @ '' Hz (>= 5 Hz)'')
                    else fails (''Pose output rate: '' @ str_int rate @ '' Hz (need >= 5 Hz)''))))"

definition required_params :: "(string \<times> int) list" where
  "required_params = [(''VISO_TYPE'', 1), (''SCR_ENABLE'', 1)]"

definition ek3_src2_keys :: "string list" where
  "ek3_src2_keys = [''EK3_SRC2_POSXY'', ''EK3_SRC2_VELXY'', ''EK3_SRC2_YAW'']"

text \<open>\<open>v == n\<close> for an integer \<open>n\<close>.\<close>

fun equals_num :: "pyval \<Rightarrow> int \<Rightarrow> bool" where
  "equals_num (VInt m) n = (m = n)"
| "equals_num (VBool b) n = (int_of_bool b = n)"
| "equals_num (VFloat x) n = (x = fint n)"
| "equals_num v n = False"

definition missing_params :: "(pyfloat \<Rightarrow> string) \<Rightarrow> doc \<Rightarrow> string list" where
  "missing_params fr ap =
     concat (map (\<lambda>(key, expected).
         let v = dict_get_or ap key VNone
         in if equals_num v expected then [] else [key @ ''='' @ str_int expected @ '' (got '' @ py_str fr v @ '')''])
       required_params)
     @ map (\<lambda>key. key @ '' not set'') (filter (\<lambda>key. \<not> dict_has ap key) ek3_src2_keys)"

definition params_verdict :: "system \<Rightarrow> doc \<Rightarrow> verdict" where
  "params_verdict s raw =
     (case dict_get_or raw ''ardupilot_params'' VNone of
        VDict (kv # ap) \<Rightarrow>
          (let missing = missing_params (sy_fr s) (kv # ap)
           in if missing \<noteq> [] then fails (''VSLAM params incomplete: '' @ join_with '', '' missing)
              else passes ''VSLAM ArduPilot params configured'')
      | _ \<Rightarrow>
          (case dict_get_or raw ''vslam'' VNone of
             VDict (kv # v) \<Rightarrow> passes ''VSLAM config present (ardupilot_params section not yet added)''
           | _ \<Rightarrow> fails ''VSLAM config file invalid or empty''))"

definition check_vslam_params :: "system \<Rightarrow> verdict" where
  "check_vslam_params s =
     (if \<not> is_file_at s vslam_config_path then fails (''VSLAM config missing: '' @ rooted s vslam_config_path)
      else (case load_yaml s vslam_config_path of
          Inl e \<Rightarrow> if e = OSError \<or> e = YAMLError then fails (''Cannot parse VSLAM config: '' @ sy_str s e) else Err e
        | Inr raw \<Rightarrow>
            (case (if py_bool raw then raw else VDict []) of
               VDict d \<Rightarrow> params_verdict s d
             | _ \<Rightarrow> Err (PyExc AttributeError))))"

definition lua_script_name :: string where "lua_script_name = ''ahrs-source-gps-vslam.lua''"

definition check_vslam_lua_script :: "system \<Rightarrow> verdict" where
  "check_vslam_lua_script s =
     (case sy_lua s of
        LuaFile \<Rightarrow> passes (''Lua script bundled: '' @ lua_script_name)
      | LuaNoFile \<Rightarrow> fails (''Lua script not found in package data: '' @ lua_script_name)
      | LuaMissing \<Rightarrow> fails (''Cannot locate bundled Lua script: '' @ lua_script_name))"

definition check_vslam_confidence :: "system \<Rightarrow> verdict" where
  "check_vslam_confidence s =
     (case load_yaml s vslam_config_path of
        Inl e \<Rightarrow> if e = OSError \<or> e = YAMLError then fails (''Cannot read VSLAM config: '' @ sy_str s e) else Err e
      | Inr raw \<Rightarrow>
          (case vslam_entry raw ''loop_closure'' of
             None \<Rightarrow> fails ''loop_closure not set in VSLAM config''
           | Some v \<Rightarrow>
               if py_bool v then passes ''Loop closure enabled (supports Medium/High confidence)''
               else fails ''Loop closure disabled - mapping confidence will be Low''))"

definition orientation_warning :: string where
  "orientation_warning = ''doesn'' @ [CHR 0x27] @ ''t have orientation set''"

definition check_vslam_imu_orientation :: "system \<Rightarrow> verdict" where
  "check_vslam_imu_orientation s =
     bindr (run_text (sy_run s [''journalctl'', ''-u'', ''mower-vslam.service'', ''--since'', ''5 min ago'',
                                ''--no-pager'', ''-o'', ''cat''])) (\<lambda>r.
       case r of
         None \<Rightarrow> fails ''Cannot read journal for mower-vslam.service''
       | Some (rc, out) \<Rightarrow>
           if str_contains orientation_warning out
           then fails ''RTAB-Map IMU orientation warning detected - IMU data being discarded''
           else if py_strip out \<noteq> [] then passes ''No IMU orientation warnings in last 5 min''
           else passes ''No recent VSLAM journal output (service may not have run)'')"

section \<open>Zones\<close>

text \<open>
  \<open>probe/checks/zone.py\<close>. A cached item is what \<open>MissionItem(**item_data)\<close> keeps of a JSON value;
  the constructor checks the field names and not their types, and the comparison reads \<open>x\<close> and \<open>y\<close>.
\<close>

definition item_fields :: "string list" where
  "item_fields = [''seq'', ''frame'', ''command'', ''param1'', ''param2'', ''param3'', ''param4'', ''x'', ''y'', ''z'',
     ''mission_type'', ''autocontinue'', ''current'']"

fun cached_item :: "pyval \<Rightarrow> (check_exc, pyval \<times> pyval) result" where
  "cached_item (VDict d) =
     (if list_all (\<lambda>k. k \<in> set item_fields) (dict_keys d) \<and> dict_has d ''seq'' \<and> dict_has d ''frame'' \<and> dict_has d ''command''
      then Ok (dict_get_or d ''x'' (VInt 0), dict_get_or d ''y'' (VInt 0))
      else Err (PyExc TypeError))"
| "cached_item v = Err (PyExc TypeError)"

text \<open>What iterating over a JSON value yields.\<close>

fun py_iter :: "pyval \<Rightarrow> (check_exc, pyval list) result" where
  "py_iter (VList vs) = Ok vs"
| "py_iter (VDict d) = Ok (map VStr (dict_keys d))"
| "py_iter (VStr t) = Ok (map (\<lambda>c. VStr [c]) t)"
| "py_iter v = Err (PyExc TypeError)"

text \<open>\<open>data.get(key, default)\<close> on a JSON value.\<close>

fun json_get :: "pyval \<Rightarrow> string \<Rightarrow> pyval \<Rightarrow> (check_exc, pyval) result" where
  "json_get (VDict d) key dflt = Ok (dict_get_or d key dflt)"
| "json_get v key dflt = Err (PyExc AttributeError)"

definition load_json :: "system \<Rightarrow> string \<Rightarrow> (check_exc, pyval) result" where
  "load_json s p = bindr (read_text s p) (\<lambda>t. of_opt (PyExc ValueError) (sy_json s t))"

text \<open>\<open>v / 1e7\<close>.\<close>

fun degrees :: "pyval \<Rightarrow> (check_exc, pyfloat) result" where
  "degrees (VInt n) = map_err PyExc (bindr (float_of_int n) (\<lambda>x. fdiv x (Fin 10000000)))"
| "degrees (VBool b) = map_err PyExc (fdiv (fint (int_of_bool b)) (Fin 10000000))"
| "degrees (VFloat x) = map_err PyExc (fdiv x (Fin 10000000))"
| "degrees v = Err (PyExc TypeError)"

definition vertex_detail :: "system \<Rightarrow> nat \<Rightarrow> pyfloat \<Rightarrow> pyfloat \<Rightarrow> pyfloat \<Rightarrow> pyfloat \<Rightarrow> string" where
  "vertex_detail s i elat elon alat alon =
     ''Fence vertex '' @ digits_of_nat i @ '' mismatch: expected ('' @ fixed 7 elat @ '', '' @ fixed 7 elon @ ''), got (''
     @ fixed 7 alat @ '', '' @ fixed 7 alon @ '') (diff: lat='' @ sy_fmt_e s 2 (fabs (fsub elat alat)) @ '', lon=''
     @ sy_fmt_e s 2 (fabs (fsub elon alon)) @ '')''"

text \<open>The loop over the vertices: \<open>None\<close> when all match.\<close>

fun compare_vertices ::
  "system \<Rightarrow> pyfloat \<Rightarrow> nat \<Rightarrow> mission_item list \<Rightarrow> (pyval \<times> pyval) list \<Rightarrow> (check_exc, string option) result" where
  "compare_vertices s tolerance i (e # es) ((x, y) # xys) =
     bindr (degrees (VInt (mi_x e))) (\<lambda>elat.
     bindr (degrees (VInt (mi_y e))) (\<lambda>elon.
     bindr (degrees x) (\<lambda>alat.
     bindr (degrees y) (\<lambda>alon.
       if fgt (fabs (fsub elat alat)) tolerance \<or> fgt (fabs (fsub elon alon)) tolerance
       then Ok (Some (vertex_detail s i elat elon alat alon))
       else compare_vertices s tolerance (Suc i) es xys))))"
| "compare_vertices s tolerance i es xys = Ok None"

definition check_fence_match :: "system \<Rightarrow> zone_config \<Rightarrow> (pyval \<times> pyval) list \<Rightarrow> pyfloat \<Rightarrow> verdict" where
  "check_fence_match s zone fence_items tolerance =
     bindr (map_err PyExc (zone_to_fence zone)) (\<lambda>expected_items.
       if length expected_items \<noteq> length fence_items
       then fails (''Fence vertex count mismatch: expected '' @ digits_of_nat (length expected_items)
                     @ '', got '' @ digits_of_nat (length fence_items))
       else bindr (compare_vertices s tolerance 0 expected_items fence_items) (\<lambda>m.
         case m of
           Some detail \<Rightarrow> fails detail
         | None \<Rightarrow> passes (''Fence matches zone boundary ('' @ digits_of_nat (length fence_items)
                            @ '' vertices, tolerance +-'' @ sy_fmt_e s 0 tolerance @ '' deg)'')))"

text \<open>\<open>1e-7\<close>, the default tolerance: the nearest binary64 number.\<close>

definition fence_tolerance :: pyfloat where "fence_tolerance = rnd (1 / 10000000)"

text \<open>\<open>abs(expected - actual) <= tolerance\<close>, where the cached plan gives any value.\<close>

fun count_diff_ok :: "pyval \<Rightarrow> int \<Rightarrow> int \<Rightarrow> (check_exc, bool) result" where
  "count_diff_ok (VInt n) actual tolerance = Ok (\<bar>n - actual\<bar> \<le> tolerance)"
| "count_diff_ok (VBool b) actual tolerance = Ok (\<bar>int_of_bool b - actual\<bar> \<le> tolerance)"
| "count_diff_ok (VFloat x) actual tolerance =
     map_err PyExc (bindr (float_of_int actual) (\<lambda>a. Ok (fle (fabs (fsub x a)) (fint tolerance))))"
| "count_diff_ok v actual tolerance = Err (PyExc TypeError)"

definition check_mission_count :: "system \<Rightarrow> pyval \<Rightarrow> int \<Rightarrow> int \<Rightarrow> verdict" where
  "check_mission_count s expected actual tolerance =
     bindr (count_diff_ok expected actual tolerance) (\<lambda>ok.
       if ok then passes (''Mission count OK: '' @ str_int actual @ '' items (expected ~'' @ py_str (sy_fr s) expected
                            @ '', tolerance +-'' @ str_int tolerance @ '')'')
       else fails (''Mission count mismatch: got '' @ str_int actual @ '', expected '' @ py_str (sy_fr s) expected
                     @ '' (+-'' @ str_int tolerance @ '')''))"

text \<open>\<open>fragment in v\<close>.\<close>

fun py_in :: "string \<Rightarrow> pyval \<Rightarrow> (check_exc, bool) result" where
  "py_in x (VStr t) = Ok (str_contains x t)"
| "py_in x (VList vs) = Ok (VStr x \<in> set vs)"
| "py_in x (VDict d) = Ok (dict_has d x)"
| "py_in x v = Err (PyExc TypeError)"

definition zone_fragment :: "string \<Rightarrow> string" where
  "zone_fragment zone_id = ''zones/'' @ zone_id @ ''/''"

definition check_vslam_zone_match :: "system \<Rightarrow> string \<Rightarrow> verdict" where
  "check_vslam_zone_match s zone_id =
     (if \<not> exists_at s vslam_config_path then fails ''VSLAM config file not found''
      else (case load_yaml s vslam_config_path of
          Inl e \<Rightarrow> fails (''Failed to parse VSLAM config: '' @ sy_str s e)
        | Inr config_data \<Rightarrow>
            bindr (json_get config_data ''database_path'' (VStr [])) (\<lambda>database_path.
            bindr (py_in (zone_fragment zone_id) database_path) (\<lambda>found.
              if found
              then passes (''VSLAM database path matches zone '' @ zone_id @ '': '' @ py_str (sy_fr s) database_path)
              else fails (''VSLAM database_path '' @ [CHR 0x27] @ py_str (sy_fr s) database_path @ [CHR 0x27]
                            @ '' does not contain '' @ [CHR 0x27] @ zone_fragment zone_id @ [CHR 0x27])))))"

text \<open>\<open>v >= m\<close> for a float \<open>m\<close> (an integer compares exactly), and \<open>f"{v:.2f}"\<close>.\<close>

fun number_ge :: "pyval \<Rightarrow> pyfloat \<Rightarrow> (check_exc, bool) result" where
  "number_ge (VInt n) m = Ok (fge (fint n) m)"
| "number_ge (VBool b) m = Ok (fge (fint (int_of_bool b)) m)"
| "number_ge (VFloat x) m = Ok (fge x m)"
| "number_ge v m = Err (PyExc TypeError)"

definition fixed_number :: "nat \<Rightarrow> pyval \<Rightarrow> (check_exc, string) result" where
  "fixed_number k v = map_err PyExc (bindr (py_float v) (\<lambda>x. Ok (fixed k x)))"

definition check_vslam_relocalized :: "system \<Rightarrow> pyfloat \<Rightarrow> verdict" where
  "check_vslam_relocalized s min_confidence =
     (if \<not> exists_at s ''run/mower/vslam-status.json''
      then fails ''VSLAM status file not found (service may not be running)''
      else (case load_json s ''run/mower/vslam-status.json'' of
          Inl e \<Rightarrow> fails (''Failed to parse VSLAM status: '' @ sy_str s e)
        | Inr status_data \<Rightarrow>
            bindr (json_get status_data ''confidence'' (VFloat (Fin 0))) (\<lambda>confidence.
            bindr (number_ge confidence min_confidence) (\<lambda>enough.
            bindr (fixed_number 2 confidence) (\<lambda>shown.
              if enough
              then passes (''VSLAM relocalized (confidence='' @ shown @ '', threshold>='' @ sy_fr s min_confidence @ '')'')
              else fails (''VSLAM not relocalized (confidence='' @ shown @ '', need>='' @ sy_fr s min_confidence @ '')''))))))"

text \<open>The registered wrappers.\<close>

definition active_zone_path :: string where "active_zone_path = ''var/lib/mower/active-zone.yaml''"

definition zone_file_at :: "system \<Rightarrow> string \<Rightarrow> (check_exc, zone_file) result" where
  "zone_file_at s p =
     (case sy_read s p of
        FText t \<Rightarrow> Ok (Text t)
      | FBadUtf8 \<Rightarrow> Ok Undecodable
      | FAbsent \<Rightarrow> Ok Missing
      | FError \<Rightarrow> Err OSError)"

definition load_active_zone :: "system \<Rightarrow> (check_exc, zone_config) result" where
  "load_active_zone s =
     bindr (zone_file_at s active_zone_path) (\<lambda>f.
       map_err ZoneExc (load_zone_config (sy_fr s) (sy_geometry s) (sy_yaml s) f))"

definition cached_items :: "system \<Rightarrow> string \<Rightarrow> (check_exc, pyval) result" where
  "cached_items s p = bindr (load_json s p) (\<lambda>d. json_get d ''items'' (VList []))"

definition zone_fence_match_probe :: "system \<Rightarrow> verdict" where
  "zone_fence_match_probe s =
     (if \<not> exists_at s active_zone_path then fails ''No active zone configuration found''
      else (case load_active_zone s of
          Inl e \<Rightarrow> fails (''Failed to load active zone config: '' @ sy_str s e)
        | Inr zone \<Rightarrow>
            if \<not> exists_at s ''var/cache/mower/fence-items.json''
            then fails ''No cached fence data found (run mission download first)''
            else (case bindr (bindr (cached_items s ''var/cache/mower/fence-items.json'') py_iter) (mapr cached_item) of
                Inl e \<Rightarrow> fails (''Failed to parse cached fence data: '' @ sy_str s e)
              | Inr fence_items \<Rightarrow> check_fence_match s zone fence_items fence_tolerance)))"

fun py_len :: "pyval \<Rightarrow> (check_exc, int) result" where
  "py_len (VList vs) = Ok (int (length vs))"
| "py_len (VDict d) = Ok (int (length d))"
| "py_len (VStr t) = Ok (int (length t))"
| "py_len v = Err (PyExc TypeError)"

definition zone_mission_count_probe :: "system \<Rightarrow> verdict" where
  "zone_mission_count_probe s =
     (if \<not> exists_at s ''var/cache/mower/mission-plan.json''
      then fails ''No cached mission plan found (run mission planning first)''
      else (case bindr (load_json s ''var/cache/mower/mission-plan.json'') (\<lambda>d. json_get d ''waypoint_count'' (VInt 0)) of
          Inl e \<Rightarrow> fails (''Failed to parse mission plan cache: '' @ sy_str s e)
        | Inr expected_count \<Rightarrow>
            if \<not> exists_at s ''var/cache/mower/mission-items.json''
            then fails ''No cached mission data found (run mission download first)''
            else (case bindr (cached_items s ''var/cache/mower/mission-items.json'') py_len of
                Inl e \<Rightarrow> fails (''Failed to parse cached mission data: '' @ sy_str s e)
              | Inr actual_count \<Rightarrow> check_mission_count s expected_count actual_count 5)))"

definition zone_vslam_match_probe :: "system \<Rightarrow> verdict" where
  "zone_vslam_match_probe s =
     (if \<not> exists_at s active_zone_path then fails ''No active zone configuration found''
      else (case load_active_zone s of
          Inl e \<Rightarrow> fails (''Failed to load active zone config: '' @ sy_str s e)
        | Inr zone \<Rightarrow> check_vslam_zone_match s (z_zone_id zone)))"

definition zone_vslam_relocalized_probe :: "system \<Rightarrow> verdict" where
  "zone_vslam_relocalized_probe s = check_vslam_relocalized s (Fin 1)"

section \<open>The registry\<close>

definition as_check :: "(system \<Rightarrow> verdict) \<Rightarrow> system check_fn" where
  "as_check f s = map_err (sy_str s) (f s)"

type_synonym registration = "string \<times> severity \<times> string list \<times> (system \<Rightarrow> verdict)"

text \<open>The decorated functions of the modules that \<open>probe/checks/__init__.py\<close> imports, in order.\<close>

definition imported_checks :: "registration list" where
  "imported_checks =
     [(''cuda'', CRITICAL, [''jetpack_version''], check_cuda),
      (''disk_space'', CRITICAL, [], check_disk_space),
      (''disk_nvme'', WARNING, [], check_disk_nvme),
      (''jetpack_version'', CRITICAL, [], check_jetpack_version),
      (''kiosk_weston_active'', WARNING, [], check_weston_active),
      (''kiosk_data_active'', WARNING, [''kiosk_weston_active''], check_kiosk_data_active),
      (''kiosk_renderer_active'', WARNING, [''kiosk_weston_active''], check_kiosk_renderer_active),
      (''kiosk_active'', WARNING, [''kiosk_weston_active''], check_kiosk_active),
      (''mavproxy_active'', WARNING, [], check_mavproxy_active),
      (''oakd'', CRITICAL, [''jetpack_version''], check_oakd),
      (''oakd_vslam_config'', WARNING, [''oakd''], check_oakd_vslam_config),
      (''power_mode'', WARNING, [''jetpack_version''], check_power_mode),
      (''python_ver'', CRITICAL, [''jetpack_version''], check_python_ver),
      (''health_service'', CRITICAL, [], check_health_service),
      (''loginctl_linger'', WARNING, [], check_loginctl_linger),
      (''ssh_hardening'', WARNING, [], check_ssh_hardening),
      (''thermal'', WARNING, [''jetpack_version''], check_thermal),
      (''oakd_usb_autosuspend'', WARNING, [''jetpack_version''], check_usb_autosuspend),
      (''oakd_usbfs_memory'', WARNING, [''jetpack_version''], check_usbfs_memory),
      (''oakd_thermal_gate'', WARNING, [''thermal''], check_thermal_gate),
      (''usbcore_quirks'', WARNING, [''jetpack_version''], check_usbcore_quirks),
      (''waveshare_hub'', WARNING, [''jetpack_version''], check_waveshare_hub),
      (''oakd_udev_rule'', WARNING, [''jetpack_version''], check_oakd_udev_rule),
      (''pixhawk_symlink'', CRITICAL, [], check_pixhawk_symlink),
      (''vslam_process'', CRITICAL, [''oakd''], check_vslam_process),
      (''vslam_bridge'', CRITICAL, [''vslam_process''], check_vslam_bridge),
      (''vslam_socket_active'', CRITICAL, [''vslam_bridge''], check_vslam_socket_active),
      (''vslam_pose_rate'', WARNING, [''vslam_bridge''], check_vslam_pose_rate),
      (''vslam_params'', CRITICAL, [''oakd''], check_vslam_params),
      (''vslam_lua_script'', WARNING, [''oakd''], check_vslam_lua_script),
      (''vslam_confidence'', WARNING, [''vslam_bridge''], check_vslam_confidence),
      (''vslam_imu_orientation'', WARNING, [''vslam_process''], check_vslam_imu_orientation)]"

text \<open>The decorated functions of \<open>zone.py\<close>, which the package does not import.\<close>

definition zone_checks :: "registration list" where
  "zone_checks =
     [(''zone_fence_match'', CRITICAL, [], zone_fence_match_probe),
      (''zone_mission_count'', WARNING, [], zone_mission_count_probe),
      (''zone_vslam_match'', WARNING, [''vslam_params''], zone_vslam_match_probe),
      (''zone_vslam_relocalized'', WARNING, [''vslam_bridge''], zone_vslam_relocalized_probe)]"

fun register_all :: "registration list \<Rightarrow> system registry \<Rightarrow> (pyexc, system registry) result" where
  "register_all [] reg = Ok reg"
| "register_all ((name, sev, deps, fn) # rs) reg =
     bindr (register name sev deps (as_check fn) reg) (register_all rs)"

text \<open>\<open>run_checks\<close> on the registry the package fills, as \<open>mower-jetson probe\<close> calls it.\<close>

definition probe :: "(string set \<Rightarrow> string list) \<Rightarrow> system \<Rightarrow> string list option \<Rightarrow> (pyexc, check_result list) result" where
  "probe iter s only = bindr (register_all imported_checks []) (\<lambda>reg. run_checks iter reg s only)"

end
