(* ===== verification/Preflight.thy ===== *)
theory Preflight
  imports Checks
begin

text \<open>
  The probe as a whole: on every system it returns a result for each check the package registers,
  and its exit code says which of them are held up; what an exit code of 0 means for the system;
  the accuracy of the fence comparison; and how the checks fit the pose messages and the
  configuration files of the other components.
\<close>

section \<open>The whole probe\<close>

definition spec_of :: "registration \<Rightarrow> string \<times> system check_spec" where
  "spec_of r = (case r of (name, sev, deps, fn) \<Rightarrow>
     (name, \<lparr>cs_name = name, cs_severity = sev, cs_depends_on = deps, cs_fn = as_check fn\<rparr>))"

lemma dict_set_new: "\<not> dict_has d k \<Longrightarrow> dict_set k v d = d @ [(k, v)]"
  by (induction d) (auto simp: dict_simps)

lemma register_all_Ok:
  "distinct (dict_keys reg @ map fst rs) \<Longrightarrow> register_all rs reg = Ok (reg @ map spec_of rs)"
proof (induction rs arbitrary: reg)
  case (Cons r rs)
  obtain name sev deps fn where r: "r = (name, sev, deps, fn)" by (metis surj_pair)
  with Cons.prems have "\<not> dict_has reg name" by (auto simp: dict_simps dict_keys_def)
  then show ?case using Cons by (simp add: r register_def dict_set_new spec_of_def dict_keys_def)
qed simp

definition package_registry :: "system registry" where
  "package_registry = map spec_of imported_checks"

lemma imported_distinct: "distinct (map fst imported_checks)"
  by (simp add: imported_checks_def)

lemma probe_run: "probe iter s only = run_checks iter package_registry s only"
  using register_all_Ok [of "[]" imported_checks] imported_distinct
  by (simp add: probe_def package_registry_def dict_keys_def)

lemma package_keys: "dict_keys package_registry = map fst imported_checks"
  by (simp add: package_registry_def dict_keys_def spec_of_def split: prod.splits)

lemma package_get:
  "dict_get package_registry n = Some spec \<longleftrightarrow>
     (\<exists>sev deps fn. (n, sev, deps, fn) \<in> set imported_checks
        \<and> spec = \<lparr>cs_name = n, cs_severity = sev, cs_depends_on = deps, cs_fn = as_check fn\<rparr>)"
proof -
  have "distinct (map fst package_registry)" using package_keys imported_distinct by (simp add: dict_keys_def)
  then have "dict_get package_registry n = Some spec \<longleftrightarrow> (n, spec) \<in> spec_of ` set imported_checks"
    by (simp add: dict_get_def package_registry_def)
  then show ?thesis by (force simp: spec_of_def)
qed

lemma package_getI:
  "(n, sev, deps, fn) \<in> set imported_checks \<Longrightarrow>
     dict_get package_registry n = Some \<lparr>cs_name = n, cs_severity = sev, cs_depends_on = deps, cs_fn = as_check fn\<rparr>"
  unfolding package_get by blast

text \<open>The checks others depend on, with their depth in the dependency graph.\<close>

definition inner_checks :: "(string \<times> nat) list" where
  "inner_checks = [(''jetpack_version'', 0), (''kiosk_weston_active'', 0), (''oakd'', 1), (''thermal'', 1),
     (''vslam_process'', 2), (''vslam_bridge'', 3)]"

definition check_depth :: "string \<Rightarrow> nat" where
  "check_depth n = (case map_of inner_checks n of Some k \<Rightarrow> k | None \<Rightarrow> 4)"

lemma inner_known: "list_all (\<lambda>n. n \<in> set (map fst imported_checks)) (map fst inner_checks)"
  by (simp add: imported_checks_def inner_checks_def)

lemma imported_deps:
  "list_all (\<lambda>(n, sev, deps, fn). sev \<noteq> INFO
     \<and> list_all (\<lambda>d. \<exists>k. map_of inner_checks d = Some k \<and> k < check_depth n) deps) imported_checks"
  unfolding imported_checks_def list.pred_inject prod.case check_depth_def inner_checks_def
  by (intro conjI) simp_all

lemma package_deps:
  assumes "d \<in> set (deps_of package_registry n)"
  shows "check_depth d < check_depth n \<and> d \<in> set (dict_keys package_registry)"
proof (cases "dict_get package_registry n")
  case (Some spec)
  then obtain sev deps fn where r: "(n, sev, deps, fn) \<in> set imported_checks" "cs_depends_on spec = deps"
    by (auto simp: package_get)
  with assms Some have "d \<in> set deps" by (simp add: deps_of_def)
  with r(1) imported_deps obtain k where k: "map_of inner_checks d = Some k" "k < check_depth n"
    by (fastforce simp: list_all_iff)
  moreover have "d \<in> set (map fst inner_checks)" using k(1) by (auto dest: map_of_SomeD intro: rev_image_eqI)
  ultimately show ?thesis using inner_known by (auto simp: package_keys list_all_iff check_depth_def)
qed (use assms in \<open>simp add: deps_of_def\<close>)

lemma probe_returns: "\<exists>rs. probe iter s None = Ok rs"
proof -
  have "acyclic (dep_rel package_registry)" by (rule acyclic_by_rank [of _ check_depth]) (use package_deps in blast)
  moreover have "(\<Union>n. set (deps_of package_registry n)) \<subseteq> set (dict_keys package_registry)" using package_deps by blast
  ultimately show ?thesis
    using run_checks_returns [of package_registry iter s] by (simp add: probe_run is_ok_iff)
qed

definition accepts :: "(system \<Rightarrow> verdict) \<Rightarrow> system \<Rightarrow> bool" where
  "accepts f s = (case f s of Inr (b, d) \<Rightarrow> b | Inl e \<Rightarrow> False)"

lemma fn_passes_accepts: "cs_fn spec = as_check fn \<Longrightarrow> fn_passes s spec \<longleftrightarrow> accepts fn s"
  by (cases "fn s") (auto simp: fn_passes_def accepts_def as_check_def split: prod.splits)

text \<open>A check is held up when it does not accept the system or depends on one that is held up.\<close>

inductive held_up :: "system \<Rightarrow> string \<Rightarrow> bool" for s where
  refused: "(n, sev, deps, fn) \<in> set imported_checks \<Longrightarrow> \<not> accepts fn s \<Longrightarrow> held_up s n"
| behind: "(n, sev, deps, fn) \<in> set imported_checks \<Longrightarrow> d \<in> set deps \<Longrightarrow> held_up s d \<Longrightarrow> held_up s n"

lemma stopped_held_up: "stopped package_registry s n \<longleftrightarrow> held_up s n"
proof
  show "stopped package_registry s n \<Longrightarrow> held_up s n"
  proof (induction rule: stopped.induct)
    case (own n spec)
    then show ?case by (auto simp: package_get fn_passes_accepts intro: held_up.refused)
  next
    case (dep n spec d)
    then show ?case by (auto simp: package_get intro: held_up.behind)
  qed
  show "held_up s n \<Longrightarrow> stopped package_registry s n"
  proof (induction rule: held_up.induct)
    case (refused n sev deps fn)
    then show ?case by (intro stopped.own [OF package_getI]) (simp_all add: fn_passes_accepts)
  next
    case (behind n sev deps fn d)
    then show ?case by (intro stopped.dep [OF package_getI, of n sev deps fn d]) simp_all
  qed
qed

text \<open>
  C19: on every system the probe returns one result for each registered check, and a check passes
  exactly when neither it nor a check it depends on, directly or not, refuses the system. The exit
  code is 2 when a critical check is held up, otherwise 1 when any check is, and 0 when every check
  accepts the system.
\<close>

theorem probe_verdict:
  "\<exists>rs. probe iter s None = Ok rs
     \<and> set (map cr_name rs) = set (map fst imported_checks) \<and> distinct (map cr_name rs)
     \<and> list_all (\<lambda>r. cr_status r = PASS \<longleftrightarrow> \<not> held_up s (cr_name r)) rs
     \<and> derive_exit_code rs =
         (if list_ex (\<lambda>(n, sev, deps, fn). held_up s n \<and> sev = CRITICAL) imported_checks then 2
          else if list_ex (\<lambda>(n, sev, deps, fn). \<not> accepts fn s) imported_checks then 1 else 0)"
proof -
  obtain rs where rs: "probe iter s None = Ok rs" using probe_returns by blast
  note run = rs [unfolded probe_run]
  have sev: "(\<exists>n spec. dict_get package_registry n = Some spec \<and> held_up s n \<and> cs_severity spec = sv)
    \<longleftrightarrow> list_ex (\<lambda>(n, sev, deps, fn). held_up s n \<and> sev = sv) imported_checks" for sv
    by (force simp: package_get list_ex_iff)
  have *: "\<exists>n sev deps fn. (n, sev, deps, fn) \<in> set imported_checks \<and> \<not> accepts fn s" if "held_up s n" for n
    using that by induction auto
  have warn: "list_ex (\<lambda>(n, sev, deps, fn). held_up s n \<and> sev = WARNING) imported_checks
     \<longleftrightarrow> list_ex (\<lambda>(n, sev, deps, fn). \<not> accepts fn s) imported_checks"
    if "\<not> list_ex (\<lambda>(n, sev, deps, fn). held_up s n \<and> sev = CRITICAL) imported_checks"
  proof
    assume "list_ex (\<lambda>(n, sev, deps, fn). held_up s n \<and> sev = WARNING) imported_checks"
    then show "list_ex (\<lambda>(n, sev, deps, fn). \<not> accepts fn s) imported_checks"
      using * by (auto simp: list_ex_iff) blast
  next
    assume "list_ex (\<lambda>(n, sev, deps, fn). \<not> accepts fn s) imported_checks"
    then obtain n sev deps fn where r: "(n, sev, deps, fn) \<in> set imported_checks" "\<not> accepts fn s"
      by (auto simp: list_ex_iff)
    then have h: "held_up s n" by (rule held_up.refused)
    have "sev \<noteq> INFO" using imported_deps r(1) by (auto simp: list_all_iff)
    moreover have "sev \<noteq> CRITICAL" using that r(1) h by (auto simp: list_ex_iff)
    ultimately have "sev = WARNING" by (cases sev) auto
    with r(1) h show "list_ex (\<lambda>(n, sev, deps, fn). held_up s n \<and> sev = WARNING) imported_checks"
      by (auto simp: list_ex_iff)
  qed
  have "derive_exit_code rs =
         (if list_ex (\<lambda>(n, sev, deps, fn). held_up s n \<and> sev = CRITICAL) imported_checks then 2
          else if list_ex (\<lambda>(n, sev, deps, fn). \<not> accepts fn s) imported_checks then 1 else 0)"
    unfolding run_all_exit_code [OF run] stopped_held_up sev using warn by simp
  moreover have "list_all (\<lambda>r. cr_status r = PASS \<longleftrightarrow> \<not> held_up s (cr_name r)) rs"
    using run_all_refines(3) [OF run] by (auto simp: list_all_iff stopped_held_up)
  ultimately show ?thesis using rs run_all_refines(1,2) [OF run] by (auto simp: package_keys)
qed

section \<open>The fence check\<close>

definition deg :: "int \<Rightarrow> rat" where "deg n = fl (of_int n / 10000000)"

lemma int32_bound: "in_int32 n \<Longrightarrow> \<bar>of_int n :: rat\<bar> \<le> 2147483648"
proof -
  assume "in_int32 n"
  then have "\<bar>n\<bar> \<le> 2147483648" by (auto simp: in_int32_def)
  then have "of_int \<bar>n\<bar> \<le> (of_int 2147483648 :: rat)" unfolding of_int_le_iff .
  then show ?thesis by simp
qed

lemma deg_close: "in_int32 n \<Longrightarrow> \<bar>deg n - of_int n / 10000000\<bar> \<le> 2 / 10 ^ 12"
proof -
  assume n: "in_int32 n"
  note int32_bound [OF n]
  then have "\<bar>of_int n / 10000000 :: rat\<bar> / 2 ^ 53 \<le> 1 / 10 ^ 12" by (simp add: abs_divide field_simps)
  then show ?thesis using fl_close [of "of_int n / 10000000"] by (simp add: deg_def)
qed

lemma deg_bound: "in_int32 n \<Longrightarrow> \<bar>deg n\<bar> \<le> 300"
proof -
  assume n: "in_int32 n"
  note int32_bound [OF n]
  then have "\<bar>of_int n / 10000000 :: rat\<bar> \<le> 215" by (simp add: abs_divide)
  moreover have "\<bar>deg n - of_int n / 10000000\<bar> \<le> 1" using deg_close [OF n] by (rule order_trans) simp
  ultimately show ?thesis by linarith
qed

lemma small_finite: "\<bar>x\<bar> \<le> 2 ^ 100 \<Longrightarrow> rnd x = Fin (fl x)"
proof (rule rnd_finite)
  assume "\<bar>x\<bar> \<le> 2 ^ 100"
  then have "\<bar>fl x\<bar> < 2 ^ 102" by (rule fl_bounded)
  also have "(2 ^ 102 :: rat) \<le> 2 ^ 1024" by simp
  finally show "\<bar>fl x\<bar> < 2 ^ 1024" .
qed

lemma degrees_int: "in_int32 n \<Longrightarrow> degrees (VInt n) = Ok (Fin (deg n))"
proof -
  assume n: "in_int32 n"
  then have "\<bar>n\<bar> < 2 ^ 53" by (auto simp: in_int32_def)
  then have "rnd (of_int n) = Fin (of_int n)" using small_finite [of "of_int n"] by simp
  moreover have "\<bar>of_int n :: rat\<bar> \<le> 2147483648" using n by (rule int32_bound)
  then have "rnd (of_int n / 10000000) = Fin (deg n)" using small_finite [of "of_int n / 10000000"]
    by (simp add: deg_def abs_divide)
  ultimately show ?thesis by (simp add: float_of_int_def fdiv_def)
qed

lemma fence_tolerance_value: "\<exists>t. fence_tolerance = Fin t \<and> 0 \<le> t \<and> t \<le> 11 / 10 ^ 8"
proof -
  have "rnd (1 / 10000000) = Fin (fl (1 / 10000000))" by (rule small_finite) simp
  moreover have "\<bar>fl (1 / 10000000) - 1 / 10000000\<bar> \<le> \<bar>1 / 10000000\<bar> / 2 ^ 53 + 1 / 10 ^ 12" by (rule fl_close)
  then have "\<bar>fl (1 / 10000000) - 1 / 10000000\<bar> \<le> 1 / 10 ^ 9" by (rule order_trans) simp
  then have "0 \<le> fl (1 / 10000000) \<and> fl (1 / 10000000) \<le> 11 / 10 ^ 8" unfolding abs_le_iff by simp
  ultimately show ?thesis by (simp add: fence_tolerance_def)
qed

text \<open>The comparison of one coordinate: equal passes, two units or more does not.\<close>

lemma coordinate_compare:
  assumes "in_int32 m" and "in_int32 n"
  shows "fgt (fabs (fsub (Fin (deg m)) (Fin (deg n)))) fence_tolerance \<Longrightarrow> m \<noteq> n"
    and "\<not> fgt (fabs (fsub (Fin (deg m)) (Fin (deg n)))) fence_tolerance \<Longrightarrow> \<bar>m - n\<bar> \<le> 1"
proof -
  obtain t where t: "fence_tolerance = Fin t" "0 \<le> t" "t \<le> 11 / 10 ^ 8" using fence_tolerance_value by blast
  have "\<bar>deg m - deg n\<bar> \<le> 600" using deg_bound [OF assms(1)] deg_bound [OF assms(2)] by linarith
  then have "rnd (deg m - deg n) = Fin (fl (deg m - deg n))"
    by (intro small_finite) (rule order_trans, assumption, simp)
  then have sub: "fabs (fsub (Fin (deg m)) (Fin (deg n))) = Fin \<bar>fl (deg m - deg n)\<bar>" by (simp add: fsub_def)
  show "m \<noteq> n" if "fgt (fabs (fsub (Fin (deg m)) (Fin (deg n)))) fence_tolerance"
    using that t(2) unfolding sub t(1) by auto
  show "\<bar>m - n\<bar> \<le> 1" if "\<not> fgt (fabs (fsub (Fin (deg m)) (Fin (deg n)))) fence_tolerance"
  proof (rule ccontr)
    assume "\<not> \<bar>m - n\<bar> \<le> 1"
    then have "2 \<le> \<bar>m - n\<bar>" by linarith
    then have "2 \<le> \<bar>of_int m - of_int n :: rat\<bar>"
      by (metis of_int_abs of_int_diff of_int_le_iff of_int_numeral)
    then have gap: "2 / 10 ^ 7 - 4 / 10 ^ 12 \<le> \<bar>deg m - deg n\<bar>"
      using deg_close [OF assms(1)] deg_close [OF assms(2)] by (simp add: abs_if split: if_splits)
    have "\<bar>deg m - deg n\<bar> / 2 ^ 53 \<le> 1 / 10 ^ 12" using \<open>\<bar>deg m - deg n\<bar> \<le> 600\<close> by (simp add: field_simps)
    then have "\<bar>fl (deg m - deg n) - (deg m - deg n)\<bar> \<le> 2 / 10 ^ 12" using fl_close [of "deg m - deg n"] by linarith
    with gap have "11 / 10 ^ 8 < \<bar>fl (deg m - deg n)\<bar>" by (simp add: abs_if split: if_splits)
    with t(3) that show False unfolding sub t(1) by simp
  qed
qed

text \<open>A vertex cached as the autopilot reports it, and closeness by one unit of \<open>1e-7\<close> degrees.\<close>

definition cached_xy :: "int \<times> int \<Rightarrow> pyval \<times> pyval" where
  "cached_xy p = (VInt (fst p), VInt (snd p))"

definition xy_int32 :: "int \<times> int \<Rightarrow> bool" where
  "xy_int32 p \<longleftrightarrow> in_int32 (fst p) \<and> in_int32 (snd p)"

definition xy_close :: "mission_item \<Rightarrow> int \<times> int \<Rightarrow> bool" where
  "xy_close e p \<longleftrightarrow> \<bar>mi_x e - fst p\<bar> \<le> 1 \<and> \<bar>mi_y e - snd p\<bar> \<le> 1"

lemma compare_vertices_int:
  assumes "length es = length ps" and "list_all (xy_int32 \<circ> wire_xy) es" and "list_all xy_int32 ps"
  shows "\<exists>r. compare_vertices s fence_tolerance i es (map cached_xy ps) = Ok r
     \<and> (r = None \<longrightarrow> list_all2 xy_close es ps) \<and> (ps = map wire_xy es \<longrightarrow> r = None)"
  using assms
proof (induction es ps arbitrary: i rule: list_induct2)
  case (Cons e es p ps)
  then have in32: "in_int32 (mi_x e)" "in_int32 (mi_y e)" "in_int32 (fst p)" "in_int32 (snd p)"
    by (simp_all add: xy_int32_def wire_xy_def)
  obtain r where r: "compare_vertices s fence_tolerance (Suc i) es (map cached_xy ps) = Ok r"
    "r = None \<longrightarrow> list_all2 xy_close es ps" "ps = map wire_xy es \<longrightarrow> r = None" using Cons by force
  note cmp = coordinate_compare [OF in32(1,3)] coordinate_compare [OF in32(2,4)]
  show ?case
  proof (cases "fgt (fabs (fsub (Fin (deg (mi_x e))) (Fin (deg (fst p))))) fence_tolerance
      \<or> fgt (fabs (fsub (Fin (deg (mi_y e))) (Fin (deg (snd p))))) fence_tolerance")
    case True
    then have "p \<noteq> wire_xy e" using cmp(1,3) by (auto simp: wire_xy_def)
    then show ?thesis using True by (simp add: cached_xy_def [of p] degrees_int in32 del: degrees.simps)
  next
    case False
    then have "xy_close e p" using cmp(2,4) by (simp add: xy_close_def)
    then show ?thesis using False r by (simp add: cached_xy_def [of p] degrees_int in32 del: degrees.simps)
  qed
qed simp

text \<open>
  C21: the fence check on the coordinates an autopilot reports. When it passes, the fence has as
  many vertices as the zone's and each is within one unit (about a centimetre) of the zone's vertex
  in both coordinates; the zone's own fence passes, whatever the rounding of the comparison.
\<close>

theorem fence_check_close:
  assumes "zone_to_fence zone = Ok es" and "list_all (xy_int32 \<circ> wire_xy) es" and "list_all xy_int32 ps"
  shows "\<exists>b d. check_fence_match s zone (map cached_xy ps) fence_tolerance = Ok (b, d)
     \<and> (b \<longrightarrow> list_all2 xy_close es ps) \<and> (ps = map wire_xy es \<longrightarrow> b)"
proof (cases "length es = length ps")
  case True
  from compare_vertices_int [OF True assms(2,3), of s 0]
  obtain r where "compare_vertices s fence_tolerance 0 es (map cached_xy ps) = Ok r"
    "r = None \<longrightarrow> list_all2 xy_close es ps" "ps = map wire_xy es \<longrightarrow> r = None" by blast
  then show ?thesis using True assms(1) by (cases r) (auto simp: check_fence_match_def)
next
  case False
  then have "ps \<noteq> map wire_xy es" by auto
  with False show ?thesis using assms(1)
    by (simp add: check_fence_match_def) (rule exI [of _ False], simp)
qed

section \<open>What a clean probe means\<close>

definition zone_cool :: "thermal_zone \<Rightarrow> bool" where
  "zone_cool z \<longleftrightarrow> flt (tz_temp_c z) thermal_gate_c"

lemma zone_temp_finite: "zone_temp f \<noteq> Ok (Some NaN)"
  by (auto simp: zone_temp_def result_simps float_of_int_def fdiv_def rnd_def Let_def
      split: file_view.splits option.splits pyfloat.splits if_splits)

lemma read_zones_number: "read_zones ds = Ok zs \<Longrightarrow> z \<in> set zs \<Longrightarrow> tz_temp_c z \<noteq> NaN"
proof (induction ds arbitrary: zs)
  case (Cons d ds)
  then show ?case by (auto simp: result_simps zone_temp_finite split: option.splits)
qed simp

lemma fle_trans: "fle a b \<Longrightarrow> fle b c \<Longrightarrow> fle a c"
  by (cases a; cases b; cases c) auto

lemma fle_flt_trans: "fle a b \<Longrightarrow> flt b c \<Longrightarrow> flt a c"
  by (cases a; cases b; cases c) auto

lemma fle_refl: "a \<noteq> NaN \<Longrightarrow> fle a a"
  by (cases a) auto

lemma not_flt: "a \<noteq> NaN \<Longrightarrow> b \<noteq> NaN \<Longrightarrow> \<not> flt a b \<longleftrightarrow> fle b a"
  by (cases a; cases b) auto

lemma flt_fle: "flt a b \<Longrightarrow> fle a b"
  by (cases a; cases b) auto

lemma max_zone_max:
  "\<forall>y \<in> set (z # zs). tz_temp_c y \<noteq> NaN \<Longrightarrow>
     max_zone z zs \<in> set (z # zs) \<and> (\<forall>y \<in> set (z # zs). fle (tz_temp_c y) (tz_temp_c (max_zone z zs)))"
proof (induction zs arbitrary: z)
  case Nil
  then show ?case by (simp add: fle_refl)
next
  case (Cons y ys)
  let ?m = "if fgt (tz_temp_c y) (tz_temp_c z) then y else z"
  from Cons.prems have IH: "max_zone ?m ys \<in> set (?m # ys)
     \<and> (\<forall>x \<in> set (?m # ys). fle (tz_temp_c x) (tz_temp_c (max_zone ?m ys)))" by (intro Cons.IH) auto
  moreover have "fle (tz_temp_c y) (tz_temp_c ?m) \<and> fle (tz_temp_c z) (tz_temp_c ?m)"
    using Cons.prems by (auto simp: fle_refl flt_fle not_flt)
  ultimately show ?case by (auto intro: fle_trans split: if_splits)
qed

lemma system_zones_number: "system_zones s = Ok zs \<Longrightarrow> z \<in> set zs \<Longrightarrow> tz_temp_c z \<noteq> NaN"
  by (auto simp: system_zones_def read_thermal_zones_def result_simps dest: read_zones_number)

lemma thermal_gate_iff:
  "accepts check_thermal_gate s \<longleftrightarrow> (\<exists>zs. system_zones s = Ok zs \<and> list_all zone_cool zs)"
proof (cases "system_zones s")
  case (Inr zs)
  show ?thesis
  proof (cases zs)
    case (Cons z ys)
    have num: "\<forall>y \<in> set (z # ys). tz_temp_c y \<noteq> NaN" using system_zones_number [OF Inr] Cons by auto
    note mx = max_zone_max [OF num]
    have "\<not> fge (tz_temp_c (max_zone z ys)) thermal_gate_c \<longleftrightarrow> zone_cool (max_zone z ys)"
      using mx num unfolding zone_cool_def thermal_gate_c_def by (metis (full_types) not_flt pyfloat.distinct(5))
    moreover have "zone_cool (max_zone z ys) \<longleftrightarrow> list_all zone_cool zs"
      using mx fle_flt_trans unfolding Cons list_all_iff zone_cool_def by blast
    ultimately show ?thesis using Inr Cons by (auto simp: accepts_def check_thermal_gate_def Let_def)
  qed (simp add: accepts_def check_thermal_gate_def Inr)
qed (simp add: accepts_def check_thermal_gate_def)

text \<open>What some of the checks accept.\<close>

lemma disk_space_iff:
  "accepts check_disk_space s \<longleftrightarrow> (\<exists>u. root_usage s = Ok (Some u) \<and> fge (du_free_gb u) (Fin 2))"
proof (cases "root_usage s")
  case (Inr r)
  then show ?thesis by (cases r) (simp_all add: accepts_def check_disk_space_def)
qed (simp add: accepts_def check_disk_space_def)

lemma jetpack_iff:
  "accepts check_jetpack_version s \<longleftrightarrow> is_file_at s ''etc/nv_tegra_release''
     \<and> (\<exists>t l ls. read_text s ''etc/nv_tegra_release'' = Ok t \<and> splitlines (py_strip t) = l # ls \<and> str_contains ''R36'' l)"
proof (cases "read_text s ''etc/nv_tegra_release''")
  case (Inl e)
  then show ?thesis by (cases e) (simp_all add: accepts_def check_jetpack_version_def)
next
  case (Inr t)
  then show ?thesis by (cases "splitlines (py_strip t)") (simp_all add: accepts_def check_jetpack_version_def)
qed

lemma oakd_verdict_iff: "fst (oakd_verdict active pid speed) \<longleftrightarrow> (active \<longrightarrow> pid = Some ''f63b'')"
  by (simp add: oakd_verdict_def Let_def)

lemma oakd_iff:
  "accepts check_oakd s \<longleftrightarrow> (\<exists>active pid speed. vslam_service_active s = Ok active
     \<and> find_oakd_device s = Ok (pid, speed) \<and> (active \<longrightarrow> pid = Some ''f63b''))"
  by (cases "vslam_service_active s"; cases "find_oakd_device s")
    (auto simp: accepts_def check_oakd_def case_prod_beta oakd_verdict_iff)

lemma socket_active_iff:
  "accepts check_vslam_socket_active s \<longleftrightarrow> sy_af_unix s \<and> exists_at s pose_socket_path
     \<and> (\<exists>bs. sy_pose_socket s = SockData bs \<and> POSE_STRUCT_SIZE \<le> length bs)"
  by (auto simp: accepts_def check_vslam_socket_active_def split: sock_outcome.splits)

lemma ssh_hardening_iff: "accepts check_ssh_hardening s \<longleftrightarrow> password_auth_disabled s = Ok (Some True)"
  by (cases "password_auth_disabled s") (auto simp: accepts_def check_ssh_hardening_def)

lemma pose_rate_iff:
  "accepts check_vslam_pose_rate s \<longleftrightarrow>
     (\<exists>raw v n. load_yaml s vslam_config_path = Ok raw \<and> vslam_entry raw ''pose_output_rate_hz'' = Some v
        \<and> py_int v = Ok n \<and> 5 \<le> n)"
  by (auto simp: accepts_def check_vslam_pose_rate_def split: sum.splits option.splits)

lemma vslam_process_iff:
  "accepts check_vslam_process s \<longleftrightarrow>
     (\<exists>out. sy_run s [''systemctl'', ''is-active'', ''--quiet'', ''mower-vslam.service''] = RunExit 0 out)"
  by (auto simp: accepts_def check_vslam_process_def systemctl_is_active_def split: run_outcome.splits)

lemmas accepts_iffs = disk_space_iff jetpack_iff oakd_iff socket_active_iff ssh_hardening_iff pose_rate_iff
  vslam_process_iff thermal_gate_iff

lemma probe_exit_zero:
  assumes "probe iter s None = Ok rs" and "derive_exit_code rs = 0" and r: "(n, sev, deps, fn) \<in> set imported_checks"
  shows "accepts fn s"
proof (rule ccontr)
  assume "\<not> accepts fn s"
  with r have h: "stopped package_registry s n" by (simp add: stopped_held_up held_up.refused)
  have "sev \<noteq> INFO" using imported_deps r by (auto simp: list_all_iff)
  then have sev: "sev = CRITICAL \<or> sev = WARNING" by (cases sev) auto
  have "\<exists>n spec. dict_get package_registry n = Some spec \<and> stopped package_registry s n \<and> cs_severity spec = sev"
    using h package_getI [OF r] by (intro exI conjI) auto
  with sev assms(2) show False
    unfolding run_all_exit_code [OF assms(1) [unfolded probe_run]] by (metis zero_neq_numeral zero_neq_one)
qed

text \<open>
  C20: what an exit code of 0 from the probe says about the system: at least 2 GB are free on the
  root disk, the board runs L4T R36, the SLAM service was active at the query of the process check,
  a whole pose message arrived on the socket, poses are configured at 5 Hz or more, every thermal
  zone is below 85 degrees, and the last password setting of the SSH server is no. Of the camera it
  says less: it had left its boot loader if the query of the camera check found the service active.
  That is a second call of \<open>systemctl\<close>, without \<open>--quiet\<close>, and its answer may differ; if it does, a
  camera in its boot loader passes, and so does none at all.
\<close>

theorem probe_clean:
  assumes "probe iter s None = Ok rs" and "derive_exit_code rs = 0"
  shows "(\<exists>u. root_usage s = Ok (Some u) \<and> fge (du_free_gb u) (Fin 2))
   \<and> (\<exists>t l ls. read_text s ''etc/nv_tegra_release'' = Ok t \<and> splitlines (py_strip t) = l # ls \<and> str_contains ''R36'' l)
   \<and> (\<exists>out. sy_run s [''systemctl'', ''is-active'', ''--quiet'', ''mower-vslam.service''] = RunExit 0 out)
   \<and> (\<exists>active pid speed. vslam_service_active s = Ok active \<and> find_oakd_device s = Ok (pid, speed)
        \<and> (active \<longrightarrow> pid = Some ''f63b''))
   \<and> (\<exists>bs. sy_pose_socket s = SockData bs \<and> POSE_STRUCT_SIZE \<le> length bs)
   \<and> (\<exists>raw v n. load_yaml s vslam_config_path = Ok raw \<and> vslam_entry raw ''pose_output_rate_hz'' = Some v
        \<and> py_int v = Ok n \<and> 5 \<le> n)
   \<and> (\<exists>zs. system_zones s = Ok zs \<and> list_all zone_cool zs)
   \<and> password_auth_disabled s = Ok (Some True)"
proof -
  have "list_all (\<lambda>(n, sev, deps, fn). accepts fn s) imported_checks"
    using probe_exit_zero [OF assms] by (auto simp: list_all_iff)
  note acc = this [unfolded imported_checks_def list.pred_inject prod.case accepts_iffs]
  show ?thesis by (intro conjI) (use acc in \<open>elim conjE; assumption | (elim conjE exE; blast)\<close>)+
qed

text \<open>A system on which every check passes.\<close>

definition demo_files :: "(string \<times> string) list" where
  "demo_files =
     [(''etc/nv_tegra_release'', ''# R36 (release), REVISION: 4.0''),
      (''proc/mounts'', ''/dev/nvme0n1p1 / ext4 rw''),
      (usbcore_param ''autosuspend'', ''-1''), (usbcore_param ''usbfs_memory_mb'', ''1000''),
      (usbcore_param ''quirks'', ''03e7:2485:gk,03e7:f63b:gk''),
      (''etc/ssh/sshd_config'', ''PasswordAuthentication no''),
      (udev_rule_path, ''ATTRS{idVendor}==03e7''),
      (''sys/bus/usb/devices/1/idVendor'', ''03e7''), (''sys/bus/usb/devices/1/idProduct'', ''f63b''),
      (''sys/bus/usb/devices/2/idVendor'', ''2109''), (''sys/bus/usb/devices/2/idProduct'', ''0817''),
      (''sys/class/thermal/thermal_zone0/temp'', ''40000''), (''sys/class/thermal/thermal_zone0/type'', ''cpu-thermal''),
      (vslam_config_path, ''vslam: ...'')]"

definition demo_outputs :: "(string \<times> string) list" where
  "demo_outputs =
     [(''nvcc'', ''Cuda compilation tools, release 12.6''), (''nvpmodel'', ''0''), (''python3.11'', ''Python 3.11.9''),
      (''loginctl'', ''yes'')]"

definition demo_system :: system where
  "demo_system = \<lparr>sy_root = ''/'', sy_stat = (\<lambda>p. RegularFile),
     sy_read = (\<lambda>p. case map_of demo_files p of None \<Rightarrow> FAbsent | Some t \<Rightarrow> FText t),
     sy_glob = (\<lambda>p. if p = usb_vendor_glob
       then [''sys/bus/usb/devices/1/idVendor'', ''sys/bus/usb/devices/2/idVendor'']
       else if p = ''sys/class/thermal/thermal_zone*'' then [''sys/class/thermal/thermal_zone0''] else []),
     sy_run = (\<lambda>argv. RunExit 0 (Some (case map_of demo_outputs (hd argv) of None \<Rightarrow> [] | Some t \<Rightarrow> t))),
     sy_env = (\<lambda>v. if v = ''USER'' then Some ''mower'' else None), sy_uv_pythons = [],
     sy_statvfs = (\<lambda>m. Some (1073741824, 8, 4)), sy_resolve = (\<lambda>p. ''/dev/ttyACM0''), sy_af_unix = True,
     sy_pose_socket = SockData (replicate 118 0), sy_lua = LuaFile, sy_now = [],
     sy_yaml = (\<lambda>t. Some (VDict [(''vslam'', VDict [(''pose_output_rate_hz'', VInt 20), (''loop_closure'', VBool True)])])),
     sy_json = (\<lambda>t. None), sy_str = (\<lambda>e. []), sy_fr = (\<lambda>x. []), sy_fmt_e = (\<lambda>k x. []), sy_geometry = any_geometry\<rparr>"

lemma demo_mounts: "parse_proc_mounts (file_at demo_system ''proc/mounts'') = Ok [(''/dev/nvme0n1p1'', ''/'')]"
  by code_simp

lemma demo_gib: "gib 4294967296 = Ok (Fin 4)" "gib 8589934592 = Ok (Fin 8)"
  by (simp_all add: gib_def float_eval)

lemma demo_root_usage:
  "\<exists>u. root_usage demo_system = Ok (Some u) \<and> fge (du_free_gb u) (Fin 2) \<and> du_is_nvme u"
proof -
  have "sy_statvfs demo_system = (\<lambda>m. Some (1073741824, 8, 4))" by (simp add: demo_system_def)
  moreover have "str_contains ''nvme'' (py_lower ''/dev/nvme0n1p1'')" by code_simp
  moreover have "fround 2 (Fin 4) = Fin 4" by (simp add: float_eval)
  ultimately show ?thesis
    by (simp add: root_usage_def read_disk_usage_def demo_mounts disk_entry_def disk_stats_def demo_gib Let_def)
qed

lemma demo_zone_dirs:
  "zone_dirs demo_system = [\<lparr>zd_name = ''thermal_zone0'', zd_temp = FText ''40000'', zd_type = FText ''cpu-thermal''\<rparr>]"
proof -
  have "py_sorted (sy_glob demo_system ''sys/class/thermal/thermal_zone*'') = [''sys/class/thermal/thermal_zone0'']"
    by (simp add: py_sorted_def demo_system_def usb_vendor_glob_def)
  moreover have "basename ''sys/class/thermal/thermal_zone0'' = ''thermal_zone0''"
    "file_at demo_system ''sys/class/thermal/thermal_zone0/temp'' = FText ''40000''"
    "file_at demo_system ''sys/class/thermal/thermal_zone0/type'' = FText ''cpu-thermal''" by code_simp+
  ultimately show ?thesis by (simp add: zone_dirs_def)
qed

lemma demo_zones:
  "system_zones demo_system = Ok [\<lparr>tz_index = 0, tz_name = ''cpu-thermal'', tz_temp_c = Fin 40\<rparr>]"
proof -
  have strip: "py_strip ''40000'' = ''40000''" by code_simp
  have "CHR ''4'' = char_of (52 :: nat)" "CHR ''0'' = char_of (48 :: nat)" by code_simp+
  then have "''40000'' = digits_of_nat 40000"
    by (simp add: digits_of_nat.simps [of 40000] digits_of_nat.simps [of 4000] digits_of_nat.simps [of 400]
        digits_of_nat.simps [of 40] digits_of_nat.simps [of 4] digit_char_def)
  then have "parse_int ''40000'' = Some 40000" using parse_int_digits [of 40000] by simp
  moreover have "py_strip ''cpu-thermal'' = ''cpu-thermal''" by code_simp
  moreover have "zone_index ''thermal_zone0'' = 0" by code_simp
  moreover have "float_of_int 40000 = Ok (Fin 40000)" "rnd 40 = Fin 40" by (simp_all add: float_of_int_def float_eval)
  ultimately show ?thesis
    by (simp add: system_zones_def read_thermal_zones_def demo_zone_dirs zone_temp_def strip zone_label_def fdiv_def)
qed

lemma demo_float_checks:
  "accepts check_disk_space demo_system" "accepts check_disk_nvme demo_system"
  "accepts check_thermal demo_system" "accepts check_thermal_gate demo_system"
  using demo_root_usage
  by (auto simp: accepts_def check_disk_space_def check_disk_nvme_def check_thermal_def check_thermal_gate_def
      demo_zones throttle_threshold_def thermal_gate_c_def Let_def)

lemma demo_accepts: "list_all (\<lambda>(n, sev, deps, fn). accepts fn demo_system) imported_checks"
  unfolding imported_checks_def list.pred_inject prod.case by (intro conjI; (rule demo_float_checks | code_simp))

lemma demo_exit_zero: "probe iter demo_system None = Ok rs \<Longrightarrow> derive_exit_code rs = 0"
proof -
  assume "probe iter demo_system None = Ok rs"
  note run = this [unfolded probe_run]
  have "\<not> held_up demo_system n" for n
  proof
    assume "held_up demo_system n"
    then show False by induction (use demo_accepts in \<open>auto simp: list_all_iff\<close>)
  qed
  then show ?thesis by (simp add: run_all_exit_code [OF run] stopped_held_up)
qed

theorem probe_clean_witness:
  "(\<exists>u. root_usage demo_system = Ok (Some u) \<and> fge (du_free_gb u) (Fin 2))
   \<and> (\<exists>t l ls. read_text demo_system ''etc/nv_tegra_release'' = Ok t \<and> splitlines (py_strip t) = l # ls
        \<and> str_contains ''R36'' l)
   \<and> (\<exists>out. sy_run demo_system [''systemctl'', ''is-active'', ''--quiet'', ''mower-vslam.service''] = RunExit 0 out)
   \<and> (\<exists>active pid speed. vslam_service_active demo_system = Ok active \<and> find_oakd_device demo_system = Ok (pid, speed)
        \<and> (active \<longrightarrow> pid = Some ''f63b''))
   \<and> (\<exists>bs. sy_pose_socket demo_system = SockData bs \<and> POSE_STRUCT_SIZE \<le> length bs)
   \<and> (\<exists>raw v n. load_yaml demo_system vslam_config_path = Ok raw
        \<and> vslam_entry raw ''pose_output_rate_hz'' = Some v \<and> py_int v = Ok n \<and> 5 \<le> n)
   \<and> (\<exists>zs. system_zones demo_system = Ok zs \<and> list_all zone_cool zs)
   \<and> password_auth_disabled demo_system = Ok (Some True)"
proof -
  obtain rs where rs: "probe (\<lambda>_. []) demo_system None = Ok rs" using probe_returns by blast
  show ?thesis by (rule probe_clean [OF rs demo_exit_zero [OF rs]])
qed

lemma sample_fence_int32: "zone_to_fence sample_zone = Ok es \<Longrightarrow> list_all (xy_int32 \<circ> wire_xy) es"
  by (auto simp: zone_to_fence_def sample_zone_def sample_boundary_def sample_wire xy_int32_def wire_xy_def
      in_int32_def make_item_def)

theorem fence_check_close_witness:
  "\<exists>es d. zone_to_fence sample_zone = Ok es
     \<and> check_fence_match demo_system sample_zone (map cached_xy (map wire_xy es)) fence_tolerance = Ok (True, d)"
proof -
  obtain es where es: "zone_to_fence sample_zone = Ok es"
    by (auto simp: zone_to_fence_def sample_zone_def sample_boundary_def sample_wire)
  have "list_all xy_int32 (map wire_xy es)" using sample_fence_int32 [OF es] by (simp add: list_all_iff)
  from fence_check_close [OF es sample_fence_int32 [OF es] this, of demo_system] es show ?thesis by auto
qed

section \<open>The checks and the rest of the program\<close>

text \<open>A message as \<open>vslam/ipc.py\<close> packs it makes the socket check pass and report its confidence.\<close>

lemma le_bytes_concat: "length (concat (map (\<lambda>w. le_bytes k (f w)) ws)) = k * length ws"
  by (induction ws) simp_all

lemma to_bytes_confidence:
  assumes "to_bytes m = Ok bs"
  shows "length bs = POSE_STRUCT_SIZE \<and> bs ! (POSE_STRUCT_SIZE - 2) = pm_confidence m"
proof -
  obtain a b c d e f where p: "pm_pose m = (a, b, c, d, e, f)" by (metis surj_pair)
  from assms obtain ws where cov: "length (pm_covariance m) = 21" and ws: "mapr encode_f32 (pose_floats m) = Ok ws"
    and bs: "bs = (le_bytes 8 (unat (timestamp_us m)) @ concat (map (\<lambda>w. le_bytes 4 (unat w)) ws))
      @ [pm_confidence m, pm_reset_counter m]"
    by (auto simp: to_bytes_def result_simps split: if_splits)
  have "length ws = 27" using mapr_Inr_length [OF ws] cov p by (simp add: pose_floats_def)
  then have "length (le_bytes 8 (unat (timestamp_us m)) @ concat (map (\<lambda>w. le_bytes 4 (unat w)) ws)) = 116"
    by (simp add: le_bytes_concat)
  then show ?thesis unfolding bs by (simp add: nth_append POSE_STRUCT_SIZE_def)
qed

lemma socket_check_reads_pose:
  assumes "to_bytes m = Ok bs" and "sy_pose_socket s = SockData bs" and "sy_af_unix s" and "exists_at s pose_socket_path"
  shows "check_vslam_socket_active s = passes (''pose received, confidence='' @ digits_of_nat (unat (pm_confidence m)))"
  using assms to_bytes_confidence [OF assms(1)] by (simp add: check_vslam_socket_active_def)

text \<open>
  The configuration as the program saves it keeps the database path inside the \<open>vslam\<close> section,
  so the zone check, which looks at the top level, refuses it for every zone.
\<close>

lemma str_contains_Nil: "x \<noteq> [] \<Longrightarrow> \<not> str_contains x []"
  by (cases x) simp_all

lemma zone_match_refuses_saved:
  assumes "exists_at s vslam_config_path" and "load_yaml s vslam_config_path = Ok (vslam_to_dict c)"
  shows "\<exists>d. check_vslam_zone_match s zone_id = fails d"
  using assms
  by (simp add: check_vslam_zone_match_def vslam_to_dict_def zone_fragment_def dict_get_or_def dict_get_def
      str_contains_Nil)

text \<open>A name no check has selects nothing: the probe reports no results and exits with 0.\<close>

lemma unknown_check_exits_zero:
  assumes "n \<notin> set (map fst imported_checks)" and "iter {n} = [n]"
  shows "probe iter s (Some [n]) = Ok [] \<and> derive_exit_code [] = 0"
proof -
  have "dict_get package_registry n = None"
    using assms(1) package_get dict_get_Some_key package_keys by (metis option.exhaust)
  then have "deps_of package_registry n = []" "dict_get package_registry n = None" by (simp_all add: deps_of_def)
  then show ?thesis using assms(2)
    by (simp add: probe_run run_checks_def select_specs_def Let_def resolve_order_def dict_keys_def derive_exit_code_def)
qed

end
