(* ===== verification/FlashCli.thy ===== *)
theory FlashCli
  imports Firmware Params Safety
begin

text \<open>
  The firmware commands of \<open>mower-jetson pixhawk\<close>, \<open>cli/jetson.py\<close>: \<open>firmware-check\<close>,
  \<open>firmware-update\<close> and \<open>firmware-flash\<close>. A command opens several links one after the other; each
  session is what its body observes, or nothing when \<open>open_link\<close> raises (every handler here
  catches \<open>Exception\<close>, so what it raises does not matter). The state holds the files and a log of
  what was sent, written, asked and flashed. A session whose observations end while its body still
  waits leaves the command unfinished. Messages to the console are left out.
\<close>

datatype flash_event =
    LinkOut vehicle_out
  | ParamOut param_out
  | FileWritten string string
  | Prompted
  | BootOut "int list"
  | FlashedImage string string
  | Paused nat

record flash_state =
  st_files :: "string \<Rightarrow> string option"
  st_log :: "flash_event list"

text \<open>How a command ends other than by reaching its end: \<open>typer.Exit(code=1)\<close> or a \<open>return\<close>.\<close>

datatype flash_stop = ExitError string | UpToDate | DryRunDone | Cancelled | Unfinished

type_synonym 'a flash = "(flash_state, flash_stop, 'a) action"

record flash_env =
  fe_loads :: "string \<Rightarrow> pyval option"
  fe_dumps :: "pyval \<Rightarrow> string"
  fe_net :: "string \<Rightarrow> (net_exc, string) result"
  fe_writes :: "string \<Rightarrow> write_outcome"
  fe_now :: int
  fe_captured_at :: string
  fe_repl :: char
  fe_version :: "int trace option"
  fe_params :: "param_rx trace option"
  fe_heartbeat :: "nat option option"
  fe_reboot :: "(bool \<times> bool) option"
  fe_boot :: "int list trace"
  fe_clock :: "pyfloat \<times> pyfloat"
  fe_verify :: "int trace option"
  fe_reply :: console_input

section \<open>Steps\<close>

definition fail_with :: "string \<Rightarrow> 'a flash" where "fail_with msg = act_raise (ExitError msg)"

definition log_events :: "flash_event list \<Rightarrow> unit flash" where
  "log_events evs st = (Ok (), st\<lparr>st_log := st_log st @ evs\<rparr>)"

text \<open>The body of a \<open>with open_link(config)\<close> statement; \<open>Inl ()\<close> is an exception.\<close>

definition in_session ::
  "('o \<Rightarrow> flash_event) \<Rightarrow> ('o, 'm, 'a) io \<Rightarrow> 'm trace option \<Rightarrow> (unit, 'a) result flash" where
  "in_session ev body session =
     (case session of
        None \<Rightarrow> act_ret (Err ())
      | Some tr \<Rightarrow>
          (case body tr of
             (out, None) \<Rightarrow> act_bind (log_events (map ev out)) (\<lambda>_. act_raise Unfinished)
           | (out, Some (a, _)) \<Rightarrow> act_bind (log_events (map ev out)) (\<lambda>_. act_ret (Ok a))))"

definition running_version :: "int trace option \<Rightarrow> firmware_info flash" where
  "running_version session =
     act_bind (in_session LinkOut read_running_version session) (\<lambda>r.
       case r of
         Inl u \<Rightarrow> fail_with ''could not connect to Pixhawk''
       | Inr None \<Rightarrow> fail_with ''could not read firmware version''
       | Inr (Some v) \<Rightarrow> act_ret v)"

definition latest_version :: "flash_env \<Rightarrow> string \<Rightarrow> (int \<times> int \<times> int) flash" where
  "latest_version E track =
     (case check_remote_version (fe_net E) track of
        None \<Rightarrow> fail_with ''remote check failed''
      | Some v \<Rightarrow> act_ret v)"

text \<open>The order of tuples.\<close>

fun version_le :: "int \<times> int \<times> int \<Rightarrow> int \<times> int \<times> int \<Rightarrow> bool" where
  "version_le (a, b, c) (x, y, z) = (a < x \<or> a = x \<and> (b < y \<or> b = y \<and> c \<le> z))"

definition info_tuple :: "firmware_info \<Rightarrow> int \<times> int \<times> int" where
  "info_tuple v = (fi_major v, fi_minor v, fi_patch v)"

definition firmware_cache_dir :: string where "firmware_cache_dir = ''/var/cache/mower/firmware''"

definition fetch_image :: "flash_env \<Rightarrow> string \<Rightarrow> int \<times> int \<times> int \<Rightarrow> string flash" where
  "fetch_image E track latest st =
     (case download_firmware (fe_loads E) (fe_net E) (fe_writes E) track latest firmware_cache_dir (st_files st) of
        (None, files) \<Rightarrow> (Err (ExitError ''download returned no file''), st\<lparr>st_files := files\<rparr>)
      | (Some path, files) \<Rightarrow> (Ok path, st\<lparr>st_files := files\<rparr>))"

definition validate_image :: "flash_env \<Rightarrow> string \<Rightarrow> unit flash" where
  "validate_image E path st =
     (case validate_apj (fe_loads E) (st_files st) path of
        Inl e \<Rightarrow> fail_with ''validation failed'' st
      | Inr u \<Rightarrow> (Ok (), st))"

definition snapshot_file :: "flash_env \<Rightarrow> string \<Rightarrow> string" where
  "snapshot_file E reason = ''/tmp/pixhawk-params-'' @ reason @ ''-'' @ str_int (fe_now E) @ ''.json''"

text \<open>The snapshot of the parameters; whatever fails is a warning.\<close>

definition write_snapshot :: "flash_env \<Rightarrow> string \<Rightarrow> param_set \<Rightarrow> unit flash" where
  "write_snapshot E reason ps =
     (let path = snapshot_file E reason;
          body = write_json_snapshot (fe_dumps E) ps (fe_captured_at E) [(''reason'', VStr reason)]
      in act_bind (if fe_writes E path = Written then log_events [FileWritten path body] else act_ret ()) (\<lambda>_.
           (\<lambda>st. (Ok (), st\<lparr>st_files := (st_files st)(path := file_after (fe_writes E path) body (st_files st path))\<rparr>))))"

definition take_snapshot :: "flash_env \<Rightarrow> string \<Rightarrow> unit flash" where
  "take_snapshot E reason =
     act_bind (in_session ParamOut (fetch_params (fe_repl E) (fint 60) (Fin (3 / 2))) (fe_params E)) (\<lambda>r.
       case r of
         Inr (Inr ps) \<Rightarrow> write_snapshot E reason ps
       | _ \<Rightarrow> act_ret ())"

definition confirm_flash :: "flash_env \<Rightarrow> bool \<Rightarrow> bool \<Rightarrow> unit flash" where
  "confirm_flash E dry yes =
     (if dry then act_raise DryRunDone
      else if yes then act_ret ()
      else act_bind (log_events [Prompted]) (\<lambda>_.
             if prompt (fe_reply E) then act_ret () else act_raise Cancelled))"

definition MAV_MODE_FLAG_SAFETY_ARMED :: nat where "MAV_MODE_FLAG_SAFETY_ARMED = 128"

unbundle bit_operations_syntax

definition fc_armed :: "nat \<Rightarrow> bool" where
  "fc_armed base_mode \<longleftrightarrow> base_mode AND MAV_MODE_FLAG_SAFETY_ARMED \<noteq> 0"

text \<open>\<open>_check_not_armed\<close> in its session: no heartbeat within the time passes. The exception it raises ends inside
  \<open>open_link\<close>, which takes it for a failed connection (theory \<open>Connection\<close>), so its text is lost.\<close>

definition check_not_armed :: "flash_env \<Rightarrow> unit flash" where
  "check_not_armed E =
     (case fe_heartbeat E of
        None \<Rightarrow> fail_with ''armed check failed''
      | Some None \<Rightarrow> act_ret ()
      | Some (Some base_mode) \<Rightarrow>
          if fc_armed base_mode then fail_with ''armed check failed'' else act_ret ())"

definition reboot_step :: "flash_env \<Rightarrow> unit flash" where
  "reboot_step E =
     (case fe_reboot E of
        None \<Rightarrow> fail_with ''reboot failed''
      | Some (sends, closes_ok) \<Rightarrow>
          (case reboot_to_bootloader sends closes_ok of (out, ok) \<Rightarrow>
             act_bind (log_events (map LinkOut out)) (\<lambda>_. if ok then act_ret () else fail_with ''reboot failed'')))"

definition bootloader_step :: "flash_env \<Rightarrow> string \<Rightarrow> string flash" where
  "bootloader_step E endpoint =
     (case wait_for_bootloader (fint 30) endpoint (fe_boot E) of
        (out, None) \<Rightarrow> act_bind (log_events (map BootOut out)) (\<lambda>_. act_raise Unfinished)
      | (out, Some (Inl u, _)) \<Rightarrow> act_bind (log_events (map BootOut out)) (\<lambda>_. fail_with ''bootloader wait failed'')
      | (out, Some (Inr port, _)) \<Rightarrow> act_bind (log_events (map BootOut out)) (\<lambda>_. act_ret port))"

definition flash_step :: "flash_env \<Rightarrow> string \<Rightarrow> string \<Rightarrow> unit flash" where
  "flash_step E port path st =
     (let r = snd (flash_firmware (fe_loads E) (st_files st) False (fst (fe_clock E)) (snd (fe_clock E)) path)
      in if fr_success r then log_events [FlashedImage port path] st else fail_with ''flash failed'' st)"

text \<open>After a pause the version is read again; failing to is a warning.\<close>

definition verify_step :: "flash_env \<Rightarrow> firmware_info option flash" where
  "verify_step E =
     act_bind (log_events [Paused 5]) (\<lambda>_.
     act_bind (in_session LinkOut read_running_version (fe_verify E)) (\<lambda>r.
       case r of Inl u \<Rightarrow> act_ret None | Inr v \<Rightarrow> act_ret v))"

section \<open>Commands\<close>

text \<open>The steps from the armed check on, which both commands share.\<close>

definition install_image :: "flash_env \<Rightarrow> string \<Rightarrow> string \<Rightarrow> firmware_info option flash" where
  "install_image E endpoint path =
     act_bind (check_not_armed E) (\<lambda>_.
     act_bind (reboot_step E) (\<lambda>_.
     act_bind (bootloader_step E endpoint) (\<lambda>port.
     act_bind (flash_step E port path) (\<lambda>_.
     verify_step E))))"

definition prepare_update :: "flash_env \<Rightarrow> string \<Rightarrow> bool \<Rightarrow> bool \<Rightarrow> string flash" where
  "prepare_update E track offline force =
     act_bind (running_version (fe_version E)) (\<lambda>running.
       if offline then fail_with ''offline mode not supported for firmware-update''
       else act_bind (latest_version E track) (\<lambda>latest.
         if \<not> force \<and> version_le latest (info_tuple running) then act_raise UpToDate
         else act_bind (fetch_image E track latest) (\<lambda>path.
              act_bind (validate_image E path) (\<lambda>_.
              act_bind (take_snapshot E ''pre-firmware-update'') (\<lambda>_. act_ret path)))))"

definition firmware_update ::
  "flash_env \<Rightarrow> string \<Rightarrow> string \<Rightarrow> bool \<Rightarrow> bool \<Rightarrow> bool \<Rightarrow> bool \<Rightarrow> firmware_info option flash" where
  "firmware_update E endpoint track offline force dry yes =
     act_bind (prepare_update E track offline force) (\<lambda>path.
     act_bind (confirm_flash E dry yes) (\<lambda>_. install_image E endpoint path))"

definition file_there :: "string \<Rightarrow> unit flash" where
  "file_there path st = (if st_files st path = None then fail_with ''file not found'' st else (Ok (), st))"

definition prepare_flash :: "flash_env \<Rightarrow> string \<Rightarrow> bool \<Rightarrow> unit flash" where
  "prepare_flash E path skip_snapshot =
     act_bind (file_there path) (\<lambda>_.
     act_bind (validate_image E path) (\<lambda>_.
     act_bind (in_session LinkOut read_running_version (fe_version E)) (\<lambda>running.
       if skip_snapshot then act_ret () else take_snapshot E ''pre-firmware-flash'')))"

definition firmware_flash ::
  "flash_env \<Rightarrow> string \<Rightarrow> string \<Rightarrow> bool \<Rightarrow> bool \<Rightarrow> bool \<Rightarrow> firmware_info option flash" where
  "firmware_flash E endpoint path skip_snapshot dry yes =
     act_bind (prepare_flash E path skip_snapshot) (\<lambda>_.
     act_bind (confirm_flash E dry yes) (\<lambda>_. install_image E endpoint path))"

text \<open>\<open>firmware-check\<close>: the running version, the latest one if it is known, and whether it is newer.\<close>

definition firmware_check ::
  "flash_env \<Rightarrow> string \<Rightarrow> bool \<Rightarrow> (firmware_info \<times> (int \<times> int \<times> int) option \<times> bool) flash" where
  "firmware_check E track offline =
     act_bind (running_version (fe_version E)) (\<lambda>running.
       if offline then act_ret (running, None, False)
       else (case check_remote_version (fe_net E) track of
           None \<Rightarrow> act_ret (running, None, False)
         | Some latest \<Rightarrow> act_ret (running, Some latest, \<not> version_le latest (info_tuple running))))"

section \<open>What a command may touch\<close>

text \<open>An event that disturbs the vehicle: a reboot, a boot loader exchange, a flash.\<close>

fun disruptive :: "flash_event \<Rightarrow> bool" where
  "disruptive (LinkOut (CommandLong c ps)) = (c = 246)"
| "disruptive (LinkOut ConnClosed) = True"
| "disruptive (BootOut b) = True"
| "disruptive (FlashedImage port path) = True"
| "disruptive e = False"

named_theorems gentle_rules \<open>steps that disturb nothing\<close>

definition gentle :: "'a flash \<Rightarrow> bool" where
  "gentle m \<longleftrightarrow> (\<forall>st r st'. m st = (r, st') \<longrightarrow>
     (\<exists>evs. st_log st' = st_log st @ evs \<and> list_all (\<lambda>e. \<not> disruptive e) evs))"

lemma gentleD:
  "gentle m \<Longrightarrow> m st = (r, st') \<Longrightarrow> \<exists>evs. st_log st' = st_log st @ evs \<and> list_all (\<lambda>e. \<not> disruptive e) evs"
  by (simp add: gentle_def)

lemma gentle_basic [gentle_rules]: "gentle (act_ret a)" "gentle (act_raise e)" "gentle (fail_with m)"
  by (auto simp: gentle_def act_simps fail_with_def)

lemma gentle_log [gentle_rules]: "list_all (\<lambda>e. \<not> disruptive e) evs \<Longrightarrow> gentle (log_events evs)"
  by (auto simp: gentle_def log_events_def)

lemma gentle_bind [gentle_rules]: "gentle m \<Longrightarrow> (\<And>a. gentle (k a)) \<Longrightarrow> gentle (act_bind m k)"
  unfolding gentle_def act_bind_def by (fastforce split: prod.splits sum.splits)

lemma gentle_files [gentle_rules]: "gentle (\<lambda>st. (Ok a, st\<lparr>st_files := f st\<rparr>))"
  by (auto simp: gentle_def)

lemma gentle_if [gentle_rules]: "gentle m \<Longrightarrow> gentle k \<Longrightarrow> gentle (if b then m else k)"
  by simp

lemma gentle_case_sum [gentle_rules]:
  "(\<And>a. gentle (f a)) \<Longrightarrow> (\<And>b. gentle (g b)) \<Longrightarrow> gentle (case x of Inl a \<Rightarrow> f a | Inr b \<Rightarrow> g b)"
  by (cases x) simp_all

lemma gentle_case_option [gentle_rules]:
  "gentle m \<Longrightarrow> (\<And>a. gentle (f a)) \<Longrightarrow> gentle (case x of None \<Rightarrow> m | Some a \<Rightarrow> f a)"
  by (cases x) simp_all

lemma gentle_session [gentle_rules]:
  assumes "emits_only (\<lambda>x. \<not> disruptive (ev x)) body"
  shows "gentle (in_session ev body session)"
proof (cases session)
  case (Some tr)
  obtain out res where run: "body tr = (out, res)" by fastforce
  then have "list_all (\<lambda>e. \<not> disruptive e) (map ev out)"
    using assms by (auto simp: emits_only_def list_all_iff) (metis fst_conv)
  then show ?thesis using Some run by (cases res) (auto simp: in_session_def intro!: gentle_rules)
qed (simp add: in_session_def gentle_rules)

lemma version_emits: "emits_only (\<lambda>x. \<not> disruptive (LinkOut x)) read_running_version"
  unfolding read_running_version_def emits_only_def
  by (auto simp: io_bind_def io_simps io_recv_def split: prod.splits option.splits list.splits sum.splits)

lemma params_emits: "emits_only (\<lambda>x. \<not> disruptive (ParamOut x)) (fetch_params repl timeout quiet)"
  by (rule fetch_params_emits) simp

lemma gentle_steps [gentle_rules]:
  "gentle (running_version s)" "gentle (latest_version E track)" "gentle (fetch_image E track v)"
  "gentle (validate_image E path)" "gentle (take_snapshot E reason)" "gentle (confirm_flash E dry yes)"
  "gentle (file_there path)"
proof -
  show "gentle (running_version s)" unfolding running_version_def by (intro gentle_rules version_emits)
  show "gentle (latest_version E track)" unfolding latest_version_def by (intro gentle_rules)
  show "gentle (fetch_image E track v)" by (auto simp: gentle_def fetch_image_def split: prod.splits option.splits)
  show "gentle (validate_image E path)"
    by (auto simp: gentle_def validate_image_def fail_with_def act_simps split: sum.splits)
  show "gentle (take_snapshot E reason)" unfolding take_snapshot_def write_snapshot_def Let_def
    by (intro gentle_rules params_emits) simp
  show "gentle (confirm_flash E dry yes)" unfolding confirm_flash_def by (intro gentle_rules) simp
  show "gentle (file_there path)" by (auto simp: gentle_def file_there_def fail_with_def act_simps)
qed

lemma gentle_prepare:
  "gentle (prepare_update E track offline force)" "gentle (prepare_flash E path skip)"
  unfolding prepare_update_def prepare_flash_def by (intro gentle_rules version_emits)+

section \<open>The images that get flashed\<close>

definition keeps_file :: "string \<Rightarrow> 'a flash \<Rightarrow> bool" where
  "keeps_file p m \<longleftrightarrow> (\<forall>st r st'. m st = (r, st') \<longrightarrow> st_files st' p = st_files st p)"

named_theorems keeps \<open>steps that leave a file alone\<close>

lemma keeps_basic [keeps]: "keeps_file p (act_ret a)" "keeps_file p (act_raise e)" "keeps_file p (fail_with m)"
  "keeps_file p (log_events evs)"
  by (auto simp: keeps_file_def act_simps fail_with_def log_events_def)

lemma keeps_bind [keeps]: "keeps_file p m \<Longrightarrow> (\<And>a. keeps_file p (k a)) \<Longrightarrow> keeps_file p (act_bind m k)"
  unfolding keeps_file_def act_bind_def by (fastforce split: prod.splits sum.splits)

lemma keeps_cases [keeps]:
  "keeps_file p m \<Longrightarrow> keeps_file p k \<Longrightarrow> keeps_file p (if b then m else k)"
  "(\<And>a. keeps_file p (f a)) \<Longrightarrow> (\<And>b. keeps_file p (g b)) \<Longrightarrow> keeps_file p (case x of Inl a \<Rightarrow> f a | Inr b \<Rightarrow> g b)"
  "keeps_file p n \<Longrightarrow> (\<And>a. keeps_file p (h a)) \<Longrightarrow> keeps_file p (case y of None \<Rightarrow> n | Some a \<Rightarrow> h a)"
  "(\<And>a b. keeps_file p (l a b)) \<Longrightarrow> keeps_file p (case z of (a, b) \<Rightarrow> l a b)"
  by (simp_all split: sum.splits option.splits prod.splits)

lemma keeps_session [keeps]: "keeps_file p (in_session ev body session)"
  unfolding in_session_def by (intro keeps)

lemma keeps_snapshot [keeps]: "p \<noteq> snapshot_file E reason \<Longrightarrow> keeps_file p (take_snapshot E reason)"
  unfolding take_snapshot_def write_snapshot_def Let_def
  by (intro keeps) (simp add: keeps_file_def)

lemma keeps_install [keeps]: "keeps_file p (install_image E endpoint path)"
  "keeps_file p (confirm_flash E dry yes)" "keeps_file p (validate_image E q)" "keeps_file p (file_there q)"
proof -
  have flash: "keeps_file p (flash_step E port path)" for port
    by (auto simp: keeps_file_def flash_step_def Let_def log_events_def fail_with_def act_simps)
  show "keeps_file p (install_image E endpoint path)"
    unfolding install_image_def check_not_armed_def reboot_step_def bootloader_step_def verify_step_def
    by (intro keeps flash)
  show "keeps_file p (confirm_flash E dry yes)" unfolding confirm_flash_def by (intro keeps)
  show "keeps_file p (validate_image E q)"
    by (auto simp: keeps_file_def validate_image_def fail_with_def act_simps split: sum.splits)
  show "keeps_file p (file_there q)" by (auto simp: keeps_file_def file_there_def fail_with_def act_simps)
qed

lemma keepsD: "keeps_file p m \<Longrightarrow> m st = (r, st') \<Longrightarrow> st_files st' p = st_files st p"
  by (simp add: keeps_file_def)

lemma validate_apj_file: "fs p = fs' p \<Longrightarrow> validate_apj loads fs p = validate_apj loads fs' p"
  by (simp add: validate_apj_def)

lemma act_bind_InrE:
  assumes "act_bind m k st = (Inr b, st')"
  obtains a st1 where "m st = (Inr a, st1)" "k a st1 = (Inr b, st')"
  using assms by (auto simp: act_bind_def split: prod.splits sum.splits)

lemma act_bind_cases:
  assumes "act_bind m k st = (r, st')"
  obtains (raised) e where "m st = (Inl e, st')" "r = Inl e"
  | (went_on) a st1 where "m st = (Inr a, st1)" "k a st1 = (r, st')"
  using assms by (auto simp: act_bind_def split: prod.splits sum.splits)

lemma validate_image_Ok: "validate_image E path st = (Inr u, st') \<Longrightarrow> st' = st \<and> validate_apj (fe_loads E) (st_files st) path = Ok ()"
  by (auto simp: validate_image_def fail_with_def act_simps split: sum.splits)

lemma cache_not_snapshot: "apj_cache_path firmware_cache_dir track v \<noteq> snapshot_file E reason"
  by (cases v) (simp add: apj_cache_path_def firmware_cache_dir_def snapshot_file_def)

lemma fetch_image_Ok:
  "fetch_image E track v st = (Inr path, st') \<Longrightarrow> path = apj_cache_path firmware_cache_dir track v"
  by (auto simp: fetch_image_def download_firmware_def Let_def
      split: prod.splits option.splits sum.splits if_splits apj_error.splits)

lemma prepare_update_Ok:
  assumes "prepare_update E track offline force st = (Inr path, st')"
  shows "validate_apj (fe_loads E) (st_files st') path = Ok ()
     \<and> (\<exists>st1 running latest. running_version (fe_version E) st = (Inr running, st1)
          \<and> check_remote_version (fe_net E) track = Some latest
          \<and> (force \<or> \<not> version_le latest (info_tuple running)))"
proof -
  from assms obtain running st1 where run: "running_version (fe_version E) st = (Inr running, st1)" and "\<not> offline"
    and rest: "act_bind (latest_version E track) (\<lambda>latest.
         if \<not> force \<and> version_le latest (info_tuple running) then act_raise UpToDate
         else act_bind (fetch_image E track latest) (\<lambda>path.
              act_bind (validate_image E path) (\<lambda>_.
              act_bind (take_snapshot E ''pre-firmware-update'') (\<lambda>_. act_ret path)))) st1 = (Inr path, st')"
    unfolding prepare_update_def by (elim act_bind_InrE) (auto simp: fail_with_def act_simps split: if_splits)
  from rest obtain latest st2 where latest: "latest_version E track st1 = (Inr latest, st2)"
    and ver: "force \<or> \<not> version_le latest (info_tuple running)"
    and body: "act_bind (fetch_image E track latest) (\<lambda>path.
              act_bind (validate_image E path) (\<lambda>_.
              act_bind (take_snapshot E ''pre-firmware-update'') (\<lambda>_. act_ret path))) st2 = (Inr path, st')"
    by (elim act_bind_InrE) (auto simp: act_simps split: if_splits)
  from body obtain st3 u st4 where img: "fetch_image E track latest st2 = (Inr path, st3)"
    and val: "validate_image E path st3 = (Inr u, st4)"
    and snap: "take_snapshot E ''pre-firmware-update'' st4 = (Inr (), st')"
    by (elim act_bind_InrE) (auto simp: act_simps)
  have "st_files st' path = st_files st4 path"
    using keepsD [OF keeps_snapshot snap] fetch_image_Ok [OF img] cache_not_snapshot by simp
  then have "validate_apj (fe_loads E) (st_files st') path = Ok ()"
    using validate_image_Ok [OF val] validate_apj_file by metis
  moreover have "check_remote_version (fe_net E) track = Some latest"
    using latest by (auto simp: latest_version_def fail_with_def act_simps split: option.splits)
  ultimately show ?thesis using run ver by blast
qed

abbreviation reboot_command :: vehicle_out where
  "reboot_command \<equiv> CommandLong 246 [0, 3, 0, 0, 0, 0, 0, 0]"

definition not_armed_seen :: "flash_env \<Rightarrow> bool" where
  "not_armed_seen E \<longleftrightarrow> (\<exists>hb. fe_heartbeat E = Some hb \<and> (\<forall>m. hb = Some m \<longrightarrow> \<not> fc_armed m))"

definition boot_synced :: "flash_env \<Rightarrow> bool" where
  "boot_synced E \<longleftrightarrow> (\<exists>t. (t, Some [INSYNC, BL_OK]) \<in> set (fe_boot E))"

lemma check_not_armed_cases:
  "check_not_armed E st = (r, st') \<Longrightarrow> st' = st \<and> (r = Inr () \<longrightarrow> not_armed_seen E)"
  by (auto simp: check_not_armed_def not_armed_seen_def fail_with_def act_simps split: option.splits if_splits)

lemma reboot_step_cases:
  "reboot_step E st = (r, st') \<Longrightarrow> \<exists>R. st_log st' = st_log st @ R \<and> (r = Inr () \<longrightarrow> LinkOut reboot_command \<in> set R)
     \<and> (\<forall>port p. FlashedImage port p \<notin> set R)"
  by (auto simp: reboot_step_def reboot_to_bootloader_def fail_with_def act_simps log_events_def
      split: option.splits prod.splits if_splits)

lemma boot_pass_port:
  "boot_pass timeout port start u p = (o1, Leave (Inr port')) \<Longrightarrow> port' = port \<and> snd p = Some [INSYNC, BL_OK]"
  by (auto simp: boot_pass_def split: if_splits option.splits)

lemma bootloader_step_cases:
  assumes "bootloader_step E endpoint st = (r, st')"
  shows "\<exists>B. st_log st' = st_log st @ map BootOut B \<and> (\<forall>port. r = Inr port \<longrightarrow> port = endpoint \<and> boot_synced E)"
proof (cases "wait_for_bootloader (fint 30) endpoint (fe_boot E)")
  case (Pair out res)
  show ?thesis
  proof (cases res)
    case None
    then show ?thesis using assms Pair by (auto simp: bootloader_step_def act_simps log_events_def)
  next
    case (Some x)
    obtain y tr where x: "x = (y, tr)" by fastforce
    show ?thesis
    proof (cases y)
      case (Inr port)
      with Pair Some x have "await (boot_pass (fint 30) endpoint) (fe_boot E) = (out, Some (Inr port, tr))"
        by (simp add: wait_for_bootloader_def)
      from await_left_last [OF this] obtain pre p t u o1 where "fe_boot E = pre @ p # tr"
        "boot_pass (fint 30) endpoint t u p = (o1, Leave (Inr port))" by blast
      with boot_pass_port have "port = endpoint" "boot_synced E"
        unfolding boot_synced_def by (metis, metis in_set_conv_decomp prod.collapse)
      then show ?thesis using assms Pair Some x Inr
        by (auto simp: bootloader_step_def act_simps log_events_def)
    qed (use assms Pair Some x in \<open>auto simp: bootloader_step_def act_simps log_events_def fail_with_def\<close>)
  qed
qed

lemma gentle_verify: "gentle (verify_step E)"
  unfolding verify_step_def by (intro gentle_rules version_emits) simp

lemma flash_verify_run:
  assumes "act_bind (flash_step E port path) (\<lambda>_. verify_step E) st = (r, st')"
  shows "st_log st' = st_log st
     \<or> (\<exists>V. st_log st' = st_log st @ FlashedImage port path # V \<and> list_all (\<lambda>e. \<not> disruptive e) V)"
  using assms
proof (cases rule: act_bind_cases)
  case (raised e)
  then show ?thesis
    by (auto simp: flash_step_def Let_def fail_with_def act_simps log_events_def split: if_splits)
next
  case (went_on c st1)
  then have "st_log st1 = st_log st @ [FlashedImage port path]"
    by (auto simp: flash_step_def Let_def fail_with_def act_simps log_events_def split: if_splits)
  then show ?thesis using gentleD [OF gentle_verify went_on(2)] by auto
qed

text \<open>
  The steps from the armed check on: nothing disruptive happens unless no armed heartbeat was seen,
  and an image is flashed only after the reboot command and the boot loader's answer.
\<close>

lemma install_image_run:
  assumes "install_image E endpoint path st = (r, st')"
  shows "\<exists>evs. st_log st' = st_log st @ evs \<and> (list_ex disruptive evs \<longrightarrow> not_armed_seen E)
     \<and> (\<forall>port p. FlashedImage port p \<in> set evs \<longrightarrow> port = endpoint \<and> p = path \<and> boot_synced E
          \<and> (\<exists>pre post. evs = pre @ FlashedImage port p # post \<and> LinkOut reboot_command \<in> set pre))"
proof -
  note ends = exI [of _ "[]"]
  from assms [unfolded install_image_def] show ?thesis
  proof (cases rule: act_bind_cases)
    case (raised e)
    then show ?thesis using check_not_armed_cases by (intro ends) fastforce
  next
    case (went_on a st1)
    then have armed: "st1 = st" "not_armed_seen E" using check_not_armed_cases [of E st "Inr a" st1] by auto
    from went_on(2) show ?thesis
    proof (cases rule: act_bind_cases)
      case (raised e)
      then show ?thesis using reboot_step_cases armed by fastforce
    next
      case (went_on b st2)
      then obtain R where R: "st_log st2 = st_log st @ R" "LinkOut reboot_command \<in> set R"
        "\<forall>port p. FlashedImage port p \<notin> set R" using reboot_step_cases armed(1) by fastforce
      from went_on(2) show ?thesis
      proof (cases rule: act_bind_cases)
        case (raised e)
        then obtain B where "st_log st' = st_log st2 @ map BootOut B" using bootloader_step_cases by blast
        then show ?thesis using R armed(2) by (intro exI [of _ "R @ map BootOut B"]) auto
      next
        case (went_on port st3)
        then obtain B where B: "st_log st3 = st_log st2 @ map BootOut B" "port = endpoint" "boot_synced E"
          using bootloader_step_cases by blast
        note before = R B armed(2)
        from flash_verify_run [OF went_on(2)] show ?thesis
        proof
          assume "st_log st' = st_log st3"
          then show ?thesis using before by (intro exI [of _ "R @ map BootOut B"]) auto
        next
          assume "\<exists>V. st_log st' = st_log st3 @ FlashedImage port path # V \<and> list_all (\<lambda>e. \<not> disruptive e) V"
          then obtain V where V: "st_log st' = st_log st3 @ FlashedImage port path # V"
            "list_all (\<lambda>e. \<not> disruptive e) V" by blast
          from V(2) have no: "\<forall>q p. FlashedImage q p \<notin> set V" by (auto simp: list_all_iff)
          have "\<exists>pre post. R @ map BootOut B @ FlashedImage endpoint path # V = pre @ FlashedImage endpoint path # post
             \<and> LinkOut reboot_command \<in> set pre"
            using R(2) by (rule_tac exI [of _ "R @ map BootOut B"], rule_tac exI [of _ V]) simp
          then show ?thesis using before V(1) no
            by (intro exI [of _ "R @ map BootOut B @ FlashedImage endpoint path # V"]) auto
        qed
      qed
    qed
  qed
qed

lemma confirm_flash_Ok:
  "confirm_flash E dry yes st = (Inr u, st') \<Longrightarrow> \<not> dry \<and> (yes \<or> prompt (fe_reply E))"
  by (auto simp: confirm_flash_def act_simps log_events_def split: if_splits)

text \<open>The two commands differ in what comes before the confirmation.\<close>

lemma guarded_install:
  assumes "gentle prep" and "st_log st = []"
    and run: "act_bind prep (\<lambda>x. act_bind (confirm_flash E dry yes) (\<lambda>_. install_image E endpoint (f x))) st = (r, st')"
    and act: "list_ex disruptive (st_log st')"
  shows "\<not> dry \<and> (yes \<or> prompt (fe_reply E)) \<and> not_armed_seen E
     \<and> (\<exists>x st1. prep st = (Inr x, st1) \<and> st_files st' (f x) = st_files st1 (f x)
        \<and> (\<forall>port p. FlashedImage port p \<in> set (st_log st') \<longrightarrow> port = endpoint \<and> p = f x \<and> boot_synced E
             \<and> (\<exists>pre post. st_log st' = pre @ FlashedImage port p # post \<and> LinkOut reboot_command \<in> set pre)))"
  using run
proof (cases rule: act_bind_cases)
  case (raised e)
  then show ?thesis using gentleD [OF assms(1)] assms(2) act by (force simp: list_all_iff list_ex_iff)
next
  case (went_on x st1)
  obtain P where P: "st_log st1 = P" "list_all (\<lambda>e. \<not> disruptive e) P"
    using gentleD [OF assms(1) went_on(1)] assms(2) by auto
  from went_on(2) show ?thesis
  proof (cases rule: act_bind_cases)
    case (raised e)
    have "gentle (confirm_flash E dry yes)" by (rule gentle_steps)
    from gentleD [OF this raised(1)] P act show ?thesis by (auto simp: list_all_iff list_ex_iff)
  next
    case conf: (went_on u st2)
    obtain Q where Q: "st_log st2 = P @ Q" "list_all (\<lambda>e. \<not> disruptive e) Q"
      using gentleD [OF gentle_steps(6) conf(1)] P(1) by auto
    from install_image_run [OF conf(2)] obtain evs where evs: "st_log st' = st_log st2 @ evs"
      "list_ex disruptive evs \<longrightarrow> not_armed_seen E"
      "\<forall>port p. FlashedImage port p \<in> set evs \<longrightarrow> port = endpoint \<and> p = f x \<and> boot_synced E
          \<and> (\<exists>pre post. evs = pre @ FlashedImage port p # post \<and> LinkOut reboot_command \<in> set pre)" by blast
    have "list_ex disruptive evs" using act P Q evs(1) by (auto simp: list_all_iff list_ex_iff)
    moreover have "FlashedImage port p \<notin> set (P @ Q)" for port p using P(2) Q(2) by (auto simp: list_all_iff)
    then have "port = endpoint \<and> p = f x \<and> boot_synced E
       \<and> (\<exists>pre post. st_log st' = pre @ FlashedImage port p # post \<and> LinkOut reboot_command \<in> set pre)"
      if "FlashedImage port p \<in> set (st_log st')" for port p
    proof -
      have "FlashedImage port p \<in> set evs" using that \<open>\<And>port p. FlashedImage port p \<notin> set (P @ Q)\<close> [of port p]
        unfolding evs(1) Q(1) by auto
      with evs(3) obtain pre post where "evs = pre @ FlashedImage port p # post" "LinkOut reboot_command \<in> set pre"
        "port = endpoint \<and> p = f x \<and> boot_synced E" by blast
      then show ?thesis unfolding evs(1)
        by (intro conjI exI [of _ "st_log st2 @ pre"] exI [of _ post]) auto
    qed
    moreover have "st_files st' (f x) = st_files st1 (f x)"
      using keepsD [OF keeps_install(1) conf(2)] keepsD [OF keeps_install(2) conf(1)] by simp
    ultimately show ?thesis using confirm_flash_Ok [OF conf(1)] evs(2) went_on(1) by blast
  qed
qed

text \<open>
  C25: a firmware update reboots the autopilot or talks to its boot loader only if it is no dry run,
  the operator agreed, no armed heartbeat was seen in the check, and the server has a newer version
  or the update was forced. An image is flashed only after the reboot command and the boot loader's
  answer, and it is one that passes validation.
\<close>

theorem firmware_update_guarded:
  assumes "firmware_update E endpoint track offline force dry yes st = (r, st')" and "st_log st = []"
    and "list_ex disruptive (st_log st')"
  shows "\<not> dry \<and> (yes \<or> prompt (fe_reply E)) \<and> not_armed_seen E
     \<and> (\<exists>st1 running latest. running_version (fe_version E) st = (Inr running, st1)
          \<and> check_remote_version (fe_net E) track = Some latest \<and> (force \<or> \<not> version_le latest (info_tuple running)))
     \<and> (\<forall>port p. FlashedImage port p \<in> set (st_log st') \<longrightarrow> port = endpoint \<and> boot_synced E
          \<and> validate_apj (fe_loads E) (st_files st') p = Ok ()
          \<and> (\<exists>pre post. st_log st' = pre @ FlashedImage port p # post \<and> LinkOut reboot_command \<in> set pre))"
proof -
  from guarded_install [where f = "\<lambda>p. p", OF gentle_prepare(1) assms(2) assms(1) [unfolded firmware_update_def] assms(3)]
  obtain path st1 where guard: "\<not> dry" "yes \<or> prompt (fe_reply E)" "not_armed_seen E"
    and prep: "prepare_update E track offline force st = (Inr path, st1)" and kept: "st_files st' path = st_files st1 path"
    and flashed: "\<And>port p. FlashedImage port p \<in> set (st_log st') \<Longrightarrow> port = endpoint \<and> p = path \<and> boot_synced E
       \<and> (\<exists>pre post. st_log st' = pre @ FlashedImage port p # post \<and> LinkOut reboot_command \<in> set pre)"
    by blast
  note prepared = prepare_update_Ok [OF prep]
  have "validate_apj (fe_loads E) (st_files st') path = Ok ()"
    using prepared kept validate_apj_file [of "st_files st'" path] by metis
  then have "validate_apj (fe_loads E) (st_files st') p = Ok ()" if "FlashedImage port p \<in> set (st_log st')" for port p
    using flashed [OF that] by simp
  then show ?thesis using guard prepared flashed by blast
qed

text \<open>The same for a local image, which must not be the file the snapshot goes to.\<close>

lemma prepare_flash_Ok:
  assumes "prepare_flash E path skip st = (Inr u, st')" and "path \<noteq> snapshot_file E ''pre-firmware-flash''"
  shows "validate_apj (fe_loads E) (st_files st') path = Ok ()"
proof -
  from assms(1) obtain a st1 b st2 c st3 where "file_there path st = (Inr a, st1)"
    and val: "validate_image E path st1 = (Inr b, st2)"
    and ver: "in_session LinkOut read_running_version (fe_version E) st2 = (Inr c, st3)"
    and snap: "(if skip then act_ret () else take_snapshot E ''pre-firmware-flash'') st3 = (Inr u, st')"
    unfolding prepare_flash_def by (elim act_bind_InrE) blast
  have "keeps_file path (if skip then act_ret () else take_snapshot E ''pre-firmware-flash'')"
    using assms(2) by (intro keeps)
  from keepsD [OF this snap] keepsD [OF keeps_session ver] have "st_files st' path = st_files st2 path" by simp
  then show ?thesis using validate_image_Ok [OF val] validate_apj_file by metis
qed

lemma firmware_flash_guarded:
  assumes "firmware_flash E endpoint path skip dry yes st = (r, st')" and "st_log st = []"
    and "list_ex disruptive (st_log st')" and "path \<noteq> snapshot_file E ''pre-firmware-flash''"
  shows "\<not> dry \<and> (yes \<or> prompt (fe_reply E)) \<and> not_armed_seen E
     \<and> (\<forall>port p. FlashedImage port p \<in> set (st_log st') \<longrightarrow> port = endpoint \<and> p = path \<and> boot_synced E
          \<and> validate_apj (fe_loads E) (st_files st') p = Ok ())"
proof -
  from guarded_install [where f = "\<lambda>_. path", OF gentle_prepare(2) assms(2) assms(1) [unfolded firmware_flash_def] assms(3)]
  obtain u st1 where guard: "\<not> dry" "yes \<or> prompt (fe_reply E)" "not_armed_seen E"
    and prep: "prepare_flash E path skip st = (Inr u, st1)" and kept: "st_files st' path = st_files st1 path"
    and flashed: "\<And>port p. FlashedImage port p \<in> set (st_log st') \<Longrightarrow> port = endpoint \<and> p = path \<and> boot_synced E"
    by blast
  have "validate_apj (fe_loads E) (st_files st') path = Ok ()"
    using prepare_flash_Ok [OF prep assms(4)] kept validate_apj_file [of "st_files st'" path] by metis
  then show ?thesis using guard flashed by blast
qed

text \<open>An update that goes through: 4.6.3 runs, the server has 4.7.0.\<close>

definition demo_flash :: flash_env where
  "demo_flash = \<lparr>fe_loads = (\<lambda>s. Some apj_data), fe_dumps = (\<lambda>v. []), fe_net = (\<lambda>url. Ok ''4.7.0''),
     fe_writes = (\<lambda>p. Written), fe_now = 0, fe_captured_at = [], fe_repl = CHR ''?'',
     fe_version = Some [(Fin 0, Some 67503103)], fe_params = None, fe_heartbeat = Some (Some 0),
     fe_reboot = Some (True, True), fe_boot = [(Fin 0, None), (Fin 0, Some [INSYNC, BL_OK])],
     fe_clock = (Fin 0, Fin 0), fe_verify = None, fe_reply = Line ''yes''\<rparr>"

definition no_files :: flash_state where "no_files = \<lparr>st_files = (\<lambda>p. None), st_log = []\<rparr>"

definition demo_update :: "(flash_stop, firmware_info option) result \<times> flash_state" where
  "demo_update = firmware_update demo_flash ''/dev/pixhawk'' ''stable'' False False False False no_files"

lemma demo_prepares:
  "\<exists>st. prepare_update demo_flash ''stable'' False False no_files
     = (Inr (apj_cache_path firmware_cache_dir ''stable'' (4, 7, 0)), st)"
proof -
  have "check_remote_version (fe_net demo_flash) ''stable'' = Some (4, 7, 0)" by code_simp
  moreover have "\<exists>v st. running_version (fe_version demo_flash) no_files = (Inr v, st) \<and> info_tuple v = (4, 6, 3)"
    by (simp add: running_version_def demo_flash_def in_session_def read_running_version_def io_bind_def io_simps
        decode_fields mk_firmware_info_def byte_ok_def act_simps log_events_def info_tuple_def)
  moreover have "validate_data apj_data = Ok ()" by code_simp
  ultimately show ?thesis
    by (auto simp: prepare_update_def act_simps latest_version_def fetch_image_def download_firmware_def track_paths_def
        dict_get_def Let_def demo_flash_def validate_apj_def validate_image_def take_snapshot_def in_session_def)
qed

lemma demo_flash_log: "FlashedImage ''/dev/pixhawk'' (apj_cache_path firmware_cache_dir ''stable'' (4, 7, 0)) \<in> set (st_log (snd demo_update))"
proof -
  let ?path = "apj_cache_path firmware_cache_dir ''stable'' (4, 7, 0)"
  obtain st where prep: "prepare_update demo_flash ''stable'' False False no_files = (Inr ?path, st)"
    using demo_prepares by blast
  then obtain d where loaded: "st_files st ?path = Some d"
    using prepare_update_Ok [OF prep] by (cases "st_files st ?path") (auto simp: validate_apj_def)
  have "wait_for_bootloader (fint 30) ''/dev/pixhawk'' (fe_boot demo_flash)
      = ([[GET_SYNC, EOC]], Some (Inr ''/dev/pixhawk'', []))"
    by (simp add: wait_for_bootloader_def demo_flash_def await_unfold boot_pass_def fsub_def fint_def)
  moreover have "prompt (fe_reply demo_flash)" by code_simp
  moreover have "fe_heartbeat demo_flash = Some (Some 0)" "fe_reboot demo_flash = Some (True, True)"
    "fe_verify demo_flash = None" by (simp_all add: demo_flash_def)
  moreover have "\<not> fc_armed 0" by (simp add: fc_armed_def)
  moreover have "fr_success (snd (flash_firmware (fe_loads demo_flash) fs False t0 t1 ?path))" if "fs ?path = Some d" for fs t0 t1
    using that by (simp add: flash_firmware_def load_firmware_def demo_flash_def apj_data_def dict_get_or_def dict_get_def Let_def)
  ultimately show ?thesis using prep loaded
    by (simp add: demo_update_def firmware_update_def act_simps confirm_flash_def install_image_def check_not_armed_def
        reboot_step_def reboot_to_bootloader_def bootloader_step_def flash_step_def verify_step_def log_events_def
        in_session_def Let_def fail_with_def)
qed

theorem firmware_update_guarded_witness:
  "prompt (fe_reply demo_flash) \<and> not_armed_seen demo_flash
   \<and> validate_apj (fe_loads demo_flash) (st_files (snd demo_update)) (apj_cache_path firmware_cache_dir ''stable'' (4, 7, 0)) = Ok ()"
proof -
  have "list_ex disruptive (st_log (snd demo_update))" using demo_flash_log by (force simp: list_ex_iff)
  from firmware_update_guarded [OF _ _ this, of demo_flash "''/dev/pixhawk''" "''stable''" False False False False no_files "fst demo_update"]
  show ?thesis using demo_flash_log by (auto simp: demo_update_def no_files_def)
qed

end
