(* ===== verification/JetsonCli.thy ===== *)
theory JetsonCli
  imports Checks Service
begin

text \<open>
  The other commands of \<open>mower-jetson\<close>, \<open>cli/jetson.py\<close>: the platform report, the service
  commands and the activation of a zone. The system is that of \<open>Checks\<close>, the host that of
  \<open>Service\<close>. Console output is left out, except for the error messages of the zone commands.
\<close>

section \<open>Platform information\<close>

definition read_jetpack_release :: "system \<Rightarrow> (check_exc, string option) result" where
  "read_jetpack_release s =
     (if \<not> exists_at s ''etc/nv_tegra_release'' then Ok None
      else (case read_text s ''etc/nv_tegra_release'' of
          Inl OSError \<Rightarrow> Ok None
        | Inl e \<Rightarrow> Err e
        | Inr t \<Rightarrow> (case splitlines (py_strip t) of [] \<Rightarrow> Err (PyExc IndexError) | l # _ \<Rightarrow> Ok (Some l))))"

text \<open>\<open>re.search(r"release\s+([\d.]+)", line)\<close>.\<close>

definition is_version_char :: "char \<Rightarrow> bool" where
  "is_version_char c \<longleftrightarrow> py_isdigit c \<or> c = CHR ''.''"

fun search_release :: "string \<Rightarrow> string option" where
  "search_release [] = None"
| "search_release (c # cs) =
     (let rest = drop 7 (c # cs); num = takeWhile is_version_char (dropWhile py_isspace rest)
      in if is_prefix ''release'' (c # cs) \<and> takeWhile py_isspace rest \<noteq> [] \<and> num \<noteq> [] then Some num
         else search_release cs)"

definition read_cuda_version :: "system \<Rightarrow> bool \<Rightarrow> (check_exc, string option) result" where
  "read_cuda_version s on_path =
     (if \<not> on_path then Ok None
      else bindr (run_text (sy_run s [''nvcc'', ''--version''])) (\<lambda>r.
        case r of
          None \<Rightarrow> Ok None
        | Some (rc, out) \<Rightarrow> if rc \<noteq> 0 then Ok None else Ok (first_some (map search_release (splitlines out)))))"

fun any_oak :: "system \<Rightarrow> string list \<Rightarrow> (check_exc, bool) result" where
  "any_oak s [] = Ok False"
| "any_oak s (f # fs) = bindr (usb_attr s f) (\<lambda>vid. if vid = Some ''03e7'' then Ok True else any_oak s fs)"

definition detect_oakd :: "system \<Rightarrow> (check_exc, bool) result" where
  "detect_oakd s =
     (if sy_stat s ''sys/bus/usb/devices'' \<noteq> OtherEntry then Ok False
      else any_oak s (sy_glob s usb_vendor_glob))"

record platform_info =
  pi_host :: "string list"
  pi_machine :: string
  pi_jetpack_release :: "string option"
  pi_is_jetson :: bool
  pi_cuda_version :: "string option"
  pi_nvme_present :: bool
  pi_power_mode :: "string option"
  pi_oakd_detected :: bool
  pi_warnings :: "string list"

text \<open>\<open>host\<close> holds the strings that identify package, host and interpreter; \<open>machine\<close> is \<open>platform.machine()\<close>.\<close>

definition collect_platform_info ::
  "system \<Rightarrow> string list \<Rightarrow> string \<Rightarrow> bool \<Rightarrow> (check_exc, platform_info) result" where
  "collect_platform_info s host machine nvcc_on_path =
     bindr (read_jetpack_release s) (\<lambda>jp.
     bindr (map_err PyExc (read_disk_usage (sy_statvfs s) (file_at s ''proc/mounts''))) (\<lambda>disks.
     bindr (system_power s) (\<lambda>power.
     bindr (read_cuda_version s nvcc_on_path) (\<lambda>cuda.
     bindr (detect_oakd s) (\<lambda>oakd.
     Ok \<lparr>pi_host = host, pi_machine = machine, pi_jetpack_release = jp, pi_is_jetson = (jp \<noteq> None),
         pi_cuda_version = cuda, pi_nvme_present = list_ex du_is_nvme disks, pi_power_mode = pw_mode_name power,
         pi_oakd_detected = oakd,
         pi_warnings = (if jp = None \<and> py_lower machine \<noteq> ''aarch64''
           then [''running on non-aarch64 host; this CLI is intended for the Jetson AGX Orin''] else [])\<rparr>)))))"

section \<open>Service commands\<close>

datatype cmd_exc = ExitCode int | LoadRaised config_error | Raised "svc_exc guard_error"

type_synonym 'a cmd = "(host, cmd_exc, 'a) action"

text \<open>\<open>load_jetson_config\<close> is not guarded: its error ends the command.\<close>

definition service_level :: "jetson_config cfg \<Rightarrow> bool option \<Rightarrow> (bool \<Rightarrow> 'a cmd) \<Rightarrow> 'a cmd" where
  "service_level config user_level body =
     (case config of
        Inl e \<Rightarrow> act_raise (LoadRaised e)
      | Inr c \<Rightarrow> body (case user_level of Some b \<Rightarrow> b | None \<Rightarrow> service_user_level c))"

text \<open>\<open>except ConfirmationAborted: raise typer.Exit(code=1)\<close>.\<close>

definition abort_exits :: "(host, svc_exc guard_error, unit) action \<Rightarrow> unit cmd" where
  "abort_exits m h =
     (case m h of
        (Inl ConfirmationAborted, h') \<Rightarrow> (Err (ExitCode 1), h')
      | (Inl e, h') \<Rightarrow> (Err (Raised e), h')
      | (Inr u, h') \<Rightarrow> (Ok u, h'))"

definition raises :: "(host, svc_exc guard_error, unit) action \<Rightarrow> unit cmd" where
  "raises m h = (case m h of (Inl e, h') \<Rightarrow> (Err (Raised e), h') | (Inr u, h') \<Rightarrow> (Ok u, h'))"

definition service_install_command where
  "service_install_command E config user_level target_user target_home ctx answer =
     service_level config user_level (\<lambda>level.
       abort_exits (install_service E level target_user target_home ctx answer))"

definition service_uninstall_command where
  "service_uninstall_command E config user_level ctx answer =
     service_level config user_level (\<lambda>level. abort_exits (uninstall_service E level ctx answer))"

definition vslam_install_command where
  "vslam_install_command E config user_level target_user target_home ctx answer =
     service_level config user_level (\<lambda>level.
       abort_exits (install_vslam_service E level target_user target_home ctx answer))"

definition vslam_uninstall_command where
  "vslam_uninstall_command E config user_level ctx answer =
     service_level config user_level (\<lambda>level. abort_exits (uninstall_vslam_service E level ctx answer))"

definition vslam_bridge_install_command where
  "vslam_bridge_install_command E config user_level target_user target_home ctx answer =
     service_level config user_level (\<lambda>level.
       abort_exits (install_vslam_bridge_service E level target_user target_home ctx answer))"

definition vslam_bridge_uninstall_command where
  "vslam_bridge_uninstall_command E config user_level ctx answer =
     service_level config user_level (\<lambda>level. abort_exits (uninstall_vslam_bridge_service E level ctx answer))"

text \<open>The two commands for the synchronisation unit do not catch the abort.\<close>

definition pixhawk_sync_install_command where
  "pixhawk_sync_install_command E user_level target_user target_home ctx answer =
     raises (install_pixhawk_sync_service E user_level target_user target_home ctx answer)"

definition pixhawk_sync_uninstall_command where
  "pixhawk_sync_uninstall_command E user_level ctx answer = raises (uninstall_pixhawk_sync_service E user_level ctx answer)"

text \<open>\<open>subprocess.run(cmd, check=True)\<close> for one verb on one unit.\<close>

definition unit_command :: "svc_env \<Rightarrow> jetson_config cfg \<Rightarrow> bool option \<Rightarrow> string \<Rightarrow> string \<Rightarrow> unit cmd" where
  "unit_command E config user_level verb name =
     service_level config user_level (\<lambda>level h.
       case systemctl E [verb, name @ ''.service''] level h of
         (Inl e, h') \<Rightarrow> (Err (Raised (BodyError e)), h')
       | (Inr u, h') \<Rightarrow> (Ok u, h'))"

definition service_start_command where
  "service_start_command E config user_level = unit_command E config user_level ''start'' UNIT_NAME"

definition service_stop_command where
  "service_stop_command E config user_level = unit_command E config user_level ''stop'' UNIT_NAME"

definition vslam_start_command where
  "vslam_start_command E config user_level = unit_command E config user_level ''start'' VSLAM_UNIT_NAME"

definition vslam_stop_command where
  "vslam_stop_command E config user_level = unit_command E config user_level ''stop'' VSLAM_UNIT_NAME"

definition vslam_bridge_start_command where
  "vslam_bridge_start_command E config user_level = unit_command E config user_level ''start'' VSLAM_BRIDGE_UNIT_NAME"

definition vslam_bridge_stop_command where
  "vslam_bridge_stop_command E config user_level = unit_command E config user_level ''stop'' VSLAM_BRIDGE_UNIT_NAME"

text \<open>The status commands run without \<open>check\<close> and leave with the status of \<open>systemctl\<close>.\<close>

definition status_command ::
  "(string list \<Rightarrow> int) \<Rightarrow> jetson_config cfg \<Rightarrow> bool option \<Rightarrow> string \<Rightarrow> unit cmd" where
  "status_command status config user_level name =
     service_level config user_level (\<lambda>level h.
       let cmd = [''systemctl''] @ (if level then [''--user''] else []) @ [''status'', name @ ''.service'']
       in (Err (ExitCode (status cmd)), h\<lparr>ho_calls := ho_calls h @ [cmd]\<rparr>))"

definition service_status_command where
  "service_status_command status config user_level = status_command status config user_level UNIT_NAME"

definition vslam_status_command where
  "vslam_status_command status config user_level = status_command status config user_level VSLAM_UNIT_NAME"

definition vslam_bridge_health_command where
  "vslam_bridge_health_command status config user_level = status_command status config user_level VSLAM_BRIDGE_UNIT_NAME"

fun cleanup_user_units :: "svc_env \<Rightarrow> string list \<Rightarrow> string list svc" where
  "cleanup_user_units E [] = act_ret []"
| "cleanup_user_units E (name # names) =
     act_bind (cleanup_user_unit E name) (\<lambda>cleaned.
     act_bind (cleanup_user_units E names) (\<lambda>rest. act_ret (if cleaned then name # rest else rest)))"

section \<open>Configuration report and kiosk commands\<close>

text \<open>\<open>config show\<close>: the settings with the unknown keys; \<open>JetsonConfigError\<close> ends with status 2.\<close>

definition config_show_command :: "jetson_config cfg \<Rightarrow> (cmd_exc, doc) result" where
  "config_show_command config =
     (case config of
        Inl (ConfigError m) \<Rightarrow> Err (ExitCode 2)
      | Inl e \<Rightarrow> Err (LoadRaised e)
      | Inr c \<Rightarrow> Ok (jetson_payload c))"

definition KIOSK_SERVICES :: "string list" where
  "KIOSK_SERVICES = [''mower-weston.service'', ''mower-kiosk-data.service'', ''mower-kiosk-renderer.service'', ''mower-mavproxy.service'']"

text \<open>\<open>subprocess.run(cmd, check=False)\<close>: the status is ignored, a missing binary raises.\<close>

fun switch_units :: "svc_env \<Rightarrow> bool \<Rightarrow> string \<Rightarrow> string list \<Rightarrow> unit svc" where
  "switch_units E dry verb [] = act_ret ()"
| "switch_units E dry verb (u # us) =
     act_bind (if dry then act_ret ()
               else suppress (\<lambda>e. e = CalledProcess) (run_systemctl E [''systemctl'', verb, ''--now'', u]))
       (\<lambda>_. switch_units E dry verb us)"

definition kiosk_enable_command :: "svc_env \<Rightarrow> bool \<Rightarrow> unit svc" where
  "kiosk_enable_command E dry = switch_units E dry ''enable'' KIOSK_SERVICES"

definition kiosk_disable_command :: "svc_env \<Rightarrow> bool \<Rightarrow> unit svc" where
  "kiosk_disable_command E dry = switch_units E dry ''disable'' (rev KIOSK_SERVICES)"

definition kiosk_install_command ::
  "svc_env \<Rightarrow> jetson_config cfg \<Rightarrow> string option \<Rightarrow> string option \<Rightarrow> host safety_context \<Rightarrow> console_input \<Rightarrow> unit cmd" where
  "kiosk_install_command E config target_user target_home ctx answer =
     (case config of
        Inl e \<Rightarrow> act_raise (LoadRaised e)
      | Inr c \<Rightarrow> abort_exits (install_kiosk_units E c target_user target_home ctx answer))"

definition kiosk_uninstall_command :: "svc_env \<Rightarrow> host safety_context \<Rightarrow> console_input \<Rightarrow> unit cmd" where
  "kiosk_uninstall_command E ctx answer = abort_exits (uninstall_kiosk_units E ctx answer)"

definition get_unit_state :: "(string list \<Rightarrow> run_outcome) \<Rightarrow> string \<Rightarrow> (pyexc, string) result" where
  "get_unit_state run u =
     (case run [''systemctl'', ''is-active'', u] of
        RunExit rc (Some out) \<Rightarrow> Ok (if py_strip out = [] then ''unknown'' else py_strip out)
      | RunExit rc None \<Rightarrow> Err UnicodeError
      | _ \<Rightarrow> Ok ''unknown'')"

text \<open>The two tables: the kiosk services, then the monitored units that are not among them.\<close>

definition kiosk_status_command ::
  "(string list \<Rightarrow> run_outcome) \<Rightarrow> jetson_config \<Rightarrow> (pyexc, (string \<times> string) list) result" where
  "kiosk_status_command run c =
     mapr (\<lambda>u. bindr (get_unit_state run u) (\<lambda>s. Ok (u, s)))
       (KIOSK_SERVICES @ filter (\<lambda>u. u \<notin> set KIOSK_SERVICES) (service_check_units (jc_kiosk c)))"

section \<open>Zones\<close>

text \<open>The messages of the zone commands, with the values they show.\<close>

datatype zone_cause = LoadFailed config_error | SaveFailed | RunFailed | ExitRaised int

datatype zone_message =
    InvalidZoneId string
  | InvalidSlamMode string
  | RestartFailed string string
  | ActivationFailed string zone_cause
  | StatusFailed zone_cause

text \<open>\<open>zh_dirs\<close> are the directories the commands made; \<open>zh_db_size\<close> gives the size of the files that exist; \<open>zh_errors\<close> collects the error output.\<close>

record zone_host =
  zh_config :: "string option"
  zh_dirs :: "string list"
  zh_db_size :: "string \<rightharpoonup> int"
  zh_restarts :: "string list list"
  zh_errors :: "zone_message list"

text \<open>
  The machine: YAML, what \<open>mkdir(parents=True, exist_ok=True)\<close> of a directory makes, and whether it gets to
  the end, what becomes of writing the configuration, the result of a restart (with its standard
  error) and of \<open>systemctl is-active\<close> (with its standard output).
\<close>

record jz_env =
  jz_yaml_load :: "string \<Rightarrow> pyval option"
  jz_yaml_dump :: "pyval \<Rightarrow> string"
  jz_mkdir :: "string \<Rightarrow> string list \<times> bool"
  jz_save :: write_outcome
  jz_systemctl :: "string list \<Rightarrow> run_outcome"
  jz_is_active :: run_outcome

datatype zone_cmd_exc = ZoneExit int | MkdirFailed

type_synonym 'a zone_cmd = "(zone_host, zone_cmd_exc, 'a) action"
type_synonym 'a zone_body = "(zone_host, zone_cause, 'a) action"

definition zone_dir_of :: "string \<Rightarrow> string" where "zone_dir_of zone_id = ''/var/lib/mower/zones/'' @ zone_id"
definition zone_db_of :: "string \<Rightarrow> string" where "zone_db_of zone_id = zone_dir_of zone_id @ ''/rtabmap.db''"

definition add_error :: "zone_message \<Rightarrow> zone_host \<Rightarrow> zone_host" where
  "add_error msg h = h\<lparr>zh_errors := zh_errors h @ [msg]\<rparr>"

definition zone_fail :: "zone_message \<Rightarrow> 'a zone_cmd" where
  "zone_fail msg h = (Err (ZoneExit 1), add_error msg h)"

text \<open>\<open>except Exception\<close>: every exception of the body, \<open>typer.Exit\<close> too, is reported and ends with status 1.\<close>

definition catch_zone :: "(zone_cause \<Rightarrow> zone_message) \<Rightarrow> 'a zone_body \<Rightarrow> 'a zone_cmd" where
  "catch_zone msg m h = (case m h of (Inl e, h') \<Rightarrow> zone_fail (msg e) h' | (Inr a, h') \<Rightarrow> (Ok a, h'))"

definition chosen_mode :: "zone_host \<Rightarrow> string \<Rightarrow> string \<Rightarrow> string" where
  "chosen_mode h zone_id requested =
     (if requested = ''auto''
      then if zh_db_size h (zone_db_of zone_id) \<noteq> None then ''localization'' else ''mapping''
      else requested)"

fun restart_services :: "jz_env \<Rightarrow> string list \<Rightarrow> unit zone_body" where
  "restart_services Z [] h = (Ok (), h)"
| "restart_services Z (name # names) h =
     (let cmd = [''systemctl'', ''restart'', name @ ''.service''];
          h' = h\<lparr>zh_restarts := zh_restarts h @ [cmd]\<rparr>
      in case jz_systemctl Z cmd of
           RunExit rc (Some err) \<Rightarrow>
             if rc \<noteq> 0 then (Err (ExitRaised 1), add_error (RestartFailed name err) h')
             else restart_services Z names h'
         | _ \<Rightarrow> (Err RunFailed, h'))"

definition make_dirs :: "jz_env \<Rightarrow> string \<Rightarrow> zone_host \<Rightarrow> bool \<times> zone_host" where
  "make_dirs Z d h = (case jz_mkdir Z d of (made, ok) \<Rightarrow> (ok, h\<lparr>zh_dirs := zh_dirs h @ made\<rparr>))"

definition save_activated :: "jz_env \<Rightarrow> string \<Rightarrow> string \<Rightarrow> unit zone_body" where
  "save_activated Z zone_id mode h =
     (case load_vslam_config (jz_yaml_load Z) (zh_config h) of
        Inl e \<Rightarrow> (Err (LoadFailed e), h)
      | Inr c \<Rightarrow>
          let content = save_vslam_config (jz_yaml_dump Z) (c\<lparr>database_path := zone_db_of zone_id, slam_mode := mode\<rparr>)
          in case make_dirs Z ''/etc/mower'' h of
               (False, h1) \<Rightarrow> (Err SaveFailed, h1)
             | (True, h1) \<Rightarrow>
                 (if jz_save Z = Written then Ok () else Err SaveFailed,
                  h1\<lparr>zh_config := file_after (jz_save Z) content (zh_config h1)\<rparr>))"

definition activate_body :: "jz_env \<Rightarrow> string \<Rightarrow> string \<Rightarrow> string zone_body" where
  "activate_body Z zone_id mode =
     act_bind (save_activated Z zone_id mode) (\<lambda>_.
     act_bind (restart_services Z [VSLAM_UNIT_NAME, VSLAM_BRIDGE_UNIT_NAME]) (\<lambda>_. act_ret mode))"

definition zone_activate :: "jz_env \<Rightarrow> string \<Rightarrow> string \<Rightarrow> string zone_cmd" where
  "zone_activate Z zone_id requested h =
     (if \<not> zone_id_matches zone_id then zone_fail (InvalidZoneId zone_id) h
      else if requested \<notin> {''auto'', ''mapping'', ''localization''} then zone_fail (InvalidSlamMode requested) h
      else case make_dirs Z (zone_dir_of zone_id) h of
             (False, h1) \<Rightarrow> (Err MkdirFailed, h1)
           | (True, h1) \<Rightarrow>
               catch_zone (ActivationFailed zone_id) (activate_body Z zone_id (chosen_mode h zone_id requested)) h1)"

record zone_status =
  zs_zone_id :: "string option"
  zs_slam_mode :: string
  zs_database_path :: string
  zs_size_mb :: pyfloat
  zs_service_active :: bool

text \<open>\<open>Path(p).parts\<close>: the root and the components.\<close>

definition path_parts :: "string \<Rightarrow> string list" where
  "path_parts p =
     (let comps = filter (\<lambda>c. c \<noteq> [] \<and> c \<noteq> ''.'') (split_char CHR ''/'' p)
      in if path_root p = [] then comps else path_root p # comps)"

fun after_zones :: "string list \<Rightarrow> string option" where
  "after_zones [] = None"
| "after_zones (c # cs) = (if c = ''zones'' then (case cs of [] \<Rightarrow> None | z # _ \<Rightarrow> Some z) else after_zones cs)"

definition zone_of_path :: "string \<Rightarrow> string option" where
  "zone_of_path p = (if 3 \<le> length (path_parts p) then after_zones (path_parts p) else None)"

text \<open>\<open>round(size / (1024 * 1024), 2)\<close>.\<close>

definition size_mb :: "int \<Rightarrow> pyfloat" where
  "size_mb n = fround 2 (rnd (of_int n / 1048576))"

definition status_body :: "jz_env \<Rightarrow> zone_status zone_body" where
  "status_body Z h =
     (case load_vslam_config (jz_yaml_load Z) (zh_config h) of
        Inl e \<Rightarrow> (Err (LoadFailed e), h)
      | Inr c \<Rightarrow>
          (case jz_is_active Z of
             RunExit rc (Some out) \<Rightarrow>
               (Ok \<lparr>zs_zone_id = zone_of_path (database_path c), zs_slam_mode = slam_mode c,
                    zs_database_path = database_path c,
                    zs_size_mb = (case zh_db_size h (database_path c) of None \<Rightarrow> Fin 0 | Some n \<Rightarrow> size_mb n),
                    zs_service_active = (rc = 0 \<and> py_strip out = ''active'')\<rparr>, h)
           | _ \<Rightarrow> (Err RunFailed, h)))"

definition zone_status_command :: "jz_env \<Rightarrow> zone_status zone_cmd" where
  "zone_status_command Z = catch_zone StatusFailed (status_body Z)"

section \<open>Lemmas\<close>

lemma zone_id_chars:
  assumes "zone_id_matches z"
  shows "CHR ''/'' \<notin> set z" "z \<noteq> []" "z \<noteq> ''.''"
proof -
  have body: "CHR ''/'' \<notin> set s \<and> s \<noteq> [] \<and> s \<noteq> ''.''" if "zone_id_body s" for s
    using that by (auto simp: zone_id_body_def id_char_def is_lower_def py_isdigit_def list_all_iff dest!: bspec [of _ _ "CHR ''/''"] split: list.splits)
  have "zone_id_body z \<or> (\<exists>b. z = b @ [CHR 0x0A] \<and> zone_id_body b)"
    using assms unfolding zone_id_matches_def by (metis append_butlast_last_id)
  then show "CHR ''/'' \<notin> set z" "z \<noteq> []" "z \<noteq> ''.''" using body by (auto simp: Cons_eq_append_conv)
qed

lemma zone_of_activated:
  assumes "zone_id_matches z"
  shows "zone_of_path (zone_db_of z) = Some z"
proof -
  have "split_char CHR ''/'' (z @ ''/rtabmap.db'') = [z, ''rtabmap.db'']"
    using split_char_word [of "CHR ''/''" z "''rtabmap.db''"] zone_id_chars [OF assms] by simp
  then have "split_char CHR ''/'' (zone_db_of z) = [[], ''var'', ''lib'', ''mower'', ''zones'', z, ''rtabmap.db'']"
    by (simp add: zone_db_of_def zone_dir_of_def)
  moreover have "path_root (zone_db_of z) = ''/''" by (simp add: zone_db_of_def zone_dir_of_def path_root_def)
  ultimately have "path_parts (zone_db_of z) = [''/'', ''var'', ''lib'', ''mower'', ''zones'', z, ''rtabmap.db'']"
    using zone_id_chars [OF assms] by (simp add: path_parts_def)
  then show ?thesis by (simp add: zone_of_path_def)
qed

definition restart_command :: "string \<Rightarrow> string list" where
  "restart_command name = [''systemctl'', ''restart'', name @ ''.service'']"

text \<open>A pass over the services restarts all of them, or a prefix whose last restart is reported as failed.\<close>

lemma restart_services_Ok:
  "restart_services Z names h = (Ok (), h') \<Longrightarrow>
     h' = h\<lparr>zh_restarts := zh_restarts h @ map restart_command names\<rparr>"
  by (induction names arbitrary: h)
    (fastforce simp: restart_command_def Let_def split: run_outcome.splits option.splits if_splits)+

lemma restart_services_Err:
  "restart_services Z names h = (Err e, h') \<Longrightarrow>
     \<exists>pre name post. names = pre @ name # post
       \<and> zh_restarts h' = zh_restarts h @ map restart_command (pre @ [name])
       \<and> zh_config h' = zh_config h \<and> zh_dirs h' = zh_dirs h \<and> zh_db_size h' = zh_db_size h
       \<and> (e = RunFailed \<and> zh_errors h' = zh_errors h
          \<or> (\<exists>err. e = ExitRaised 1 \<and> zh_errors h' = zh_errors h @ [RestartFailed name err]))"
proof (induction names arbitrary: h)
  case (Cons name names)
  let ?h = "h\<lparr>zh_restarts := zh_restarts h @ [restart_command name]\<rparr>"
  consider (later) "restart_services Z names ?h = (Err e, h')"
    | (stopped) "e = RunFailed \<and> h' = ?h \<or> (\<exists>err. e = ExitRaised 1 \<and> h' = add_error (RestartFailed name err) ?h)"
    using Cons.prems
    by (auto simp: restart_command_def Let_def split: run_outcome.splits option.splits if_splits)
  then show ?case
  proof cases
    case later
    then obtain pre n post where "names = pre @ n # post"
      and "zh_restarts h' = zh_restarts ?h @ map restart_command (pre @ [n])"
      and "zh_config h' = zh_config ?h \<and> zh_dirs h' = zh_dirs ?h \<and> zh_db_size h' = zh_db_size ?h
       \<and> (e = RunFailed \<and> zh_errors h' = zh_errors ?h
          \<or> (\<exists>err. e = ExitRaised 1 \<and> zh_errors h' = zh_errors ?h @ [RestartFailed n err]))"
      using Cons.IH [OF later] by blast
    then show ?thesis by (intro exI [of _ "name # pre"] exI [of _ n] exI [of _ post]) simp
  next
    case stopped
    then show ?thesis by (intro exI [of _ "[]"] exI [of _ name] exI [of _ names]) (auto simp: add_error_def)
  qed
qed simp

definition vslam_restarts :: "string list list" where
  "vslam_restarts = map restart_command [VSLAM_UNIT_NAME, VSLAM_BRIDGE_UNIT_NAME]"

definition activated_config :: "zone_host \<Rightarrow> string \<Rightarrow> string \<Rightarrow> vslam_config \<Rightarrow> vslam_config" where
  "activated_config h zone_id requested c =
     c\<lparr>database_path := zone_db_of zone_id, slam_mode := chosen_mode h zone_id requested\<rparr>"

lemma zone_activate_Ok:
  assumes "zone_activate Z zone_id requested h = (Ok mode, h')"
    and "load_vslam_config (jz_yaml_load Z) (zh_config h) = Ok c"
  shows "zone_id_matches zone_id" "requested \<in> {''auto'', ''mapping'', ''localization''}"
    "mode = chosen_mode h zone_id requested"
    "h' = h\<lparr>zh_dirs := zh_dirs h @ fst (jz_mkdir Z (zone_dir_of zone_id)) @ fst (jz_mkdir Z ''/etc/mower''), zh_restarts := zh_restarts h @ vslam_restarts,
            zh_config := Some (save_vslam_config (jz_yaml_dump Z) (activated_config h zone_id requested c))\<rparr>"
  using assms
  by (auto simp: zone_activate_def catch_zone_def zone_fail_def activate_body_def save_activated_def make_dirs_def act_simps
      activated_config_def vslam_restarts_def simp del: restart_services.simps
      dest!: restart_services_Ok split: if_splits prod.splits sum.splits bool.splits)

lemma load_saved_vslam:
  "vslam_wf c \<Longrightarrow> yaml_load (yaml_dump (vslam_to_dict c)) = Some (vslam_to_dict c) \<Longrightarrow>
     load_vslam_config yaml_load (Some (save_vslam_config yaml_dump c)) = Ok c"
  by (simp add: load_vslam_config_def save_vslam_config_def vslam.load_save)

lemma activated_config_wf:
  assumes "load_vslam_config yaml_load f = Ok c" and "requested \<in> {''auto'', ''mapping'', ''localization''}"
  shows "vslam_wf (activated_config h zone_id requested c)"
proof -
  have "vslam_wf c" using vslam.loaded_wf assms(1) by (simp add: load_vslam_config_def)
  then show ?thesis using assms(2) by (auto simp: vslam_wf_def activated_config_def chosen_mode_def valid_slam_modes_def)
qed
section \<open>Properties\<close>

text \<open>
  A service command whose action is not authorised, by a refusal or in a dry run, leaves the
  host as it was.
\<close>

lemma snd_abort_exits [simp]: "snd (abort_exits m h) = snd (m h)"
  by (auto simp: abort_exits_def split: prod.splits sum.splits guard_error.splits)

lemma snd_raises [simp]: "snd (raises m h) = snd (m h)"
  by (auto simp: raises_def split: prod.splits sum.splits)

lemma service_command_guarded:
  assumes "\<And>level. guarded_command (m level)"
  shows "guarded_command (\<lambda>ctx answer. service_level config user_level (\<lambda>level. abort_exits (m level ctx answer)))"
  using assms unfolding guarded_command_def by (simp add: service_level_def act_simps split: sum.splits)

lemma raises_guarded: "guarded_command m \<Longrightarrow> guarded_command (\<lambda>ctx answer. raises (m ctx answer))"
  by (simp add: guarded_command_def)

lemmas service_command_defs [abs_def] = install_service_def uninstall_service_def install_vslam_service_def
  uninstall_vslam_service_def install_vslam_bridge_service_def uninstall_vslam_bridge_service_def
  install_pixhawk_sync_service_def uninstall_pixhawk_sync_service_def

interpretation install_cmd: guarded_command "service_install_command E config lvl tu th" for E config lvl tu th
  unfolding service_install_command_def service_command_defs
  by (rule service_command_guarded) (rule service_guard.guarded_command_axioms)

interpretation uninstall_cmd: guarded_command "service_uninstall_command E config lvl" for E config lvl
  unfolding service_uninstall_command_def service_command_defs
  by (rule service_command_guarded) (rule service_guard.guarded_command_axioms)

interpretation vslam_install_cmd: guarded_command "vslam_install_command E config lvl tu th" for E config lvl tu th
  unfolding vslam_install_command_def service_command_defs
  by (rule service_command_guarded) (rule service_guard.guarded_command_axioms)

interpretation vslam_uninstall_cmd: guarded_command "vslam_uninstall_command E config lvl" for E config lvl
  unfolding vslam_uninstall_command_def service_command_defs
  by (rule service_command_guarded) (rule service_guard.guarded_command_axioms)

interpretation bridge_install_cmd: guarded_command "vslam_bridge_install_command E config lvl tu th" for E config lvl tu th
  unfolding vslam_bridge_install_command_def service_command_defs
  by (rule service_command_guarded) (rule service_guard.guarded_command_axioms)

interpretation bridge_uninstall_cmd: guarded_command "vslam_bridge_uninstall_command E config lvl" for E config lvl
  unfolding vslam_bridge_uninstall_command_def service_command_defs
  by (rule service_command_guarded) (rule service_guard.guarded_command_axioms)

interpretation sync_install_cmd: guarded_command "pixhawk_sync_install_command E lvl tu th" for E lvl tu th
  unfolding pixhawk_sync_install_command_def service_command_defs
  by (rule raises_guarded) (rule service_guard.guarded_command_axioms)

interpretation sync_uninstall_cmd: guarded_command "pixhawk_sync_uninstall_command E lvl" for E lvl
  unfolding pixhawk_sync_uninstall_command_def service_command_defs
  by (rule raises_guarded) (rule service_guard.guarded_command_axioms)

interpretation kiosk_install_cmd: guarded_command "kiosk_install_command E config tu th" for E config tu th
  using kiosk_install_guard.guarded_command_axioms
  by (cases config) (simp_all add: guarded_command_def kiosk_install_command_def act_simps)

interpretation kiosk_uninstall_cmd: guarded_command "kiosk_uninstall_command E" for E
  using kiosk_remove_guard.guarded_command_axioms
  by (simp add: guarded_command_def kiosk_uninstall_command_def)

text \<open>The unit that \<open>kiosk install\<close> writes for the display is not among those \<open>kiosk enable\<close> starts.\<close>

lemma kiosk_enable_misses_unit:
  "KIOSK_UNIT_NAME \<in> set KIOSK_UNITS" "KIOSK_UNIT_NAME @ ''.service'' \<notin> set KIOSK_SERVICES"
  by (simp_all add: KIOSK_UNITS_def KIOSK_SERVICES_def KIOSK_UNIT_NAME_def)

text \<open>A dry run of \<open>kiosk enable\<close> and \<open>kiosk disable\<close> calls nothing.\<close>

lemma switch_units_dry: "switch_units E True verb us h = (Ok (), h)"
  by (induction us) (simp_all add: act_simps)

text \<open>
  C26: After a successful activation of a zone the saved configuration is the loaded one with the
  zone's database and the SLAM mode put in, valid in every field; the status command reads it back
  and reports that zone, its mode and its database. In automatic mode the zone localises exactly
  when it has a map. Both services were restarted, in order.
\<close>

theorem zone_activate_status:
  assumes "zone_activate Z zone_id requested h = (Ok mode, h')"
    and "load_vslam_config (jz_yaml_load Z) (zh_config h) = Ok c"
    and "jz_yaml_load Z (jz_yaml_dump Z (vslam_to_dict (activated_config h zone_id requested c)))
           = Some (vslam_to_dict (activated_config h zone_id requested c))"
    and "jz_is_active Z = RunExit rc (Some out)"
  shows "load_vslam_config (jz_yaml_load Z) (zh_config h') = Ok (c\<lparr>database_path := zone_db_of zone_id, slam_mode := mode\<rparr>)
    \<and> mode = (if requested = ''auto''
              then if zh_db_size h (zone_db_of zone_id) = None then ''mapping'' else ''localization'' else requested)
    \<and> zh_restarts h' = zh_restarts h @ vslam_restarts \<and> zh_errors h' = zh_errors h
    \<and> (\<exists>s. zone_status_command Z h' = (Ok s, h') \<and> zs_zone_id s = Some zone_id
         \<and> zs_slam_mode s = mode \<and> zs_database_path s = zone_db_of zone_id
         \<and> zs_service_active s = (rc = 0 \<and> py_strip out = ''active''))"
proof -
  note ok = zone_activate_Ok [OF assms(1,2)]
  have eq: "activated_config h zone_id requested c = c\<lparr>database_path := zone_db_of zone_id, slam_mode := mode\<rparr>"
    by (simp add: activated_config_def ok(3))
  have load: "load_vslam_config (jz_yaml_load Z) (zh_config h') = Ok (activated_config h zone_id requested c)"
    using load_saved_vslam [where yaml_load = "jz_yaml_load Z" and yaml_dump = "jz_yaml_dump Z", OF activated_config_wf [OF assms(2) ok(2)] assms(3)] by (simp add: ok(4))
  have "\<exists>s. zone_status_command Z h' = (Ok s, h') \<and> zs_zone_id s = Some zone_id
         \<and> zs_slam_mode s = mode \<and> zs_database_path s = zone_db_of zone_id
         \<and> zs_service_active s = (rc = 0 \<and> py_strip out = ''active'')"
    using load assms(4) zone_of_activated [OF ok(1)]
    by (simp add: zone_status_command_def catch_zone_def status_body_def eq)
  then show ?thesis using load by (simp add: eq ok(3,4) chosen_mode_def)
qed

definition fresh_zones :: zone_host where
  "fresh_zones = \<lparr>zh_config = None, zh_dirs = [], zh_db_size = Map.empty, zh_restarts = [], zh_errors = []\<rparr>"

definition north_config :: vslam_config where
  "north_config = default_vslam_config\<lparr>database_path := ''/var/lib/mower/zones/north/rtabmap.db'', slam_mode := ''mapping''\<rparr>"

definition quiet_jetson :: jz_env where
  "quiet_jetson = \<lparr>jz_yaml_load = (\<lambda>s. Some (vslam_to_dict north_config)), jz_yaml_dump = (\<lambda>v. ''vslam: ...''),
     jz_mkdir = (\<lambda>d. ([d], True)), jz_save = Written, jz_systemctl = (\<lambda>cmd. RunExit 0 (Some [])),
     jz_is_active = RunExit 0 (Some ''active'')\<rparr>"

lemma north_matches: "zone_id_matches ''north''" by code_simp

lemma north_activated: "activated_config fresh_zones ''north'' ''auto'' default_vslam_config = north_config"
  by (simp add: activated_config_def fresh_zones_def north_config_def chosen_mode_def zone_db_of_def zone_dir_of_def)

lemma activate_north:
  "zone_activate quiet_jetson ''north'' ''auto'' fresh_zones =
     (Ok ''mapping'', fresh_zones\<lparr>zh_dirs := [zone_dir_of ''north'', ''/etc/mower''], zh_restarts := vslam_restarts,
        zh_config := Some ''vslam: ...''\<rparr>)"
  using north_matches
  by (simp add: zone_activate_def catch_zone_def activate_body_def save_activated_def make_dirs_def act_simps load_vslam_config_def
      load_config_def save_vslam_config_def quiet_jetson_def fresh_zones_def chosen_mode_def vslam_restarts_def restart_command_def)

theorem zone_activate_status_witness:
  "\<exists>h' s. zone_activate quiet_jetson ''north'' ''auto'' fresh_zones = (Ok ''mapping'', h')
     \<and> zone_status_command quiet_jetson h' = (Ok s, h') \<and> zs_zone_id s = Some ''north'' \<and> zs_slam_mode s = ''mapping''"
proof -
  have load: "load_vslam_config (jz_yaml_load quiet_jetson) (zh_config fresh_zones) = Ok default_vslam_config"
    by (simp add: fresh_zones_def load_vslam_config_def load_config_def)
  have yaml: "jz_yaml_load quiet_jetson (jz_yaml_dump quiet_jetson (vslam_to_dict (activated_config fresh_zones ''north'' ''auto'' default_vslam_config)))
     = Some (vslam_to_dict (activated_config fresh_zones ''north'' ''auto'' default_vslam_config))"
    by (simp add: quiet_jetson_def north_activated)
  have "jz_is_active quiet_jetson = RunExit 0 (Some ''active'')" by (simp add: quiet_jetson_def)
  from zone_activate_status [OF activate_north load yaml this] show ?thesis using activate_north by blast
qed

text \<open>
  C27: What a failed activation leaves behind. A zone name or mode that is refused changes nothing; a
  zone directory that cannot be made leaves those of its parents that were made, and nothing else. A
  configuration that cannot be loaded is kept. One that cannot be saved is kept when its directory
  could not be made or the file could not be opened; when the writing itself fails the file holds a
  prefix of the new text, the old one is lost. In these cases no service is restarted. When a restart
  fails the configuration already names the new zone and is not put back, and the services after the
  failing one are not restarted. Each failure ends with status 1, except the one of the zone directory,
  whose exception is not caught; a restart that was refused is reported twice.
\<close>

theorem zone_activate_failure:
  assumes "zone_activate Z zone_id requested h = (Err e, h')"
  shows "(\<not> zone_id_matches zone_id \<and> e = ZoneExit 1 \<and> h' = add_error (InvalidZoneId zone_id) h)
    \<or> (requested \<notin> {''auto'', ''mapping'', ''localization''} \<and> e = ZoneExit 1 \<and> h' = add_error (InvalidSlamMode requested) h)
    \<or> (\<not> snd (jz_mkdir Z (zone_dir_of zone_id)) \<and> e = MkdirFailed
       \<and> h' = h\<lparr>zh_dirs := zh_dirs h @ fst (jz_mkdir Z (zone_dir_of zone_id))\<rparr>)
    \<or> (e = ZoneExit 1 \<and> zh_restarts h' = zh_restarts h \<and> zh_config h' = zh_config h
       \<and> (\<exists>x. load_vslam_config (jz_yaml_load Z) (zh_config h) = Err x
              \<and> zh_errors h' = zh_errors h @ [ActivationFailed zone_id (LoadFailed x)]))
    \<or> (e = ZoneExit 1 \<and> zh_restarts h' = zh_restarts h \<and> zh_errors h' = zh_errors h @ [ActivationFailed zone_id SaveFailed]
       \<and> (\<exists>c. load_vslam_config (jz_yaml_load Z) (zh_config h) = Ok c
            \<and> ((\<not> snd (jz_mkdir Z ''/etc/mower'') \<or> jz_save Z = NotOpened) \<and> zh_config h' = zh_config h
               \<or> (\<exists>n. jz_save Z = CutShort n
                    \<and> zh_config h' = Some (take n (save_vslam_config (jz_yaml_dump Z) (activated_config h zone_id requested c)))))))
    \<or> (\<exists>c pre name post. load_vslam_config (jz_yaml_load Z) (zh_config h) = Ok c \<and> e = ZoneExit 1
       \<and> zh_config h' = Some (save_vslam_config (jz_yaml_dump Z) (activated_config h zone_id requested c))
       \<and> [VSLAM_UNIT_NAME, VSLAM_BRIDGE_UNIT_NAME] = pre @ name # post
       \<and> zh_restarts h' = zh_restarts h @ map restart_command (pre @ [name])
       \<and> (zh_errors h' = zh_errors h @ [ActivationFailed zone_id RunFailed]
          \<or> (\<exists>err. zh_errors h' = zh_errors h @ [RestartFailed name err, ActivationFailed zone_id (ExitRaised 1)])))"
proof -
  let ?h1 = "h\<lparr>zh_dirs := zh_dirs h @ fst (jz_mkdir Z (zone_dir_of zone_id))\<rparr>"
  let ?h2 = "?h1\<lparr>zh_dirs := zh_dirs ?h1 @ fst (jz_mkdir Z ''/etc/mower'')\<rparr>"
  let ?text = "\<lambda>c. save_vslam_config (jz_yaml_dump Z) (activated_config h zone_id requested c)"
  consider (early) "\<not> zone_id_matches zone_id \<or> requested \<notin> {''auto'', ''mapping'', ''localization''}
        \<or> \<not> snd (jz_mkdir Z (zone_dir_of zone_id))"
    | (load) x where "load_vslam_config (jz_yaml_load Z) (zh_config h) = Err x"
        "e = ZoneExit 1" "h' = add_error (ActivationFailed zone_id (LoadFailed x)) ?h1"
    | (nodir) c where "load_vslam_config (jz_yaml_load Z) (zh_config h) = Ok c" "\<not> snd (jz_mkdir Z ''/etc/mower'')"
        "e = ZoneExit 1" "h' = add_error (ActivationFailed zone_id SaveFailed) ?h2"
    | (save) c where "load_vslam_config (jz_yaml_load Z) (zh_config h) = Ok c" "jz_save Z \<noteq> Written"
        "e = ZoneExit 1"
        "h' = add_error (ActivationFailed zone_id SaveFailed) (?h2\<lparr>zh_config := file_after (jz_save Z) (?text c) (zh_config h)\<rparr>)"
    | (restart) c x h2 where "load_vslam_config (jz_yaml_load Z) (zh_config h) = Ok c"
        "restart_services Z [VSLAM_UNIT_NAME, VSLAM_BRIDGE_UNIT_NAME] (?h2\<lparr>zh_config := Some (?text c)\<rparr>) = (Err x, h2)"
        "e = ZoneExit 1" "h' = add_error (ActivationFailed zone_id x) h2"
    using assms
    by (auto simp: zone_activate_def catch_zone_def zone_fail_def activate_body_def save_activated_def make_dirs_def act_simps
        activated_config_def Let_def simp del: restart_services.simps split: if_splits prod.splits sum.splits bool.splits)
  then show ?thesis
  proof cases
    case early
    then show ?thesis using assms by (auto simp: zone_activate_def zone_fail_def make_dirs_def split: if_splits prod.splits)
  next
    case save
    then show ?thesis by (cases "jz_save Z") (auto simp: add_error_def)
  next
    case restart
    from restart_services_Err [OF restart(2)] show ?thesis using restart(1,3,4)
      by (elim exE) (rule disjI2, rule disjI2, rule disjI2, rule disjI2, rule disjI2, auto simp: add_error_def)
  qed (auto simp: add_error_def)
qed

definition stuck_jetson :: jz_env where
  "stuck_jetson = quiet_jetson\<lparr>jz_systemctl := (\<lambda>cmd. RunExit 5 (Some ''not found''))\<rparr>"

theorem zone_activate_failure_witness:
  "\<exists>h'. zone_activate stuck_jetson ''north'' ''auto'' fresh_zones = (Err (ZoneExit 1), h')
     \<and> zh_config h' = Some ''vslam: ...''
     \<and> zh_errors h' = [RestartFailed VSLAM_UNIT_NAME ''not found'', ActivationFailed ''north'' (ExitRaised 1)]"
proof -
  define h' where "h' = snd (zone_activate stuck_jetson ''north'' ''auto'' fresh_zones)"
  have run: "zone_activate stuck_jetson ''north'' ''auto'' fresh_zones = (Err (ZoneExit 1), h')"
    and res: "zh_config h' = Some ''vslam: ...''"
      "zh_errors h' = [RestartFailed VSLAM_UNIT_NAME ''not found'', ActivationFailed ''north'' (ExitRaised 1)]"
    using north_matches
    by (simp_all add: h'_def zone_activate_def catch_zone_def zone_fail_def add_error_def activate_body_def save_activated_def make_dirs_def act_simps
        load_vslam_config_def load_config_def save_vslam_config_def stuck_jetson_def quiet_jetson_def fresh_zones_def)
  from zone_activate_failure [OF run] show ?thesis using run res by blast
qed

end
