(* ===== verification/LaptopCli.thy ===== *)
theory LaptopCli
  imports Deploy
begin

text \<open>
  Commands of \<open>mower jetson\<close> and \<open>mower pixhawk\<close> on the laptop: \<open>cli/jetson_remote.py\<close>,
  \<open>cli/pixhawk_laptop.py\<close>, \<open>cli/backup.py\<close> and the health command of \<open>cli/setup.py\<close>, over the sessions of \<open>Remote\<close>. A
  command ends by returning, with \<open>Exit n\<close>, or with an exception; what it prints is left out,
  except the command line shown by a dry run.
\<close>

section \<open>Environment\<close>

text \<open>
  The laptop, \<open>shutil.which\<close>, \<open>str(Path(s).expanduser())\<close>, the text of a configuration file that
  exists, the default paths and whether the laptop runs Windows.
\<close>

record 'r cli =
  cl_laptop :: "'r laptop"
  cl_which :: "string \<Rightarrow> string option"
  cl_expand :: "string \<Rightarrow> string"
  cl_read :: "string \<Rightarrow> 'r \<Rightarrow> string option"
  cl_default_config :: string
  cl_default_key :: string
  cl_windows :: bool

record jetson_opts =
  o_host :: "string option"
  o_user :: "string option"
  o_port :: "int option"
  o_key :: "string option"
  o_config :: "string option"
  o_strict :: string

text \<open>The state of the command group: \<open>--dry-run\<close> and the correlation identifier.\<close>

record cli_obj =
  ob_dry_run :: bool
  ob_correlation_id :: "string option"

definition config_path :: "'r cli \<Rightarrow> string option \<Rightarrow> string" where
  "config_path E path = (case path of None \<Rightarrow> cl_default_config E | Some p \<Rightarrow> p)"

definition laptop_config_at :: "'r cli \<Rightarrow> string option \<Rightarrow> 'r \<Rightarrow> laptop_config cfg" where
  "laptop_config_at E path r =
     load_laptop_config (cl_expand E) (la_yaml_load (cl_laptop E)) (cl_read E (config_path E path) r)"

section \<open>Endpoint\<close>

definition env_var :: "'r cli \<Rightarrow> string \<Rightarrow> string option" where
  "env_var E k = dict_get (la_environ (cl_laptop E)) k"

definition truthy :: "string option \<Rightarrow> string option" where "truthy s = str_or s None"

definition resolved_host :: "'r cli \<Rightarrow> jetson_opts \<Rightarrow> jetson_endpoint option \<Rightarrow> string option" where
  "resolved_host E opts c = str_or (o_host opts) (str_or (env_var E ''MOWER_JETSON_HOST'') (map_option je_host c))"

definition resolved_user :: "'r cli \<Rightarrow> jetson_opts \<Rightarrow> jetson_endpoint option \<Rightarrow> string option" where
  "resolved_user E opts c = str_or (o_user opts) (str_or (env_var E ''MOWER_JETSON_USER'') (map_option je_user c))"

definition resolved_port :: "'r cli \<Rightarrow> jetson_opts \<Rightarrow> jetson_endpoint option \<Rightarrow> (pyexc, int) result" where
  "resolved_port E opts c =
     (case o_port opts of
        Some p \<Rightarrow> Ok p
      | None \<Rightarrow>
          (case truthy (env_var E ''MOWER_JETSON_PORT'') of
             Some s \<Rightarrow> of_opt ValueError (parse_int s)
           | None \<Rightarrow> Ok (case c of None \<Rightarrow> 22 | Some e \<Rightarrow> je_port e)))"

definition resolved_key :: "'r cli \<Rightarrow> jetson_opts \<Rightarrow> jetson_endpoint option \<Rightarrow> string option" where
  "resolved_key E opts c =
     (case o_key opts of
        Some k \<Rightarrow> Some k
      | None \<Rightarrow>
          (case truthy (env_var E ''MOWER_JETSON_KEY'') of
             Some s \<Rightarrow> Some (cl_expand E s)
           | None \<Rightarrow> (case c of None \<Rightarrow> None | Some e \<Rightarrow> je_key_path e)))"

text \<open>A file of the wrong shape is \<open>LaptopConfigError\<close> and ends with status 2.\<close>

definition resolve_endpoint :: "'r cli \<Rightarrow> jetson_opts \<Rightarrow> ('r, jetson_endpoint) step" where
  "resolve_endpoint E opts =
     act_bind (look (laptop_config_at E (o_config opts))) (\<lambda>loaded.
     case loaded of
       Inl (ConfigError m) \<Rightarrow> act_raise (Exit 2)
     | Inl (ConfigRaised e) \<Rightarrow> act_raise (Raised e)
     | Inr conf \<Rightarrow>
         (case (resolved_host E opts (lc_jetson conf), resolved_user E opts (lc_jetson conf)) of
            (Some host, Some user) \<Rightarrow>
              act_bind (of_result (resolved_port E opts (lc_jetson conf))) (\<lambda>port.
              act_ret \<lparr>je_host = host, je_user = user, je_port = port, je_key_path = resolved_key E opts (lc_jetson conf)\<rparr>)
          | _ \<Rightarrow> act_raise (Exit 2)))"

text \<open>The laptop with its client for an endpoint; a policy that is not one of the three raises \<open>ValueError\<close>.\<close>

definition client_for :: "'r cli \<Rightarrow> string option \<Rightarrow> jetson_endpoint \<Rightarrow> string \<Rightarrow> ('r, 'r laptop) step" where
  "client_for E cid endpoint strict =
     (case new_client (cl_which E) endpoint cid strict 10 None None of
        Inl e \<Rightarrow> act_raise (Raised ValueError)
      | Inr c \<Rightarrow> act_ret ((cl_laptop E)\<lparr>la_client := c\<rparr>))"

definition jetson_session :: "'r cli \<Rightarrow> cli_obj \<Rightarrow> jetson_opts \<Rightarrow> ('r, 'r laptop) step" where
  "jetson_session E obj opts =
     act_bind (resolve_endpoint E opts) (\<lambda>e. client_for E (ob_correlation_id obj) e (o_strict opts))"

section \<open>Commands over SSH\<close>

text \<open>\<open>client.run\<close> and \<open>client.pull\<close> with the limit in seconds, and \<open>check\<close>.\<close>

definition client_call :: "'r laptop \<Rightarrow> string list \<Rightarrow> bool \<Rightarrow> pyfloat \<Rightarrow> ('r, ssh_result) step" where
  "client_call L argv check limit w =
     (case build_ssh_argv (la_client L) argv of
        Inl e \<Rightarrow> (Err (ssh_exc e), w)
      | Inr full \<Rightarrow>
          (case la_spawn L full (build_env (la_environ L) (la_client L) None) (Some limit) (w_rest w) of
             (out, d, r) \<Rightarrow>
               (map_err ssh_exc (ssh_run (\<lambda>_ _ _. out) (la_environ L) (la_client L) argv check (Some limit) None),
                advance [Ran argv] d r w)))"

definition client_fetch :: "'r laptop \<Rightarrow> string \<Rightarrow> string \<Rightarrow> pyfloat \<Rightarrow> ('r, ssh_result) step" where
  "client_fetch L remote_path local_path limit w =
     (case build_scp_pull_argv (la_client L) remote_path local_path of
        Inl e \<Rightarrow> (Err (ssh_exc e), w)
      | Inr full \<Rightarrow>
          (case la_spawn L full (build_env (la_environ L) (la_client L) None) (Some limit) (w_rest w) of
             (out, d, r) \<Rightarrow>
               (map_err ssh_exc (scp_pull (\<lambda>_ _ _. out) (la_environ L) (la_client L) remote_path local_path (Some limit)),
                advance [Pulled remote_path local_path] d r w)))"

text \<open>\<open>except SshError\<close>: status 3.\<close>

definition built_argv :: "string list ssh \<Rightarrow> ('r, string list) step" where
  "built_argv b = (case b of Inl e \<Rightarrow> act_raise (Exit 3) | Inr argv \<Rightarrow> act_ret argv)"

text \<open>The same call without the handler.\<close>

definition plain_argv :: "string list ssh \<Rightarrow> ('r, string list) step" where
  "plain_argv b = (case b of Inl e \<Rightarrow> act_raise (ssh_exc e) | Inr argv \<Rightarrow> act_ret argv)"

text \<open>The result is the command line that a dry run shows.\<close>

definition run_command :: "'r cli \<Rightarrow> cli_obj \<Rightarrow> jetson_opts \<Rightarrow> string list \<Rightarrow> pyfloat \<Rightarrow> ('r, string list) step" where
  "run_command E obj opts remote_argv limit =
     (if remote_argv = [] then act_raise (Exit 2)
      else act_bind (jetson_session E obj opts) (\<lambda>L.
        act_bind (built_argv (build_ssh_argv (la_client L) remote_argv)) (\<lambda>argv.
        if ob_dry_run obj then act_ret argv
        else act_bind (or_exit 3 (client_call L remote_argv False limit)) (\<lambda>r.
          act_raise (Exit (sr_returncode r))))))"

text \<open>\<open>_confirm_overwrite\<close>, with \<open>ConfirmationAborted\<close> turned into status 1.\<close>

definition confirm_overwrite :: "bool \<Rightarrow> ('r, unit) step" where
  "confirm_overwrite yes =
     (if yes then act_ret ()
      else act_bind read_line (\<lambda>answer. if prompt answer then act_ret () else act_raise (Exit 1)))"

definition pull_command ::
  "'r cli \<Rightarrow> cli_obj \<Rightarrow> jetson_opts \<Rightarrow> string \<Rightarrow> string \<Rightarrow> bool \<Rightarrow> pyfloat \<Rightarrow> ('r, string list) step" where
  "pull_command E obj opts remote_path local_path yes limit =
     act_bind (jetson_session E obj opts) (\<lambda>L.
     act_bind (built_argv (build_scp_pull_argv (la_client L) remote_path local_path)) (\<lambda>argv.
     if ob_dry_run obj then act_ret argv
     else act_bind (look (la_exists L local_path)) (\<lambda>there.
       act_then (act_when there (confirm_overwrite yes))
       (act_then (or_exit 3 (client_fetch L remote_path local_path limit)) (act_ret argv)))))"

text \<open>Printing the report: \<open>data.get\<close> on what was parsed, and a loop over the warnings.\<close>

definition show_info :: "pyval \<Rightarrow> ('r, unit) step" where
  "show_info data =
     act_bind (of_result (py_get data ''warnings'' VNone)) (\<lambda>ws.
     act_then (of_result (iter_py (if py_bool ws then ws else VList []))) (act_ret ()))"

definition info_command :: "'r cli \<Rightarrow> cli_obj \<Rightarrow> jetson_opts \<Rightarrow> bool \<Rightarrow> ('r, unit) step" where
  "info_command E obj opts raw =
     act_bind (jetson_session E obj opts) (\<lambda>L.
     let remote_argv = [''mower-jetson'', ''info'', ''--json'']
     in if ob_dry_run obj then act_then (plain_argv (build_ssh_argv (la_client L) remote_argv)) (act_ret ())
        else act_bind (or_exit 3 (client_call L remote_argv True (fint 30))) (\<lambda>r.
          if raw then act_ret ()
          else (case la_loads L (sr_stdout r) of
              None \<Rightarrow> act_raise (Exit 3)
            | Some data \<Rightarrow> show_info data)))"

definition clear_host_key_command :: "'r cli \<Rightarrow> jetson_opts \<Rightarrow> ('r, unit) step" where
  "clear_host_key_command E opts =
     act_bind (resolve_endpoint E opts) (\<lambda>e.
     act_bind (local_run (cl_laptop E) [''ssh-keygen'', ''-R'', je_host e] 30) (\<lambda>out.
       case out of RunExit rc so se \<Rightarrow> if rc \<noteq> 0 then act_raise (Exit 3) else act_ret () | _ \<Rightarrow> act_raise (Exit 3)))"

text \<open>\<open>health\<close>: the rows need cells that can be rendered; the status of the probe is passed on.\<close>

definition health_row :: "pyval \<Rightarrow> ('r, unit) step" where
  "health_row c =
     act_bind (of_result (py_get c ''status'' (VStr []))) (\<lambda>status.
     if \<not> hashable status then act_raise (Raised TypeError)
     else act_bind (of_result (py_get c ''name'' (VStr ''?''))) (\<lambda>name.
       act_bind (of_result (py_get c ''severity'' (VStr ''?''))) (\<lambda>severity.
       act_bind (of_result (py_get c ''detail'' (VStr []))) (\<lambda>detail.
       if cell_ok name \<and> cell_ok severity \<and> cell_ok detail then act_ret () else act_raise NotRenderable))))"

definition health_command :: "'r cli \<Rightarrow> cli_obj \<Rightarrow> jetson_opts \<Rightarrow> bool \<Rightarrow> ('r, unit) step" where
  "health_command E obj opts json_out =
     act_bind (jetson_session E obj opts) (\<lambda>L.
     let remote_argv = [''mower-jetson'', ''probe'', ''--json'']
     in if ob_dry_run obj then act_then (plain_argv (build_ssh_argv (la_client L) remote_argv)) (act_ret ())
        else act_bind (or_exit 3 (client_call L remote_argv False (fint 30))) (\<lambda>r.
          if json_out then act_raise (Exit (sr_returncode r))
          else (case la_loads L (sr_stdout r) of
              None \<Rightarrow> act_raise (Exit 3)
            | Some v \<Rightarrow>
                act_bind (of_result (iter_py v)) (\<lambda>checks.
                act_then (act_all (map health_row checks)) (act_raise (Exit (sr_returncode r)))))))"

section \<open>Firmware on the laptop\<close>

definition opt_args :: "bool \<Rightarrow> string list \<Rightarrow> string list" where "opt_args b args = (if b then args else [])"

definition firmware_check_argv :: "string \<Rightarrow> bool \<Rightarrow> bool \<Rightarrow> string \<Rightarrow> string list" where
  "firmware_check_argv track offline json port =
     [''mower-jetson'', ''pixhawk'', ''firmware-check'']
     @ opt_args (track \<noteq> ''latest'') [''--track'', track] @ opt_args offline [''--offline'']
     @ opt_args json [''--json''] @ opt_args (port \<noteq> ''/dev/ttyACM0'') [''--port'', port]"

definition firmware_update_argv :: "string \<Rightarrow> bool \<Rightarrow> bool \<Rightarrow> bool \<Rightarrow> string \<Rightarrow> bool \<Rightarrow> string list" where
  "firmware_update_argv track yes force json port dry =
     [''mower-jetson'', ''pixhawk'', ''firmware-update'']
     @ opt_args (track \<noteq> ''latest'') [''--track'', track] @ opt_args yes [''--yes''] @ opt_args force [''--force'']
     @ opt_args json [''--json''] @ opt_args (port \<noteq> ''/dev/ttyACM0'') [''--port'', port] @ opt_args dry [''--dry-run'']"

definition firmware_flash_argv :: "string \<Rightarrow> bool \<Rightarrow> bool \<Rightarrow> bool \<Rightarrow> string \<Rightarrow> bool \<Rightarrow> string list" where
  "firmware_flash_argv remote_path yes skip_snapshot json port dry =
     [''mower-jetson'', ''pixhawk'', ''firmware-flash'', remote_path]
     @ opt_args yes [''--yes''] @ opt_args skip_snapshot [''--skip-snapshot''] @ opt_args json [''--json'']
     @ opt_args (port \<noteq> ''/dev/ttyACM0'') [''--port'', port] @ opt_args dry [''--dry-run'']"

definition forward :: "'r cli \<Rightarrow> cli_obj \<Rightarrow> jetson_opts \<Rightarrow> string list \<Rightarrow> pyfloat \<Rightarrow> ('r, unit) step" where
  "forward E obj opts remote_argv limit =
     act_bind (jetson_session E obj opts) (\<lambda>L.
     act_bind (or_exit 3 (client_call L remote_argv False limit)) (\<lambda>r. act_raise (Exit (sr_returncode r))))"

definition firmware_check_command where
  "firmware_check_command E obj opts track offline json port =
     forward E obj opts (firmware_check_argv track offline json port) (fint 60)"

definition firmware_update_command where
  "firmware_update_command E obj opts track yes force json port =
     forward E obj opts (firmware_update_argv track yes force json port (ob_dry_run obj)) (fint 300)"

definition firmware_flash_command where
  "firmware_flash_command E obj opts remote_path yes skip_snapshot json port =
     forward E obj opts (firmware_flash_argv remote_path yes skip_snapshot json port (ob_dry_run obj)) (fint 300)"

section \<open>Backup\<close>

definition REMOTE_CONFIG_FILES :: "string list" where
  "REMOTE_CONFIG_FILES =
     [''/etc/mower/vslam.yaml'', ''/etc/ssh/sshd_config.d/90-mower-hardening.conf'',
      ''/usr/local/share/mower-build/rtabmap.json'', ''/usr/local/share/mower-build/depthai.json'',
      ''/usr/local/share/mower-build/slam_node.json'']"

text \<open>\<open>remote_path.lstrip("/").replace("/", "_")\<close>.\<close>

definition local_name :: "string \<Rightarrow> string" where
  "local_name p = map (\<lambda>c. if c = CHR ''/'' then CHR ''_'' else c) (dropWhile (\<lambda>c. c = CHR ''/'') p)"

text \<open>One file: pulled or skipped.\<close>

definition backup_one :: "'r laptop \<Rightarrow> string \<Rightarrow> string \<Rightarrow> ('r, (string \<times> bool)) step" where
  "backup_one L remote_path local_dest =
     catch_ssh (act_then (client_pull L remote_path local_dest) (act_ret (remote_path, True)))
       (\<lambda>_. act_ret (remote_path, False))"

fun backup_files :: "'r laptop \<Rightarrow> string \<Rightarrow> string list \<Rightarrow> ('r, (string \<times> bool) list) step" where
  "backup_files L output_dir [] = act_ret []"
| "backup_files L output_dir (p # ps) =
     act_bind (backup_one L p (path_join output_dir (local_name p))) (\<lambda>x.
     act_bind (backup_files L output_dir ps) (\<lambda>xs. act_ret (x # xs)))"

definition base_name :: "string \<Rightarrow> string" where
  "base_name p = (case filter (\<lambda>c. c \<noteq> [] \<and> c \<noteq> ''.'') (split_char (CHR ''/'') p) of [] \<Rightarrow> [] | cs \<Rightarrow> last cs)"

definition newest_archive :: "'r laptop \<Rightarrow> ('r, string) step" where
  "newest_archive L =
     catch_ssh
       (act_bind (client_run L [''ls -t /tmp/mower-binaries-*.tar.gz 2>/dev/null | head -1''] 15) (\<lambda>r.
          act_ret (if sr_ok r then py_strip (sr_stdout r) else [])))
       (\<lambda>_. act_ret [])"

definition backup_archive :: "'r laptop \<Rightarrow> string \<Rightarrow> ('r, (string \<times> bool) list) step" where
  "backup_archive L output_dir =
     act_bind (newest_archive L) (\<lambda>archive.
     if archive = [] then act_ret []
     else act_bind (backup_one L archive (path_join output_dir (base_name archive))) (\<lambda>x. act_ret [x]))"

text \<open>The result: the files in order, each with whether it was pulled.\<close>

definition backup_command ::
  "'r cli \<Rightarrow> cli_obj \<Rightarrow> jetson_opts \<Rightarrow> string \<Rightarrow> bool \<Rightarrow> ('r, (string \<times> bool) list) step" where
  "backup_command E obj opts output_dir include_binaries =
     act_bind (jetson_session E obj opts) (\<lambda>L.
     act_then (file_op L (LocalMkdir output_dir))
     (act_bind (backup_files L output_dir REMOTE_CONFIG_FILES) (\<lambda>files.
      act_bind (if include_binaries then backup_archive L output_dir else act_ret []) (\<lambda>more.
      act_ret (files @ more)))))"

section \<open>Dry runs and consent\<close>

text \<open>Finding the Jetson and building the command line change nothing.\<close>

lemma snd_session [simp]: "snd (jetson_session E obj opts w) = w"
  by (auto simp: jetson_session_def resolve_endpoint_def client_for_def look_def of_result_def act_simps
      split: sum.splits config_error.splits option.splits)

lemma session_run: "jetson_session E obj opts w = (r, w') \<Longrightarrow> w' = w"
  by (metis snd_conv snd_session)

lemma argv_steps [simp]: "snd (built_argv b w) = w" "snd (plain_argv b w) = w"
  by (auto simp: built_argv_def plain_argv_def act_simps split: sum.splits)

lemma argv_run: "built_argv b w = (r, w') \<Longrightarrow> w' = w" "plain_argv b w = (r, w') \<Longrightarrow> w' = w"
  by (metis snd_conv argv_steps)+

lemma dry_runs_change_nothing:
  assumes "ob_dry_run obj"
  shows "snd (run_command E obj opts args limit w) = w"
    and "snd (pull_command E obj opts remote_path local_path yes limit w) = w"
    and "snd (info_command E obj opts raw w) = w"
    and "snd (health_command E obj opts json_out w) = w"
  using assms
  by (auto simp: run_command_def pull_command_def info_command_def health_command_def act_then_def act_simps
      dest!: session_run argv_run split: prod.splits sum.splits)

text \<open>
  A copy over an existing file needs \<open>--yes\<close> or the operator's consent: otherwise the world is as
  before, but for the line of input that was read.
\<close>

lemma pull_needs_consent:
  assumes "pull_command E obj opts remote_path local_path yes limit w = (r, w')"
    and "la_exists (cl_laptop E) local_path (w_rest w)" and "\<not> yes" and "\<not> prompt (case w_input w of [] \<Rightarrow> Eof | l # _ \<Rightarrow> l)"
  shows "w_rest w' = w_rest w \<and> w_log w' = w_log w"
  using assms
  by (auto simp: pull_command_def client_for_def jetson_session_def resolve_endpoint_def look_def of_result_def act_then_def
      act_when_def confirm_overwrite_def read_line_def act_simps dest!: argv_run
      split: prod.splits sum.splits if_splits list.splits config_error.splits option.splits)

end
