(* ===== verification/SetupWizard.thy ===== *)
theory SetupWizard
  imports LaptopCli
begin

text \<open>
  The setup wizard of the laptop, \<open>cli/setup.py\<close>: six steps, each with a check that skips it, over a
  context that the steps fill in.
\<close>

section \<open>Setup wizard\<close>

text \<open>The context that the steps of \<open>cli/setup.py\<close> change.\<close>

record setup_context =
  sc_host :: "string option"
  sc_user :: "string option"
  sc_key_path :: string
  sc_config_path :: "string option"
  sc_force :: bool
  sc_correlation_id :: "string option"

text \<open>\<open>assert ctx.host and ctx.user\<close>.\<close>

definition with_target :: "setup_context \<Rightarrow> (string \<Rightarrow> string \<Rightarrow> ('r, 'a) step) \<Rightarrow> ('r, 'a) step" where
  "with_target c k =
     (case (truthy (sc_host c), truthy (sc_user c)) of
        (Some h, Some u) \<Rightarrow> k h u
      | _ \<Rightarrow> act_raise AssertFailed)"

definition path_dir :: "string \<Rightarrow> string" where
  "path_dir p =
     (let d = parent_path p
      in if d \<noteq> [] then d else if p \<noteq> [] \<and> p ! 0 = CHR ''/'' then ''/'' else ''.'')"

text \<open>Step 1: the key.\<close>

definition key_exists :: "'r cli \<Rightarrow> setup_context \<Rightarrow> ('r, bool) step" where
  "key_exists E c = look (la_exists (cl_laptop E) (sc_key_path c))"

definition generate_key :: "'r cli \<Rightarrow> setup_context \<Rightarrow> ('r, setup_context) step" where
  "generate_key E c =
     act_then (file_op (cl_laptop E) (LocalMkdir (path_dir (sc_key_path c))))
     (act_bind (local_run (cl_laptop E)
         [''ssh-keygen'', ''-t'', ''ed25519'', ''-f'', sc_key_path c, ''-N'', [], ''-C'', ''mower-rover-setup''] 30) (\<lambda>out.
        case out of
          RunNoBinary \<Rightarrow> act_raise (Exit 3)
        | RunTimeout \<Rightarrow> act_raise ProcessTimeout
        | RunExit rc so se \<Rightarrow> if rc \<noteq> 0 then act_raise (Exit 3) else act_ret c))"

text \<open>Step 2: host and user. The check fills them in from the environment or the configuration.\<close>

definition from_config :: "'r cli \<Rightarrow> setup_context \<Rightarrow> laptop_config cfg \<Rightarrow> (pyexc, bool \<times> setup_context) result" where
  "from_config E c loaded =
     (case loaded of
        Inl (ConfigError m) \<Rightarrow> Ok (False, c)
      | Inl (ConfigRaised e) \<Rightarrow> Err e
      | Inr conf \<Rightarrow>
          (case lc_jetson conf of
             Some e \<Rightarrow>
               if je_host e \<noteq> [] \<and> je_user e \<noteq> []
               then Ok (True, c\<lparr>sc_host := Some (je_host e), sc_user := Some (je_user e)\<rparr>) else Ok (False, c)
           | None \<Rightarrow> Ok (False, c)))"

definition endpoint_configured :: "'r cli \<Rightarrow> setup_context \<Rightarrow> ('r, bool \<times> setup_context) step" where
  "endpoint_configured E c =
     (if truthy (sc_host c) \<noteq> None \<and> truthy (sc_user c) \<noteq> None then act_ret (True, c)
      else (case (truthy (env_var E ''MOWER_JETSON_HOST''), truthy (env_var E ''MOWER_JETSON_USER'')) of
          (Some h, Some u) \<Rightarrow> act_ret (True, c\<lparr>sc_host := Some h, sc_user := Some u\<rparr>)
        | _ \<Rightarrow> act_bind (look (laptop_config_at E (sc_config_path c))) (\<lambda>loaded. of_result (from_config E c loaded))))"

text \<open>\<open>typer.prompt\<close> with a default: an empty line takes it, the end of the input aborts with status 1.\<close>

definition typer_prompt :: "string \<Rightarrow> ('r, string) step" where
  "typer_prompt dflt =
     act_bind read_line (\<lambda>l. case l of Eof \<Rightarrow> act_raise (Exit 1) | Line s \<Rightarrow> act_ret (if s = [] then dflt else s))"

definition prompt_endpoint :: "setup_context \<Rightarrow> ('r, setup_context) step" where
  "prompt_endpoint c =
     act_bind (if truthy (sc_host c) = None
               then act_bind (typer_prompt ''10.0.0.42'') (\<lambda>h. act_ret (c\<lparr>sc_host := Some h\<rparr>)) else act_ret c) (\<lambda>c1.
     if truthy (sc_user c1) = None
     then act_bind (typer_prompt ''mower'') (\<lambda>u. act_ret (c1\<lparr>sc_user := Some u\<rparr>)) else act_ret c1)"

text \<open>Step 3: the network. A missing binary and a timeout are answers of no.\<close>

definition exits_zero :: "run_outcome \<Rightarrow> bool" where
  "exits_zero out = (case out of RunExit rc so se \<Rightarrow> rc = 0 | _ \<Rightarrow> False)"

definition ping_argv :: "bool \<Rightarrow> string \<Rightarrow> string list" where
  "ping_argv windows host =
     (if windows then [''ping'', ''-n'', ''1'', ''-w'', ''3000'', host] else [''ping'', ''-c'', ''1'', ''-W'', ''3'', host])"

definition ping_ok :: "'r cli \<Rightarrow> setup_context \<Rightarrow> ('r, bool) step" where
  "ping_ok E c =
     (case sc_host c of
        None \<Rightarrow> act_raise AssertFailed
      | Some h \<Rightarrow> act_bind (local_run (cl_laptop E) (ping_argv (cl_windows E) h) 10) (\<lambda>out. act_ret (exits_zero out)))"

definition check_connectivity :: "'r cli \<Rightarrow> setup_context \<Rightarrow> ('r, setup_context) step" where
  "check_connectivity E c = act_bind (ping_ok E c) (\<lambda>ok. if ok then act_ret c else act_raise (Exit 3))"

text \<open>Step 4: the key on the Jetson.\<close>

definition key_auth_argv :: "string \<Rightarrow> string \<Rightarrow> string \<Rightarrow> string \<Rightarrow> string list" where
  "key_auth_argv ssh key host user =
     [ssh, ''-o'', ''BatchMode=yes'', ''-o'', ''ConnectTimeout=5'', ''-o'', ''StrictHostKeyChecking=accept-new'',
      ''-o'', ''PasswordAuthentication=no'', ''-i'', key, user @ ''@'' @ host, ''true'']"

definition key_auth_works :: "'r cli \<Rightarrow> setup_context \<Rightarrow> ('r, bool) step" where
  "key_auth_works E c =
     with_target c (\<lambda>host user.
       case cl_which E ''ssh'' of
         None \<Rightarrow> act_ret False
       | Some ssh \<Rightarrow> act_bind (local_run (cl_laptop E) (key_auth_argv ssh (sc_key_path c) host user) 15)
           (\<lambda>out. act_ret (exits_zero out)))"

text \<open>\<open>Path.with_suffix(".pub")\<close>: the last suffix of the name is replaced.\<close>

definition stem_of :: "string \<Rightarrow> string" where
  "stem_of name =
     (let parts = split_char (CHR ''.'') name; stem = join_with ''.'' (butlast parts)
      in if length parts < 2 \<or> stem = [] \<or> last parts = [] then name else stem)"

definition with_pub_suffix :: "string \<Rightarrow> string" where
  "with_pub_suffix p =
     (let comps = split_char (CHR ''/'') p
      in join_with ''/'' (butlast comps @ [stem_of (last comps) @ ''.pub'']))"

definition quoted :: "string \<Rightarrow> string" where "quoted s = [CHR 0x22] @ s @ [CHR 0x22]"

definition remote_key_cmd :: string where
  "remote_key_cmd = ''mkdir -p ~/.ssh && chmod 700 ~/.ssh && cat >> ~/.ssh/authorized_keys && chmod 600 ~/.ssh/authorized_keys''"

text \<open>\<open>subprocess.run(cmd, shell=True)\<close> hands the line to the shell of the system.\<close>

definition shell_argv :: "bool \<Rightarrow> string \<Rightarrow> string list" where
  "shell_argv windows cmd = (if windows then [''cmd.exe'', ''/c'', cmd] else [''/bin/sh'', ''-c'', cmd])"

definition deploy_argv :: "'r cli \<Rightarrow> string \<Rightarrow> string \<Rightarrow> string \<Rightarrow> string list" where
  "deploy_argv E ssh pub tgt =
     (if cl_windows E
      then shell_argv True (''type '' @ quoted pub @ '' | '' @ quoted ssh @ '' -o StrictHostKeyChecking=accept-new ''
             @ tgt @ '' '' @ quoted remote_key_cmd)
      else (case truthy (cl_which E ''ssh-copy-id'') of
          Some cid \<Rightarrow> [cid, ''-i'', pub, tgt]
        | None \<Rightarrow> shell_argv False (''cat '' @ quoted pub @ '' | '' @ quoted ssh @ '' -o StrictHostKeyChecking=accept-new ''
             @ tgt @ '' '' @ [CHR 0x27] @ remote_key_cmd @ [CHR 0x27])))"

definition deploy_key :: "'r cli \<Rightarrow> setup_context \<Rightarrow> ('r, setup_context) step" where
  "deploy_key E c =
     with_target c (\<lambda>host user.
       let pub = with_pub_suffix (sc_key_path c)
       in act_bind (look (la_exists (cl_laptop E) pub)) (\<lambda>there.
            if \<not> there then act_raise (Exit 3)
            else (case cl_which E ''ssh'' of
                None \<Rightarrow> act_raise (Exit 3)
              | Some ssh \<Rightarrow>
                  act_bind (local_run (cl_laptop E) (deploy_argv E ssh pub (user @ ''@'' @ host)) 60) (\<lambda>out.
                    case out of
                      RunNoBinary \<Rightarrow> act_raise NoBinary
                    | RunTimeout \<Rightarrow> act_raise (Exit 3)
                    | RunExit rc so se \<Rightarrow> if rc \<noteq> 0 then act_raise (Exit 3) else act_ret c))))"

text \<open>Step 5: the configuration file.\<close>

definition setup_endpoint :: "setup_context \<Rightarrow> string \<Rightarrow> string \<Rightarrow> jetson_endpoint" where
  "setup_endpoint c host user = \<lparr>je_host = host, je_user = user, je_port = 22, je_key_path = Some (sc_key_path c)\<rparr>"

definition config_matches :: "setup_context \<Rightarrow> string \<Rightarrow> string \<Rightarrow> laptop_config cfg \<Rightarrow> (pyexc, bool) result" where
  "config_matches c host user loaded =
     (case loaded of
        Inl (ConfigError m) \<Rightarrow> Ok False
      | Inl (ConfigRaised e) \<Rightarrow> Err e
      | Inr conf \<Rightarrow>
          (case lc_jetson conf of
             None \<Rightarrow> Ok False
           | Some e \<Rightarrow> Ok (je_host e = host \<and> je_user e = user \<and> je_key_path e = Some (sc_key_path c))))"

definition config_exists :: "'r cli \<Rightarrow> setup_context \<Rightarrow> ('r, bool) step" where
  "config_exists E c =
     with_target c (\<lambda>host user.
       act_bind (look (laptop_config_at E (sc_config_path c))) (\<lambda>loaded. of_result (config_matches c host user loaded)))"

definition existing_config :: "laptop_config cfg \<Rightarrow> (pyexc, laptop_config) result" where
  "existing_config loaded =
     (case loaded of
        Inl (ConfigError m) \<Rightarrow> Ok \<lparr>lc_jetson = None, lc_extra = []\<rparr>
      | Inl (ConfigRaised e) \<Rightarrow> Err e
      | Inr conf \<Rightarrow> Ok conf)"

definition write_config :: "'r cli \<Rightarrow> setup_context \<Rightarrow> ('r, setup_context) step" where
  "write_config E c =
     with_target c (\<lambda>host user.
       act_bind (look (laptop_config_at E (sc_config_path c))) (\<lambda>loaded.
       act_bind (of_result (existing_config loaded)) (\<lambda>conf.
       let target_path = config_path E (sc_config_path c);
           contents = save_laptop_config (la_yaml_dump (cl_laptop E)) (conf\<lparr>lc_jetson := Some (setup_endpoint c host user)\<rparr>)
       in act_then (file_op (cl_laptop E) (LocalMkdir (path_dir target_path)))
            (act_then (file_op (cl_laptop E) (LocalWrite target_path contents)) (act_ret c)))))"

text \<open>Step 6: the probe on the Jetson, through a client for port 22.\<close>

definition probe_session :: "'r cli \<Rightarrow> setup_context \<Rightarrow> string \<Rightarrow> string \<Rightarrow> ('r, 'r laptop) step" where
  "probe_session E c host user = client_for E (sc_correlation_id c) (setup_endpoint c host user) ''accept-new''"

definition setup_probe_cmd :: "string list" where "setup_probe_cmd = [''mower-jetson'', ''probe'', ''--json'']"

definition setup_critical :: "pyval \<Rightarrow> (pyexc, bool) result" where
  "setup_critical c =
     bindr (py_get c ''status'' VNone) (\<lambda>status.
       if status = VStr ''fail'' then bindr (py_get c ''severity'' VNone) (\<lambda>severity. Ok (severity = VStr ''critical''))
       else Ok False)"

definition probe_passes :: "'r laptop \<Rightarrow> ssh_result \<Rightarrow> ('r, bool) step" where
  "probe_passes L r =
     (if \<not> sr_ok r then act_ret False
      else (case la_loads L (sr_stdout r) of
          None \<Rightarrow> act_ret False
        | Some v \<Rightarrow>
            act_bind (of_result (iter_py v)) (\<lambda>checks.
            act_bind (of_result (mapr setup_critical checks)) (\<lambda>fails. act_ret (True \<notin> set fails)))))"

definition remote_probe_ok :: "'r cli \<Rightarrow> setup_context \<Rightarrow> ('r, bool) step" where
  "remote_probe_ok E c =
     with_target c (\<lambda>host user.
       act_bind (probe_session E c host user) (\<lambda>L.
       act_bind (catch_ssh (act_bind (client_run L setup_probe_cmd 30) (\<lambda>r. act_ret (Some r))) (\<lambda>_. act_ret None)) (\<lambda>res.
       case res of None \<Rightarrow> act_ret False | Some r \<Rightarrow> probe_passes L r)))"

definition show_check :: "pyval \<Rightarrow> ('r, unit) step" where
  "show_check c =
     act_bind (of_result (py_get c ''status'' (VStr ''?''))) (\<lambda>status.
     if hashable status then act_ret () else act_raise (Raised TypeError))"

definition run_remote_probe :: "'r cli \<Rightarrow> setup_context \<Rightarrow> ('r, setup_context) step" where
  "run_remote_probe E c =
     with_target c (\<lambda>host user.
       act_bind (probe_session E c host user) (\<lambda>L.
       act_bind (or_exit 3 (client_run L setup_probe_cmd 30)) (\<lambda>r.
       if \<not> sr_ok r then act_raise (Exit 3)
       else (case la_loads L (sr_stdout r) of
           None \<Rightarrow> act_raise (Exit 3)
         | Some v \<Rightarrow>
             act_bind (of_result (iter_py v)) (\<lambda>checks. act_then (act_all (map show_check checks)) (act_ret c))))))"

text \<open>The table of steps. A check returns its answer with the context.\<close>

record 'r setup_step =
  st_name :: string
  st_check :: "setup_context \<Rightarrow> ('r, bool \<times> setup_context) step"
  st_execute :: "setup_context \<Rightarrow> ('r, setup_context) step"

definition pure_check :: "(setup_context \<Rightarrow> ('r, bool) step) \<Rightarrow> setup_context \<Rightarrow> ('r, bool \<times> setup_context) step" where
  "pure_check m c = act_bind (m c) (\<lambda>b. act_ret (b, c))"

definition SETUP_STEPS :: "'r cli \<Rightarrow> 'r setup_step list" where
  "SETUP_STEPS E =
     [\<lparr>st_name = ''ssh_key'', st_check = pure_check (key_exists E), st_execute = generate_key E\<rparr>,
      \<lparr>st_name = ''endpoint'', st_check = endpoint_configured E, st_execute = prompt_endpoint\<rparr>,
      \<lparr>st_name = ''connectivity'', st_check = pure_check (ping_ok E), st_execute = check_connectivity E\<rparr>,
      \<lparr>st_name = ''key_deployed'', st_check = pure_check (key_auth_works E), st_execute = deploy_key E\<rparr>,
      \<lparr>st_name = ''config'', st_check = pure_check (config_exists E), st_execute = write_config E\<rparr>,
      \<lparr>st_name = ''verify'', st_check = pure_check (remote_probe_ok E), st_execute = run_remote_probe E\<rparr>]"

definition setup_one :: "'r setup_step \<Rightarrow> setup_context \<Rightarrow> ('r, setup_context) step" where
  "setup_one s c =
     (if sc_force c then st_execute s c
      else act_bind (st_check s c) (\<lambda>(ok, c'). if ok then act_ret c' else st_execute s c'))"

fun setup_loop :: "'r setup_step list \<Rightarrow> setup_context \<Rightarrow> ('r, setup_context) step" where
  "setup_loop [] c = act_ret c"
| "setup_loop (s # ss) c = act_bind (setup_one s c) (setup_loop ss)"

text \<open>The result is the context the steps leave.\<close>

definition setup_command ::
  "'r cli \<Rightarrow> cli_obj \<Rightarrow> string option \<Rightarrow> string option \<Rightarrow> string option \<Rightarrow> string option \<Rightarrow> bool \<Rightarrow> ('r, setup_context) step" where
  "setup_command E obj host user key config force =
     setup_loop (SETUP_STEPS E)
       \<lparr>sc_host = host, sc_user = user, sc_key_path = (case key of None \<Rightarrow> cl_default_key E | Some k \<Rightarrow> k),
        sc_config_path = config, sc_force = force, sc_correlation_id = ob_correlation_id obj\<rparr>"

section \<open>What the wizard keeps\<close>

text \<open>
  The configuration file under the wizard: the processes it starts and the directories it makes leave
  the file alone, and a file that was written reads back.
\<close>

definition config_stays :: "'r cli \<Rightarrow> string \<Rightarrow> bool" where
  "config_stays E p \<longleftrightarrow>
     (\<forall>argv env t r. cl_read E p (snd (snd (la_spawn (cl_laptop E) argv env t r))) = cl_read E p r)
     \<and> (\<forall>d r. cl_read E p (snd (la_file (cl_laptop E) (LocalMkdir d) r)) = cl_read E p r)
     \<and> (\<forall>s r. fst (la_file (cl_laptop E) (LocalWrite p s) r)
            \<longrightarrow> cl_read E p (snd (la_file (cl_laptop E) (LocalWrite p s) r)) = Some s)"

definition same_config :: "'r cli \<Rightarrow> string \<Rightarrow> 'r world \<Rightarrow> 'r world \<Rightarrow> bool" where
  "same_config E p w w' \<longleftrightarrow> cl_read E p (w_rest w') = cl_read E p (w_rest w)"

interpretation config: world_relation "same_config E p" for E p
  by unfold_locales (simp_all add: same_config_def)

lemma same_config_ops:
  assumes "config_stays E p"
  shows "moves (same_config E p) (local_run (cl_laptop E) argv t)"
    and "moves (same_config E p) (file_op (cl_laptop E) (LocalMkdir d))"
    and "moves (same_config E p) (client_run ((cl_laptop E)\<lparr>la_client := cl\<rparr>) argv t)"
    and "moves (same_config E p) read_line"
  using assms unfolding config_stays_def
  by (auto simp: moves_def same_config_def local_run_def file_op_def client_run_def read_line_def
      split: prod.splits sum.splits list.splits) (metis snd_conv)+

lemma config_target: "(\<And>h u. moves (same_config E p) (k h u)) \<Longrightarrow> moves (same_config E p) (with_target c k)"
  by (simp add: with_target_def config.moves_raise split: option.splits)

lemma steps_keep_config:
  assumes "config_stays E p"
  shows "moves (same_config E p) (key_exists E c)" "moves (same_config E p) (generate_key E c)"
    and "moves (same_config E p) (endpoint_configured E c)" "moves (same_config E p) (prompt_endpoint c)"
    and "moves (same_config E p) (ping_ok E c)" "moves (same_config E p) (check_connectivity E c)"
    and "moves (same_config E p) (key_auth_works E c)" "moves (same_config E p) (deploy_key E c)"
    and "moves (same_config E p) (config_exists E c)"
proof -
  note ops = config.moves_rules same_config_ops [OF assms]
  show ping: "moves (same_config E p) (ping_ok E c)"
    unfolding ping_ok_def by (auto intro!: ops split: option.splits)
  show "moves (same_config E p) (key_exists E c)" unfolding key_exists_def by (intro ops)
  show "moves (same_config E p) (generate_key E c)"
    unfolding generate_key_def by (auto intro!: ops split: run_outcome.splits)
  show "moves (same_config E p) (endpoint_configured E c)"
    unfolding endpoint_configured_def by (auto intro!: ops split: option.splits)
  show "moves (same_config E p) (prompt_endpoint c)"
    unfolding prompt_endpoint_def typer_prompt_def by (auto intro!: ops split: console_input.splits)
  show "moves (same_config E p) (check_connectivity E c)"
    unfolding check_connectivity_def by (auto intro!: ops ping)
  show "moves (same_config E p) (key_auth_works E c)"
    unfolding key_auth_works_def by (auto intro!: config_target ops split: option.splits)
  show "moves (same_config E p) (deploy_key E c)"
    unfolding deploy_key_def by (auto intro!: config_target ops simp: Let_def split: option.splits run_outcome.splits)
  show "moves (same_config E p) (config_exists E c)"
    unfolding config_exists_def by (auto intro!: config_target ops)
qed


lemma act_bind_Ok_iff:
  "act_bind m k w = (Ok b, w') \<longleftrightarrow> (\<exists>a u. m w = (Ok a, u) \<and> k a u = (Ok b, w'))"
  by (auto simp: act_simps split: prod.splits sum.splits)

lemma with_target_Ok:
  "with_target c k w = (Ok b, w') \<longleftrightarrow>
     (\<exists>h u. truthy (sc_host c) = Some h \<and> truthy (sc_user c) = Some u \<and> k h u w = (Ok b, w'))"
  by (auto simp: with_target_def act_simps split: option.splits)

lemma config_client:
  "(\<And>cl. moves (same_config E p) (k ((cl_laptop E)\<lparr>la_client := cl\<rparr>))) \<Longrightarrow>
     moves (same_config E p) (act_bind (client_for E cid e strict) k)"
  unfolding client_for_def
  by (cases "new_client (cl_which E) e cid strict 10 None None") (simp_all add: moves_def same_config_def act_simps)

lemma probes_keep_config:
  assumes "config_stays E p"
  shows "moves (same_config E p) (remote_probe_ok E c)" "moves (same_config E p) (run_remote_probe E c)"
proof -
  note ops = config.moves_rules same_config_ops [OF assms]
  have passes: "moves (same_config E p) (probe_passes L r)" for L r
    unfolding probe_passes_def by (auto intro!: ops split: option.splits)
  have shown: "moves (same_config E p) (show_check v)" for v
    unfolding show_check_def by (auto intro!: ops)
  show "moves (same_config E p) (remote_probe_ok E c)"
    unfolding remote_probe_ok_def probe_session_def
    by (auto intro!: config_target config_client ops passes split: option.splits)
  show "moves (same_config E p) (run_remote_probe E c)"
    unfolding run_remote_probe_def probe_session_def
    by (auto intro!: config_target config_client ops shown split: option.splits)
qed

text \<open>Every step but the second returns the context it was given; the second keeps all but host and user.\<close>

lemma on_success_Ok:
  "(case out of RunNoBinary \<Rightarrow> act_raise e1 | RunTimeout \<Rightarrow> act_raise e2
     | RunExit rc so se \<Rightarrow> if rc \<noteq> 0 then act_raise e3 else act_ret c) w = (Ok c', w') \<Longrightarrow> c' = c \<and> w' = w"
  by (cases out) (auto simp: act_simps split: if_split_asm)

lemma steps_keep_context:
  "generate_key E c w = (Ok c', w') \<Longrightarrow> c' = c"
  "check_connectivity E c w = (Ok c', w') \<Longrightarrow> c' = c"
  "deploy_key E c w = (Ok c', w') \<Longrightarrow> c' = c"
  "write_config E c w = (Ok c', w') \<Longrightarrow> c' = c"
  "run_remote_probe E c w = (Ok c', w') \<Longrightarrow> c' = c"
  by (auto simp: generate_key_def check_connectivity_def deploy_key_def write_config_def run_remote_probe_def
      act_bind_Ok_iff act_then_def with_target_Ok Let_def act_run(1,2) dest!: on_success_Ok
      split: option.split_asm if_split_asm)

definition fills_in :: "setup_context \<Rightarrow> setup_context \<Rightarrow> bool" where
  "fills_in c c' \<longleftrightarrow> sc_key_path c' = sc_key_path c \<and> sc_config_path c' = sc_config_path c
     \<and> sc_force c' = sc_force c \<and> sc_correlation_id c' = sc_correlation_id c"

lemma endpoint_fills_in:
  "endpoint_configured E c w = (Ok (b, c'), w') \<Longrightarrow> fills_in c c'"
  "prompt_endpoint c w = (Ok c', w') \<Longrightarrow> fills_in c c'"
  by (auto simp: endpoint_configured_def prompt_endpoint_def from_config_def of_result_def look_def fills_in_def
      act_bind_Ok_iff act_run(1,2) split: if_split_asm option.split_asm sum.split_asm config_error.split_asm)

lemma setup_one_Ok:
  assumes "setup_one s c w = (Ok c', w')"
  shows "(\<exists>v. st_check s c w = (Ok (True, c'), w') \<and> \<not> sc_force c)
    \<or> (\<exists>b d v. st_check s c w = (Ok (b, d), v) \<and> st_execute s d v = (Ok c', w'))
    \<or> (sc_force c \<and> st_execute s c w = (Ok c', w'))"
  using assms by (auto simp: setup_one_def act_bind_Ok_iff act_run(1,2) split: if_split_asm)

lemma setup_one_pure:
  assumes "setup_one \<lparr>st_name = n, st_check = pure_check m, st_execute = ex\<rparr> c w = (Ok c', w')"
  shows "m c w = (Ok True, w') \<and> c' = c \<or> (\<exists>v. (v = w \<or> (\<exists>b. m c w = (Ok b, v))) \<and> ex c v = (Ok c', w'))"
  using setup_one_Ok [OF assms] by (auto simp: pure_check_def act_bind_Ok_iff act_run(1,2))

lemma setup_one_keeps:
  assumes "setup_one \<lparr>st_name = n, st_check = pure_check m, st_execute = ex\<rparr> c w = (Ok c', w')"
    and "moves (same_config E p) (m c)" "moves (same_config E p) (ex c)"
    and "\<And>v. ex c v = (Ok c', w') \<Longrightarrow> c' = c"
  shows "c' = c \<and> same_config E p w w'"
  using setup_one_pure [OF assms(1)] assms(4) movesD [OF assms(2)] movesD [OF assms(3)]
  by (metis config.refl config.trans)

text \<open>The steps before the configuration step.\<close>

lemma endpoint_step:
  assumes "config_stays E p"
  shows "endpoint_configured E c w = (Ok (b, c'), w') \<Longrightarrow> fills_in c c' \<and> same_config E p w w'"
    and "prompt_endpoint c w = (Ok c', w') \<Longrightarrow> fills_in c c' \<and> same_config E p w w'"
  using endpoint_fills_in movesD [OF steps_keep_config(3) [OF assms]] movesD [OF steps_keep_config(4) [OF assms]]
  by blast+

lemma first_steps:
  assumes "setup_loop (take 4 (SETUP_STEPS E)) c w = (Ok c', w')" and "config_stays E p"
  shows "fills_in c c' \<and> same_config E p w w'"
proof -
  note keeps = steps_keep_config [OF assms(2)]
  obtain c1 w1 c2 w2 c3 w3 where
    s1: "setup_one \<lparr>st_name = ''ssh_key'', st_check = pure_check (key_exists E), st_execute = generate_key E\<rparr> c w = (Ok c1, w1)"
    and s2: "setup_one \<lparr>st_name = ''endpoint'', st_check = endpoint_configured E, st_execute = prompt_endpoint\<rparr> c1 w1 = (Ok c2, w2)"
    and s3: "setup_one \<lparr>st_name = ''connectivity'', st_check = pure_check (ping_ok E), st_execute = check_connectivity E\<rparr> c2 w2 = (Ok c3, w3)"
    and s4: "setup_one \<lparr>st_name = ''key_deployed'', st_check = pure_check (key_auth_works E), st_execute = deploy_key E\<rparr> c3 w3 = (Ok c', w')"
    using assms(1) by (auto simp: SETUP_STEPS_def act_bind_Ok_iff act_run(1))
  have 1: "c1 = c \<and> same_config E p w w1"
    by (rule setup_one_keeps [OF s1 keeps(1,2)]) (rule steps_keep_context)
  have 3: "c3 = c2 \<and> same_config E p w2 w3"
    by (rule setup_one_keeps [OF s3 keeps(5,6)]) (rule steps_keep_context)
  have 4: "c' = c3 \<and> same_config E p w3 w'"
    by (rule setup_one_keeps [OF s4 keeps(7,8)]) (rule steps_keep_context)
  have 2: "fills_in c1 c2 \<and> same_config E p w1 w2"
    using setup_one_Ok [OF s2] by (auto simp: fills_in_def same_config_def dest!: endpoint_step [OF assms(2)])
  show ?thesis using 1 2 3 4 config.trans by metis
qed


text \<open>The configuration step leaves a file that names the host, the user and the key of the context.\<close>

definition setup_config :: "laptop_config \<Rightarrow> setup_context \<Rightarrow> string \<Rightarrow> string \<Rightarrow> laptop_config" where
  "setup_config conf c host user = conf\<lparr>lc_jetson := Some (setup_endpoint c host user)\<rparr>"

definition points_to :: "setup_context \<Rightarrow> laptop_config \<Rightarrow> bool" where
  "points_to c conf \<longleftrightarrow>
     (\<exists>e. lc_jetson conf = Some e \<and> truthy (sc_host c) = Some (je_host e) \<and> truthy (sc_user c) = Some (je_user e)
        \<and> je_key_path e = Some (sc_key_path c))"

lemma existing_wf:
  assumes "existing_config (laptop_config_at E path r) = Ok conf"
    and "\<And>s v. cl_read E (config_path E path) r = Some s \<Longrightarrow> la_yaml_load (cl_laptop E) s = Some v \<Longrightarrow> laptop_doc (cl_expand E) v"
  shows "extra_wf [''jetson''] (lc_extra conf)"
proof (cases "laptop_config_at E path r")
  case (Inl e)
  then show ?thesis using assms(1)
    by (cases e) (auto simp: existing_config_def extra_wf_def dict_ok_def dict_keys_def)
next
  case (Inr conf')
  then have "laptop_wf (cl_expand E) conf"
    using assms laptop.loaded_wf [of "la_yaml_load (cl_laptop E)" "cl_expand E" "cl_read E (config_path E path) r" conf]
    by (simp add: existing_config_def laptop_config_at_def load_laptop_config_def)
  then show ?thesis by (simp add: laptop_wf_def)
qed

lemma written_reads_back:
  assumes "config_stays E p" and "file_op (cl_laptop E) (LocalWrite p s) w = (Ok x, w')"
  shows "cl_read E p (w_rest w') = Some s"
proof -
  obtain b r where f: "la_file (cl_laptop E) (LocalWrite p s) (w_rest w) = (b, r)"
    by (cases "la_file (cl_laptop E) (LocalWrite p s) (w_rest w)")
  then have "b" "w_rest w' = r" using assms(2) by (auto simp: file_op_def split: if_split_asm)
  then show ?thesis using assms(1) f unfolding config_stays_def by (metis fst_conv snd_conv)
qed

lemma look_of_result_Ok: "look f w = (Ok a, u) \<longleftrightarrow> a = f (w_rest w) \<and> u = w"
  "of_result x w = (Ok b, u) \<longleftrightarrow> x = Ok b \<and> u = w"
  by (auto simp: look_def of_result_def act_simps split: sum.splits)

lemma write_config_Ok:
  assumes "write_config E c w = (Ok c', w')" and "config_stays E (config_path E (sc_config_path c))"
    and "existing_config (laptop_config_at E (sc_config_path c) (w_rest w)) = Ok conf"
    and "\<And>s v. cl_read E (config_path E (sc_config_path c)) (w_rest w) = Some s \<Longrightarrow>
           la_yaml_load (cl_laptop E) s = Some v \<Longrightarrow> laptop_doc (cl_expand E) v"
    and "\<And>h u. truthy (sc_host c) = Some h \<Longrightarrow> truthy (sc_user c) = Some u \<Longrightarrow>
           la_yaml_load (cl_laptop E) (save_laptop_config (la_yaml_dump (cl_laptop E)) (setup_config conf c h u))
             = Some (sort_keys (VDict (laptop_payload (setup_config conf c h u))))"
    and "cl_expand E (sc_key_path c) = sc_key_path c"
  shows "\<exists>conf'. laptop_config_at E (sc_config_path c) (w_rest w') = Ok conf' \<and> points_to c conf'
     \<and> (\<exists>e. lc_jetson conf' = Some e \<and> je_port e = 22)"
proof -
  let ?p = "config_path E (sc_config_path c)"
  obtain h u where t: "truthy (sc_host c) = Some h" "truthy (sc_user c) = Some u"
    and read: "cl_read E ?p (w_rest w') = Some (save_laptop_config (la_yaml_dump (cl_laptop E)) (setup_config conf c h u))"
    using assms(1-3)
    by (auto simp: write_config_def with_target_Ok act_bind_Ok_iff act_then_def look_of_result_Ok act_run(1,2) Let_def
        setup_config_def dest: written_reads_back)
  have "laptop_wf (cl_expand E) (setup_config conf c h u)"
    using existing_wf [OF assms(3,4)] assms(6)
    by (simp add: laptop_wf_def setup_config_def setup_endpoint_def port_ok_def)
  then have "load_laptop_config (cl_expand E) (la_yaml_load (cl_laptop E)) (cl_read E ?p (w_rest w'))
      = Ok (laptop_norm (setup_config conf c h u))"
    using laptop.load_save [of "la_yaml_load (cl_laptop E)" "la_yaml_dump (cl_laptop E)" "setup_config conf c h u" "cl_expand E"]
      assms(5) [OF t] by (simp add: read load_laptop_config_def save_laptop_config_def)
  then show ?thesis using t
    by (simp add: laptop_config_at_def points_to_def laptop_norm_def setup_config_def setup_endpoint_def)
qed


definition config_step :: "'r cli \<Rightarrow> 'r setup_step" where
  "config_step E = \<lparr>st_name = ''config'', st_check = pure_check (config_exists E), st_execute = write_config E\<rparr>"

definition probe_step :: "'r cli \<Rightarrow> 'r setup_step" where
  "probe_step E = \<lparr>st_name = ''verify'', st_check = pure_check (remote_probe_ok E), st_execute = run_remote_probe E\<rparr>"

lemma setup_steps_split: "SETUP_STEPS E = take 4 (SETUP_STEPS E) @ [config_step E, probe_step E]"
  by (simp add: SETUP_STEPS_def config_step_def probe_step_def)

lemma setup_loop_append: "setup_loop (xs @ ys) c w = act_bind (setup_loop xs c) (setup_loop ys) w"
  by (induction xs arbitrary: c w) (auto simp: act_simps split: prod.splits sum.splits)

lemma config_matches_True:
  "config_matches c h u loaded = Ok True \<Longrightarrow>
     \<exists>conf e. loaded = Ok conf \<and> lc_jetson conf = Some e \<and> je_host e = h \<and> je_user e = u \<and> je_key_path e = Some (sc_key_path c)"
  by (cases loaded) (auto simp: config_matches_def split: config_error.split_asm option.split_asm)

lemma config_exists_Ok:
  assumes "config_exists E c w = (Ok True, w')"
  shows "\<exists>conf. laptop_config_at E (sc_config_path c) (w_rest w') = Ok conf \<and> points_to c conf"
  using assms
  by (auto simp: config_exists_def with_target_Ok act_bind_Ok_iff look_of_result_Ok points_to_def dest!: config_matches_True)

lemma same_config_load:
  "same_config E (config_path E path) w w' \<Longrightarrow>
     laptop_config_at E path (w_rest w') = laptop_config_at E path (w_rest w)"
  by (simp add: same_config_def laptop_config_at_def)

lemma config_step_Ok:
  assumes run: "setup_one (config_step E) c w = (Ok c', w')" and stays: "config_stays E (config_path E (sc_config_path c))"
    and conf: "existing_config (laptop_config_at E (sc_config_path c) (w_rest w)) = Ok conf"
    and docs: "\<And>s v. cl_read E (config_path E (sc_config_path c)) (w_rest w) = Some s \<Longrightarrow>
           la_yaml_load (cl_laptop E) s = Some v \<Longrightarrow> laptop_doc (cl_expand E) v"
    and yaml: "\<And>h u. truthy (sc_host c) = Some h \<Longrightarrow> truthy (sc_user c) = Some u \<Longrightarrow>
           la_yaml_load (cl_laptop E) (save_laptop_config (la_yaml_dump (cl_laptop E)) (setup_config conf c h u))
             = Some (sort_keys (VDict (laptop_payload (setup_config conf c h u))))"
    and key: "cl_expand E (sc_key_path c) = sc_key_path c"
  shows "c' = c \<and> (\<exists>conf'. laptop_config_at E (sc_config_path c) (w_rest w') = Ok conf' \<and> points_to c conf'
           \<and> (sc_force c \<longrightarrow> (\<exists>e. lc_jetson conf' = Some e \<and> je_port e = 22)))"
proof -
  consider (skipped) "config_exists E c w = (Ok True, w')" "c' = c" "\<not> sc_force c"
    | (wrote) v where "same_config E (config_path E (sc_config_path c)) w v" "write_config E c v = (Ok c', w')"
    using setup_one_Ok [OF run]
    by (auto simp: config_step_def pure_check_def act_bind_Ok_iff act_run(1)
        intro: config.refl dest: movesD [OF steps_keep_config(9) [OF stays]])
  then show ?thesis
  proof cases
    case skipped
    then show ?thesis using config_exists_Ok by blast
  next
    case wrote
    note same = same_config_load [OF wrote(1)] wrote(1) [unfolded same_config_def]
    have "\<exists>conf'. laptop_config_at E (sc_config_path c) (w_rest w') = Ok conf' \<and> points_to c conf'
       \<and> (\<exists>e. lc_jetson conf' = Some e \<and> je_port e = 22)"
      by (rule write_config_Ok [OF wrote(2) stays _ _ yaml key]) (use conf docs in \<open>simp_all add: same\<close>)
    then show ?thesis using steps_keep_context(4) [OF wrote(2)] by blast
  qed
qed

text \<open>With no option and no environment variable the configuration file decides.\<close>

definition no_options :: "string option \<Rightarrow> string \<Rightarrow> jetson_opts" where
  "no_options config strict =
     \<lparr>o_host = None, o_user = None, o_port = None, o_key = None, o_config = config, o_strict = strict\<rparr>"

definition no_variables :: "'r cli \<Rightarrow> bool" where
  "no_variables E \<longleftrightarrow> list_all (\<lambda>k. truthy (env_var E k) = None)
     [''MOWER_JETSON_HOST'', ''MOWER_JETSON_USER'', ''MOWER_JETSON_PORT'', ''MOWER_JETSON_KEY'']"

lemma resolve_from_config:
  assumes "laptop_config_at E config (w_rest w) = Ok conf" and "lc_jetson conf = Some e" and "no_variables E"
  shows "resolve_endpoint E (no_options config strict) w = (Ok e, w)"
  using assms
  by (auto simp: resolve_endpoint_def resolved_host_def resolved_user_def resolved_port_def resolved_key_def no_options_def
      no_variables_def look_def of_result_def act_simps truthy_def str_or_def split: option.splits if_split_asm)

section \<open>Properties\<close>

text \<open>
  C18: After the setup wizard has completed, every later command that is given no option and finds no
  environment variable resolves to the Jetson that was set up: the host and the user of the
  wizard's final context, wherever they came from, and its key. The port is 22 when the wizard
  wrote the file; a file that already named this host, user and key keeps its port.
\<close>

theorem setup_resolves:
  assumes "setup_command E obj host user key config force w = (Ok c, w')"
    and "config_stays E (config_path E config)"
    and "existing_config (laptop_config_at E config (w_rest w)) = Ok conf"
    and "\<And>s v. cl_read E (config_path E config) (w_rest w) = Some s \<Longrightarrow>
           la_yaml_load (cl_laptop E) s = Some v \<Longrightarrow> laptop_doc (cl_expand E) v"
    and "\<And>h u. truthy (sc_host c) = Some h \<Longrightarrow> truthy (sc_user c) = Some u \<Longrightarrow>
           la_yaml_load (cl_laptop E) (save_laptop_config (la_yaml_dump (cl_laptop E)) (setup_config conf c h u))
             = Some (sort_keys (VDict (laptop_payload (setup_config conf c h u))))"
    and "cl_expand E (sc_key_path c) = sc_key_path c"
    and "no_variables E"
  shows "\<exists>e. resolve_endpoint E (no_options config strict) w' = (Ok e, w')
     \<and> sc_host c = Some (je_host e) \<and> je_host e \<noteq> [] \<and> sc_user c = Some (je_user e) \<and> je_user e \<noteq> []
     \<and> je_key_path e = Some (case key of None \<Rightarrow> cl_default_key E | Some k \<Rightarrow> k)
     \<and> (force \<longrightarrow> je_port e = 22)"
proof -
  let ?c0 = "\<lparr>sc_host = host, sc_user = user, sc_key_path = (case key of None \<Rightarrow> cl_default_key E | Some k \<Rightarrow> k),
    sc_config_path = config, sc_force = force, sc_correlation_id = ob_correlation_id obj\<rparr>"
  obtain c1 w1 c2 w2 where r1: "setup_loop (take 4 (SETUP_STEPS E)) ?c0 w = (Ok c1, w1)"
    and r2: "setup_one (config_step E) c1 w1 = (Ok c2, w2)" and r3: "setup_one (probe_step E) c2 w2 = (Ok c, w')"
    using assms(1) unfolding setup_command_def
    by (subst (asm) setup_steps_split) (auto simp: setup_loop_append act_bind_Ok_iff act_run(1))
  have c1: "sc_config_path c1 = config" "sc_force c1 = force"
    "sc_key_path c1 = (case key of None \<Rightarrow> cl_default_key E | Some k \<Rightarrow> k)"
    and same1: "same_config E (config_path E config) w w1"
    using first_steps [OF r1 assms(2)] by (auto simp: fills_in_def)
  have c: "c = c2" and same3: "same_config E (config_path E config) w2 w'"
    using setup_one_keeps [OF r3 [unfolded probe_step_def] probes_keep_config [OF assms(2)]] steps_keep_context(5) by blast+
  have c2: "c2 = c1" using r2 steps_keep_context(4)
    by (auto simp: config_step_def dest!: setup_one_pure)
  note at = same_config_load [OF same1] same1 [unfolded same_config_def] c1
  from config_step_Ok [OF r2, of conf] obtain conf' where
    "laptop_config_at E config (w_rest w2) = Ok conf'" and "points_to c conf'"
    and "force \<longrightarrow> (\<exists>e. lc_jetson conf' = Some e \<and> je_port e = 22)"
    using assms(2-6) by (auto simp: at c c2)
  then show ?thesis using resolve_from_config [OF _ _ assms(7), of config w' conf'] same_config_load [OF same3]
    by (auto simp: points_to_def truthy_def str_or_def c c2 c1 split: option.split_asm if_split_asm)
qed


text \<open>A laptop whose state is the text of its configuration file, and a Jetson that answers.\<close>

definition fresh_config :: laptop_config where
  "fresh_config = setup_config \<lparr>lc_jetson = None, lc_extra = []\<rparr>
     \<lparr>sc_host = Some ''jetson'', sc_user = Some ''mower'', sc_key_path = ''/home/op/.ssh/mower'', sc_config_path = None,
      sc_force = False, sc_correlation_id = None\<rparr> ''jetson'' ''mower''"

definition new_laptop :: "string option laptop" where
  "new_laptop = \<lparr>
     la_client = \<lparr>jc_endpoint = \<lparr>je_host = [], je_user = [], je_port = 22, je_key_path = None\<rparr>,
       jc_correlation_id = None, jc_strict_host_keys = ''accept-new'', jc_connect_timeout_s = 10, jc_ssh = None, jc_scp = None\<rparr>,
     la_environ = [], la_spawn = (\<lambda>argv env t r. (RunExit 0 (Some ''[]'') None, 1, r)),
     la_popen = (\<lambda>argv env r. (StreamNoBinary, 0, r)), la_sleep = (\<lambda>n r. (0, r)), la_wall = (\<lambda>t r. int t),
     la_file = (\<lambda>f r. case f of LocalWrite p s \<Rightarrow> (True, Some s) | _ \<Rightarrow> (True, r)),
     la_exists = (\<lambda>p r. True), la_is_dir = (\<lambda>p r. True), la_glob = (\<lambda>d p r. []), la_tmpdir = (\<lambda>r. ''/tmp''),
     la_today = (\<lambda>r. ''20250101''), la_home = ''/home/op'', la_vslam_defaults = [],
     la_loads = (\<lambda>s. if s = ''[]'' then Some (VList []) else None),
     la_yaml_load = (\<lambda>s. Some (sort_keys (VDict (laptop_payload fresh_config)))), la_yaml_dump = (\<lambda>v. ''jetson: ...'')\<rparr>"

definition new_cli :: "string option cli" where
  "new_cli = \<lparr>cl_laptop = new_laptop, cl_which = (\<lambda>b. Some (''/usr/bin/'' @ b)), cl_expand = (\<lambda>s. s),
     cl_read = (\<lambda>p r. r), cl_default_config = ''/home/op/laptop.yaml'', cl_default_key = ''/home/op/.ssh/mower'',
     cl_windows = False\<rparr>"

definition new_world :: "string option world" where
  "new_world = \<lparr>w_now = 0, w_input = [], w_log = [], w_rest = None\<rparr>"

abbreviation setup_demo :: "setup_context" where
  "setup_demo \<equiv> \<lparr>sc_host = Some ''jetson'', sc_user = Some ''mower'', sc_key_path = ''/home/op/.ssh/mower'', sc_config_path = None,
      sc_force = False, sc_correlation_id = None\<rparr>"

lemma demo_setup_runs:
  "\<exists>w'. setup_command new_cli \<lparr>ob_dry_run = False, ob_correlation_id = None\<rparr> (Some ''jetson'') (Some ''mower'') None None False new_world
     = (Ok setup_demo, w')"
  by (simp add: setup_command_def SETUP_STEPS_def setup_one_def pure_check_def key_exists_def endpoint_configured_def
      ping_ok_def key_auth_works_def config_exists_def write_config_def remote_probe_ok_def probe_session_def client_for_def
      probe_passes_def with_target_def truthy_def str_or_def look_def of_result_def local_run_def file_op_def client_run_def
      ssh_run_def build_ssh_argv_def exits_zero_def existing_config_def config_matches_def laptop_config_at_def
      load_laptop_config_def load_config_def new_client_def HOST_KEY_POLICIES_def catch_ssh_def act_then_def act_simps Let_def
      advance_def captured_def sr_ok_def new_cli_def new_laptop_def new_world_def)

theorem setup_resolves_witness:
  "\<exists>w' e. setup_command new_cli \<lparr>ob_dry_run = False, ob_correlation_id = None\<rparr> (Some ''jetson'') (Some ''mower'') None None False new_world
       = (Ok setup_demo, w')
     \<and> resolve_endpoint new_cli (no_options None ''accept-new'') w' = (Ok e, w') \<and> je_host e = ''jetson'' \<and> je_user e = ''mower''"
proof -
  obtain w' where run: "setup_command new_cli \<lparr>ob_dry_run = False, ob_correlation_id = None\<rparr> (Some ''jetson'') (Some ''mower'') None None False new_world
     = (Ok setup_demo, w')" using demo_setup_runs by blast
  have "\<exists>e. resolve_endpoint new_cli (no_options None ''accept-new'') w' = (Ok e, w')
     \<and> sc_host setup_demo = Some (je_host e) \<and> je_host e \<noteq> [] \<and> sc_user setup_demo = Some (je_user e) \<and> je_user e \<noteq> []
     \<and> je_key_path e = Some (case None of None \<Rightarrow> cl_default_key new_cli | Some k \<Rightarrow> k)
     \<and> (False \<longrightarrow> je_port e = 22)"
  proof (rule setup_resolves [OF run, where conf = "\<lparr>lc_jetson = None, lc_extra = []\<rparr>"])
    show "config_stays new_cli (config_path new_cli None)"
      by (simp add: config_stays_def new_cli_def new_laptop_def)
    show "existing_config (laptop_config_at new_cli None (w_rest new_world)) = Ok \<lparr>lc_jetson = None, lc_extra = []\<rparr>"
      by (simp add: existing_config_def laptop_config_at_def load_laptop_config_def load_config_def new_cli_def new_world_def)
    show "no_variables new_cli"
      by (simp add: no_variables_def env_var_def dict_get_def truthy_def str_or_def new_cli_def new_laptop_def)
  qed (auto simp: new_cli_def new_laptop_def new_world_def fresh_config_def truthy_def str_or_def)
  then show ?thesis using run by auto
qed

end
