(* ===== verification/Detect.thy ===== *)
theory Detect
  imports Link PyValue
begin

text \<open>
  Hardware detection, \<open>cli/detect.py\<close>: after one request for the autopilot's version the messages of a
  time window are collected into a report. A message has the fields the code asks for with
  \<open>getattr\<close>; a missing one is \<open>None\<close>. Rendering is left out.
\<close>

section \<open>Messages and report\<close>

record gps_raw =
  gr_fix_type :: "int option"
  gr_satellites :: "int option"
  gr_eph :: "int option"
  gr_yaw :: "int option"

record radio_status =
  rssi :: "int option"
  remrssi :: "int option"
  txbuf_pct :: "int option"
  noise :: "int option"
  remnoise :: "int option"

text \<open>The instance is 0 for the first receiver and 1 for the second; the raw servo values of channels 1 and 3.\<close>

datatype det_msg =
    DetHeartbeat int int
  | AutopilotVersion "nat option"
  | GpsRaw int gps_raw
  | GpsRtk int "int option" "int option"
  | ServoOutput "int option" "int option"
  | RadioStatus radio_status
  | EkfStatus "int option"
  | OtherMessage

datatype det_out = RequestCapabilities

record gnss_status =
  gs_instance :: int
  gs_fix_type :: "int option"
  gs_satellites :: "int option"
  gs_hdop :: "pyfloat option"
  gs_yaw_deg :: "pyfloat option"
  gs_rtk_baseline_mm :: "int option"
  gs_rtk_iar :: "int option"

record detect_report =
  dr_endpoint :: string
  dr_autopilot_version :: "string option"
  dr_vehicle_type :: "int option"
  dr_is_rover :: bool
  dr_autopilot_id :: "int option"
  dr_firmware_raw :: "nat option"
  dr_gnss :: "gnss_status list"
  dr_servos :: "(int \<times> int) list"
  dr_radio :: "radio_status option"
  dr_ekf_flags :: "int option"
  dr_warnings :: "string list"

definition new_report :: "string \<Rightarrow> detect_report" where
  "new_report endpoint = \<lparr>dr_endpoint = endpoint, dr_autopilot_version = None, dr_vehicle_type = None, dr_is_rover = False,
     dr_autopilot_id = None, dr_firmware_raw = None, dr_gnss = [], dr_servos = [], dr_radio = None, dr_ekf_flags = None,
     dr_warnings = []\<rparr>"

definition new_gnss :: "int \<Rightarrow> gnss_status" where
  "new_gnss i = \<lparr>gs_instance = i, gs_fix_type = None, gs_satellites = None, gs_hdop = None, gs_yaw_deg = None,
     gs_rtk_baseline_mm = None, gs_rtk_iar = None\<rparr>"

section \<open>Collecting\<close>

definition MAV_TYPE_GROUND_ROVER :: int where "MAV_TYPE_GROUND_ROVER = 11"

definition is_det_heartbeat :: "det_msg \<Rightarrow> bool" where
  "is_det_heartbeat m \<longleftrightarrow> (case m of DetHeartbeat t a \<Rightarrow> True | _ \<Rightarrow> False)"

definition with_heartbeat :: "det_msg option \<Rightarrow> detect_report \<Rightarrow> detect_report" where
  "with_heartbeat hb r =
     (case hb of
        Some (DetHeartbeat t a) \<Rightarrow>
          r\<lparr>dr_vehicle_type := Some t, dr_autopilot_id := Some a, dr_is_rover := (t = MAV_TYPE_GROUND_ROVER),
            dr_warnings := dr_warnings r @ (if t = MAV_TYPE_GROUND_ROVER then []
              else [''vehicle type '' @ str_int t @ '' is not MAV_TYPE_GROUND_ROVER (11)''])\<rparr>
      | _ \<Rightarrow> r)"

text \<open>\<open>f"0x{fw:08x}"\<close>.\<close>

fun hex_digits :: "nat \<Rightarrow> string" where
  "hex_digits n = (if n < 16 then [hex_digit n] else hex_digits (n div 16) @ [hex_digit (n mod 16)])"

declare hex_digits.simps [simp del]

definition hex8 :: "nat \<Rightarrow> string" where
  "hex8 n = (let ds = hex_digits n in ''0x'' @ replicate (8 - length ds) CHR ''0'' @ ds)"

text \<open>\<open>getattr(msg, name, old)\<close>.\<close>

definition or_old :: "'a option \<Rightarrow> 'a option \<Rightarrow> 'a option" where
  "or_old new old = (case new of None \<Rightarrow> old | Some x \<Rightarrow> Some x)"

definition hundredth :: "int \<Rightarrow> pyfloat" where "hundredth n = rnd (of_int n / 100)"

definition with_raw :: "gps_raw \<Rightarrow> gnss_status \<Rightarrow> gnss_status" where
  "with_raw m g = g\<lparr>gs_fix_type := or_old (gr_fix_type m) (gs_fix_type g),
     gs_satellites := or_old (gr_satellites m) (gs_satellites g),
     gs_hdop := (case gr_eph m of Some e \<Rightarrow> if e \<noteq> 65535 then Some (hundredth e) else gs_hdop g | None \<Rightarrow> gs_hdop g),
     gs_yaw_deg := (case gr_yaw m of Some y \<Rightarrow> if y \<notin> {0, 65535} then Some (hundredth y) else gs_yaw_deg g
                    | None \<Rightarrow> gs_yaw_deg g)\<rparr>"

definition with_rtk :: "int option \<Rightarrow> int option \<Rightarrow> gnss_status \<Rightarrow> gnss_status" where
  "with_rtk baseline iar g = g\<lparr>gs_rtk_baseline_mm := or_old baseline (gs_rtk_baseline_mm g), gs_rtk_iar := or_old iar (gs_rtk_iar g)\<rparr>"

text \<open>\<open>if pwm: servo_by_channel[ch] = ...\<close>: neither a missing value nor zero is stored.\<close>

definition store_pwm :: "int \<Rightarrow> int option \<Rightarrow> (int, int) dict \<Rightarrow> (int, int) dict" where
  "store_pwm ch pwm d = (case pwm of None \<Rightarrow> d | Some v \<Rightarrow> if v = 0 then d else dict_set ch v d)"

record det_state =
  ds_report :: detect_report
  ds_gnss :: "(int, gnss_status) dict"
  ds_servos :: "(int, int) dict"

definition update_gnss :: "int \<Rightarrow> (gnss_status \<Rightarrow> gnss_status) \<Rightarrow> det_state \<Rightarrow> det_state" where
  "update_gnss i f s = s\<lparr>ds_gnss := dict_set i (f (dict_get_or (ds_gnss s) i (new_gnss i))) (ds_gnss s)\<rparr>"

fun observe :: "det_msg \<Rightarrow> det_state \<Rightarrow> det_state" where
  "observe (AutopilotVersion fw) s =
     s\<lparr>ds_report := (ds_report s)\<lparr>dr_firmware_raw := fw, dr_autopilot_version := map_option hex8 fw\<rparr>\<rparr>"
| "observe (GpsRaw i m) s = update_gnss i (with_raw m) s"
| "observe (GpsRtk i baseline iar) s = update_gnss i (with_rtk baseline iar) s"
| "observe (ServoOutput p1 p3) s = s\<lparr>ds_servos := store_pwm 3 p3 (store_pwm 1 p1 (ds_servos s))\<rparr>"
| "observe (RadioStatus r) s = s\<lparr>ds_report := (ds_report s)\<lparr>dr_radio := Some r\<rparr>\<rparr>"
| "observe (EkfStatus f) s = s\<lparr>ds_report := (ds_report s)\<lparr>dr_ekf_flags := f\<rparr>\<rparr>"
| "observe m s = s"

definition finish_report :: "det_state \<Rightarrow> detect_report" where
  "finish_report s =
     (let gnss = map snd (sort_key fst (ds_gnss s)); servos = sort_key fst (ds_servos s)
      in (ds_report s)\<lparr>dr_gnss := gnss, dr_servos := servos,
           dr_warnings := dr_warnings (ds_report s)
             @ (if gnss = [] then [''no GPS messages observed''] else [])
             @ (if 1 \<notin> fst ` set servos then [''SERVO1 (steering left) not reporting''] else [])
             @ (if 3 \<notin> fst ` set servos then [''SERVO3 (steering right) not reporting''] else [])\<rparr>)"

definition collect_pass :: "pyfloat \<Rightarrow> det_state \<Rightarrow> det_msg obs \<Rightarrow> det_out list \<times> (det_state, det_state) pass" where
  "collect_pass deadline s p =
     (if \<not> flt (fst p) deadline then ([], Leave s)
      else ([], Again (case snd p of None \<Rightarrow> s | Some m \<Rightarrow> observe m s)))"

text \<open>The request is sent inside a handler that ignores every exception; \<open>window\<close> is in seconds.\<close>

definition collect :: "string \<Rightarrow> bool \<Rightarrow> pyfloat \<Rightarrow> (det_out, det_msg, detect_report) io" where
  "collect endpoint can_send window =
     io_bind io_recv (\<lambda>m.
     io_bind (if can_send then io_emit RequestCapabilities else io_ret ()) (\<lambda>_.
     io_bind io_clock (\<lambda>start.
     io_bind (poll (\<lambda>_. True) (collect_pass (fadd start window))
         \<lparr>ds_report = with_heartbeat (recv_match is_det_heartbeat m) (new_report endpoint), ds_gnss = [], ds_servos = []\<rparr>) (\<lambda>res.
       case res of Inr s \<Rightarrow> io_ret (finish_report s) | Inl s \<Rightarrow> (\<lambda>tr. ([], None))))))"

section \<open>What a report says\<close>

text \<open>The loop is a fold over the messages that arrive before the deadline.\<close>

definition messages :: "det_msg obs list \<Rightarrow> det_msg list" where
  "messages obs = concat (map (\<lambda>p. case snd p of None \<Rightarrow> [] | Some m \<Rightarrow> [m]) obs)"

lemma collect_pass_cases:
  "flt (fst p) deadline \<Longrightarrow> collect_pass deadline s p = ([], Again (case snd p of None \<Rightarrow> s | Some m \<Rightarrow> observe m s))"
  "\<not> flt (fst p) deadline \<Longrightarrow> collect_pass deadline s p = ([], Leave s)"
  by (simp_all add: collect_pass_def)

lemma collect_fold:
  "poll (\<lambda>_. True) (collect_pass deadline) s tr = (out, Some (Inr r, tr')) \<Longrightarrow>
     out = [] \<and> (\<exists>pre p. tr = pre @ p # tr' \<and> list_all (\<lambda>q. flt (fst q) deadline) pre
       \<and> \<not> flt (fst p) deadline \<and> r = fold observe (messages pre) s)"
proof (induction tr arbitrary: s out)
  case (Cons q qs)
  show ?case
  proof (cases "flt (fst q) deadline")
    case True
    let ?s = "case snd q of None \<Rightarrow> s | Some m \<Rightarrow> observe m s"
    from Cons.prems True obtain o2 where "poll (\<lambda>_. True) (collect_pass deadline) ?s qs = (o2, Some (Inr r, tr'))" "out = o2"
      by (auto simp: collect_pass_cases split: prod.splits)
    with Cons.IH obtain pre p where "out = []" "qs = pre @ p # tr'" "list_all (\<lambda>q. flt (fst q) deadline) pre"
      "\<not> flt (fst p) deadline" "r = fold observe (messages pre) ?s" by blast
    then show ?thesis using True
      by (intro conjI exI [of _ "q # pre"] exI [of _ p]) (auto simp: messages_def split: option.splits)
  next
    case False
    then show ?thesis using Cons.prems
      by (intro conjI exI [of _ "[]"] exI [of _ q]) (auto simp: collect_pass_cases messages_def)
  qed
qed simp

interpretation collect_deadline: poll_deadline "\<lambda>_. True" "collect_pass deadline" "\<lambda>t. \<not> flt t deadline" for deadline
  by unfold_locales (auto simp: collect_pass_def)

text \<open>The reference: the last value a channel reported that is not zero, and the receivers heard from.\<close>

definition pwm_reports :: "int \<Rightarrow> det_msg \<Rightarrow> int list" where
  "pwm_reports ch m =
     (case m of
        ServoOutput p1 p3 \<Rightarrow>
          (case if ch = 1 then p1 else if ch = 3 then p3 else None of None \<Rightarrow> [] | Some v \<Rightarrow> if v = 0 then [] else [v])
      | _ \<Rightarrow> [])"

definition last_pwm :: "int \<Rightarrow> det_msg list \<Rightarrow> int option" where
  "last_pwm ch ms = (let vs = concat (map (pwm_reports ch) ms) in if vs = [] then None else Some (last vs))"

definition heard :: "det_msg \<Rightarrow> int list" where
  "heard m = (case m of GpsRaw i r \<Rightarrow> [i] | GpsRtk i b h \<Rightarrow> [i] | _ \<Rightarrow> [])"

lemma last_pwm_snoc:
  "last_pwm ch (ms @ [m]) = (if pwm_reports ch m = [] then last_pwm ch ms else Some (last (pwm_reports ch m)))"
  by (simp add: last_pwm_def Let_def)

lemma observed:
  "ds_servos s0 = [] \<Longrightarrow> ds_gnss s0 = [] \<Longrightarrow>
   (let s = fold observe ms s0
    in dict_ok (ds_servos s) \<and> (\<forall>ch. map_of (ds_servos s) ch = last_pwm ch ms)
       \<and> dict_ok (ds_gnss s) \<and> dom (map_of (ds_gnss s)) = set (concat (map heard ms))
       \<and> (\<forall>i g. map_of (ds_gnss s) i = Some g \<longrightarrow> gs_instance g = i)
       \<and> dr_warnings (ds_report s) = dr_warnings (ds_report s0))"
proof (induction ms rule: rev_induct)
  case Nil
  then show ?case by (simp add: dict_ok_def last_pwm_def)
next
  case (snoc m ms)
  let ?s = "fold observe ms s0"
  have *: "dict_ok (ds_servos ?s)" "\<And>ch. map_of (ds_servos ?s) ch = last_pwm ch ms" "dict_ok (ds_gnss ?s)"
    "dom (map_of (ds_gnss ?s)) = set (concat (map heard ms))"
    "\<And>i g. map_of (ds_gnss ?s) i = Some g \<Longrightarrow> gs_instance g = i"
    "dr_warnings (ds_report ?s) = dr_warnings (ds_report s0)"
    using snoc by (simp_all add: Let_def)
  show ?case using *
    by (cases m) (auto simp: Let_def last_pwm_snoc pwm_reports_def heard_def store_pwm_def update_gnss_def dict_get_or_def
        with_raw_def with_rtk_def new_gnss_def intro!: dict_ok_set split: option.splits if_splits)
qed

lemma sorted_keys: "dict_ok d \<Longrightarrow> map fst (sort_key fst d) = sorted_list_of_set (fst ` set d)" for d :: "(int, 'v) dict"
  by (metis dict_ok_def distinct_map distinct_sort list.set_map set_sort sorted_list_of_set.idem_if_sorted_distinct
      sorted_sort_key)

lemma dict_entries: "dict_ok d \<Longrightarrow> (k, v) \<in> set d \<longleftrightarrow> map_of d k = Some v"
  by (simp add: dict_ok_def)

text \<open>What the report says of the messages of the window.\<close>

definition reports :: "detect_report \<Rightarrow> det_msg list \<Rightarrow> bool" where
  "reports r ms \<longleftrightarrow>
     (\<forall>ch v. (ch, v) \<in> set (dr_servos r) \<longleftrightarrow> last_pwm ch ms = Some v)
     \<and> map fst (dr_servos r) = sorted_list_of_set {ch. last_pwm ch ms \<noteq> None}
     \<and> map gs_instance (dr_gnss r) = sorted_list_of_set (set (concat (map heard ms)))"

definition missing_warnings :: "det_msg list \<Rightarrow> string list" where
  "missing_warnings ms =
     (if concat (map heard ms) = [] then [''no GPS messages observed''] else [])
     @ (if last_pwm 1 ms = None then [''SERVO1 (steering left) not reporting''] else [])
     @ (if last_pwm 3 ms = None then [''SERVO3 (steering right) not reporting''] else [])"

lemma finish_reports:
  assumes "ds_servos s0 = []" and "ds_gnss s0 = []"
  shows "reports (finish_report (fold observe ms s0)) ms
    \<and> dr_warnings (finish_report (fold observe ms s0)) = dr_warnings (ds_report s0) @ missing_warnings ms"
proof -
  let ?s = "fold observe ms s0"
  have ok: "dict_ok (ds_servos ?s)" "\<And>ch. map_of (ds_servos ?s) ch = last_pwm ch ms" "dict_ok (ds_gnss ?s)"
    and gnss: "dom (map_of (ds_gnss ?s)) = set (concat (map heard ms))"
    and inst: "\<And>i g. map_of (ds_gnss ?s) i = Some g \<Longrightarrow> gs_instance g = i"
    and warn: "dr_warnings (ds_report ?s) = dr_warnings (ds_report s0)"
    using observed [OF assms, of ms] by (simp_all add: Let_def)
  have servos: "fst ` set (ds_servos ?s) = {ch. last_pwm ch ms \<noteq> None}"
    using ok(2) by (simp add: dom_map_of_conv_image_fst [symmetric] dom_def)
  have keys: "fst ` set (ds_gnss ?s) = set (concat (map heard ms))"
    using gnss by (simp add: dom_map_of_conv_image_fst)
  have "map gs_instance (map snd (sort_key fst (ds_gnss ?s))) = map fst (sort_key fst (ds_gnss ?s))"
    using inst dict_entries [OF ok(3)] by auto
  then have instances: "map gs_instance (map snd (sort_key fst (ds_gnss ?s))) = sorted_list_of_set (set (concat (map heard ms)))"
    by (simp only: sorted_keys [OF ok(3)] keys)
  then have empty: "sort_key fst (ds_gnss ?s) = [] \<longleftrightarrow> concat (map heard ms) = []"
    by (metis (no_types, lifting) list.simps(8) map_is_Nil_conv set_empty sorted_list_of_set.sorted_key_list_of_set_eq_Nil_iff
        sorted_list_of_set_empty List.finite_set)
  show ?thesis
    using dict_entries [OF ok(1)] ok(2) sorted_keys [OF ok(1)] instances empty
    by (simp add: finish_report_def Let_def reports_def missing_warnings_def servos warn)
qed

text \<open>
  C40: A finished detection has sent at most the request for the version. Its report is made of the
  messages that arrived before the end of the window and no others: a channel is listed, in order,
  with the last value it reported that is not zero, exactly the receivers that were heard are
  listed, and there is a warning for each that is missing.
\<close>

theorem detect_report_faithful:
  assumes "collect endpoint can_send window tr = (out, Some (r, tr'))"
  shows "set out \<subseteq> {RequestCapabilities} \<and> length out \<le> 1
    \<and> (\<exists>m start pre p. tr = m # start # pre @ p # tr'
        \<and> list_all (\<lambda>q. flt (fst q) (fadd (fst start) window)) pre \<and> \<not> flt (fst p) (fadd (fst start) window)
        \<and> reports r (messages pre)
        \<and> dr_warnings r = dr_warnings (with_heartbeat (recv_match is_det_heartbeat (snd m)) (new_report endpoint))
            @ missing_warnings (messages pre))"
proof -
  obtain m rest where tr: "tr = m # rest" using assms
    by (cases tr) (auto simp: collect_def io_bind_def io_recv_def)
  obtain start obs where rest: "rest = start # obs" using assms
    by (cases rest) (auto simp: tr collect_def io_bind_def io_recv_def io_emit_def io_ret_def io_clock_def split: if_splits)
  let ?s0 = "\<lparr>ds_report = with_heartbeat (recv_match is_det_heartbeat (snd m)) (new_report endpoint), ds_gnss = [], ds_servos = []\<rparr>"
  obtain o1 s where poll: "poll (\<lambda>_. True) (collect_pass (fadd (fst start) window)) ?s0 obs = (o1, Some (Inr s, tr'))"
    and out: "out = (if can_send then [RequestCapabilities] else []) @ o1" and r: "r = finish_report s"
    using assms
    by (auto simp: tr rest collect_def io_bind_def io_recv_def io_emit_def io_ret_def io_clock_def Let_def
        split: if_splits prod.splits option.splits sum.splits)
  from collect_fold [OF poll] obtain pre p where o1: "o1 = []" and obs: "obs = pre @ p # tr'"
    and pre: "list_all (\<lambda>q. flt (fst q) (fadd (fst start) window)) pre" "\<not> flt (fst p) (fadd (fst start) window)"
    and s: "s = fold observe (messages pre) ?s0" by blast
  have "reports r (messages pre) \<and> dr_warnings r = dr_warnings (ds_report ?s0) @ missing_warnings (messages pre)"
    unfolding r s by (rule finish_reports) simp_all
  then show ?thesis using out o1 obs pre by (intro conjI exI [of _ m] exI [of _ start] exI [of _ pre] exI [of _ p]) (auto simp: tr rest)
qed

theorem detect_report_faithful_witness:
  "\<exists>r. collect ''udp:14550'' True (Fin 3)
     [(Fin 0, Some (DetHeartbeat 10 3)), (Fin 0, None), (Fin 1, Some (ServoOutput (Some 1500) (Some 0))), (Fin 2, None), (Fin 3, None)]
       = ([RequestCapabilities], Some (r, [])) \<and> map fst (dr_servos r) = [1] \<and> length (dr_warnings r) = 3
     \<and> (\<exists>pre. reports r (messages pre))"
proof -
  let ?tr = "[(Fin 0, Some (DetHeartbeat 10 3)), (Fin 0, None), (Fin 1, Some (ServoOutput (Some 1500) (Some 0))), (Fin 2, None), (Fin 3, None)]"
  obtain r where run: "collect ''udp:14550'' True (Fin 3) ?tr = ([RequestCapabilities], Some (r, []))"
    and r: "map fst (dr_servos r) = [1]" "length (dr_warnings r) = 3"
    by (simp add: collect_def io_simps io_bind_def Let_def collect_pass_def float_eval recv_match_def is_det_heartbeat_def
        with_heartbeat_def new_report_def MAV_TYPE_GROUND_ROVER_def store_pwm_def finish_report_def)
  from detect_report_faithful [OF run] have "\<exists>pre. reports r (messages pre)" by blast
  then show ?thesis using run r by (intro exI [of _ r]) simp
qed

end
