(* ===== verification/Spec2Isabelle.thy ===== *)
theory Spec2Isabelle
  imports Probe BridgeRun Sync Firmware ZoneCli Service Health Kiosk Bringup Preflight FlashCli JetsonCli SetupWizard Detect
begin

text \<open>
  \<^bold>\<open>Verification of the zero-turn mower rover.\<close>

  The program runs on two machines. On the operator's laptop, \<open>mower\<close> plans coverage missions from
  zone files, uploads missions, fences, rally points and parameters to the autopilot (a Pixhawk
  running ArduPilot Rover) over MAVLink, and provisions the companion computer over SSH. On that
  computer, a Jetson, \<open>mower-jetson\<close> probes the hardware, keeps the autopilot's parameters and Lua
  script in step with the repository, forwards the poses of a visual SLAM node to the autopilot, and
  installs and runs the systemd services. All paths below are under \<open>src/src/mower_rover/\<close>.

  \<^bold>\<open>Foundations.\<close>
  \<^item> \<open>Prelude\<close>: Python exceptions as values, \<open>result\<close> as the type of fallible code, dictionaries as
    insertion-ordered association lists, the string methods used, decimal integers.
  \<^item> \<open>PyFloat\<close>: binary64 arithmetic on the rationals floats denote, rounded to nearest even, with
    infinities and NaN; \<open>PyValue\<close>: the values of YAML and JSON documents and Python's conversions.
  \<^item> \<open>Link\<close>: programs that poll a MAVLink connection and watch a clock, as functions of a trace of
    clock readings and messages; no trace entry is ever skipped, and a trace that ends while the
    program still waits gives no result. Its locales \<open>poll_inv\<close>, \<open>poll_deadline\<close> and
    \<open>timed_wait\<close> state what a polling loop promises (an invariant of what it sends; that it returns
    once its deadline has passed); the loops of \<open>Mission\<close>, \<open>Params\<close>, \<open>Bridge\<close> and
    \<open>Firmware\<close> interpret them.
  \<^item> \<open>Safety\<close>: \<open>safety/confirm.py\<close>, safe-stop hooks and the confirmation decorator; its locale
    \<open>guarded_command\<close> (a dry run and a declined prompt change nothing) is interpreted by the
    parameter, zone and service commands.

  \<^bold>\<open>Autopilot side.\<close>
  \<^item> \<open>Mission\<close>: \<open>mavlink/mission.py\<close>, the mission protocol client: upload, download, clear and
    round-trip verification, with the soundness of every result, the deadlines, and completeness
    against a vehicle that answers in time, whatever else it sends and however often it is silent.
  \<^item> \<open>Connection\<close>: \<open>mavlink/connection.py\<close>, the link context manager. A command's body runs
    inside the \<open>with open_link(...)\<close> block; the theories of the commands model the body, and
    \<open>with_link_outcome\<close> says what becomes of the exceptions it raises, with and without a
    shutdown event.
  \<^item> \<open>Params\<close>: \<open>params/io.py\<close>, \<open>params/diff.py\<close>, \<open>params/mav.py\<close> and \<open>cli/params.py\<close>; \<open>Sync\<close>:
    \<open>pixhawk/sync.py\<close> and \<open>vslam/lua_deploy.py\<close>, whose FTP client is arbitrary (the property of the
    deployment is stated on a recording of its calls and answers); \<open>Firmware\<close>:
    \<open>pixhawk/firmware.py\<close> and the vendored uploader, where a write may fail before or after the file
    is truncated.
  \<^item> \<open>PoseIpc\<close>, \<open>Bridge\<close> and \<open>BridgeRun\<close>: \<open>vslam/frames.py\<close>, \<open>vslam/ipc.py\<close>, \<open>vslam/health.py\<close>,
    \<open>vslam/health_listener.py\<close> and \<open>vslam/bridge.py\<close>: the 118-byte pose messages whatever the sizes
    of the reads, the change of frame, the forwarding loop with its reset counter, and the health
    metrics from the bridge to the listener, rounded to the binary32 value of the message that carries
    them; the daemon from its configuration to its shutdown.

  \<^bold>\<open>Zones.\<close>
  \<^item> \<open>ZoneConfig\<close>: \<open>zone/config.py\<close>, whose loader lets through an id with a final newline and NaN
    widths and speeds, so that \<open>load_all_zones_wf\<close> excludes them; \<open>Planner\<close>: \<open>zone/planner.py\<close>; \<open>MissionItems\<close>:
    \<open>zone/mission_items.py\<close>; \<open>GeoJson\<close>: \<open>zone/geojson.py\<close>; \<open>ZoneCli\<close>: \<open>cli/zone_laptop.py\<close>, which
    puts them together with \<open>Mission\<close>, \<open>Connection\<close> and \<open>Ssh\<close>.

  \<^bold>\<open>Jetson side.\<close>
  \<^item> \<open>Config\<close>: \<open>config/vslam.py\<close>, \<open>config/jetson.py\<close> and \<open>config/laptop.py\<close>; its locale
    \<open>config_codec\<close> (what is saved loads again as the same configuration) is interpreted by all three.
  \<^item> \<open>Probe\<close>: \<open>probe/registry.py\<close>, the dependency order of the checks and their results;
    \<open>Checks\<close>: the checks of \<open>probe/checks/\<close> as functions of what they read of the system;
    \<open>Preflight\<close>: the probe of the whole registry, with the specification of a check that is
    stopped by one it depends on, and of a probe that is clean.
  \<^item> \<open>Ssh\<close>: \<open>transport/ssh.py\<close>; \<open>Service\<close>: \<open>service/unit.py\<close>, \<open>pixhawk/unit.py\<close> and
    \<open>kiosk/units.py\<close>, with the locale \<open>managed_unit\<close> interpreted by the four installable units;
    \<open>Health\<close>: \<open>health/\<close> and \<open>service/daemon.py\<close>.
  \<^item> \<open>Kiosk\<close>: \<open>kiosk/state.py\<close>, \<open>kiosk/telemetry.py\<close> and \<open>kiosk/app.py\<close>. The reader and the
    poller threads interleave at the methods of the shared state, which hold its lock; the locale
    \<open>disjoint_writers\<close> (writers of different fields commute, so a snapshot is a prefix of each
    writer's updates) is interpreted on them. \<open>kiosk_watchdog_duty\<close> follows a run from its first pass and
    says at every pass whether the watchdog is notified, suppressed or resumed.
  \<^item> \<open>JetsonCli\<close>: the other commands of \<open>cli/jetson.py\<close> and those of \<open>cli/kiosk.py\<close>: the
    platform report, the service commands, zone activation and status; \<open>FlashCli\<close>: the firmware
    commands of \<open>cli/jetson.py\<close>, whose steps are logged, so that what disturbs the autopilot can
    be related to the checks before it.

  \<^bold>\<open>Provisioning the Jetson.\<close>
  \<^item> \<open>Remote\<close>: what a bringup step does to the world: SSH commands, copies, pauses, questions to
    the operator. A step is a function from a world (the answers still to come, the clock in
    microseconds, the log of operations) to a result and a world; the wall clock, which may be set
    back, is apart. The locale \<open>world_relation\<close>
    (a reflexive and transitive relation that every operation respects is respected by every step
    built from them) is interpreted by the growth of the log, by the clock and by the absence of
    operations; \<open>timed_pass\<close> states when a polling loop against a deadline ends.
  \<^item> \<open>Provision\<close> and \<open>Deploy\<close>: the checks and actions of the steps of \<open>cli/bringup.py\<close>, in the
    order of the file; \<open>Bringup\<close>: the step table, the command's loop, confirmations, the error
    summary and the two builds in parallel threads.
  \<^item> \<open>LaptopCli\<close>: \<open>cli/jetson_remote.py\<close>, \<open>cli/pixhawk_laptop.py\<close>, \<open>cli/backup.py\<close> and the health
    command of \<open>cli/setup.py\<close>; \<open>SetupWizard\<close>: the wizard of \<open>cli/setup.py\<close>, whose result every
    later command resolves to; \<open>Detect\<close>: \<open>cli/detect.py\<close>, as a fold over the messages of a window.

  \<^bold>\<open>Bounds and loops.\<close> Every loop over data is structural recursion or has a termination proof. The
  planner's sweep loop may not end; it is a \<open>while_option\<close>, and \<open>generate_waypoints_returns\<close>
  says when it does. So is the wait of the bringup that reads the wall clock, which ends when that clock
  is not set back (\<open>bringup_waits_bounded\<close>). A loop over messages is a recursion over the trace, so a run that waits for ever
  is one that gives no result for any finite trace.

  \<^bold>\<open>Code outside the repository.\<close> pyproj and shapely (\<open>Planner\<close>), the YAML and JSON readers and
  writers, the regular-expression classes the sources use, processes, file systems, sockets and the
  autopilot are arguments of the definitions that use them. Log calls and console output are left
  out unless a claim is about them. Text is ASCII text.

  \<^bold>\<open>Not modelled.\<close> \<open>logging_setup/setup.py\<close> configures the logging library, \<open>cli/laptop.py\<close> and the
  decorators register commands with the Typer library; neither computes anything the other parts use
  but the dry-run flag and the correlation identifier, which are arguments here. Of the commands the
  parsing of options and the rendering of tables are left out. The C++ SLAM node and the kiosk
  renderer under \<open>contrib/\<close> and the shell scripts are outside the Python program.
\<close>

end
